(* ===== verification/Prelude.thy ===== *)
theory Prelude
  imports
    Complex_Main
    "HOL-Library.AList"
    "HOL-Library.Char_ord"
    "HOL-Library.List_Lexorder"
    "HOL-Library.Product_Lexorder"
begin

text \<open>
  What every component shares: Python dictionaries as insertion-ordered association lists
  (\<open>AList.update\<close> overwrites in place or appends, \<open>AList.delete\<close> removes, as \<open>dict\<close> does),
  \<open>sorted\<close> as the stable \<open>sort_key\<close>, \<open>round\<close> to even on exact rationals, and the generic
  facts on lists and association lists that the component proofs use.
\<close>

named_theorems dict_simps "lookup and key set of the dictionary operations"

type_synonym ('k, 'v) dict = "('k \<times> 'v) list"

abbreviation keys :: "('k, 'v) dict \<Rightarrow> 'k list" where
  "keys d \<equiv> map fst d"

abbreviation dict_ok :: "('k, 'v) dict \<Rightarrow> bool" where
  "dict_ok d \<equiv> distinct (keys d)"

lemma map_of_dict_update [simp, dict_simps]:
  "map_of (AList.update k v d) = (map_of d)(k \<mapsto> v)"
  by (rule update_conv')

lemma map_of_dict_delete [simp, dict_simps]:
  "map_of (AList.delete k d) = (map_of d)(k := None)"
  by (rule delete_conv')

lemma keys_dict_update [dict_simps]: "set (keys (AList.update k v d)) = insert k (set (keys d))"
  using dom_update [of k v d] by simp

lemma keys_dict_delete [dict_simps]: "set (keys (AList.delete k d)) = set (keys d) - {k}"
  by (simp add: delete_keys)

lemma dict_ok_update [simp, intro]: "dict_ok d \<Longrightarrow> dict_ok (AList.update k v d)"
  by (rule distinct_update)

lemma dict_ok_delete [simp, intro]: "dict_ok d \<Longrightarrow> dict_ok (AList.delete k d)"
  by (rule distinct_delete)

lemma map_of_None_keys: "map_of d k = None \<longleftrightarrow> k \<notin> set (keys d)"
  by (simp add: map_of_eq_None_iff)

lemma map_of_Some_keys: "map_of d k = Some v \<Longrightarrow> k \<in> set (keys d)"
  by (force dest: map_of_SomeD)

lemma length_dict_update:
  "length (AList.update k v d) = (if k \<in> set (keys d) then length d else Suc (length d))"
  by (induction d) auto

lemma dict_update_append: "k \<notin> set (keys d) \<Longrightarrow> AList.update k v d = d @ [(k, v)]"
  by (induction d) auto

lemma AList_update_mem: "x \<in> set (AList.update k v d) \<Longrightarrow> x = (k, v) \<or> x \<in> set d"
  by (induction d) (auto split: if_splits)

lemma AList_delete_mem: "x \<in> set (AList.delete k d) \<Longrightarrow> x \<in> set d"
  by (induction d) (auto split: if_splits)

text \<open>\<open>d.setdefault(k, [])\<close> followed by \<open>append\<close>: the \<open>defaultdict(list)\<close> idiom.\<close>

definition dict_push :: "'k \<Rightarrow> 'v \<Rightarrow> ('k, 'v list) dict \<Rightarrow> ('k, 'v list) dict" where
  "dict_push k v d = AList.update k ((case map_of d k of None \<Rightarrow> [] | Some vs \<Rightarrow> vs) @ [v]) d"

fun group_by :: "('a \<Rightarrow> 'k) \<Rightarrow> 'a list \<Rightarrow> ('k, 'a list) dict \<Rightarrow> ('k, 'a list) dict" where
  "group_by f [] d = d"
| "group_by f (x # xs) d = group_by f xs (dict_push (f x) x d)"

lemma dict_ok_push [simp]: "dict_ok d \<Longrightarrow> dict_ok (dict_push k v d)"
  by (auto simp: dict_push_def)

lemma dict_ok_group_by: "dict_ok d \<Longrightarrow> dict_ok (group_by f xs d)"
  by (induction f xs d rule: group_by.induct) auto

lemma map_of_group_by:
  "map_of (group_by f xs d) k =
     (case map_of d k of
        None \<Rightarrow> (if filter (\<lambda>x. f x = k) xs = [] then None else Some (filter (\<lambda>x. f x = k) xs))
      | Some vs \<Rightarrow> Some (vs @ filter (\<lambda>x. f x = k) xs))"
  by (induction f xs d rule: group_by.induct) (auto simp: dict_push_def split: option.splits)

lemma map_of_group_by_empty:
  "map_of (group_by f xs []) k =
     (if filter (\<lambda>x. f x = k) xs = [] then None else Some (filter (\<lambda>x. f x = k) xs))"
  by (simp add: map_of_group_by)

lemma keys_group_by: "set (keys (group_by f xs d)) = set (keys d) \<union> f ` set xs"
  by (induction f xs d rule: group_by.induct) (auto simp: dict_push_def dom_update)

lemma group_by_entry:
  assumes "(k, ms) \<in> set (group_by f xs [])"
  shows "ms = filter (\<lambda>x. f x = k) xs" and "ms \<noteq> []"
proof -
  have "map_of (group_by f xs []) k = Some ms"
    using assms dict_ok_group_by [of "[]" f xs] by (simp add: map_of_eq_Some_iff)
  then show "ms = filter (\<lambda>x. f x = k) xs" and "ms \<noteq> []"
    by (auto simp: map_of_group_by_empty split: if_splits)
qed

subsection \<open>sorted, set and max\<close>

text \<open>\<open>sorted(set(xs))\<close>\<close>

definition sorted_set :: "'a::linorder list \<Rightarrow> 'a list" where
  "sorted_set xs = sort (remdups xs)"

lemma set_sorted_set [simp]: "set (sorted_set xs) = set xs"
  by (simp add: sorted_set_def)

lemma distinct_sorted_set [simp]: "distinct (sorted_set xs)"
  by (simp add: sorted_set_def)

lemma sorted_sorted_set [simp]: "sorted (sorted_set xs)"
  by (simp add: sorted_set_def)

lemma sorted_set_Nil_iff [simp]: "sorted_set xs = [] \<longleftrightarrow> xs = []"
  using set_sorted_set [of xs] by (metis set_empty)

text \<open>\<open>max(xs, key=f)\<close> returns the first maximal element.\<close>

fun max_by :: "('a \<Rightarrow> 'k::linorder) \<Rightarrow> 'a \<Rightarrow> 'a list \<Rightarrow> 'a" where
  "max_by f m [] = m"
| "max_by f m (x # xs) = max_by f (if f m < f x then x else m) xs"

lemma max_by_mem: "max_by f m xs \<in> insert m (set xs)"
  by (induction f m xs rule: max_by.induct) auto

lemma max_by_ge: "y \<in> insert m (set xs) \<Longrightarrow> f y \<le> f (max_by f m xs)"
proof (induction f m xs arbitrary: y rule: max_by.induct)
  case (1 f m)
  then show ?case by simp
next
  case (2 f m x xs)
  let ?n = "if f m < f x then x else m"
  have n: "f ?n \<le> f (max_by f ?n xs)" by (rule "2.IH") simp
  have "f m \<le> f ?n" and "f x \<le> f ?n" by auto
  then have "f m \<le> f (max_by f ?n xs)" and "f x \<le> f (max_by f ?n xs)"
    using n order.trans by blast+
  then show ?case using "2.prems" "2.IH" [of y] by auto
qed

lemma hd_sort_key_le:
  assumes "x \<in> set xs"
  shows "f (hd (sort_key f xs)) \<le> f x"
proof -
  have ne: "sort_key f xs \<noteq> []" using assms by (metis set_empty set_sort length_pos_if_in_set list.size(3) length_sort less_numeral_extra(3))
  have "sorted (map f (sort_key f xs))" by simp
  moreover have "x \<in> set (sort_key f xs)" using assms by simp
  ultimately show ?thesis using ne by (cases "sort_key f xs") auto
qed

lemma hd_sort_key_mem: "xs \<noteq> [] \<Longrightarrow> hd (sort_key f xs) \<in> set xs"
  by (metis hd_in_set length_0_conv length_sort set_sort)

subsection \<open>Dropping the oldest quarter\<close>

text \<open>The bounded tables of the program make room by dropping the quarter of the entries a key puts first.\<close>

lemma filter_drop_less:
  assumes "x \<in> set xs" and "\<not> P x"
  shows "length (filter P xs) < length xs"
  using assms by (induction xs) (auto intro: le_imp_less_Suc length_filter_le less_SucI)

definition drop_quarter :: "('k \<times> 'v \<Rightarrow> 'o::linorder) \<Rightarrow> ('k, 'v) dict \<Rightarrow> ('k, 'v) dict" where
  "drop_quarter f d =
     (let oldest = take (length d div 4) (sort_key f d)
      in filter (\<lambda>(k, v). k \<notin> set (keys oldest)) d)"

lemma drop_quarter_less:
  assumes "4 \<le> length d"
  shows "length (drop_quarter f d) < length d"
proof -
  let ?oldest = "take (length d div 4) (sort_key f d)"
  have nz: "0 < length d div 4" using div_le_mono [OF assms, of 4] by simp
  have "length (sort_key f d) = length d" by simp
  then obtain x xs where sx: "sort_key f d = x # xs" using assms by (cases "sort_key f d") auto
  have old: "x \<in> set ?oldest" using nz sx by (cases "length d div 4") auto
  have "x \<in> set (sort_key f d)" using sx by simp
  then have x: "x \<in> set d" by simp
  have "\<not> (\<lambda>(k, v). k \<notin> set (keys ?oldest)) x"
  proof -
    obtain k v where kv: "x = (k, v)" by (cases x)
    have "fst x \<in> fst ` set ?oldest" using old by (rule imageI)
    then show ?thesis by (simp add: kv)
  qed
  then show ?thesis unfolding drop_quarter_def Let_def by (rule filter_drop_less [OF x])
qed

lemma drop_quarter_mem: "x \<in> set (drop_quarter f d) \<Longrightarrow> x \<in> set d"
  by (auto simp: drop_quarter_def Let_def)

lemma drop_quarter_ok [simp]: "dict_ok d \<Longrightarrow> dict_ok (drop_quarter f d)"
  by (simp add: drop_quarter_def Let_def distinct_map_filter)

lemma drop_quarter_length: "length (drop_quarter f d) \<le> length d"
  by (simp add: drop_quarter_def Let_def)

lemma map_of_filter_keep:
  "dict_ok d \<Longrightarrow> map_of d k = Some v \<Longrightarrow> P (k, v) \<Longrightarrow> map_of (filter P d) k = Some v"
  by (simp add: distinct_map_filter map_of_eq_Some_iff)

subsection \<open>Rounding\<close>

text \<open>
  Python's \<open>round\<close> rounds halves to even. On exact rationals \<open>round_even\<close> is that function;
  \<open>round_dp n\<close> is \<open>round(x, n)\<close>.
\<close>

definition round_even :: "rat \<Rightarrow> int" where
  "round_even x =
     (let f = \<lfloor>x\<rfloor>; d = x - of_int f
      in if d < 1/2 then f else if 1/2 < d then f + 1 else if even f then f else f + 1)"

definition round_dp :: "nat \<Rightarrow> rat \<Rightarrow> rat" where
  "round_dp n x = of_int (round_even (x * 10 ^ n)) / 10 ^ n"

lemma round_even_near: "\<bar>of_int (round_even x) - x\<bar> \<le> 1/2"
proof -
  have 1: "of_int \<lfloor>x\<rfloor> \<le> x" by (rule of_int_floor_le)
  have 2: "x < of_int \<lfloor>x\<rfloor> + 1" by (rule floor_correct [THEN conjunct2, simplified])
  have "round_even x = \<lfloor>x\<rfloor> \<and> x - of_int \<lfloor>x\<rfloor> \<le> 1/2
        \<or> round_even x = \<lfloor>x\<rfloor> + 1 \<and> 1/2 \<le> x - of_int \<lfloor>x\<rfloor>"
    by (simp add: round_even_def Let_def)
  then show ?thesis
  proof (elim disjE conjE)
    assume "round_even x = \<lfloor>x\<rfloor>" and "x - of_int \<lfloor>x\<rfloor> \<le> 1/2"
    with 1 show ?thesis by simp
  next
    assume "round_even x = \<lfloor>x\<rfloor> + 1" and "1/2 \<le> x - of_int \<lfloor>x\<rfloor>"
    with 2 show ?thesis by simp
  qed
qed

lemma round_dp_near: "\<bar>round_dp n x - x\<bar> \<le> 1 / (2 * 10 ^ n)"
proof -
  have p: "(0::rat) < 10 ^ n" by simp
  have "round_dp n x - x = (of_int (round_even (x * 10 ^ n)) - x * 10 ^ n) / 10 ^ n"
    using p by (simp add: round_dp_def field_simps)
  then have "\<bar>round_dp n x - x\<bar> = \<bar>of_int (round_even (x * 10 ^ n)) - x * 10 ^ n\<bar> / 10 ^ n"
    using p by (simp add: abs_divide)
  also have "\<dots> \<le> (1/2) / 10 ^ n"
    using round_even_near p by (intro divide_right_mono) auto
  finally show ?thesis by simp
qed

subsection \<open>Runs of a step function\<close>

text \<open>An invariant of every step is an invariant of every run.\<close>

lemma foldl_invariant:
  assumes "P s" and "\<And>s x. P s \<Longrightarrow> P (f s x)"
  shows "P (foldl f s xs)"
  using assms(1) by (induction xs arbitrary: s) (auto intro: assms(2))

end
