(* ===== verification/PyStr.thy ===== *)
theory PyStr
  imports Prelude
begin

text \<open>
  The Python string operations the source uses, on strings whose code points are below 256
  (a \<open>char\<close> is its code point, so lengths and the order by code point are Python's). Case
  mapping, white space and alphanumerics are those of \<open>str\<close> on that range, the non-ASCII
  letters included. Also decimal printing and parsing, with their round trip.
\<close>

abbreviation code :: "char \<Rightarrow> nat" where
  "code c \<equiv> of_char c"

definition is_digit :: "char \<Rightarrow> bool" where
  "is_digit c \<longleftrightarrow> 48 \<le> code c \<and> code c \<le> 57"

definition is_ascii_lower :: "char \<Rightarrow> bool" where
  "is_ascii_lower c \<longleftrightarrow> 97 \<le> code c \<and> code c \<le> 122"

definition is_ascii_upper :: "char \<Rightarrow> bool" where
  "is_ascii_upper c \<longleftrightarrow> 65 \<le> code c \<and> code c \<le> 90"

definition is_ascii_alpha :: "char \<Rightarrow> bool" where
  "is_ascii_alpha c \<longleftrightarrow> is_ascii_lower c \<or> is_ascii_upper c"

definition is_ascii_alnum :: "char \<Rightarrow> bool" where
  "is_ascii_alnum c \<longleftrightarrow> is_ascii_alpha c \<or> is_digit c"

lemmas char_class_defs =
  is_digit_def is_ascii_lower_def is_ascii_upper_def is_ascii_alpha_def is_ascii_alnum_def

text \<open>\<open>str.isspace\<close>, \<open>str.isalnum\<close> and \<open>str.isalpha\<close> per character.\<close>

definition is_space :: "char \<Rightarrow> bool" where
  "is_space c \<longleftrightarrow> (9 \<le> code c \<and> code c \<le> 13) \<or> (28 \<le> code c \<and> code c \<le> 32)
      \<or> code c = 133 \<or> code c = 160"

definition is_alpha :: "char \<Rightarrow> bool" where
  "is_alpha c \<longleftrightarrow> is_ascii_alpha c \<or> code c \<in> {170, 181, 186}
      \<or> (192 \<le> code c \<and> code c \<noteq> 215 \<and> code c \<noteq> 247)"

definition is_alnum :: "char \<Rightarrow> bool" where
  "is_alnum c \<longleftrightarrow> is_alpha c \<or> is_digit c \<or> code c \<in> {178, 179, 185, 188, 189, 190}"

text \<open>\<open>str.lower\<close>\<close>

definition lower_char :: "char \<Rightarrow> char" where
  "lower_char c =
     (if is_ascii_upper c \<or> (192 \<le> code c \<and> code c \<le> 222 \<and> code c \<noteq> 215)
      then char_of (code c + 32) else c)"

abbreviation lower :: "string \<Rightarrow> string" where
  "lower \<equiv> map lower_char"

lemma code_less [simp]: "code c < 256"
  by (cases c) (simp add: of_char_def)

lemma code_lower_char:
  "code (lower_char c) =
     (if is_ascii_upper c \<or> (192 \<le> code c \<and> code c \<le> 222 \<and> code c \<noteq> 215)
      then code c + 32 else code c)"
proof -
  show ?thesis by (auto simp: lower_char_def is_ascii_upper_def)
qed

lemma lower_char_idem [simp]: "lower_char (lower_char c) = lower_char c"
proof -
  have "\<not> (is_ascii_upper (lower_char c)
      \<or> (192 \<le> code (lower_char c) \<and> code (lower_char c) \<le> 222 \<and> code (lower_char c) \<noteq> 215))"
    using code_less [of c] by (auto simp: code_lower_char is_ascii_upper_def)
  then show ?thesis by (subst lower_char_def) auto
qed

lemma lower_idem [simp]: "lower (lower s) = lower s"
  by simp

lemma not_upper_lower_char: "\<not> is_ascii_upper (lower_char c)"
  using code_less [of c] by (auto simp: code_lower_char is_ascii_upper_def)

subsection \<open>strip, substring, prefix\<close>

definition strip_by :: "(char \<Rightarrow> bool) \<Rightarrow> string \<Rightarrow> string" where
  "strip_by p s = rev (dropWhile p (rev (dropWhile p s)))"

abbreviation strip :: "string \<Rightarrow> string" where
  "strip \<equiv> strip_by is_space"

abbreviation strip_char :: "char \<Rightarrow> string \<Rightarrow> string" where
  "strip_char c \<equiv> strip_by (\<lambda>x. x = c)"

lemma set_strip_by: "set (strip_by p s) \<subseteq> set s"
proof
  fix c
  assume "c \<in> set (strip_by p s)"
  then show "c \<in> set s" by (auto simp: strip_by_def dest!: set_dropWhileD)
qed

lemma strip_by_last: "strip_by p s \<noteq> [] \<Longrightarrow> \<not> p (last (strip_by p s))"
  by (simp add: strip_by_def last_rev hd_dropWhile)

lemma hd_rev_dropWhile_rev:
  assumes "rev (dropWhile p (rev s)) \<noteq> []"
  shows "hd (rev (dropWhile p (rev s))) = hd s"
proof -
  have "takeWhile p (rev s) @ dropWhile p (rev s) = rev s" by (rule takeWhile_dropWhile_id)
  then have "s = rev (dropWhile p (rev s)) @ rev (takeWhile p (rev s))"
    by (metis rev_append rev_rev_ident)
  with assms show ?thesis by (metis hd_append2)
qed

lemma strip_by_hd: "strip_by p s \<noteq> [] \<Longrightarrow> \<not> p (hd (strip_by p s))"
proof -
  assume ne: "strip_by p s \<noteq> []"
  then have "hd (strip_by p s) = hd (dropWhile p s)"
    by (simp add: strip_by_def hd_rev_dropWhile_rev)
  moreover have "dropWhile p s \<noteq> []" using ne by (metis strip_by_def dropWhile.simps(1) rev.simps(1))
  ultimately show ?thesis by (simp add: hd_dropWhile)
qed

lemma strip_by_id: "s = [] \<or> \<not> p (hd s) \<and> \<not> p (last s) \<Longrightarrow> strip_by p s = s"
proof (cases s)
  case (Cons c cs)
  assume "s = [] \<or> \<not> p (hd s) \<and> \<not> p (last s)"
  with Cons have "dropWhile p s = s" and "dropWhile p (rev s) = rev s"
    by (auto simp: dropWhile_eq_self_iff hd_rev simp del: rev.simps)
  then show ?thesis by (simp add: strip_by_def)
qed (simp add: strip_by_def)

lemma strip_by_idem [simp]: "strip_by p (strip_by p s) = strip_by p s"
  by (rule strip_by_id) (use strip_by_hd strip_by_last in blast)

fun starts_with :: "string \<Rightarrow> string \<Rightarrow> bool" where
  "starts_with [] s = True"
| "starts_with (p # ps) [] = False"
| "starts_with (p # ps) (c # cs) = (p = c \<and> starts_with ps cs)"

lemma starts_with_iff: "starts_with p s \<longleftrightarrow> (\<exists>t. s = p @ t)"
  by (induction p s rule: starts_with.induct) auto

text \<open>\<open>t in s\<close> for strings\<close>

fun contains :: "string \<Rightarrow> string \<Rightarrow> bool" where
  "contains t [] = (t = [])"
| "contains t (c # cs) = (starts_with t (c # cs) \<or> contains t cs)"

lemma contains_iff: "contains t s \<longleftrightarrow> (\<exists>a b. s = a @ t @ b)"
proof (induction s)
  case Nil
  then show ?case by simp
next
  case (Cons c cs)
  show ?case
  proof
    assume "contains t (c # cs)"
    then show "\<exists>a b. c # cs = a @ t @ b"
      using Cons.IH by (auto simp: starts_with_iff) (metis append_Cons append_Nil)+
  next
    assume "\<exists>a b. c # cs = a @ t @ b"
    then obtain a b where ab: "c # cs = a @ t @ b" by blast
    show "contains t (c # cs)"
    proof (cases a)
      case Nil
      with ab have "starts_with t (c # cs)" by (auto simp: starts_with_iff)
      then show ?thesis by simp
    next
      case (Cons x a')
      with ab have "cs = a' @ t @ b" by simp
      with Cons.IH show ?thesis by auto
    qed
  qed
qed

lemma contains_trans: "contains t u \<Longrightarrow> contains u s \<Longrightarrow> contains t s"
  by (auto simp: contains_iff) (metis append.assoc)

lemma contains_append1: "contains t s \<Longrightarrow> contains t (s @ u)"
  by (metis contains_iff append.assoc)

subsection \<open>Regular-expression substitutions\<close>

text \<open>
  \<open>sub_runs p r s\<close> is \<open>re.sub("[p]+", r, s)\<close>: every maximal run of characters of the class is
  replaced by \<open>r\<close>. \<open>sub_each\<close> is the substitution of a single-character class.
\<close>

function sub_runs :: "(char \<Rightarrow> bool) \<Rightarrow> string \<Rightarrow> string \<Rightarrow> string" where
  "sub_runs p r [] = []"
| "sub_runs p r (c # cs) = (if p c then r @ sub_runs p r (dropWhile p cs) else c # sub_runs p r cs)"
  by pat_completeness auto
termination
  by (relation "measure (\<lambda>(p, r, s). length s)") (auto simp: le_imp_less_Suc length_dropWhile_le)

lemma set_sub_runs: "set (sub_runs p r s) \<subseteq> {c \<in> set s. \<not> p c} \<union> set r"
proof (induction p r s rule: sub_runs.induct)
  case (2 p r c cs)
  then show ?case using set_dropWhileD [of _ p cs] by (fastforce split: if_splits)
qed simp

lemma sub_runs_id: "\<forall>c \<in> set s. \<not> p c \<Longrightarrow> sub_runs p r s = s"
  by (induction s) auto

text \<open>A pattern that ends in \<open>$\<close> also matches before one trailing newline.\<close>

definition dollar :: "(string \<Rightarrow> bool) \<Rightarrow> string \<Rightarrow> bool" where
  "dollar m s \<longleftrightarrow> m s \<or> (s \<noteq> [] \<and> last s = CHR 0x0A \<and> m (butlast s))"

lemma dollarI [intro]: "m s \<Longrightarrow> dollar m s"
  by (simp add: dollar_def)

subsection \<open>split and join\<close>

fun split_on :: "char \<Rightarrow> string \<Rightarrow> string list" where
  "split_on d [] = [[]]"
| "split_on d (c # cs) =
     (if c = d then [] # split_on d cs
      else case split_on d cs of [] \<Rightarrow> [[c]] | w # ws \<Rightarrow> (c # w) # ws)"

fun join :: "string \<Rightarrow> string list \<Rightarrow> string" where
  "join sep [] = []"
| "join sep [w] = w"
| "join sep (w # ws) = w @ sep @ join sep ws"

lemma split_on_ne [simp]: "split_on d s \<noteq> []"
  by (induction s) (auto split: list.splits)

lemma split_on_plain: "d \<notin> set s \<Longrightarrow> split_on d s = [s]"
  by (induction s) auto

lemma split_on_append: "d \<notin> set w \<Longrightarrow> split_on d (w @ d # s) = w # split_on d s"
  by (induction w) auto

subsection \<open>Decimal numbers\<close>

definition digit_char :: "nat \<Rightarrow> char" where
  "digit_char n = char_of (48 + n)"

fun str_of_nat :: "nat \<Rightarrow> string" where
  "str_of_nat n = (if n < 10 then [digit_char n] else str_of_nat (n div 10) @ [digit_char (n mod 10)])"

declare str_of_nat.simps [simp del]

definition digit_val :: "char \<Rightarrow> nat" where
  "digit_val c = code c - 48"

definition nat_of_str :: "string \<Rightarrow> nat" where
  "nat_of_str s = foldl (\<lambda>a c. 10 * a + digit_val c) 0 s"

definition all_digits :: "string \<Rightarrow> bool" where
  "all_digits s \<longleftrightarrow> s \<noteq> [] \<and> list_all is_digit s"

definition str_of_int :: "int \<Rightarrow> string" where
  "str_of_int i = (if i < 0 then CHR ''-'' # str_of_nat (nat (- i)) else str_of_nat (nat i))"

lemma code_digit_char [simp]: "n < 10 \<Longrightarrow> code (digit_char n) = 48 + n"
  by (simp add: digit_char_def of_char_of)

lemma is_digit_char [simp]: "n < 10 \<Longrightarrow> is_digit (digit_char n)"
  by (simp add: is_digit_def)

lemma digit_val_char [simp]: "n < 10 \<Longrightarrow> digit_val (digit_char n) = n"
  by (simp add: digit_val_def)

lemma str_of_nat_induct [case_names small step]:
  assumes "\<And>n. n < 10 \<Longrightarrow> P n" and "\<And>n. \<not> n < 10 \<Longrightarrow> P (n div 10) \<Longrightarrow> P n"
  shows "P (n :: nat)"
  by (induction n rule: str_of_nat.induct) (use assms in blast)

lemma str_of_nat_small: "n < 10 \<Longrightarrow> str_of_nat n = [digit_char n]"
  by (simp add: str_of_nat.simps)

lemma str_of_nat_step: "\<not> n < 10 \<Longrightarrow> str_of_nat n = str_of_nat (n div 10) @ [digit_char (n mod 10)]"
  by (simp add: str_of_nat.simps)

lemmas str_of_nat_cases = str_of_nat_small str_of_nat_step

lemma all_digits_str_of_nat [simp]: "all_digits (str_of_nat n)"
  by (induction n rule: str_of_nat_induct) (simp_all add: str_of_nat_cases all_digits_def)

lemma str_of_nat_ne [simp]: "str_of_nat n \<noteq> []"
  using all_digits_str_of_nat [of n] by (simp add: all_digits_def del: all_digits_str_of_nat)

lemma digits_str_of_nat: "c \<in> set (str_of_nat n) \<Longrightarrow> is_digit c"
  using all_digits_str_of_nat [of n]
  by (auto simp: all_digits_def list_all_iff simp del: all_digits_str_of_nat)

lemma nat_of_str_of_nat [simp]: "nat_of_str (str_of_nat n) = n"
  by (induction n rule: str_of_nat_induct) (simp_all add: str_of_nat_cases nat_of_str_def)

lemma str_of_nat_inject [simp]: "str_of_nat m = str_of_nat n \<longleftrightarrow> m = n"
  by (metis nat_of_str_of_nat)

lemma hd_str_of_nat: "0 < n \<Longrightarrow> hd (str_of_nat n) \<noteq> CHR ''0''"
proof (induction n rule: str_of_nat_induct)
  case (small n)
  have "digit_val CHR ''0'' = 0" by (simp add: digit_val_def)
  then have "digit_char n \<noteq> CHR ''0''" using small by (metis digit_val_char less_irrefl)
  then show ?case using small by (simp add: str_of_nat_cases)
next
  case (step n)
  then show ?case by (simp add: str_of_nat_cases)
qed

lemma length_str_of_nat_mono: "m \<le> n \<Longrightarrow> length (str_of_nat m) \<le> length (str_of_nat n)"
proof (induction n arbitrary: m rule: str_of_nat_induct)
  case (small n)
  then show ?case by (simp add: str_of_nat_cases)
next
  case (step n)
  then show ?case by (cases "m < 10") (simp_all add: str_of_nat_cases div_le_mono)
qed

lemma length_str_of_nat_octet: "n < 1000 \<Longrightarrow> length (str_of_nat n) \<le> 3"
  using length_str_of_nat_mono [of n 999] by (simp add: str_of_nat_cases)

end
