(* ===== verification/Models.thy ===== *)
theory Models
  imports PyStr
begin

text \<open>
  The data model of \<open>models.py\<close>: the enums with their string values, the normalised machine,
  the compute, network and migration plans, and \<open>terraform_safe_name\<close>. Floats are exact
  rationals. Field names carry a prefix per record (\<open>vm_\<close>, \<open>c_\<close>, \<open>sn_\<close>, \<open>sg_\<close>, \<open>lb_\<close>,
  \<open>net_\<close>, \<open>plan_\<close>). Constant \<open>schema_version\<close> fields and the prose fields (\<open>reason\<close>,
  \<open>decision\<close>, descriptions of load balancers) are left out; nothing reads them back.
\<close>

subsection \<open>Enums\<close>

datatype tier = WEB | APP | DATABASE | CACHE | OTHER

fun tier_value :: "tier \<Rightarrow> string" where
  "tier_value WEB = ''web''"
| "tier_value APP = ''app''"
| "tier_value DATABASE = ''database''"
| "tier_value CACHE = ''cache''"
| "tier_value OTHER = ''other''"

datatype environment = PRODUCTION | STAGING | DEVELOPMENT | TEST | UNKNOWN

fun env_value :: "environment \<Rightarrow> string" where
  "env_value PRODUCTION = ''production''"
| "env_value STAGING = ''staging''"
| "env_value DEVELOPMENT = ''development''"
| "env_value TEST = ''test''"
| "env_value UNKNOWN = ''unknown''"

datatype subnet_tier = PUBLIC | PRIVATE

fun subnet_value :: "subnet_tier \<Rightarrow> string" where
  "subnet_value PUBLIC = ''public''"
| "subnet_value PRIVATE = ''private''"

text \<open>The enums are ordered by their string values, as every \<open>sorted\<close> over them is.\<close>

lemma tier_value_inject [simp]: "tier_value a = tier_value b \<longleftrightarrow> a = b"
  by (cases a; cases b) simp_all

lemma env_value_inject [simp]: "env_value a = env_value b \<longleftrightarrow> a = b"
  by (cases a; cases b) simp_all

lemma subnet_value_inject [simp]: "subnet_value a = subnet_value b \<longleftrightarrow> a = b"
  by (cases a; cases b) simp_all

instantiation tier :: linorder
begin

definition less_eq_tier :: "tier \<Rightarrow> tier \<Rightarrow> bool" where
  "less_eq_tier a b \<longleftrightarrow> tier_value a \<le> tier_value b"

definition less_tier :: "tier \<Rightarrow> tier \<Rightarrow> bool" where
  "less_tier a b \<longleftrightarrow> tier_value a < tier_value b"

instance
  by standard (auto simp: less_eq_tier_def less_tier_def less_le)

end

subsection \<open>Terraform resource labels\<close>

text \<open>
  \<open>re.sub(r"[^a-zA-Z0-9]+", "_", value.strip().lower()).strip("_")\<close>, then the two fallbacks.
\<close>

definition tf_slug :: "string \<Rightarrow> string" where
  "tf_slug v = strip_char CHR ''_'' (sub_runs (\<lambda>c. \<not> is_ascii_alnum c) ''_'' (lower (strip v)))"

definition terraform_safe_name :: "string \<Rightarrow> string" where
  "terraform_safe_name v =
     (let slug = tf_slug v;
          slug = (if slug = [] then ''resource'' else slug)
      in if is_ascii_alpha (hd slug) \<or> hd slug = CHR ''_'' then slug else ''r_'' @ slug)"

lemmas safe_name_eval = terraform_safe_name_def tf_slug_def strip_by_def lower_char_def char_class_defs
  Let_def is_space_def

text \<open>\<open>^[a-zA-Z_][a-zA-Z0-9_-]*$\<close>\<close>

definition tf_name_chars :: "string \<Rightarrow> bool" where
  "tf_name_chars s \<longleftrightarrow>
     (case s of [] \<Rightarrow> False
      | c # cs \<Rightarrow> (is_ascii_alpha c \<or> c = CHR ''_'')
          \<and> list_all (\<lambda>x. is_ascii_alnum x \<or> x = CHR ''_'' \<or> x = CHR ''-'') cs)"

definition tf_name_ok :: "string \<Rightarrow> bool" where
  "tf_name_ok s \<longleftrightarrow> dollar tf_name_chars s"

lemma tf_slug_chars: "c \<in> set (tf_slug v) \<Longrightarrow> is_ascii_alnum c \<or> c = CHR ''_''"
  using set_strip_by [of "\<lambda>x. x = CHR ''_''"] set_sub_runs
  by (fastforce simp: tf_slug_def)

lemma safe_name_chars: "tf_name_chars (terraform_safe_name v)"
proof -
  define slug where "slug = (if tf_slug v = [] then ''resource'' else tf_slug v)"
  have all: "\<forall>c \<in> set slug. is_ascii_alnum c \<or> c = CHR ''_''"
    using tf_slug_chars by (auto simp: slug_def char_class_defs)
  have ne: "slug \<noteq> []" by (simp add: slug_def)
  then obtain c cs where c: "slug = c # cs" by (cases slug) auto
  show ?thesis
  proof (cases "is_ascii_alpha c \<or> c = CHR ''_''")
    case True
    then show ?thesis using all c
      by (auto simp: terraform_safe_name_def Let_def slug_def [symmetric] tf_name_chars_def
          list_all_iff)
  next
    case False
    have "is_ascii_alpha CHR ''r''" by (simp add: char_class_defs)
    with False show ?thesis using all c
      by (auto simp: terraform_safe_name_def Let_def slug_def [symmetric] tf_name_chars_def
          list_all_iff)
  qed
qed

lemma safe_name_ne [simp]: "terraform_safe_name v \<noteq> []"
  using safe_name_chars [of v] by (auto simp: tf_name_chars_def)

lemma tf_name_ok_chars: "tf_name_chars s \<Longrightarrow> tf_name_ok s"
  by (simp add: tf_name_ok_def dollarI)

lemma tf_name_chars_append:
  assumes "tf_name_chars s" and "list_all (\<lambda>x. is_ascii_alnum x \<or> x = CHR ''_'' \<or> x = CHR ''-'') t"
  shows "tf_name_chars (s @ t)"
  using assms by (auto simp: tf_name_chars_def split: list.splits)

subsection \<open>Inventory\<close>

record vm =
  vm_name :: string
  vm_cpu :: int
  vm_memory :: rat
  vm_disks :: "rat list"
  vm_cpu_util :: "rat option"
  vm_mem_util :: "rat option"
  vm_network :: "string option"
  vm_os :: "string option"
  vm_power :: "string option"
  vm_ips :: "string list"
  vm_hostname :: "string option"
  vm_cluster :: "string option"
  vm_datacenter :: "string option"
  vm_external_id :: "string option"
  vm_uuid :: "string option"
  vm_tags :: "(string, string) dict"

text \<open>The field constraints pydantic enforces on construction.\<close>

definition pct_ok :: "rat option \<Rightarrow> bool" where
  "pct_ok p \<longleftrightarrow> (case p of None \<Rightarrow> True | Some x \<Rightarrow> 0 \<le> x \<and> x \<le> 100)"

definition vm_ok :: "vm \<Rightarrow> bool" where
  "vm_ok v \<longleftrightarrow> 1 \<le> vm_cpu v \<and> 0 < vm_memory v \<and> pct_ok (vm_cpu_util v) \<and> pct_ok (vm_mem_util v)
      \<and> vm_name v \<noteq> [] \<and> strip (vm_name v) = vm_name v"

definition total_disk_gib :: "vm \<Rightarrow> rat" where
  "total_disk_gib v = round_dp 2 (sum_list (vm_disks v))"

definition has_utilization :: "vm \<Rightarrow> bool" where
  "has_utilization v \<longleftrightarrow> vm_cpu_util v \<noteq> None \<or> vm_mem_util v \<noteq> None"

definition vm_resource_name :: "vm \<Rightarrow> string" where
  "vm_resource_name v = terraform_safe_name (vm_name v)"

subsection \<open>Plans\<close>

record app_group =
  ag_name :: string
  ag_environment :: environment
  ag_members :: "(string, tier) dict"

record compute_plan =
  c_vm_name :: string
  c_resource_name :: string
  c_instance_type :: string
  c_image_key :: string
  c_vcpu :: int
  c_memory :: rat
  c_root_gib :: int
  c_extra_gib :: "int list"
  c_subnet_tier :: subnet_tier
  c_security_group :: string
  c_tier :: tier
  c_environment :: environment
  c_cost :: rat
  c_price_source :: string
  c_right_sized :: bool
  c_source_vcpu :: "int option"
  c_source_memory :: "rat option"
  c_source_os :: "string option"
  c_os_family_changed :: bool
  c_external_id :: "string option"

text \<open>The pydantic constraints of \<open>ComputePlan\<close>: the resource-name pattern and \<open>ge=8\<close>.\<close>

definition compute_ok :: "compute_plan \<Rightarrow> bool" where
  "compute_ok c \<longleftrightarrow> tf_name_ok (c_resource_name c) \<and> 8 \<le> c_root_gib c"

record ingress_rule =
  in_description :: string
  in_protocol :: string
  in_from_port :: int
  in_to_port :: int
  in_cidrs :: "string list"

record security_group =
  sg_name :: string
  sg_resource_name :: string
  sg_description :: string
  sg_ingress :: "ingress_rule list"

record subnet =
  sn_name :: string
  sn_resource_name :: string
  sn_cidr :: string
  sn_tier :: subnet_tier
  sn_az :: nat

record lb_listener =
  ll_protocol :: string
  ll_listener_port :: int
  ll_target_port :: int

record load_balancer =
  lb_name :: string
  lb_resource_name :: string
  lb_tier :: tier
  lb_environment :: environment
  lb_subnet_tier :: subnet_tier
  lb_security_group :: string
  lb_listeners :: "lb_listener list"
  lb_health_path :: string
  lb_targets :: "string list"

definition internet_facing :: "load_balancer \<Rightarrow> bool" where
  "internet_facing lb \<longleftrightarrow> lb_subnet_tier lb = PUBLIC"

record network_plan =
  net_vpc_cidr :: string
  net_subnets :: "subnet list"
  net_security_groups :: "security_group list"
  net_load_balancers :: "load_balancer list"
  net_internet_gateway :: bool
  net_nat_gateway :: bool

record migration_plan =
  plan_project :: string
  plan_source :: string
  plan_target :: string
  plan_region :: string
  plan_net :: network_plan
  plan_compute :: "compute_plan list"
  plan_app_groups :: "app_group list"
  plan_provider_used :: string
  plan_kms_key_id :: "string option"
  plan_live_requested :: bool

definition total_estimated_monthly_cost :: "migration_plan \<Rightarrow> rat" where
  "total_estimated_monthly_cost p = round_dp 2 (\<Sum>c\<leftarrow>plan_compute p. c_cost c)"

definition vm_count :: "migration_plan \<Rightarrow> nat" where
  "vm_count p = length (plan_compute p)"

definition pricing_source :: "migration_plan \<Rightarrow> string" where
  "pricing_source p =
     (if plan_compute p = [] then ''static''
      else let sources = remdups (map c_price_source (plan_compute p))
           in if sources = [''live''] then ''live''
              else if ''live'' \<in> set sources then ''degraded'' else ''static'')"

definition pricing_source_degraded :: "migration_plan \<Rightarrow> bool" where
  "pricing_source_degraded p \<longleftrightarrow> plan_live_requested p \<and> pricing_source p \<noteq> ''live''"

lemma remdups_singleton: "remdups xs = [a] \<longleftrightarrow> xs \<noteq> [] \<and> (\<forall>x \<in> set xs. x = a)"
proof
  assume "remdups xs = [a]"
  then have "set xs = {a}" by (metis set_remdups list.set(1) list.set(2))
  then show "xs \<noteq> [] \<and> (\<forall>x \<in> set xs. x = a)" by auto
next
  assume "xs \<noteq> [] \<and> (\<forall>x \<in> set xs. x = a)"
  then show "remdups xs = [a]"
  proof (induction xs)
    case (Cons x xs)
    then show ?case by (cases xs) auto
  qed simp
qed

lemma pricing_source_live_iff:
  "pricing_source p = ''live'' \<longleftrightarrow>
     plan_compute p \<noteq> [] \<and> (\<forall>c \<in> set (plan_compute p). c_price_source c = ''live'')"
  by (auto simp: pricing_source_def Let_def remdups_singleton)

end
