(* ===== verification/Heuristics.thy ===== *)
theory Heuristics
  imports Models
begin

text \<open>
  \<open>agents/heuristics.py\<close>: environment and tier from the words inside a machine's names. The first
  table row with a token that occurs in the text decides.
\<close>

definition ENV_TOKENS :: "(environment \<times> string list) list" where
  "ENV_TOKENS =
     [(PRODUCTION, [''prod'', ''prd'', ''-p-'', ''production'']),
      (STAGING, [''stg'', ''stag'', ''staging'', ''preprod'', ''pre-prod'']),
      (TEST, [''test'', ''tst'', ''uat'', ''qa'']),
      (DEVELOPMENT, [''dev'', ''development'', ''sandbox'', ''sbx''])]"

definition TIER_TOKENS :: "(tier \<times> string list) list" where
  "TIER_TOKENS =
     [(DATABASE, [''db'', ''sql'', ''database'', ''postgres'', ''mysql'', ''oracle'', ''mongo'',
                  ''mariadb'', ''mssql'']),
      (CACHE, [''cache'', ''redis'', ''memcache'', ''memcached'']),
      (WEB, [''web'', ''www'', ''nginx'', ''iis'', ''apache'', ''frontend'', ''fe'', ''lb'', ''proxy'']),
      (APP, [''app'', ''api'', ''backend'', ''be'', ''svc'', ''service'', ''worker'', ''middleware''])]"

definition haystack :: "vm \<Rightarrow> string" where
  "haystack vm =
     lower (join '' '' (vm_name vm # (case vm_hostname vm of
                                        Some h \<Rightarrow> if h \<noteq> [] then [h] else []
                                      | None \<Rightarrow> [])))"

fun first_match :: "('a \<times> string list) list \<Rightarrow> 'a \<Rightarrow> string \<Rightarrow> 'a" where
  "first_match [] d hay = d"
| "first_match ((a, tokens) # rest) d hay =
     (if list_ex (\<lambda>t. contains t hay) tokens then a else first_match rest d hay)"

definition detect_environment :: "vm \<Rightarrow> environment" where
  "detect_environment vm = first_match ENV_TOKENS UNKNOWN (haystack vm)"

definition detect_tier :: "vm \<Rightarrow> tier" where
  "detect_tier vm = first_match TIER_TOKENS OTHER (haystack vm)"

text \<open>
  The decision is the first row, in table order, that has a token in the hay; the default when no
  row has one.
\<close>

lemma first_match_spec:
  "first_match rows d hay =
     (case dropWhile (\<lambda>(a, ts). \<forall>t \<in> set ts. \<not> contains t hay) rows of
        [] \<Rightarrow> d | (a, ts) # _ \<Rightarrow> a)"
  by (induction rows d hay rule: first_match.induct) (auto simp: list_ex_iff)

lemma detect_default:
  assumes "first_match rows d hay = d" and "d \<notin> fst ` set rows" and "(a, ts) \<in> set rows" and "t \<in> set ts"
  shows "\<not> contains t hay"
  using assms by (induction rows d hay rule: first_match.induct) (force simp: list_ex_iff split: if_splits)+

text \<open>A hay with \<open>preprod\<close> has \<open>prod\<close>: the staging row never decides on its last two tokens.\<close>

lemma preprod_has_prod:
  assumes "contains ''preprod'' s \<or> contains ''pre-prod'' s \<or> contains ''nonprod'' s"
  shows "contains ''prod'' s"
proof -
  have "contains ''prod'' ''preprod''" "contains ''prod'' ''pre-prod''" "contains ''prod'' ''nonprod''"
    by code_simp+
  with assms show ?thesis using contains_trans by blast
qed

end
