(* ===== verification/TargetBase.thy ===== *)
theory TargetBase
  imports Models
begin

text \<open>
  \<open>targets/base.py\<close>: the instance catalog entry, \<open>smallest_fit\<close> and the \<open>Target\<close> protocol as a
  record of everything a cloud supplies. The locale \<open>cloud_target\<close> states what the pipeline
  relies on about a target; \<open>Targets\<close> interprets it on every registered one.
\<close>

record instance_spec =
  i_name :: string
  i_vcpu :: int
  i_memory :: rat
  i_family :: string
  i_price_hr :: rat

definition spec :: "string \<Rightarrow> int \<Rightarrow> rat \<Rightarrow> string \<Rightarrow> rat \<Rightarrow> instance_spec" where
  "spec n v m f p = \<lparr>i_name = n, i_vcpu = v, i_memory = m, i_family = f, i_price_hr = p\<rparr>"

definition HOURS_PER_MONTH :: rat where
  "HOURS_PER_MONTH = 730"

definition monthly_usd :: "instance_spec \<Rightarrow> rat" where
  "monthly_usd i = round_dp 2 (i_price_hr i * HOURS_PER_MONTH)"

subsection \<open>smallest\_fit\<close>

definition fits :: "rat \<Rightarrow> rat \<Rightarrow> string option \<Rightarrow> instance_spec \<Rightarrow> bool" where
  "fits need_cpu need_mem family i \<longleftrightarrow>
     need_cpu \<le> of_int (i_vcpu i) \<and> need_mem \<le> i_memory i
     \<and> (case family of None \<Rightarrow> True | Some f \<Rightarrow> i_family i = f)"

definition price_key :: "instance_spec \<Rightarrow> rat \<times> int \<times> rat" where
  "price_key i = (i_price_hr i, i_vcpu i, i_memory i)"

definition candidates ::
  "instance_spec list \<Rightarrow> rat \<Rightarrow> rat \<Rightarrow> string option \<Rightarrow> instance_spec list" where
  "candidates catalog need_cpu need_mem family =
     sort_key price_key (filter (fits need_cpu need_mem family) catalog)"

text \<open>
  \<open>None\<close> is the \<open>ValueError\<close> of \<open>max\<close> on an empty catalog. An empty family string is no preference, as
  in the code's truth test.
\<close>

definition smallest_fit ::
  "instance_spec list \<Rightarrow> rat \<Rightarrow> rat \<Rightarrow> rat \<Rightarrow> string option \<Rightarrow> instance_spec option" where
  "smallest_fit catalog vcpu memory headroom prefer_family =
     (let need_cpu = vcpu * headroom;
          need_mem = memory * headroom;
          preferred = (case prefer_family of None \<Rightarrow> []
                       | Some f \<Rightarrow> if f = [] then [] else candidates catalog need_cpu need_mem (Some f))
      in case preferred of
           i # _ \<Rightarrow> Some i
         | [] \<Rightarrow>
             (case candidates catalog need_cpu need_mem None of
                i # _ \<Rightarrow> Some i
              | [] \<Rightarrow> (case catalog of [] \<Rightarrow> None
                     | i # rest \<Rightarrow> Some (max_by (\<lambda>x. (i_vcpu x, i_memory x)) i rest))))"

lemma candidates_mem: "i \<in> set (candidates cat a b f) \<longleftrightarrow> i \<in> set cat \<and> fits a b f i"
  by (auto simp: candidates_def)

lemma candidates_hd_le:
  assumes "candidates cat a b f = i # rest" and "j \<in> set cat" and "fits a b f j"
  shows "price_key i \<le> price_key j"
proof -
  have "price_key (hd (sort_key price_key (filter (fits a b f) cat))) \<le> price_key j"
    by (rule hd_sort_key_le) (use assms(2,3) in simp)
  with assms(1) show ?thesis by (simp add: candidates_def)
qed

lemma fits_any: "fits a b f i \<Longrightarrow> fits a b None i"
  by (simp add: fits_def)

lemma smallest_fit_total: "cat \<noteq> [] \<Longrightarrow> \<exists>i. smallest_fit cat v m h pf = Some i"
  by (auto simp: smallest_fit_def Let_def split: list.splits)

lemma smallest_fit_cases:
  assumes "smallest_fit cat v m h pf = Some i"
  obtains (preferred) f rest where "pf = Some f" "f \<noteq> []" "candidates cat (v * h) (m * h) (Some f) = i # rest"
  | (any) rest where "\<And>f. pf = Some f \<Longrightarrow> f \<noteq> [] \<Longrightarrow> candidates cat (v * h) (m * h) (Some f) = []"
      "candidates cat (v * h) (m * h) None = i # rest"
  | (largest) x xs where "candidates cat (v * h) (m * h) None = []" "cat = x # xs"
      "i = max_by (\<lambda>x. (i_vcpu x, i_memory x)) x xs"
proof -
  let ?pref = "case pf of None \<Rightarrow> [] | Some f \<Rightarrow> if f = [] then [] else candidates cat (v * h) (m * h) (Some f)"
  show thesis
  proof (cases ?pref)
    case (Cons j rest)
    with assms have "j = i" by (simp add: smallest_fit_def Let_def)
    with Cons show thesis by (cases pf) (auto split: if_splits intro: preferred)
  next
    case Nil
    then have none: "\<And>f. pf = Some f \<Longrightarrow> f \<noteq> [] \<Longrightarrow> candidates cat (v * h) (m * h) (Some f) = []"
      by simp
    show thesis
    proof (cases "candidates cat (v * h) (m * h) None")
      case (Cons j rest)
      with assms Nil have "j = i" by (simp add: smallest_fit_def Let_def)
      with Cons none show thesis by (auto intro: any)
    next
      case none2: Nil
      with assms Nil show thesis
        by (cases cat) (auto simp: smallest_fit_def Let_def intro: largest)
    qed
  qed
qed

lemma smallest_fit_mem: "smallest_fit cat v m h pf = Some i \<Longrightarrow> i \<in> set cat"
proof (erule smallest_fit_cases)
  fix f rest
  assume "candidates cat (v * h) (m * h) (Some f) = i # rest"
  then show ?thesis by (metis candidates_mem list.set_intros(1))
next
  fix rest
  assume "candidates cat (v * h) (m * h) None = i # rest"
  then show ?thesis by (metis candidates_mem list.set_intros(1))
next
  fix x xs
  assume "cat = x # xs" and "i = max_by (\<lambda>x. (i_vcpu x, i_memory x)) x xs"
  then show ?thesis using max_by_mem [of "\<lambda>x. (i_vcpu x, i_memory x)" x xs] by simp
qed

text \<open>When some entry fits the need, the one chosen fits it.\<close>

lemma smallest_fit_fits:
  assumes "smallest_fit cat v m h pf = Some i" and "j \<in> set cat" and "fits (v * h) (m * h) None j"
  shows "fits (v * h) (m * h) None i"
  using assms(1)
proof (cases rule: smallest_fit_cases)
  case (preferred f rest)
  then have "fits (v * h) (m * h) (Some f) i" by (metis candidates_mem list.set_intros(1))
  then show ?thesis by (rule fits_any)
next
  case (any rest)
  then show ?thesis by (metis candidates_mem list.set_intros(1))
next
  case (largest x xs)
  with assms(2,3) show ?thesis by (metis candidates_mem empty_iff empty_set)
qed

subsection \<open>The Target protocol\<close>

text \<open>The values of an image reference: a string, or the list of owner accounts of an AWS filter.\<close>

datatype ref_value = RStr string | RList "string list"

record target =
  t_name :: string
  t_default_region :: string
  t_vpc_cidr :: string
  t_capabilities :: "string list"
  t_template_map :: "(string, string) dict"
  t_default_ingress :: "(string, ingress_rule list) dict"
  t_catalog :: "instance_spec list"
  t_cost_of :: "string \<Rightarrow> rat"
  t_image_key :: "string option \<Rightarrow> string"
  t_image_reference :: "string \<Rightarrow> (string, ref_value) dict"
  t_family_for_tier :: "tier \<Rightarrow> string option"
  t_subnet_tier_for_tier :: "tier \<Rightarrow> subnet_tier"
  t_sg_for_tier :: "tier \<Rightarrow> string"

definition catalog_index :: "instance_spec list \<Rightarrow> (string, instance_spec) dict" where
  "catalog_index cat = foldl (\<lambda>d i. AList.update (i_name i) i d) [] cat"

definition instance_exists :: "target \<Rightarrow> string \<Rightarrow> bool" where
  "instance_exists t n \<longleftrightarrow> map_of (catalog_index (t_catalog t)) n \<noteq> None"

definition instance_names :: "target \<Rightarrow> string list" where
  "instance_names t = map i_name (t_catalog t)"

definition spec_of :: "target \<Rightarrow> string \<Rightarrow> instance_spec option" where
  "spec_of t n = map_of (catalog_index (t_catalog t)) n"

definition catalog_cost :: "instance_spec list \<Rightarrow> string \<Rightarrow> rat" where
  "catalog_cost cat n =
     (case map_of (catalog_index cat) n of None \<Rightarrow> 0 | Some i \<Rightarrow> monthly_usd i)"

lemma catalog_index_keys_gen:
  "set (keys (foldl (\<lambda>d i. AList.update (i_name i) i d) d cat)) = set (keys d) \<union> i_name ` set cat"
  by (induction cat arbitrary: d) (auto simp: dom_update)

lemma catalog_index_mem: "map_of (catalog_index cat) n \<noteq> None \<longleftrightarrow> n \<in> i_name ` set cat"
  using catalog_index_keys_gen [of "[]" cat]
  by (auto simp: catalog_index_def map_of_eq_None_iff simp del: not_None_eq)

lemma catalog_index_lookup_gen:
  "distinct (map i_name cat) \<Longrightarrow>
    map_of (foldl (\<lambda>d i. AList.update (i_name i) i d) d cat) n =
      (if n \<in> i_name ` set cat then map_of (map (\<lambda>i. (i_name i, i)) cat) n else map_of d n)"
  by (induction cat arbitrary: d) auto

lemma catalog_index_lookup:
  assumes "distinct (map i_name cat)" and "i \<in> set cat"
  shows "map_of (catalog_index cat) (i_name i) = Some i"
proof -
  have "map_of (map (\<lambda>i. (i_name i, i)) cat) (i_name i) = Some i"
    using assms by (intro map_of_is_SomeI) (auto simp: o_def)
  then show ?thesis
    using assms by (simp add: catalog_index_def catalog_index_lookup_gen)
qed

lemma instance_exists_iff: "instance_exists t n \<longleftrightarrow> n \<in> set (instance_names t)"
  by (simp add: instance_exists_def instance_names_def catalog_index_mem del: not_None_eq)

lemma instance_exists_spec_of: "instance_exists t n \<Longrightarrow> \<exists>i. spec_of t n = Some i"
  by (simp add: instance_exists_def spec_of_def)

definition ingress :: "string \<Rightarrow> int \<Rightarrow> int \<Rightarrow> string list \<Rightarrow> ingress_rule" where
  "ingress d f t cs =
     \<lparr>in_description = d, in_protocol = ''tcp'', in_from_port = f, in_to_port = t, in_cidrs = cs\<rparr>"

text \<open>\<open>TEMPLATE_MAP\<close>: the template file names every target shares.\<close>

definition TEMPLATE_MAP :: "(string, string) dict" where
  "TEMPLATE_MAP =
     [(''versions.tf.j2'', ''versions.tf''), (''provider.tf.j2'', ''provider.tf''),
      (''variables.tf.j2'', ''variables.tf''), (''locals.tf.j2'', ''locals.tf''),
      (''terraform.tfvars.j2'', ''terraform.tfvars''), (''networking.tf.j2'', ''networking.tf''),
      (''security.tf.j2'', ''security.tf''), (''identity.tf.j2'', ''identity.tf''),
      (''hybrid.tf.j2'', ''hybrid.tf''), (''loadbalancer.tf.j2'', ''loadbalancer.tf''),
      (''compute.tf.j2'', ''compute.tf''), (''storage.tf.j2'', ''storage.tf''),
      (''outputs.tf.j2'', ''outputs.tf''), (''main.tf.j2'', ''main.tf''),
      (''README.md.j2'', ''README.md'')]"

definition INTERNET :: string where
  "INTERNET = ''0.0.0.0/0''"

text \<open>The Terraform labels of the security group names in use.\<close>

lemma sg_label_eval:
  "terraform_safe_name ''web-sg'' = ''web_sg''" "terraform_safe_name ''app-sg'' = ''app_sg''"
  "terraform_safe_name ''db-sg'' = ''db_sg''" "terraform_safe_name ''cache-sg'' = ''cache_sg''"
  "terraform_safe_name ''web-nsg'' = ''web_nsg''" "terraform_safe_name ''app-nsg'' = ''app_nsg''"
  "terraform_safe_name ''db-nsg'' = ''db_nsg''" "terraform_safe_name ''cache-nsg'' = ''cache_nsg''"
  "terraform_safe_name ''web-fw'' = ''web_fw''" "terraform_safe_name ''app-fw'' = ''app_fw''"
  "terraform_safe_name ''db-fw'' = ''db_fw''" "terraform_safe_name ''cache-fw'' = ''cache_fw''"
  "terraform_safe_name ''web'' = ''web''" "terraform_safe_name ''app'' = ''app''"
  "terraform_safe_name ''db'' = ''db''" "terraform_safe_name ''cache'' = ''cache''"
  by (simp_all add: safe_name_eval)

text \<open>
  What the planning stages rely on: a catalog to choose from, with one entry per name and an entry
  of every preferred family; a rule set for the group of every tier, written against the target's
  own network range and open to the internet for the web tier only; and group names that stay
  distinct as Terraform labels.
\<close>

locale cloud_target =
  fixes T :: target
  assumes catalog_ne: "t_catalog T \<noteq> []"
    and names_distinct: "distinct (instance_names T)"
    and family_known: "t_family_for_tier T tr = Some f \<Longrightarrow> f \<noteq> [] \<and> f \<in> i_family ` set (t_catalog T)"
    and sg_ingress: "\<exists>rules. map_of (t_default_ingress T) (t_sg_for_tier T tr) = Some rules \<and> rules \<noteq> []"
    and sg_labels: "terraform_safe_name (t_sg_for_tier T a) = terraform_safe_name (t_sg_for_tier T b)
        \<Longrightarrow> t_sg_for_tier T a = t_sg_for_tier T b"
    and web_public: "t_subnet_tier_for_tier T tr = (if tr = WEB then PUBLIC else PRIVATE)"
    and ingress_cidrs: "\<forall>(g, rules) \<in> set (t_default_ingress T). \<forall>r \<in> set rules.
        in_cidrs r = (if g = t_sg_for_tier T WEB then [INTERNET] else [t_vpc_cidr T])"
    and vpc_private: "t_vpc_cidr T \<noteq> INTERNET"
begin

lemma fit_exists:
  "\<exists>i. smallest_fit (t_catalog T) v m h pf = Some i \<and> i \<in> set (t_catalog T)"
  using smallest_fit_total [OF catalog_ne] smallest_fit_mem by blast

lemma spec_of_mem:
  assumes "i \<in> set (t_catalog T)"
  shows "spec_of T (i_name i) = Some i"
  using catalog_index_lookup [OF names_distinct [unfolded instance_names_def] assms]
  by (simp add: spec_of_def)

lemma mem_exists: "i \<in> set (t_catalog T) \<Longrightarrow> instance_exists T (i_name i)"
  by (simp add: instance_exists_iff instance_names_def)

lemma only_web_public:
  "(g, rules) \<in> set (t_default_ingress T) \<Longrightarrow> r \<in> set rules \<Longrightarrow> INTERNET \<in> set (in_cidrs r)
    \<Longrightarrow> g = t_sg_for_tier T WEB"
  using ingress_cidrs vpc_private by (fastforce split: if_splits)

end

end
