(* ===== verification/Sizing.thy ===== *)
theory Sizing
  imports Models TargetBase
begin

text \<open>
  \<open>sizing.py\<close> and the utilisation setting of \<open>config.py\<close>: what is asked of \<open>smallest_fit\<close> for a
  machine. The setting is read once at import; here it is the argument \<open>tu\<close>.
\<close>

text \<open>\<open>None\<close> is a value of the environment variable that is not a float.\<close>

definition target_utilization :: "rat option \<Rightarrow> rat" where
  "target_utilization raw =
     (case raw of None \<Rightarrow> 0.65 | Some u \<Rightarrow> if 0.1 \<le> u \<and> u \<le> 1 then u else 0.65)"

definition util_ok :: "rat \<Rightarrow> bool" where
  "util_ok tu \<longleftrightarrow> 0.1 \<le> tu \<and> tu \<le> 1"

lemma target_utilization_ok: "util_ok (target_utilization raw)"
  by (auto simp: target_utilization_def util_ok_def split: option.splits)

definition ALLOCATION_HEADROOM :: rat where
  "ALLOCATION_HEADROOM = 1.2"

record demand =
  d_vcpu :: rat
  d_memory :: rat
  d_headroom :: rat
  d_right_sized :: bool

definition util_frac :: "rat option \<Rightarrow> rat" where
  "util_frac p = (case p of Some x \<Rightarrow> x | None \<Rightarrow> 100) / 100"

definition effective_demand :: "rat \<Rightarrow> vm \<Rightarrow> demand" where
  "effective_demand tu vm =
     (if has_utilization vm then
        \<lparr>d_vcpu = max 1 (of_int (vm_cpu vm) * util_frac (vm_cpu_util vm)),
         d_memory = max 1 (vm_memory vm * util_frac (vm_mem_util vm)),
         d_headroom = 1 / tu, d_right_sized = True\<rparr>
      else
        \<lparr>d_vcpu = of_int (vm_cpu vm), d_memory = vm_memory vm,
         d_headroom = ALLOCATION_HEADROOM, d_right_sized = False\<rparr>)"

lemma right_sized_iff [simp]: "d_right_sized (effective_demand tu vm) = has_utilization vm"
  by (simp add: effective_demand_def)

lemma util_frac_le: "pct_ok p \<Longrightarrow> 0 \<le> util_frac p \<and> util_frac p \<le> 1"
  by (auto simp: util_frac_def pct_ok_def split: option.splits)

text \<open>The demand is positive and never above the allocation, up to the floors of one.\<close>

lemma demand_bounds:
  assumes "vm_ok vm"
  shows "0 < d_vcpu (effective_demand tu vm)" and "0 < d_memory (effective_demand tu vm)"
    and "d_vcpu (effective_demand tu vm) \<le> of_int (vm_cpu vm)"
    and "d_memory (effective_demand tu vm) \<le> max 1 (vm_memory vm)"
proof -
  note f = util_frac_le [of "vm_cpu_util vm"] util_frac_le [of "vm_mem_util vm"]
  have ok: "pct_ok (vm_cpu_util vm)" "pct_ok (vm_mem_util vm)" "1 \<le> vm_cpu vm" "0 < vm_memory vm"
    using assms by (auto simp: vm_ok_def)
  have c: "(1::rat) \<le> of_int (vm_cpu vm)" using ok(3) by simp
  have "of_int (vm_cpu vm) * util_frac (vm_cpu_util vm) \<le> of_int (vm_cpu vm)"
    using f(1) ok c by (simp add: mult_left_le)
  then have cm: "max 1 (of_int (vm_cpu vm) * util_frac (vm_cpu_util vm)) \<le> of_int (vm_cpu vm)"
    using c by (intro max.boundedI)
  have "vm_memory vm * util_frac (vm_mem_util vm) \<le> vm_memory vm"
    using f(2) ok by (simp add: mult_left_le)
  then have mm: "max 1 (vm_memory vm * util_frac (vm_mem_util vm)) \<le> max 1 (vm_memory vm)"
    by (intro max.mono) auto
  show "0 < d_vcpu (effective_demand tu vm)" "0 < d_memory (effective_demand tu vm)"
    using ok c by (auto simp: effective_demand_def)
  show "d_vcpu (effective_demand tu vm) \<le> of_int (vm_cpu vm)"
    using cm by (simp add: effective_demand_def)
  show "d_memory (effective_demand tu vm) \<le> max 1 (vm_memory vm)"
    using mm by (simp add: effective_demand_def)
qed

text \<open>
  An instance that meets a right-sized demand runs at no more than the target utilisation.
\<close>

lemma right_sized_utilization:
  assumes "has_utilization vm" and "util_ok tu" and "d = effective_demand tu vm"
    and "fits (d_vcpu d * d_headroom d) (d_memory d * d_headroom d) f i"
  shows "of_int (vm_cpu vm) * util_frac (vm_cpu_util vm) \<le> tu * of_int (i_vcpu i)"
    and "vm_memory vm * util_frac (vm_mem_util vm) \<le> tu * i_memory i"
proof -
  have tu: "0 < tu" using assms(2) by (simp add: util_ok_def)
  have "max 1 (of_int (vm_cpu vm) * util_frac (vm_cpu_util vm)) \<le> tu * of_int (i_vcpu i)"
    and "max 1 (vm_memory vm * util_frac (vm_mem_util vm)) \<le> tu * i_memory i"
    using assms tu by (auto simp: effective_demand_def fits_def field_simps)
  then show "of_int (vm_cpu vm) * util_frac (vm_cpu_util vm) \<le> tu * of_int (i_vcpu i)"
      "vm_memory vm * util_frac (vm_mem_util vm) \<le> tu * i_memory i"
    by auto
qed

end
