(* ===== verification/Providers.thy ===== *)
theory Providers
  imports Heuristics Sizing "HOL-Library.Multiset"
begin

text \<open>
  \<open>agents/base.py\<close>, \<open>agents/classifier.py\<close> and \<open>agents/providers\<close>: the provider interface, the
  deterministic rule engine, and the remote provider whose answers are reconciled with the
  inventory. The model's answer is an arbitrary value; \<open>None\<close> is any exception of the call.
\<close>

record suggestion =
  sug_instance :: string
  sug_image :: string

text \<open>\<open>None\<close> in \<open>p_rightsize\<close> is an exception the provider lets through.\<close>

record provider =
  p_name :: string
  p_classify :: "vm list \<Rightarrow> app_group list"
  p_rightsize :: "vm \<Rightarrow> tier \<Rightarrow> environment \<Rightarrow> suggestion option"

definition classify :: "vm list \<Rightarrow> provider \<Rightarrow> app_group list" where
  "classify vms p = p_classify p vms"

definition index_group :: "(string, tier \<times> environment) dict \<Rightarrow> app_group \<Rightarrow> (string, tier \<times> environment) dict" where
  "index_group d g =
     foldl (\<lambda>d (n, tr). AList.update n (tr, ag_environment g) d) d (ag_members g)"

definition tier_env_index :: "app_group list \<Rightarrow> (string, tier \<times> environment) dict" where
  "tier_env_index groups = foldl index_group [] groups"

subsection \<open>The rule engine\<close>

definition rule_step :: "(environment, app_group) dict \<Rightarrow> vm \<Rightarrow> (environment, app_group) dict" where
  "rule_step groups vm =
     (let env = detect_environment vm;
          tr = detect_tier vm;
          g = (case map_of groups env of
                 Some g \<Rightarrow> g
               | None \<Rightarrow> \<lparr>ag_name = env_value env @ ''-application'', ag_environment = env, ag_members = []\<rparr>)
      in AList.update env (g\<lparr>ag_members := AList.update (vm_name vm) tr (ag_members g)\<rparr>) groups)"

fun env_order :: "environment \<Rightarrow> nat" where
  "env_order PRODUCTION = 0"
| "env_order STAGING = 1"
| "env_order TEST = 2"
| "env_order DEVELOPMENT = 3"
| "env_order UNKNOWN = 4"

definition rule_classify :: "vm list \<Rightarrow> app_group list" where
  "rule_classify vms = sort_key (\<lambda>g. env_order (ag_environment g)) (map snd (foldl rule_step [] vms))"

definition rule_rightsize :: "rat \<Rightarrow> target \<Rightarrow> vm \<Rightarrow> tier \<Rightarrow> environment \<Rightarrow> suggestion option" where
  "rule_rightsize tu t vm tr env =
     (let d = effective_demand tu vm
      in case smallest_fit (t_catalog t) (d_vcpu d) (d_memory d) (d_headroom d) (t_family_for_tier t tr) of
           None \<Rightarrow> None
         | Some i \<Rightarrow> Some \<lparr>sug_instance = i_name i, sug_image = t_image_key t (vm_os vm)\<rparr>)"

definition rule_engine :: "rat \<Rightarrow> target \<Rightarrow> provider" where
  "rule_engine tu t =
     \<lparr>p_name = ''rule'', p_classify = rule_classify, p_rightsize = rule_rightsize tu t\<rparr>"

subsection \<open>The remote provider\<close>

record wire_group =
  wg_name :: string
  wg_environment :: environment
  wg_members :: "(string \<times> tier) list"

text \<open>
  One group of the answer: members that are in the inventory and not yet assigned are taken, the
  others dropped.
\<close>

fun take_members ::
  "string set \<Rightarrow> (string \<times> tier) list \<Rightarrow> string set \<Rightarrow> (string, tier) dict \<Rightarrow> (string, tier) dict \<times> string set" where
  "take_members known [] assigned members = (members, assigned)"
| "take_members known ((n, tr) # ms) assigned members =
     (if n \<in> known \<and> n \<notin> assigned
      then take_members known ms (insert n assigned) (AList.update n tr members)
      else take_members known ms assigned members)"

fun take_groups ::
  "string set \<Rightarrow> wire_group list \<Rightarrow> string set \<Rightarrow> app_group list \<Rightarrow> app_group list \<times> string set" where
  "take_groups known [] assigned groups = (groups, assigned)"
| "take_groups known (g # gs) assigned groups =
     (let (members, assigned) = take_members known (wg_members g) assigned []
      in take_groups known gs assigned
           (if members = [] then groups
            else groups @ [\<lparr>ag_name = wg_name g, ag_environment = wg_environment g,
                            ag_members = members\<rparr>]))"

definition llm_classify :: "(vm list \<Rightarrow> wire_group list option) \<Rightarrow> vm list \<Rightarrow> app_group list" where
  "llm_classify answer vms =
     (case answer vms of
        None \<Rightarrow> rule_classify vms
      | Some result \<Rightarrow>
          let (groups, assigned) = take_groups (set (map vm_name vms)) result {} [];
              missing = filter (\<lambda>v. vm_name v \<notin> assigned) vms
          in if missing = [] then groups else groups @ rule_classify missing)"

definition llm_rightsize ::
  "(vm \<Rightarrow> tier \<Rightarrow> environment \<Rightarrow> suggestion option) \<Rightarrow> rat \<Rightarrow> target \<Rightarrow> vm \<Rightarrow> tier \<Rightarrow> environment
    \<Rightarrow> suggestion option" where
  "llm_rightsize answer tu t vm tr env =
     (case answer vm tr env of Some s \<Rightarrow> Some s | None \<Rightarrow> rule_rightsize tu t vm tr env)"

definition anthropic ::
  "(vm list \<Rightarrow> wire_group list option) \<Rightarrow> (vm \<Rightarrow> tier \<Rightarrow> environment \<Rightarrow> suggestion option)
    \<Rightarrow> rat \<Rightarrow> target \<Rightarrow> provider" where
  "anthropic ca ra tu t =
     \<lparr>p_name = ''anthropic'', p_classify = llm_classify ca, p_rightsize = llm_rightsize ra tu t\<rparr>"

subsection \<open>Selection\<close>

text \<open>
  \<open>get_provider\<close>: \<open>choice\<close> is the explicit name or the environment variable, when one is non-empty;
  \<open>remote\<close> the remote provider, when the SDK can be imported; \<open>protect\<close> the wrapper it is put in.
\<close>

definition get_provider ::
  "string option \<Rightarrow> bool \<Rightarrow> provider option \<Rightarrow> (provider \<Rightarrow> provider) \<Rightarrow> rat \<Rightarrow> target \<Rightarrow> provider" where
  "get_provider choice has_key remote protect tu t =
     (let c = lower (strip (case choice of None \<Rightarrow> ''rule'' | Some s \<Rightarrow> if s = [] then ''rule'' else s))
      in if c = ''anthropic'' \<or> c = ''claude'' then
           (if \<not> has_key then rule_engine tu t
            else case remote of Some p \<Rightarrow> protect p | None \<Rightarrow> rule_engine tu t)
         else rule_engine tu t)"

subsection \<open>Every machine is classified exactly once\<close>

definition group_names :: "app_group list \<Rightarrow> string list" where
  "group_names groups = concat (map (\<lambda>g. keys (ag_members g)) groups)"

definition partitions :: "app_group list \<Rightarrow> string set \<Rightarrow> bool" where
  "partitions groups names \<longleftrightarrow> distinct (group_names groups) \<and> set (group_names groups) = names"

text \<open>The groups of the rule engine: keyed by environment, disjoint, covering the machines read.\<close>

definition rule_inv :: "(environment, app_group) dict \<Rightarrow> vm list \<Rightarrow> bool" where
  "rule_inv d vms \<longleftrightarrow> dict_ok d
     \<and> (\<forall>(e, g) \<in> set d. ag_environment g = e \<and> dict_ok (ag_members g)
          \<and> (\<forall>n \<in> set (keys (ag_members g)). \<exists>v \<in> set vms. vm_name v = n \<and> detect_environment v = e))
     \<and> (\<forall>v \<in> set vms. \<exists>g. map_of d (detect_environment v) = Some g \<and> vm_name v \<in> set (keys (ag_members g)))"

lemma rule_step_inv:
  assumes "rule_inv d vms"
  shows "rule_inv (rule_step d v) (vms @ [v])"
proof -
  let ?e = "detect_environment v"
  define g where "g = (case map_of d ?e of Some g \<Rightarrow> g
      | None \<Rightarrow> \<lparr>ag_name = env_value ?e @ ''-application'', ag_environment = ?e, ag_members = []\<rparr>)"
  define h where "h = g\<lparr>ag_members := AList.update (vm_name v) (detect_tier v) (ag_members g)\<rparr>"
  have step: "rule_step d v = AList.update ?e h d"
    by (simp add: rule_step_def h_def g_def Let_def)
  have dok: "dict_ok d" using assms by (simp add: rule_inv_def)
  have g: "ag_environment g = ?e \<and> dict_ok (ag_members g)
      \<and> (\<forall>n \<in> set (keys (ag_members g)). \<exists>v' \<in> set vms. vm_name v' = n \<and> detect_environment v' = ?e)"
  proof (cases "map_of d ?e")
    case (Some g')
    then have "(?e, g') \<in> set d" by (rule map_of_SomeD)
    with assms Some show ?thesis by (auto simp: rule_inv_def g_def)
  qed (simp add: g_def)
  have hk: "set (keys (ag_members h)) = insert (vm_name v) (set (keys (ag_members g)))"
  proof -
    have "ag_members h = AList.update (vm_name v) (detect_tier v) (ag_members g)" by (simp add: h_def)
    then show ?thesis by (simp only: keys_dict_update)
  qed
  have h: "ag_environment h = ?e \<and> dict_ok (ag_members h)"
    using g by (simp add: h_def)
  have ents: "(e, x) \<in> set (rule_step d v) \<Longrightarrow> e = ?e \<and> x = h \<or> e \<noteq> ?e \<and> (e, x) \<in> set d" for e x
  proof -
    assume a: "(e, x) \<in> set (rule_step d v)"
    have "dict_ok (rule_step d v)" unfolding step using dok by (rule dict_ok_update)
    then have "map_of (rule_step d v) e = Some x" using a by (simp add: map_of_eq_Some_iff)
    then show ?thesis unfolding step by (auto split: if_splits dest: map_of_SomeD)
  qed
  have "\<forall>(e, x) \<in> set (rule_step d v). ag_environment x = e \<and> dict_ok (ag_members x)
      \<and> (\<forall>n \<in> set (keys (ag_members x)). \<exists>v' \<in> set (vms @ [v]). vm_name v' = n \<and> detect_environment v' = e)"
  proof (clarify, intro conjI)
    fix e x
    assume "(e, x) \<in> set (rule_step d v)"
    then have c: "e = ?e \<and> x = h \<or> e \<noteq> ?e \<and> (e, x) \<in> set d" by (rule ents)
    show "ag_environment x = e" and "dict_ok (ag_members x)"
      using c h assms by (auto simp: rule_inv_def)
    show "\<forall>n \<in> set (keys (ag_members x)). \<exists>v' \<in> set (vms @ [v]). vm_name v' = n \<and> detect_environment v' = e"
    proof
      fix n
      assume n: "n \<in> set (keys (ag_members x))"
      show "\<exists>v' \<in> set (vms @ [v]). vm_name v' = n \<and> detect_environment v' = e"
        using c
      proof (elim disjE conjE)
        assume e: "e = ?e" "x = h"
        then have "n = vm_name v \<or> n \<in> set (keys (ag_members g))" using n hk by blast
        then show ?thesis using g e by auto
      next
        assume "(e, x) \<in> set d"
        then show ?thesis using n assms by (fastforce simp: rule_inv_def)
      qed
    qed
  qed
  moreover have "\<exists>g. map_of (rule_step d v) (detect_environment v') = Some g \<and> vm_name v' \<in> set (keys (ag_members g))"
    if "v' \<in> set (vms @ [v])" for v'
  proof (cases "detect_environment v' = ?e")
    case True
    have "vm_name v' \<in> set (keys (ag_members h))"
    proof (cases "v' = v")
      case True
      then show ?thesis unfolding hk by simp
    next
      case False
      then have "v' \<in> set vms" using that by simp
      then have "vm_name v' \<in> set (keys (ag_members g))"
        using assms True by (fastforce simp: rule_inv_def g_def)
      then show ?thesis unfolding hk by simp
    qed
    then show ?thesis unfolding step using True by simp
  next
    case False
    then have "v' \<in> set vms" using that by auto
    then show ?thesis using assms False unfolding step by (auto simp: rule_inv_def)
  qed
  ultimately show ?thesis
    using dict_ok_update [OF dok] by (simp add: rule_inv_def step)
qed

lemma rule_fold_inv: "rule_inv (foldl rule_step [] vms) vms"
proof (induction vms rule: rev_induct)
  case Nil
  then show ?case by (simp add: rule_inv_def)
next
  case (snoc v vms)
  then show ?case using rule_step_inv by simp
qed


lemma rule_invD:
  assumes "rule_inv d vms" and "(e, g) \<in> set d"
  shows "dict_ok (ag_members g)"
    and "n \<in> set (keys (ag_members g)) \<Longrightarrow> \<exists>v \<in> set vms. vm_name v = n \<and> detect_environment v = e"
proof -
  have "case (e, g) of (e, g) \<Rightarrow> ag_environment g = e \<and> dict_ok (ag_members g)
      \<and> (\<forall>n \<in> set (keys (ag_members g)). \<exists>v \<in> set vms. vm_name v = n \<and> detect_environment v = e)"
    using assms(1) [unfolded rule_inv_def, THEN conjunct2, THEN conjunct1] assms(2) by (rule bspec)
  then show "dict_ok (ag_members g)"
    and "n \<in> set (keys (ag_members g)) \<Longrightarrow> \<exists>v \<in> set vms. vm_name v = n \<and> detect_environment v = e"
    by (simp_all only: case_prod_conv)
qed

lemma rule_members_unique:
  assumes inv: "rule_inv d vms" and names: "distinct (map vm_name vms)"
    and d: "(e, g) \<in> set d" "(e', g') \<in> set d"
    and n: "n \<in> set (keys (ag_members g))" "n \<in> set (keys (ag_members g'))"
  shows "e = e'"
proof -
  obtain v where v: "v \<in> set vms" "vm_name v = n" "detect_environment v = e"
    using rule_invD(2) [OF inv d(1) n(1)] by blast
  obtain w where w: "w \<in> set vms" "vm_name w = n" "detect_environment w = e'"
    using rule_invD(2) [OF inv d(2) n(2)] by blast
  have "v = w" using names v w by (metis (mono_tags, lifting) distinct_map inj_onD)
  then show ?thesis using v w by simp
qed

lemma rule_members_disjoint:
  assumes inv: "rule_inv d vms" and names: "distinct (map vm_name vms)"
  shows "distinct (concat (map (\<lambda>(e, g). keys (ag_members g)) d))"
proof -
  have "distinct (concat (map (\<lambda>(e, g). keys (ag_members g)) d'))"
    if "set d' \<subseteq> set d" "dict_ok d'" for d'
    using that
  proof (induction d')
    case (Cons eg d')
    obtain e g where eg: "eg = (e, g)" by (cases eg)
    have d: "(e, g) \<in> set d" and sub: "set d' \<subseteq> set d" using Cons.prems(1) eg by auto
    have "n \<notin> set (keys (ag_members g'))"
      if "n \<in> set (keys (ag_members g))" "(e', g') \<in> set d'" for n e' g'
    proof
      assume "n \<in> set (keys (ag_members g'))"
      then have "e = e'"
        using rule_members_unique [OF inv names d _ that(1)] that(2) sub by blast
      then show False using Cons.prems(2) that(2) by (force simp: eg)
    qed
    then have "set (keys (ag_members g)) \<inter> (\<Union>(e, g) \<in> set d'. set (keys (ag_members g))) = {}"
      by blast
    then have "set (keys (ag_members g)) \<inter> set (concat (map (\<lambda>(e, g). keys (ag_members g)) d')) = {}"
      by (simp add: case_prod_unfold)
    then show ?case
      using rule_invD(1) [OF inv d] Cons.IH sub Cons.prems(2)
      by (simp add: eg del: set_map set_concat)
  qed simp
  then show ?thesis using inv by (simp add: rule_inv_def)
qed

lemma partitions_perm: "mset gs = mset gs' \<Longrightarrow> partitions gs ns \<Longrightarrow> partitions gs' ns"
proof -
  assume m: "mset gs = mset gs'" and p: "partitions gs ns"
  have "mset (group_names gs) = mset (group_names gs')"
  proof -
    have "mset (group_names xs) = (\<Sum>g \<in># mset xs. mset (keys (ag_members g)))" for xs
      by (induction xs) (simp_all add: group_names_def)
    then show ?thesis using m by simp
  qed
  then show ?thesis using p unfolding partitions_def
    by (metis mset_eq_imp_distinct_iff mset_eq_setD)
qed

lemma rule_classify_partitions:
  assumes "distinct (map vm_name vms)"
  shows "partitions (rule_classify vms) (vm_name ` set vms)"
proof -
  let ?d = "foldl rule_step [] vms"
  have inv: "rule_inv ?d vms" by (rule rule_fold_inv)
  have gn: "group_names (map snd ?d) = concat (map (\<lambda>(e, g). keys (ag_members g)) ?d)"
    by (simp add: group_names_def case_prod_unfold o_def)
  have "set (group_names (map snd ?d)) = vm_name ` set vms"
  proof
    show "set (group_names (map snd ?d)) \<subseteq> vm_name ` set vms"
      using inv unfolding gn by (fastforce simp: rule_inv_def)
    show "vm_name ` set vms \<subseteq> set (group_names (map snd ?d))"
    proof
      fix n
      assume "n \<in> vm_name ` set vms"
      then obtain v g where "v \<in> set vms" "n = vm_name v" "map_of ?d (detect_environment v) = Some g"
        "n \<in> set (keys (ag_members g))" using inv by (fastforce simp: rule_inv_def)
      then show "n \<in> set (group_names (map snd ?d))"
        unfolding gn by (force dest: map_of_SomeD)
    qed
  qed
  then have "partitions (map snd ?d) (vm_name ` set vms)"
    using rule_members_disjoint [OF inv assms] by (simp add: partitions_def gn)
  then show ?thesis
    unfolding rule_classify_def by (rule partitions_perm [rotated]) simp
qed

lemma take_members_spec:
  "take_members known ms assigned members = (members', assigned') \<Longrightarrow>
    dict_ok members \<Longrightarrow> set (keys members) \<subseteq> assigned \<Longrightarrow>
    dict_ok members' \<and> set (keys members') \<inter> assigned = set (keys members)
      \<and> assigned' = assigned \<union> set (keys members')
      \<and> set (keys members') \<subseteq> set (keys members) \<union> known"
proof (induction ms arbitrary: assigned members)
  case Nil
  then show ?case by auto
next
  case (Cons m ms)
  obtain n tr where m: "m = (n, tr)" by (cases m)
  show ?case
  proof (cases "n \<in> known \<and> n \<notin> assigned")
    case True
    let ?u = "AList.update n tr members"
    have k: "set (keys ?u) = insert n (set (keys members))" by (rule keys_dict_update)
    have t: "take_members known ms (insert n assigned) ?u = (members', assigned')"
      using Cons.prems(1) True m by simp
    have sub: "set (keys ?u) \<subseteq> insert n assigned"
      unfolding k using Cons.prems(3) by (rule insert_mono)
    note ih = Cons.IH [OF t dict_ok_update [OF Cons.prems(2)] sub, unfolded k]
    have nA: "n \<notin> assigned" and nK: "n \<in> known" using True by auto
    let ?M = "set (keys members)" and ?M' = "set (keys members')"
    have i: "?M' \<inter> insert n assigned = insert n ?M" using ih by (elim conjE)
    then have n: "n \<in> ?M'" by blast
    have "?M' \<inter> assigned = ?M' \<inter> insert n assigned \<inter> assigned" by blast
    also have "\<dots> = ?M" unfolding i using nA Cons.prems(3) by blast
    finally have "?M' \<inter> assigned = ?M" .
    moreover have "assigned' = assigned \<union> ?M'"
    proof -
      have "assigned' = insert n assigned \<union> ?M'" using ih by (elim conjE)
      with n show ?thesis by (simp only: Un_insert_left insert_absorb [of n] UnI2)
    qed
    moreover have "?M' \<subseteq> ?M \<union> known"
    proof -
      have "?M' \<subseteq> insert n ?M \<union> known" using ih by (elim conjE)
      with nK show ?thesis by (simp only: Un_insert_left insert_absorb [of n] UnI2)
    qed
    ultimately show ?thesis using ih [THEN conjunct1] by (intro conjI)
  next
    case False
    then have "take_members known ms assigned members = (members', assigned')"
      using Cons.prems(1) unfolding m take_members.simps if_not_P [OF False] by blast
    then show ?thesis using Cons.IH Cons.prems(2,3) by blast
  qed
qed

lemma take_groups_spec:
  "take_groups known gs assigned groups = (groups', assigned') \<Longrightarrow>
    distinct (group_names groups) \<Longrightarrow> set (group_names groups) = assigned \<Longrightarrow> assigned \<subseteq> known \<Longrightarrow>
    distinct (group_names groups') \<and> set (group_names groups') = assigned' \<and> assigned' \<subseteq> known"
proof (induction known gs assigned groups rule: take_groups.induct)
  case (1 known assigned groups)
  then show ?case by simp
next
  case (2 known g gs assigned groups)
  obtain members asg where t: "take_members known (wg_members g) assigned [] = (members, asg)"
    by fastforce
  from take_members_spec [OF t] have m: "dict_ok members" "set (keys members) \<inter> assigned = {}"
      "asg = assigned \<union> set (keys members)" "set (keys members) \<subseteq> known"
    by auto
  let ?groups = "if members = [] then groups
     else groups @ [\<lparr>ag_name = wg_name g, ag_environment = wg_environment g, ag_members = members\<rparr>]"
  have "distinct (group_names ?groups)" "set (group_names ?groups) = asg" "asg \<subseteq> known"
    using 2(3-5) m by (auto simp: group_names_def)
  moreover have "take_groups known gs asg ?groups = (groups', assigned')"
    using 2(2) t by simp
  ultimately show ?case using "2.IH" [OF t [symmetric] refl] by simp
qed

text \<open>
  Whatever the model answers (machines invented, repeated, left out, or no answer at all), the
  reconciled groups hold every machine of the inventory exactly once and nothing else.
\<close>

lemma llm_classify_partitions:
  assumes "distinct (map vm_name vms)"
  shows "partitions (llm_classify answer vms) (vm_name ` set vms)"
proof (cases "answer vms")
  case None
  then show ?thesis using rule_classify_partitions [OF assms] by (simp add: llm_classify_def)
next
  case (Some result)
  obtain groups assigned where t: "take_groups (set (map vm_name vms)) result {} [] = (groups, assigned)"
    by fastforce
  have g: "distinct (group_names groups)" "set (group_names groups) = assigned"
      "assigned \<subseteq> vm_name ` set vms"
    using take_groups_spec [OF t] by (auto simp: group_names_def)
  let ?missing = "filter (\<lambda>v. vm_name v \<notin> assigned) vms"
  have "distinct (map vm_name ?missing)" using assms by (simp add: distinct_map_filter)
  from rule_classify_partitions [OF this]
  have r: "partitions (rule_classify ?missing) (vm_name ` set ?missing)" .
  have "partitions (groups @ rule_classify ?missing) (vm_name ` set vms)"
    using g r by (auto simp: partitions_def group_names_def)
  moreover have "partitions groups (vm_name ` set vms)" if "?missing = []"
    using g that by (auto simp: partitions_def filter_empty_conv)
  ultimately show ?thesis using Some t
    by (cases "?missing = []") (simp_all add: llm_classify_def)
qed

text \<open>The flattened index then has one entry per machine, from the group that holds it.\<close>

lemma index_group_keys:
  "set (keys (index_group d g)) = set (keys d) \<union> set (keys (ag_members g))"
proof -
  have "set (keys (foldl (\<lambda>d (n, tr). AList.update n (tr, e) d) d ms)) = set (keys d) \<union> set (keys ms)"
    for e and ms :: "(string, tier) dict"
  proof (induction ms arbitrary: d)
    case (Cons nt ms)
    then show ?case by (cases nt) (simp add: dom_update)
  qed simp
  then show ?thesis by (simp only: index_group_def)
qed

lemma tier_env_index_keys: "set (keys (tier_env_index groups)) = set (group_names groups)"
proof -
  have "set (keys (foldl index_group d groups)) = set (keys d) \<union> set (group_names groups)" for d
    by (induction groups arbitrary: d) (auto simp: index_group_keys group_names_def simp del: set_map)
  then show ?thesis by (simp add: tier_env_index_def)
qed

context cloud_target
begin

lemma rule_rightsize_total:
  obtains s where "rule_rightsize tu T vm tr env = Some s" and "instance_exists T (sug_instance s)"
    and "sug_image s = t_image_key T (vm_os vm)"
proof -
  let ?d = "effective_demand tu vm"
  obtain i where "smallest_fit (t_catalog T) (d_vcpu ?d) (d_memory ?d) (d_headroom ?d) (t_family_for_tier T tr) = Some i"
      and "i \<in> set (t_catalog T)"
    using fit_exists by blast
  then show thesis
    by (intro that) (auto simp: rule_rightsize_def Let_def intro: mem_exists)
qed

end

end
