(* ===== verification/Target_Aws.thy ===== *)
theory Target_Aws
  imports TargetBase
begin

text \<open>
  \<open>targets/aws\<close>: its mapping tables, its catalog and the target record that
  \<open>AwsTarget\<close> assembles from them, with the interpretation of \<open>cloud_target\<close>.
\<close>

definition aws_catalog :: "instance_spec list" where
  "aws_catalog =
     [spec ''t3.micro'' 2 1 ''t3'' 0.0104,
      spec ''t3.small'' 2 2 ''t3'' 0.0208,
      spec ''t3.medium'' 2 4 ''t3'' 0.0416,
      spec ''t3.large'' 2 8 ''t3'' 0.0832,
      spec ''t3.xlarge'' 4 16 ''t3'' 0.1664,
      spec ''t3.2xlarge'' 8 32 ''t3'' 0.3328,
      spec ''m5.large'' 2 8 ''m5'' 0.096,
      spec ''m5.xlarge'' 4 16 ''m5'' 0.192,
      spec ''m5.2xlarge'' 8 32 ''m5'' 0.384,
      spec ''m5.4xlarge'' 16 64 ''m5'' 0.768,
      spec ''m5.8xlarge'' 32 128 ''m5'' 1.536,
      spec ''m5.12xlarge'' 48 192 ''m5'' 2.304,
      spec ''r5.large'' 2 16 ''r5'' 0.126,
      spec ''r5.xlarge'' 4 32 ''r5'' 0.252,
      spec ''r5.2xlarge'' 8 64 ''r5'' 0.504,
      spec ''r5.4xlarge'' 16 128 ''r5'' 1.008]"

definition aws_family_by_tier :: "(tier, string) dict" where
  "aws_family_by_tier = [(DATABASE, ''r5''), (CACHE, ''r5'')]"

definition aws_sg_by_tier :: "(tier, string) dict" where
  "aws_sg_by_tier =
     [(WEB, ''web-sg''), (APP, ''app-sg''), (DATABASE, ''db-sg''), (CACHE, ''cache-sg''), (OTHER, ''app-sg'')]"

definition aws_subnet_by_tier :: "(tier, subnet_tier) dict" where
  "aws_subnet_by_tier =
     [(WEB, PUBLIC), (APP, PRIVATE), (DATABASE, PRIVATE), (CACHE, PRIVATE), (OTHER, PRIVATE)]"

definition aws_vpc_cidr :: string where
  "aws_vpc_cidr = ''10.0.0.0/16''"

definition aws_default_ingress :: "(string, ingress_rule list) dict" where
  "aws_default_ingress =
     [(''web-sg'',
        [ingress ''HTTP'' 80 80 [''0.0.0.0/0''],
         ingress ''HTTPS'' 443 443 [''0.0.0.0/0'']]),
      (''app-sg'',
        [ingress ''App tier'' 8080 8080 [aws_vpc_cidr]]),
      (''db-sg'',
        [ingress ''PostgreSQL'' 5432 5432 [aws_vpc_cidr],
         ingress ''MySQL'' 3306 3306 [aws_vpc_cidr],
         ingress ''MSSQL'' 1433 1433 [aws_vpc_cidr]]),
      (''cache-sg'',
        [ingress ''Redis'' 6379 6379 [aws_vpc_cidr]])]"

definition aws_images :: "(string, (string, ref_value) dict) dict" where
  "aws_images =
     [(''amazon-linux-2'',
        [(''owners'', RList [''amazon'']),
         (''name'', RStr ''amzn2-ami-hvm-*-x86_64-gp2'')]),
      (''windows-2022'',
        [(''owners'', RList [''amazon'']),
         (''name'', RStr ''Windows_Server-2022-English-Full-Base-*'')]),
      (''windows-2019'',
        [(''owners'', RList [''amazon'']),
         (''name'', RStr ''Windows_Server-2019-English-Full-Base-*'')]),
      (''windows-2016'',
        [(''owners'', RList [''amazon'']),
         (''name'', RStr ''Windows_Server-2016-English-Full-Base-*'')]),
      (''ubuntu-22.04'',
        [(''owners'', RList [''099720109477'']),
         (''name'', RStr ''ubuntu/images/hvm-ssd/ubuntu-jammy-22.04-amd64-server-*'')]),
      (''rhel-9'',
        [(''owners'', RList [''309956199498'']),
         (''name'', RStr ''RHEL-9.*_HVM-*-x86_64-*'')]),
      (''rhel-8'',
        [(''owners'', RList [''309956199498'']),
         (''name'', RStr ''RHEL-8.*_HVM-*-x86_64-*'')]),
      (''sles-15'',
        [(''owners'', RList [''013907871322'']),
         (''name'', RStr ''suse-sles-15-sp*-v*-hvm-ssd-x86_64'')]),
      (''centos-7'',
        [(''owners'', RList [''125523088429'']),
         (''name'', RStr ''CentOS Linux 7*x86_64*'')])]"

definition aws_image_reference :: "string \<Rightarrow> (string, ref_value) dict" where
  "aws_image_reference key =
     (case map_of aws_images key of None \<Rightarrow> the (map_of aws_images ''amazon-linux-2'') | Some v \<Rightarrow> v)"

definition aws_image_key :: "string option \<Rightarrow> string" where
  "aws_image_key os_string =
     (case os_string of
        None \<Rightarrow> ''amazon-linux-2''
      | Some os \<Rightarrow>
          if os = [] then ''amazon-linux-2''
          else
            let s = lower os in
            if contains ''windows'' s then
              (if contains ''2019'' s then ''windows-2019''
               else if contains ''2016'' s then ''windows-2016'' else ''windows-2022'')
            else if contains ''red hat'' s \<or> contains ''rhel'' s then
              (if contains ''8'' s then ''rhel-8'' else ''rhel-9'')
            else if contains ''ubuntu'' s then ''ubuntu-22.04''
            else if contains ''suse'' s \<or> contains ''sles'' s then ''sles-15''
            else if contains ''centos'' s then ''centos-7''
            else ''amazon-linux-2'')"

definition AWS :: target where
  "AWS =
     \<lparr>t_name = ''aws'', t_default_region = ''us-east-1'', t_vpc_cidr = aws_vpc_cidr,
      t_capabilities = [''priced'', ''terraform'', ''pulumi'', ''gitops'', ''live_pricing'', ''brownfield_import''],
      t_template_map = AList.update ''imports.tf.j2'' ''imports.tf'' (AList.update ''images.tf.j2'' ''images.tf'' TEMPLATE_MAP),
      t_default_ingress = aws_default_ingress,
      t_catalog = aws_catalog,
      t_cost_of = catalog_cost aws_catalog,
      t_image_key = aws_image_key,
      t_image_reference = aws_image_reference,
      t_family_for_tier = map_of aws_family_by_tier,
      t_subnet_tier_for_tier =
        (\<lambda>tr. case map_of aws_subnet_by_tier tr of None \<Rightarrow> PRIVATE | Some s \<Rightarrow> s),
      t_sg_for_tier = (\<lambda>tr. case map_of aws_sg_by_tier tr of None \<Rightarrow> ''app-sg'' | Some g \<Rightarrow> g)\<rparr>"

lemmas aws_catalog_eval = aws_catalog_def spec_def

text \<open>Every key the detection returns has an image of its own; the fallback of the lookup is dead.\<close>

lemma aws_image_known: "aws_image_key os \<in> set (keys aws_images)"
  by (auto simp: aws_image_key_def aws_images_def Let_def split: option.splits)

interpretation aws: cloud_target AWS
proof
  show "t_catalog AWS \<noteq> []" by (simp add: AWS_def aws_catalog_eval)
  show "distinct (instance_names AWS)"
    by (simp add: instance_names_def AWS_def aws_catalog_eval)
  show "t_family_for_tier AWS tr = Some f \<Longrightarrow> f \<noteq> [] \<and> f \<in> i_family ` set (t_catalog AWS)" for tr f
    by (cases tr) (auto simp: AWS_def aws_family_by_tier_def aws_catalog_eval)
  show "\<exists>rules. map_of (t_default_ingress AWS) (t_sg_for_tier AWS tr) = Some rules \<and> rules \<noteq> []" for tr
    by (cases tr) (simp_all add: AWS_def aws_sg_by_tier_def aws_default_ingress_def)
  show "terraform_safe_name (t_sg_for_tier AWS a) = terraform_safe_name (t_sg_for_tier AWS b)
      \<Longrightarrow> t_sg_for_tier AWS a = t_sg_for_tier AWS b" for a b
    by (cases a; cases b) (simp_all add: AWS_def aws_sg_by_tier_def sg_label_eval)
  show "t_subnet_tier_for_tier AWS tr = (if tr = WEB then PUBLIC else PRIVATE)" for tr
    by (cases tr) (simp_all add: AWS_def aws_subnet_by_tier_def)
  show "\<forall>(g, rules) \<in> set (t_default_ingress AWS). \<forall>r \<in> set rules.
        in_cidrs r = (if g = t_sg_for_tier AWS WEB then [INTERNET] else [t_vpc_cidr AWS])"
    by (simp add: AWS_def aws_default_ingress_def aws_sg_by_tier_def ingress_def INTERNET_def)
  show "t_vpc_cidr AWS \<noteq> INTERNET" by (simp add: AWS_def aws_vpc_cidr_def INTERNET_def)
qed

end
