(* ===== verification/Target_Azure.thy ===== *)
theory Target_Azure
  imports TargetBase
begin

text \<open>
  \<open>targets/azure\<close>: its mapping tables, its catalog and the target record that
  \<open>AzureTarget\<close> assembles from them, with the interpretation of \<open>cloud_target\<close>.
\<close>

definition azure_catalog :: "instance_spec list" where
  "azure_catalog =
     [spec ''Standard_B2s'' 2 4 ''B'' 0.0416,
      spec ''Standard_D2as_v5'' 2 8 ''Das_v5'' 0.086,
      spec ''Standard_D4as_v5'' 4 16 ''Das_v5'' 0.172,
      spec ''Standard_D8as_v5'' 8 32 ''Das_v5'' 0.344,
      spec ''Standard_D16as_v5'' 16 64 ''Das_v5'' 0.688,
      spec ''Standard_D32as_v5'' 32 128 ''Das_v5'' 1.376,
      spec ''Standard_E2as_v5'' 2 16 ''Eas_v5'' 0.126,
      spec ''Standard_E4as_v5'' 4 32 ''Eas_v5'' 0.252,
      spec ''Standard_E8as_v5'' 8 64 ''Eas_v5'' 0.504,
      spec ''Standard_E16as_v5'' 16 128 ''Eas_v5'' 1.008]"

definition azure_family_by_tier :: "(tier, string) dict" where
  "azure_family_by_tier = [(DATABASE, ''Eas_v5''), (CACHE, ''Eas_v5'')]"

definition azure_sg_by_tier :: "(tier, string) dict" where
  "azure_sg_by_tier =
     [(WEB, ''web-nsg''), (APP, ''app-nsg''), (DATABASE, ''db-nsg''), (CACHE, ''cache-nsg''), (OTHER, ''app-nsg'')]"

definition azure_subnet_by_tier :: "(tier, subnet_tier) dict" where
  "azure_subnet_by_tier =
     [(WEB, PUBLIC), (APP, PRIVATE), (DATABASE, PRIVATE), (CACHE, PRIVATE), (OTHER, PRIVATE)]"

definition azure_vpc_cidr :: string where
  "azure_vpc_cidr = ''10.0.0.0/16''"

definition azure_default_ingress :: "(string, ingress_rule list) dict" where
  "azure_default_ingress =
     [(''web-nsg'',
        [ingress ''HTTP'' 80 80 [''0.0.0.0/0''],
         ingress ''HTTPS'' 443 443 [''0.0.0.0/0'']]),
      (''app-nsg'',
        [ingress ''App tier'' 8080 8080 [azure_vpc_cidr]]),
      (''db-nsg'',
        [ingress ''PostgreSQL'' 5432 5432 [azure_vpc_cidr],
         ingress ''MySQL'' 3306 3306 [azure_vpc_cidr],
         ingress ''MSSQL'' 1433 1433 [azure_vpc_cidr]]),
      (''cache-nsg'',
        [ingress ''Redis'' 6379 6379 [azure_vpc_cidr]])]"

definition azure_images :: "(string, (string, ref_value) dict) dict" where
  "azure_images =
     [(''ubuntu-22.04'',
        [(''publisher'', RStr ''Canonical''),
         (''offer'', RStr ''0001-com-ubuntu-server-jammy''),
         (''sku'', RStr ''22_04-lts-gen2'')]),
      (''rhel-9'',
        [(''publisher'', RStr ''RedHat''),
         (''offer'', RStr ''RHEL''),
         (''sku'', RStr ''9-lvm-gen2'')]),
      (''rhel-8'',
        [(''publisher'', RStr ''RedHat''),
         (''offer'', RStr ''RHEL''),
         (''sku'', RStr ''8-lvm-gen2'')]),
      (''sles-15'',
        [(''publisher'', RStr ''SUSE''),
         (''offer'', RStr ''sles-15-sp5''),
         (''sku'', RStr ''gen2'')]),
      (''centos-7'',
        [(''publisher'', RStr ''OpenLogic''),
         (''offer'', RStr ''CentOS''),
         (''sku'', RStr ''7_9-gen2'')]),
      (''windows-2022'',
        [(''publisher'', RStr ''MicrosoftWindowsServer''),
         (''offer'', RStr ''WindowsServer''),
         (''sku'', RStr ''2022-datacenter-azure-edition'')]),
      (''windows-2019'',
        [(''publisher'', RStr ''MicrosoftWindowsServer''),
         (''offer'', RStr ''WindowsServer''),
         (''sku'', RStr ''2019-datacenter-gensecond'')]),
      (''windows-2016'',
        [(''publisher'', RStr ''MicrosoftWindowsServer''),
         (''offer'', RStr ''WindowsServer''),
         (''sku'', RStr ''2016-datacenter-gensecond'')]),
      (''amazon-linux-2'',
        [(''publisher'', RStr ''Canonical''),
         (''offer'', RStr ''0001-com-ubuntu-server-jammy''),
         (''sku'', RStr ''22_04-lts-gen2'')])]"

definition azure_image_reference :: "string \<Rightarrow> (string, ref_value) dict" where
  "azure_image_reference key =
     (case map_of azure_images key of None \<Rightarrow> the (map_of azure_images ''ubuntu-22.04'') | Some v \<Rightarrow> v)"

definition azure_image_key :: "string option \<Rightarrow> string" where
  "azure_image_key os_string =
     (case os_string of
        None \<Rightarrow> ''ubuntu-22.04''
      | Some os \<Rightarrow>
          if os = [] then ''ubuntu-22.04''
          else
            let s = lower os in
            if contains ''windows'' s then
              (if contains ''2019'' s then ''windows-2019''
               else if contains ''2016'' s then ''windows-2016'' else ''windows-2022'')
            else if contains ''red hat'' s \<or> contains ''rhel'' s then
              (if contains ''8'' s then ''rhel-8'' else ''rhel-9'')
            else if contains ''ubuntu'' s then ''ubuntu-22.04''
            else if contains ''suse'' s \<or> contains ''sles'' s then ''sles-15''
            else if contains ''centos'' s then ''centos-7''
            else ''ubuntu-22.04'')"

definition AZURE :: target where
  "AZURE =
     \<lparr>t_name = ''azure'', t_default_region = ''eastus'', t_vpc_cidr = azure_vpc_cidr,
      t_capabilities = [''priced'', ''terraform'', ''pulumi'', ''gitops'', ''live_pricing''],
      t_template_map = TEMPLATE_MAP,
      t_default_ingress = azure_default_ingress,
      t_catalog = azure_catalog,
      t_cost_of = catalog_cost azure_catalog,
      t_image_key = azure_image_key,
      t_image_reference = azure_image_reference,
      t_family_for_tier = map_of azure_family_by_tier,
      t_subnet_tier_for_tier =
        (\<lambda>tr. case map_of azure_subnet_by_tier tr of None \<Rightarrow> PRIVATE | Some s \<Rightarrow> s),
      t_sg_for_tier = (\<lambda>tr. case map_of azure_sg_by_tier tr of None \<Rightarrow> ''app-nsg'' | Some g \<Rightarrow> g)\<rparr>"

lemmas azure_catalog_eval = azure_catalog_def spec_def

text \<open>Every key the detection returns has an image of its own; the fallback of the lookup is dead.\<close>

lemma azure_image_known: "azure_image_key os \<in> set (keys azure_images)"
  by (auto simp: azure_image_key_def azure_images_def Let_def split: option.splits)

interpretation azure: cloud_target AZURE
proof
  show "t_catalog AZURE \<noteq> []" by (simp add: AZURE_def azure_catalog_eval)
  show "distinct (instance_names AZURE)"
    by (simp add: instance_names_def AZURE_def azure_catalog_eval)
  show "t_family_for_tier AZURE tr = Some f \<Longrightarrow> f \<noteq> [] \<and> f \<in> i_family ` set (t_catalog AZURE)" for tr f
    by (cases tr) (auto simp: AZURE_def azure_family_by_tier_def azure_catalog_eval)
  show "\<exists>rules. map_of (t_default_ingress AZURE) (t_sg_for_tier AZURE tr) = Some rules \<and> rules \<noteq> []" for tr
    by (cases tr) (simp_all add: AZURE_def azure_sg_by_tier_def azure_default_ingress_def)
  show "terraform_safe_name (t_sg_for_tier AZURE a) = terraform_safe_name (t_sg_for_tier AZURE b)
      \<Longrightarrow> t_sg_for_tier AZURE a = t_sg_for_tier AZURE b" for a b
    by (cases a; cases b) (simp_all add: AZURE_def azure_sg_by_tier_def sg_label_eval)
  show "t_subnet_tier_for_tier AZURE tr = (if tr = WEB then PUBLIC else PRIVATE)" for tr
    by (cases tr) (simp_all add: AZURE_def azure_subnet_by_tier_def)
  show "\<forall>(g, rules) \<in> set (t_default_ingress AZURE). \<forall>r \<in> set rules.
        in_cidrs r = (if g = t_sg_for_tier AZURE WEB then [INTERNET] else [t_vpc_cidr AZURE])"
    by (simp add: AZURE_def azure_default_ingress_def azure_sg_by_tier_def ingress_def INTERNET_def)
  show "t_vpc_cidr AZURE \<noteq> INTERNET" by (simp add: AZURE_def azure_vpc_cidr_def INTERNET_def)
qed

end
