(* ===== verification/Target_Gcp.thy ===== *)
theory Target_Gcp
  imports TargetBase
begin

text \<open>
  \<open>targets/gcp\<close>: its mapping tables, its catalog and the target record that
  \<open>GcpTarget\<close> assembles from them, with the interpretation of \<open>cloud_target\<close>.
\<close>

definition gcp_catalog :: "instance_spec list" where
  "gcp_catalog =
     [spec ''e2-medium'' 2 4 ''e2'' 0.0335,
      spec ''e2-standard-2'' 2 8 ''e2-standard'' 0.067,
      spec ''e2-standard-4'' 4 16 ''e2-standard'' 0.134,
      spec ''e2-standard-8'' 8 32 ''e2-standard'' 0.268,
      spec ''e2-standard-16'' 16 64 ''e2-standard'' 0.536,
      spec ''e2-standard-32'' 32 128 ''e2-standard'' 1.072,
      spec ''n2-highmem-2'' 2 16 ''n2-highmem'' 0.131,
      spec ''n2-highmem-4'' 4 32 ''n2-highmem'' 0.262,
      spec ''n2-highmem-8'' 8 64 ''n2-highmem'' 0.524,
      spec ''n2-highmem-16'' 16 128 ''n2-highmem'' 1.048]"

definition gcp_family_by_tier :: "(tier, string) dict" where
  "gcp_family_by_tier = [(DATABASE, ''n2-highmem''), (CACHE, ''n2-highmem'')]"

definition gcp_sg_by_tier :: "(tier, string) dict" where
  "gcp_sg_by_tier =
     [(WEB, ''web-fw''), (APP, ''app-fw''), (DATABASE, ''db-fw''), (CACHE, ''cache-fw''), (OTHER, ''app-fw'')]"

definition gcp_subnet_by_tier :: "(tier, subnet_tier) dict" where
  "gcp_subnet_by_tier =
     [(WEB, PUBLIC), (APP, PRIVATE), (DATABASE, PRIVATE), (CACHE, PRIVATE), (OTHER, PRIVATE)]"

definition gcp_vpc_cidr :: string where
  "gcp_vpc_cidr = ''10.0.0.0/16''"

definition gcp_default_ingress :: "(string, ingress_rule list) dict" where
  "gcp_default_ingress =
     [(''web-fw'',
        [ingress ''HTTP'' 80 80 [''0.0.0.0/0''],
         ingress ''HTTPS'' 443 443 [''0.0.0.0/0'']]),
      (''app-fw'',
        [ingress ''App tier'' 8080 8080 [gcp_vpc_cidr]]),
      (''db-fw'',
        [ingress ''PostgreSQL'' 5432 5432 [gcp_vpc_cidr],
         ingress ''MySQL'' 3306 3306 [gcp_vpc_cidr],
         ingress ''MSSQL'' 1433 1433 [gcp_vpc_cidr]]),
      (''cache-fw'',
        [ingress ''Redis'' 6379 6379 [gcp_vpc_cidr]])]"

definition gcp_images :: "(string, string) dict" where
  "gcp_images =
     [(''ubuntu-22.04'', ''ubuntu-os-cloud/ubuntu-2204-lts''),
      (''rhel-9'', ''rhel-cloud/rhel-9''),
      (''rhel-8'', ''rhel-cloud/rhel-8''),
      (''sles-15'', ''suse-cloud/sles-15''),
      (''centos-7'', ''rocky-linux-cloud/rocky-linux-9''),
      (''windows-2022'', ''windows-cloud/windows-2022''),
      (''windows-2019'', ''windows-cloud/windows-2019''),
      (''windows-2016'', ''windows-cloud/windows-2016''),
      (''amazon-linux-2'', ''debian-cloud/debian-12'')]"

definition gcp_image_reference :: "string \<Rightarrow> (string, ref_value) dict" where
  "gcp_image_reference key =
     [(''image'', RStr (case map_of gcp_images key of None \<Rightarrow> the (map_of gcp_images ''ubuntu-22.04'') | Some v \<Rightarrow> v))]"

definition gcp_image_key :: "string option \<Rightarrow> string" where
  "gcp_image_key os_string =
     (case os_string of
        None \<Rightarrow> ''ubuntu-22.04''
      | Some os \<Rightarrow>
          if os = [] then ''ubuntu-22.04''
          else
            let s = lower os in
            if contains ''windows'' s then
              (if contains ''2019'' s then ''windows-2019''
               else if contains ''2016'' s then ''windows-2016'' else ''windows-2022'')
            else if contains ''red hat'' s \<or> contains ''rhel'' s then
              (if contains ''8'' s then ''rhel-8'' else ''rhel-9'')
            else if contains ''ubuntu'' s then ''ubuntu-22.04''
            else if contains ''suse'' s \<or> contains ''sles'' s then ''sles-15''
            else if contains ''centos'' s then ''centos-7''
            else ''ubuntu-22.04'')"

definition GCP :: target where
  "GCP =
     \<lparr>t_name = ''gcp'', t_default_region = ''us-central1'', t_vpc_cidr = gcp_vpc_cidr,
      t_capabilities = [''priced'', ''terraform'', ''pulumi'', ''gitops'', ''live_pricing''],
      t_template_map = TEMPLATE_MAP,
      t_default_ingress = gcp_default_ingress,
      t_catalog = gcp_catalog,
      t_cost_of = catalog_cost gcp_catalog,
      t_image_key = gcp_image_key,
      t_image_reference = gcp_image_reference,
      t_family_for_tier = map_of gcp_family_by_tier,
      t_subnet_tier_for_tier =
        (\<lambda>tr. case map_of gcp_subnet_by_tier tr of None \<Rightarrow> PRIVATE | Some s \<Rightarrow> s),
      t_sg_for_tier = (\<lambda>tr. case map_of gcp_sg_by_tier tr of None \<Rightarrow> ''app-fw'' | Some g \<Rightarrow> g)\<rparr>"

lemmas gcp_catalog_eval = gcp_catalog_def spec_def

text \<open>Every key the detection returns has an image of its own; the fallback of the lookup is dead.\<close>

lemma gcp_image_known: "gcp_image_key os \<in> set (keys gcp_images)"
  by (auto simp: gcp_image_key_def gcp_images_def Let_def split: option.splits)

interpretation gcp: cloud_target GCP
proof
  show "t_catalog GCP \<noteq> []" by (simp add: GCP_def gcp_catalog_eval)
  show "distinct (instance_names GCP)"
    by (simp add: instance_names_def GCP_def gcp_catalog_eval)
  show "t_family_for_tier GCP tr = Some f \<Longrightarrow> f \<noteq> [] \<and> f \<in> i_family ` set (t_catalog GCP)" for tr f
    by (cases tr) (auto simp: GCP_def gcp_family_by_tier_def gcp_catalog_eval)
  show "\<exists>rules. map_of (t_default_ingress GCP) (t_sg_for_tier GCP tr) = Some rules \<and> rules \<noteq> []" for tr
    by (cases tr) (simp_all add: GCP_def gcp_sg_by_tier_def gcp_default_ingress_def)
  show "terraform_safe_name (t_sg_for_tier GCP a) = terraform_safe_name (t_sg_for_tier GCP b)
      \<Longrightarrow> t_sg_for_tier GCP a = t_sg_for_tier GCP b" for a b
    by (cases a; cases b) (simp_all add: GCP_def gcp_sg_by_tier_def sg_label_eval)
  show "t_subnet_tier_for_tier GCP tr = (if tr = WEB then PUBLIC else PRIVATE)" for tr
    by (cases tr) (simp_all add: GCP_def gcp_subnet_by_tier_def)
  show "\<forall>(g, rules) \<in> set (t_default_ingress GCP). \<forall>r \<in> set rules.
        in_cidrs r = (if g = t_sg_for_tier GCP WEB then [INTERNET] else [t_vpc_cidr GCP])"
    by (simp add: GCP_def gcp_default_ingress_def gcp_sg_by_tier_def ingress_def INTERNET_def)
  show "t_vpc_cidr GCP \<noteq> INTERNET" by (simp add: GCP_def gcp_vpc_cidr_def INTERNET_def)
qed

end
