(* ===== verification/Target_Oci.thy ===== *)
theory Target_Oci
  imports TargetBase
begin

text \<open>
  \<open>targets/oci\<close>: its mapping tables, its catalog and the target record that
  \<open>OciTarget\<close> assembles from them, with the interpretation of \<open>cloud_target\<close>.
\<close>

definition oci_e4 :: "int \<Rightarrow> rat \<Rightarrow> instance_spec" where
  "oci_e4 ocpu mem_gb =
     (let price = round_dp 4 (of_int ocpu * 0.025 + mem_gb * 0.0015)
      in spec (''VM.Standard.E4.Flex-'' @ str_of_int ocpu @ ''x'' @ str_of_int \<lfloor>mem_gb\<rfloor>) ocpu mem_gb
           ''E4.Flex'' price)"

definition oci_e5 :: "int \<Rightarrow> rat \<Rightarrow> instance_spec" where
  "oci_e5 ocpu mem_gb =
     (let price = round_dp 4 (of_int ocpu * 0.03 + mem_gb * 0.0017)
      in spec (''VM.Standard.E5.Flex-'' @ str_of_int ocpu @ ''x'' @ str_of_int \<lfloor>mem_gb\<rfloor>) ocpu mem_gb
           ''E5.Flex'' price)"

definition oci_catalog :: "instance_spec list" where
  "oci_catalog =
     [oci_e4 1 4,
      oci_e4 2 8,
      oci_e4 4 16,
      oci_e4 8 32,
      oci_e4 16 64,
      oci_e4 32 128,
      oci_e5 2 16,
      oci_e5 4 32,
      oci_e5 8 64,
      oci_e5 16 128]"

definition oci_family_by_tier :: "(tier, string) dict" where
  "oci_family_by_tier = [(DATABASE, ''E5.Flex''), (CACHE, ''E5.Flex'')]"

definition oci_sg_by_tier :: "(tier, string) dict" where
  "oci_sg_by_tier =
     [(WEB, ''web-nsg''), (APP, ''app-nsg''), (DATABASE, ''db-nsg''), (CACHE, ''cache-nsg''), (OTHER, ''app-nsg'')]"

definition oci_subnet_by_tier :: "(tier, subnet_tier) dict" where
  "oci_subnet_by_tier =
     [(WEB, PUBLIC), (APP, PRIVATE), (DATABASE, PRIVATE), (CACHE, PRIVATE), (OTHER, PRIVATE)]"

definition oci_vpc_cidr :: string where
  "oci_vpc_cidr = ''10.0.0.0/16''"

definition oci_default_ingress :: "(string, ingress_rule list) dict" where
  "oci_default_ingress =
     [(''web-nsg'',
        [ingress ''HTTP'' 80 80 [''0.0.0.0/0''],
         ingress ''HTTPS'' 443 443 [''0.0.0.0/0'']]),
      (''app-nsg'',
        [ingress ''App tier'' 8080 8080 [oci_vpc_cidr]]),
      (''db-nsg'',
        [ingress ''PostgreSQL'' 5432 5432 [oci_vpc_cidr],
         ingress ''MySQL'' 3306 3306 [oci_vpc_cidr],
         ingress ''MSSQL'' 1433 1433 [oci_vpc_cidr]]),
      (''cache-nsg'',
        [ingress ''Redis'' 6379 6379 [oci_vpc_cidr]])]"

definition oci_images :: "(string, (string, ref_value) dict) dict" where
  "oci_images =
     [(''ubuntu-22.04'',
        [(''operating_system'', RStr ''Canonical Ubuntu''),
         (''operating_system_version'', RStr ''22.04'')]),
      (''rhel-9'',
        [(''operating_system'', RStr ''Oracle Linux''),
         (''operating_system_version'', RStr ''9'')]),
      (''rhel-8'',
        [(''operating_system'', RStr ''Oracle Linux''),
         (''operating_system_version'', RStr ''8'')]),
      (''sles-15'',
        [(''operating_system'', RStr ''SUSE Linux Enterprise Server''),
         (''operating_system_version'', RStr ''15'')]),
      (''centos-7'',
        [(''operating_system'', RStr ''Oracle Linux''),
         (''operating_system_version'', RStr ''9'')]),
      (''windows-2022'',
        [(''operating_system'', RStr ''Windows''),
         (''operating_system_version'', RStr ''Server 2022 Standard'')]),
      (''windows-2019'',
        [(''operating_system'', RStr ''Windows''),
         (''operating_system_version'', RStr ''Server 2019 Standard'')]),
      (''windows-2016'',
        [(''operating_system'', RStr ''Windows''),
         (''operating_system_version'', RStr ''Server 2016 Standard'')]),
      (''amazon-linux-2'',
        [(''operating_system'', RStr ''Oracle Linux''),
         (''operating_system_version'', RStr ''9'')])]"

definition oci_image_reference :: "string \<Rightarrow> (string, ref_value) dict" where
  "oci_image_reference key =
     (case map_of oci_images key of None \<Rightarrow> the (map_of oci_images ''ubuntu-22.04'') | Some v \<Rightarrow> v)"

definition oci_image_key :: "string option \<Rightarrow> string" where
  "oci_image_key os_string =
     (case os_string of
        None \<Rightarrow> ''ubuntu-22.04''
      | Some os \<Rightarrow>
          if os = [] then ''ubuntu-22.04''
          else
            let s = lower os in
            if contains ''windows'' s then
              (if contains ''2019'' s then ''windows-2019''
               else if contains ''2016'' s then ''windows-2016'' else ''windows-2022'')
            else if contains ''red hat'' s \<or> contains ''rhel'' s then
              (if contains ''8'' s then ''rhel-8'' else ''rhel-9'')
            else if contains ''ubuntu'' s then ''ubuntu-22.04''
            else if contains ''suse'' s \<or> contains ''sles'' s then ''sles-15''
            else if contains ''centos'' s then ''centos-7''
            else ''ubuntu-22.04'')"

definition OCI :: target where
  "OCI =
     \<lparr>t_name = ''oci'', t_default_region = ''us-ashburn-1'', t_vpc_cidr = oci_vpc_cidr,
      t_capabilities = [''priced'', ''terraform'', ''gitops''],
      t_template_map = AList.update ''images.tf.j2'' ''images.tf'' TEMPLATE_MAP,
      t_default_ingress = oci_default_ingress,
      t_catalog = oci_catalog,
      t_cost_of = catalog_cost oci_catalog,
      t_image_key = oci_image_key,
      t_image_reference = oci_image_reference,
      t_family_for_tier = map_of oci_family_by_tier,
      t_subnet_tier_for_tier =
        (\<lambda>tr. case map_of oci_subnet_by_tier tr of None \<Rightarrow> PRIVATE | Some s \<Rightarrow> s),
      t_sg_for_tier = (\<lambda>tr. case map_of oci_sg_by_tier tr of None \<Rightarrow> ''app-nsg'' | Some g \<Rightarrow> g)\<rparr>"

lemmas oci_catalog_eval = oci_catalog_def spec_def oci_e4_def oci_e5_def

lemma oci_names:
  "map i_name oci_catalog =
     [''VM.Standard.E4.Flex-1x4'',
      ''VM.Standard.E4.Flex-2x8'',
      ''VM.Standard.E4.Flex-4x16'',
      ''VM.Standard.E4.Flex-8x32'',
      ''VM.Standard.E4.Flex-16x64'',
      ''VM.Standard.E4.Flex-32x128'',
      ''VM.Standard.E5.Flex-2x16'',
      ''VM.Standard.E5.Flex-4x32'',
      ''VM.Standard.E5.Flex-8x64'',
      ''VM.Standard.E5.Flex-16x128'']"
  by code_simp

lemma oci_families:
  "map i_family oci_catalog = replicate 6 ''E4.Flex'' @ replicate 4 ''E5.Flex''"
  by code_simp

text \<open>Every key the detection returns has an image of its own; the fallback of the lookup is dead.\<close>

lemma oci_image_known: "oci_image_key os \<in> set (keys oci_images)"
  by (auto simp: oci_image_key_def oci_images_def Let_def split: option.splits)

interpretation oci: cloud_target OCI
proof
  show "t_catalog OCI \<noteq> []" by (simp add: OCI_def oci_catalog_def)
  show "distinct (instance_names OCI)"
    by (simp add: instance_names_def OCI_def oci_names)
  show "t_family_for_tier OCI tr = Some f \<Longrightarrow> f \<noteq> [] \<and> f \<in> i_family ` set (t_catalog OCI)" for tr f
    proof -
    assume "t_family_for_tier OCI tr = Some f"
    then have "f = ''E5.Flex''"
      by (cases tr) (simp_all add: OCI_def oci_family_by_tier_def)
    moreover have "i_family ` set oci_catalog = set (map i_family oci_catalog)" by simp
    ultimately show "f \<noteq> [] \<and> f \<in> i_family ` set (t_catalog OCI)"
      unfolding oci_families by (simp add: OCI_def)
  qed
  show "\<exists>rules. map_of (t_default_ingress OCI) (t_sg_for_tier OCI tr) = Some rules \<and> rules \<noteq> []" for tr
    by (cases tr) (simp_all add: OCI_def oci_sg_by_tier_def oci_default_ingress_def)
  show "terraform_safe_name (t_sg_for_tier OCI a) = terraform_safe_name (t_sg_for_tier OCI b)
      \<Longrightarrow> t_sg_for_tier OCI a = t_sg_for_tier OCI b" for a b
    by (cases a; cases b) (simp_all add: OCI_def oci_sg_by_tier_def sg_label_eval)
  show "t_subnet_tier_for_tier OCI tr = (if tr = WEB then PUBLIC else PRIVATE)" for tr
    by (cases tr) (simp_all add: OCI_def oci_subnet_by_tier_def)
  show "\<forall>(g, rules) \<in> set (t_default_ingress OCI). \<forall>r \<in> set rules.
        in_cidrs r = (if g = t_sg_for_tier OCI WEB then [INTERNET] else [t_vpc_cidr OCI])"
    by (simp add: OCI_def oci_default_ingress_def oci_sg_by_tier_def ingress_def INTERNET_def)
  show "t_vpc_cidr OCI \<noteq> INTERNET" by (simp add: OCI_def oci_vpc_cidr_def INTERNET_def)
qed

end
