(* ===== verification/Target_DigitalOcean.thy ===== *)
theory Target_DigitalOcean
  imports TargetBase
begin

text \<open>
  \<open>targets/digitalocean\<close>: its mapping tables, its catalog and the target record that
  \<open>DigitalOceanTarget\<close> assembles from them, with the interpretation of \<open>cloud_target\<close>.
\<close>

definition do_catalog :: "instance_spec list" where
  "do_catalog =
     [spec ''s-1vcpu-1gb'' 1 1 ''s'' 0.0082,
      spec ''s-1vcpu-2gb'' 1 2 ''s'' 0.0164,
      spec ''s-2vcpu-2gb'' 2 2 ''s'' 0.0247,
      spec ''s-2vcpu-4gb'' 2 4 ''s'' 0.0329,
      spec ''s-4vcpu-8gb'' 4 8 ''s'' 0.0658,
      spec ''s-8vcpu-16gb'' 8 16 ''s'' 0.1315,
      spec ''m-2vcpu-16gb'' 2 16 ''m'' 0.1151,
      spec ''m-4vcpu-32gb'' 4 32 ''m'' 0.2301,
      spec ''m-8vcpu-64gb'' 8 64 ''m'' 0.4603]"

definition do_family_by_tier :: "(tier, string) dict" where
  "do_family_by_tier = [(DATABASE, ''m''), (CACHE, ''m'')]"

definition do_sg_by_tier :: "(tier, string) dict" where
  "do_sg_by_tier =
     [(WEB, ''web-fw''), (APP, ''app-fw''), (DATABASE, ''db-fw''), (CACHE, ''cache-fw''), (OTHER, ''app-fw'')]"

definition do_subnet_by_tier :: "(tier, subnet_tier) dict" where
  "do_subnet_by_tier =
     [(WEB, PUBLIC), (APP, PRIVATE), (DATABASE, PRIVATE), (CACHE, PRIVATE), (OTHER, PRIVATE)]"

definition do_vpc_cidr :: string where
  "do_vpc_cidr = ''10.0.0.0/16''"

definition do_default_ingress :: "(string, ingress_rule list) dict" where
  "do_default_ingress =
     [(''web-fw'',
        [ingress ''HTTP'' 80 80 [''0.0.0.0/0''],
         ingress ''HTTPS'' 443 443 [''0.0.0.0/0'']]),
      (''app-fw'',
        [ingress ''App tier'' 8080 8080 [do_vpc_cidr]]),
      (''db-fw'',
        [ingress ''PostgreSQL'' 5432 5432 [do_vpc_cidr],
         ingress ''MySQL'' 3306 3306 [do_vpc_cidr],
         ingress ''MSSQL'' 1433 1433 [do_vpc_cidr]]),
      (''cache-fw'',
        [ingress ''Redis'' 6379 6379 [do_vpc_cidr]])]"

definition do_images :: "(string, string) dict" where
  "do_images =
     [(''ubuntu-22.04'', ''ubuntu-22-04-x64''),
      (''rhel-9'', ''rockylinux-9-x64''),
      (''rhel-8'', ''rockylinux-8-x64''),
      (''sles-15'', ''ubuntu-22-04-x64''),
      (''centos-7'', ''rockylinux-9-x64''),
      (''windows-2022'', ''ubuntu-22-04-x64''),
      (''windows-2019'', ''ubuntu-22-04-x64''),
      (''windows-2016'', ''ubuntu-22-04-x64''),
      (''amazon-linux-2'', ''ubuntu-22-04-x64'')]"

definition do_image_reference :: "string \<Rightarrow> (string, ref_value) dict" where
  "do_image_reference key =
     [(''slug'', RStr (case map_of do_images key of None \<Rightarrow> the (map_of do_images ''ubuntu-22.04'') | Some v \<Rightarrow> v))]"

definition do_image_key :: "string option \<Rightarrow> string" where
  "do_image_key os_string =
     (case os_string of
        None \<Rightarrow> ''ubuntu-22.04''
      | Some os \<Rightarrow>
          if os = [] then ''ubuntu-22.04''
          else
            let s = lower os in
            if contains ''windows'' s then
              ''ubuntu-22.04''
            else if contains ''red hat'' s \<or> contains ''rhel'' s then
              (if contains ''8'' s then ''rhel-8'' else ''rhel-9'')
            else if contains ''ubuntu'' s then ''ubuntu-22.04''
            else if contains ''suse'' s \<or> contains ''sles'' s then ''sles-15''
            else if contains ''centos'' s then ''centos-7''
            else ''ubuntu-22.04'')"

definition DIGITALOCEAN :: target where
  "DIGITALOCEAN =
     \<lparr>t_name = ''digitalocean'', t_default_region = ''nyc3'', t_vpc_cidr = do_vpc_cidr,
      t_capabilities = [''priced'', ''terraform'', ''gitops''],
      t_template_map = TEMPLATE_MAP,
      t_default_ingress = do_default_ingress,
      t_catalog = do_catalog,
      t_cost_of = catalog_cost do_catalog,
      t_image_key = do_image_key,
      t_image_reference = do_image_reference,
      t_family_for_tier = map_of do_family_by_tier,
      t_subnet_tier_for_tier =
        (\<lambda>tr. case map_of do_subnet_by_tier tr of None \<Rightarrow> PRIVATE | Some s \<Rightarrow> s),
      t_sg_for_tier = (\<lambda>tr. case map_of do_sg_by_tier tr of None \<Rightarrow> ''app-fw'' | Some g \<Rightarrow> g)\<rparr>"

lemmas do_catalog_eval = do_catalog_def spec_def

text \<open>Every key the detection returns has an image of its own; the fallback of the lookup is dead.\<close>

lemma do_image_known: "do_image_key os \<in> set (keys do_images)"
  by (auto simp: do_image_key_def do_images_def Let_def split: option.splits)

interpretation do: cloud_target DIGITALOCEAN
proof
  show "t_catalog DIGITALOCEAN \<noteq> []" by (simp add: DIGITALOCEAN_def do_catalog_eval)
  show "distinct (instance_names DIGITALOCEAN)"
    by (simp add: instance_names_def DIGITALOCEAN_def do_catalog_eval)
  show "t_family_for_tier DIGITALOCEAN tr = Some f \<Longrightarrow> f \<noteq> [] \<and> f \<in> i_family ` set (t_catalog DIGITALOCEAN)" for tr f
    by (cases tr) (auto simp: DIGITALOCEAN_def do_family_by_tier_def do_catalog_eval)
  show "\<exists>rules. map_of (t_default_ingress DIGITALOCEAN) (t_sg_for_tier DIGITALOCEAN tr) = Some rules \<and> rules \<noteq> []" for tr
    by (cases tr) (simp_all add: DIGITALOCEAN_def do_sg_by_tier_def do_default_ingress_def)
  show "terraform_safe_name (t_sg_for_tier DIGITALOCEAN a) = terraform_safe_name (t_sg_for_tier DIGITALOCEAN b)
      \<Longrightarrow> t_sg_for_tier DIGITALOCEAN a = t_sg_for_tier DIGITALOCEAN b" for a b
    by (cases a; cases b) (simp_all add: DIGITALOCEAN_def do_sg_by_tier_def sg_label_eval)
  show "t_subnet_tier_for_tier DIGITALOCEAN tr = (if tr = WEB then PUBLIC else PRIVATE)" for tr
    by (cases tr) (simp_all add: DIGITALOCEAN_def do_subnet_by_tier_def)
  show "\<forall>(g, rules) \<in> set (t_default_ingress DIGITALOCEAN). \<forall>r \<in> set rules.
        in_cidrs r = (if g = t_sg_for_tier DIGITALOCEAN WEB then [INTERNET] else [t_vpc_cidr DIGITALOCEAN])"
    by (simp add: DIGITALOCEAN_def do_default_ingress_def do_sg_by_tier_def ingress_def INTERNET_def)
  show "t_vpc_cidr DIGITALOCEAN \<noteq> INTERNET" by (simp add: DIGITALOCEAN_def do_vpc_cidr_def INTERNET_def)
qed

end
