(* ===== verification/OnPrem.thy ===== *)
theory OnPrem
  imports TargetBase
begin

text \<open>\<open>targets/_onprem.py\<close>: the grid of sizes the two hypervisor targets share, all priced zero.\<close>

definition onprem_catalog :: "instance_spec list" where
  "onprem_catalog =
     [spec ''std-1x4'' 1 4 ''std'' 0,
      spec ''std-2x8'' 2 8 ''std'' 0,
      spec ''std-4x16'' 4 16 ''std'' 0,
      spec ''std-8x32'' 8 32 ''std'' 0,
      spec ''std-16x64'' 16 64 ''std'' 0,
      spec ''std-32x128'' 32 128 ''std'' 0,
      spec ''std-64x256'' 64 256 ''std'' 0,
      spec ''mem-2x16'' 2 16 ''mem'' 0,
      spec ''mem-4x32'' 4 32 ''mem'' 0,
      spec ''mem-8x64'' 8 64 ''mem'' 0,
      spec ''mem-16x128'' 16 128 ''mem'' 0,
      spec ''mem-32x256'' 32 256 ''mem'' 0]"

end
