(* ===== verification/Target_Nutanix.thy ===== *)
theory Target_Nutanix
  imports OnPrem
begin

text \<open>
  \<open>targets/nutanix\<close>: its mapping tables and the target record that
  \<open>NutanixTarget\<close> assembles from them, with the interpretation of \<open>cloud_target\<close>.
\<close>

definition ntx_family_by_tier :: "(tier, string) dict" where
  "ntx_family_by_tier = [(DATABASE, ''mem''), (CACHE, ''mem'')]"

definition ntx_sg_by_tier :: "(tier, string) dict" where
  "ntx_sg_by_tier =
     [(WEB, ''web''), (APP, ''app''), (DATABASE, ''db''), (CACHE, ''cache''), (OTHER, ''app'')]"

definition ntx_subnet_by_tier :: "(tier, subnet_tier) dict" where
  "ntx_subnet_by_tier =
     [(WEB, PUBLIC), (APP, PRIVATE), (DATABASE, PRIVATE), (CACHE, PRIVATE), (OTHER, PRIVATE)]"

definition ntx_vpc_cidr :: string where
  "ntx_vpc_cidr = ''10.0.0.0/16''"

definition ntx_default_ingress :: "(string, ingress_rule list) dict" where
  "ntx_default_ingress =
     [(''web'',
        [ingress ''HTTP'' 80 80 [''0.0.0.0/0''],
         ingress ''HTTPS'' 443 443 [''0.0.0.0/0'']]),
      (''app'',
        [ingress ''App tier'' 8080 8080 [ntx_vpc_cidr]]),
      (''db'',
        [ingress ''PostgreSQL'' 5432 5432 [ntx_vpc_cidr],
         ingress ''MySQL'' 3306 3306 [ntx_vpc_cidr],
         ingress ''MSSQL'' 1433 1433 [ntx_vpc_cidr]]),
      (''cache'',
        [ingress ''Redis'' 6379 6379 [ntx_vpc_cidr]])]"

definition ntx_images :: "(string, string) dict" where
  "ntx_images =
     [(''ubuntu-22.04'', ''image_ubuntu_22_04''),
      (''rhel-9'', ''image_rhel_9''),
      (''rhel-8'', ''image_rhel_8''),
      (''sles-15'', ''image_sles_15''),
      (''centos-7'', ''image_centos_7''),
      (''windows-2022'', ''image_windows_2022''),
      (''windows-2019'', ''image_windows_2019''),
      (''windows-2016'', ''image_windows_2016''),
      (''amazon-linux-2'', ''image_ubuntu_22_04'')]"

definition ntx_image_reference :: "string \<Rightarrow> (string, ref_value) dict" where
  "ntx_image_reference key =
     [(''variable'', RStr (case map_of ntx_images key of None \<Rightarrow> the (map_of ntx_images ''ubuntu-22.04'') | Some v \<Rightarrow> v))]"

definition ntx_image_key :: "string option \<Rightarrow> string" where
  "ntx_image_key os_string =
     (case os_string of
        None \<Rightarrow> ''ubuntu-22.04''
      | Some os \<Rightarrow>
          if os = [] then ''ubuntu-22.04''
          else
            let s = lower os in
            if contains ''windows'' s then
              (if contains ''2022'' s then ''windows-2022''
               else if contains ''2016'' s then ''windows-2016'' else ''windows-2019'')
            else if contains ''red hat'' s \<or> contains ''rhel'' s then
              (if contains ''8'' s then ''rhel-8'' else ''rhel-9'')
            else if contains ''ubuntu'' s then ''ubuntu-22.04''
            else if contains ''suse'' s \<or> contains ''sles'' s then ''sles-15''
            else if contains ''centos'' s then ''centos-7''
            else ''ubuntu-22.04'')"

definition NUTANIX :: target where
  "NUTANIX =
     \<lparr>t_name = ''nutanix'', t_default_region = ''cluster-01'', t_vpc_cidr = ntx_vpc_cidr,
      t_capabilities = [''terraform'', ''gitops''],
      t_template_map = TEMPLATE_MAP,
      t_default_ingress = ntx_default_ingress,
      t_catalog = onprem_catalog,
      t_cost_of = (\<lambda>_. 0),
      t_image_key = ntx_image_key,
      t_image_reference = ntx_image_reference,
      t_family_for_tier = map_of ntx_family_by_tier,
      t_subnet_tier_for_tier =
        (\<lambda>tr. case map_of ntx_subnet_by_tier tr of None \<Rightarrow> PRIVATE | Some s \<Rightarrow> s),
      t_sg_for_tier = (\<lambda>tr. case map_of ntx_sg_by_tier tr of None \<Rightarrow> ''app'' | Some g \<Rightarrow> g)\<rparr>"

text \<open>Every key the detection returns has an image of its own; the fallback of the lookup is dead.\<close>

lemma ntx_image_known: "ntx_image_key os \<in> set (keys ntx_images)"
  by (auto simp: ntx_image_key_def ntx_images_def Let_def split: option.splits)

interpretation ntx: cloud_target NUTANIX
proof
  show "t_catalog NUTANIX \<noteq> []" by (simp add: NUTANIX_def onprem_catalog_def spec_def)
  show "distinct (instance_names NUTANIX)"
    by (simp add: instance_names_def NUTANIX_def onprem_catalog_def spec_def)
  show "t_family_for_tier NUTANIX tr = Some f \<Longrightarrow> f \<noteq> [] \<and> f \<in> i_family ` set (t_catalog NUTANIX)" for tr f
    by (cases tr) (auto simp: NUTANIX_def ntx_family_by_tier_def onprem_catalog_def spec_def)
  show "\<exists>rules. map_of (t_default_ingress NUTANIX) (t_sg_for_tier NUTANIX tr) = Some rules \<and> rules \<noteq> []" for tr
    by (cases tr) (simp_all add: NUTANIX_def ntx_sg_by_tier_def ntx_default_ingress_def)
  show "terraform_safe_name (t_sg_for_tier NUTANIX a) = terraform_safe_name (t_sg_for_tier NUTANIX b)
      \<Longrightarrow> t_sg_for_tier NUTANIX a = t_sg_for_tier NUTANIX b" for a b
    by (cases a; cases b) (simp_all add: NUTANIX_def ntx_sg_by_tier_def sg_label_eval)
  show "t_subnet_tier_for_tier NUTANIX tr = (if tr = WEB then PUBLIC else PRIVATE)" for tr
    by (cases tr) (simp_all add: NUTANIX_def ntx_subnet_by_tier_def)
  show "\<forall>(g, rules) \<in> set (t_default_ingress NUTANIX). \<forall>r \<in> set rules.
        in_cidrs r = (if g = t_sg_for_tier NUTANIX WEB then [INTERNET] else [t_vpc_cidr NUTANIX])"
    by (simp add: NUTANIX_def ntx_default_ingress_def ntx_sg_by_tier_def ingress_def INTERNET_def)
  show "t_vpc_cidr NUTANIX \<noteq> INTERNET" by (simp add: NUTANIX_def ntx_vpc_cidr_def INTERNET_def)
qed

end
