(* ===== verification/Target_Proxmox.thy ===== *)
theory Target_Proxmox
  imports OnPrem
begin

text \<open>
  \<open>targets/proxmox\<close>: its mapping tables and the target record that
  \<open>ProxmoxTarget\<close> assembles from them, with the interpretation of \<open>cloud_target\<close>.
\<close>

definition pve_family_by_tier :: "(tier, string) dict" where
  "pve_family_by_tier = [(DATABASE, ''mem''), (CACHE, ''mem'')]"

definition pve_sg_by_tier :: "(tier, string) dict" where
  "pve_sg_by_tier =
     [(WEB, ''web''), (APP, ''app''), (DATABASE, ''db''), (CACHE, ''cache''), (OTHER, ''app'')]"

definition pve_subnet_by_tier :: "(tier, subnet_tier) dict" where
  "pve_subnet_by_tier =
     [(WEB, PUBLIC), (APP, PRIVATE), (DATABASE, PRIVATE), (CACHE, PRIVATE), (OTHER, PRIVATE)]"

definition pve_vpc_cidr :: string where
  "pve_vpc_cidr = ''10.0.0.0/16''"

definition pve_default_ingress :: "(string, ingress_rule list) dict" where
  "pve_default_ingress =
     [(''web'',
        [ingress ''HTTP'' 80 80 [''0.0.0.0/0''],
         ingress ''HTTPS'' 443 443 [''0.0.0.0/0'']]),
      (''app'',
        [ingress ''App tier'' 8080 8080 [pve_vpc_cidr]]),
      (''db'',
        [ingress ''PostgreSQL'' 5432 5432 [pve_vpc_cidr],
         ingress ''MySQL'' 3306 3306 [pve_vpc_cidr],
         ingress ''MSSQL'' 1433 1433 [pve_vpc_cidr]]),
      (''cache'',
        [ingress ''Redis'' 6379 6379 [pve_vpc_cidr]])]"

definition pve_images :: "(string, string) dict" where
  "pve_images =
     [(''ubuntu-22.04'', ''template_ubuntu_22_04''),
      (''rhel-9'', ''template_rhel_9''),
      (''rhel-8'', ''template_rhel_8''),
      (''sles-15'', ''template_sles_15''),
      (''centos-7'', ''template_centos_7''),
      (''windows-2022'', ''template_windows_2022''),
      (''windows-2019'', ''template_windows_2019''),
      (''windows-2016'', ''template_windows_2016''),
      (''amazon-linux-2'', ''template_ubuntu_22_04'')]"

definition pve_os_type :: "(string, string) dict" where
  "pve_os_type = [(''windows-2022'', ''win11''), (''windows-2019'', ''win10''), (''windows-2016'', ''win10'')]"

definition pve_image_reference :: "string \<Rightarrow> (string, ref_value) dict" where
  "pve_image_reference key =
     [(''variable'', RStr (case map_of pve_images key of None \<Rightarrow> the (map_of pve_images ''ubuntu-22.04'') | Some v \<Rightarrow> v)),
      (''ostype'', RStr (case map_of pve_os_type key of None \<Rightarrow> ''l26'' | Some v \<Rightarrow> v))]"

definition pve_image_key :: "string option \<Rightarrow> string" where
  "pve_image_key os_string =
     (case os_string of
        None \<Rightarrow> ''ubuntu-22.04''
      | Some os \<Rightarrow>
          if os = [] then ''ubuntu-22.04''
          else
            let s = lower os in
            if contains ''windows'' s then
              (if contains ''2022'' s then ''windows-2022''
               else if contains ''2016'' s then ''windows-2016'' else ''windows-2019'')
            else if contains ''red hat'' s \<or> contains ''rhel'' s then
              (if contains ''8'' s then ''rhel-8'' else ''rhel-9'')
            else if contains ''ubuntu'' s then ''ubuntu-22.04''
            else if contains ''suse'' s \<or> contains ''sles'' s then ''sles-15''
            else if contains ''centos'' s then ''centos-7''
            else ''ubuntu-22.04'')"

definition PROXMOX :: target where
  "PROXMOX =
     \<lparr>t_name = ''proxmox'', t_default_region = ''pve-01'', t_vpc_cidr = pve_vpc_cidr,
      t_capabilities = [''terraform'', ''gitops''],
      t_template_map = TEMPLATE_MAP,
      t_default_ingress = pve_default_ingress,
      t_catalog = onprem_catalog,
      t_cost_of = (\<lambda>_. 0),
      t_image_key = pve_image_key,
      t_image_reference = pve_image_reference,
      t_family_for_tier = map_of pve_family_by_tier,
      t_subnet_tier_for_tier =
        (\<lambda>tr. case map_of pve_subnet_by_tier tr of None \<Rightarrow> PRIVATE | Some s \<Rightarrow> s),
      t_sg_for_tier = (\<lambda>tr. case map_of pve_sg_by_tier tr of None \<Rightarrow> ''app'' | Some g \<Rightarrow> g)\<rparr>"

text \<open>Every key the detection returns has an image of its own; the fallback of the lookup is dead.\<close>

lemma pve_image_known: "pve_image_key os \<in> set (keys pve_images)"
  by (auto simp: pve_image_key_def pve_images_def Let_def split: option.splits)

interpretation pve: cloud_target PROXMOX
proof
  show "t_catalog PROXMOX \<noteq> []" by (simp add: PROXMOX_def onprem_catalog_def spec_def)
  show "distinct (instance_names PROXMOX)"
    by (simp add: instance_names_def PROXMOX_def onprem_catalog_def spec_def)
  show "t_family_for_tier PROXMOX tr = Some f \<Longrightarrow> f \<noteq> [] \<and> f \<in> i_family ` set (t_catalog PROXMOX)" for tr f
    by (cases tr) (auto simp: PROXMOX_def pve_family_by_tier_def onprem_catalog_def spec_def)
  show "\<exists>rules. map_of (t_default_ingress PROXMOX) (t_sg_for_tier PROXMOX tr) = Some rules \<and> rules \<noteq> []" for tr
    by (cases tr) (simp_all add: PROXMOX_def pve_sg_by_tier_def pve_default_ingress_def)
  show "terraform_safe_name (t_sg_for_tier PROXMOX a) = terraform_safe_name (t_sg_for_tier PROXMOX b)
      \<Longrightarrow> t_sg_for_tier PROXMOX a = t_sg_for_tier PROXMOX b" for a b
    by (cases a; cases b) (simp_all add: PROXMOX_def pve_sg_by_tier_def sg_label_eval)
  show "t_subnet_tier_for_tier PROXMOX tr = (if tr = WEB then PUBLIC else PRIVATE)" for tr
    by (cases tr) (simp_all add: PROXMOX_def pve_subnet_by_tier_def)
  show "\<forall>(g, rules) \<in> set (t_default_ingress PROXMOX). \<forall>r \<in> set rules.
        in_cidrs r = (if g = t_sg_for_tier PROXMOX WEB then [INTERNET] else [t_vpc_cidr PROXMOX])"
    by (simp add: PROXMOX_def pve_default_ingress_def pve_sg_by_tier_def ingress_def INTERNET_def)
  show "t_vpc_cidr PROXMOX \<noteq> INTERNET" by (simp add: PROXMOX_def pve_vpc_cidr_def INTERNET_def)
qed

end
