(* ===== verification/Targets.thy ===== *)
theory Targets
  imports Target_Aws Target_Azure Target_Gcp Target_Oci Target_DigitalOcean Target_Nutanix Target_Proxmox
begin

text \<open>
  \<open>targets/__init__.py\<close>: the registry of the seven targets, keyed by name. \<open>Inl\<close> is
  \<open>UnknownTargetError\<close>, with the names it lists.
\<close>

definition REGISTRY :: "(string, target) dict" where
  "REGISTRY =
     [(t_name AWS, AWS), (t_name AZURE, AZURE), (t_name GCP, GCP), (t_name OCI, OCI),
      (t_name DIGITALOCEAN, DIGITALOCEAN), (t_name NUTANIX, NUTANIX), (t_name PROXMOX, PROXMOX)]"

datatype target_error = UnknownTarget string "string list"

definition list_targets :: "string list" where
  "list_targets = sort (keys REGISTRY)"

definition get_target :: "string \<Rightarrow> target_error + target" where
  "get_target n =
     (case map_of REGISTRY n of Some t \<Rightarrow> Inr t | None \<Rightarrow> Inl (UnknownTarget n list_targets))"

lemma registry_targets:
  "map snd REGISTRY = [AWS, AZURE, GCP, OCI, DIGITALOCEAN, NUTANIX, PROXMOX]"
  by (simp add: REGISTRY_def)

lemma registry_names:
  "keys REGISTRY = [''aws'', ''azure'', ''gcp'', ''oci'', ''digitalocean'', ''nutanix'', ''proxmox'']"
  by (simp add: REGISTRY_def AWS_def AZURE_def GCP_def OCI_def DIGITALOCEAN_def NUTANIX_def
      PROXMOX_def)

text \<open>Every registered target meets the contract the pipeline relies on.\<close>

lemma registered_cloud_target: "(n, t) \<in> set REGISTRY \<Longrightarrow> cloud_target t"
  using aws.cloud_target_axioms azure.cloud_target_axioms gcp.cloud_target_axioms
    oci.cloud_target_axioms do.cloud_target_axioms ntx.cloud_target_axioms pve.cloud_target_axioms
  by (auto simp: REGISTRY_def)

lemma get_target_cloud: "get_target n = Inr t \<Longrightarrow> cloud_target t"
  by (auto simp: get_target_def split: option.splits dest: map_of_SomeD registered_cloud_target)

lemma registered_vpc: "(n, t) \<in> set REGISTRY \<Longrightarrow> t_vpc_cidr t = ''10.0.0.0/16''"
  by (auto simp: REGISTRY_def AWS_def AZURE_def GCP_def OCI_def DIGITALOCEAN_def NUTANIX_def
      PROXMOX_def aws_vpc_cidr_def azure_vpc_cidr_def gcp_vpc_cidr_def oci_vpc_cidr_def
      do_vpc_cidr_def ntx_vpc_cidr_def pve_vpc_cidr_def)

lemma get_target_vpc: "get_target n = Inr t \<Longrightarrow> t_vpc_cidr t = ''10.0.0.0/16''"
  by (auto simp: get_target_def split: option.splits dest: map_of_SomeD registered_vpc)

lemma get_target_name: "get_target n = Inr t \<Longrightarrow> t_name t = n"
  by (auto simp: get_target_def REGISTRY_def split: option.splits if_splits)

end
