(* ===== verification/Pricing.thy ===== *)
theory Pricing
  imports Targets
begin

text \<open>
  \<open>pricing.py\<close>: catalog rates by default, live rates through three cloud-specific fetchers, an
  on-disk cache and a circuit breaker per cloud. The HTTP and SDK calls are the fields of a
  \<open>world\<close>; the world and the clock readings may differ at every lookup, so \<open>pricing_env\<close> indexes
  them by the lookup's number \<open>ps_tick\<close>.
\<close>

record az_item =
  az_unit :: string
  az_product :: string
  az_sku :: string
  az_meter :: string
  az_price :: rat

record gcp_sku =
  gs_usage_type :: string
  gs_resource_family :: string
  gs_regions :: "string list"
  gs_description :: string
  gs_unit_price :: "rat option"

text \<open>
  \<open>w_azure\<close> is \<open>_azure_items\<close> on the conjunction of \<open>field eq value\<close> tests that makes the OData
  filter; \<open>w_aws service filters max\<close> the price dimensions (unit, USD) of the matching products in
  order; \<open>w_gcp token\<close> one page of SKUs and the next token. \<open>None\<close> is any exception of the call.
\<close>

record world =
  w_azure :: "(string, string) dict \<Rightarrow> az_item list option"
  w_aws :: "string \<Rightarrow> (string, string) dict \<Rightarrow> nat \<Rightarrow> (string \<times> rat) list option"
  w_gcp_key :: "string option"
  w_gcp :: "string \<Rightarrow> (gcp_sku list \<times> string) option"

subsection \<open>Fetchers\<close>

definition AWS_LOCATION :: "(string, string) dict" where
  "AWS_LOCATION =
     [(''us-east-1'', ''US East (N. Virginia)''), (''us-east-2'', ''US East (Ohio)''),
      (''us-west-2'', ''US West (Oregon)''), (''eu-west-1'', ''EU (Ireland)''),
      (''eu-central-1'', ''EU (Frankfurt)''), (''ap-south-1'', ''Asia Pacific (Mumbai)'')]"

fun min_opt :: "rat list \<Rightarrow> rat option" where
  "min_opt [] = None"
| "min_opt (x # xs) = Some (foldl min x xs)"

definition azure_vm_hourly :: "world \<Rightarrow> string \<Rightarrow> string \<Rightarrow> bool \<Rightarrow> rat option" where
  "azure_vm_hourly w instance_type region windows =
     (case w_azure w [(''serviceName'', ''Virtual Machines''), (''armRegionName'', region),
                      (''armSkuName'', instance_type), (''priceType'', ''Consumption'')] of
        None \<Rightarrow> None
      | Some items \<Rightarrow>
          min_opt (map az_price (filter (\<lambda>i.
            az_unit i = ''1 Hour'' \<and> contains ''Windows'' (az_product i) = windows
            \<and> \<not> contains ''Spot'' (az_sku i) \<and> \<not> contains ''Low Priority'' (az_sku i)
            \<and> az_price i \<noteq> 0) items)))"

definition azure_hourly :: "world \<Rightarrow> string \<Rightarrow> string \<Rightarrow> rat option" where
  "azure_hourly w instance_type region = azure_vm_hourly w instance_type region False"

text \<open>The first positive price among the dimensions, of the wanted unit when one is named.\<close>

fun first_usd :: "string option \<Rightarrow> (string \<times> rat) list \<Rightarrow> rat option" where
  "first_usd u [] = None"
| "first_usd u ((unit, usd) # dims) =
     (if (case u of None \<Rightarrow> True | Some x \<Rightarrow> unit = x) \<and> 0 < usd then Some usd else first_usd u dims)"

definition aws_first_usd ::
  "world \<Rightarrow> string \<Rightarrow> (string, string) dict \<Rightarrow> string option \<Rightarrow> nat \<Rightarrow> rat option" where
  "aws_first_usd w service filters u max_results =
     (case w_aws w service filters max_results of None \<Rightarrow> None | Some dims \<Rightarrow> first_usd u dims)"

definition aws_ec2_hourly :: "world \<Rightarrow> string \<Rightarrow> string \<Rightarrow> bool \<Rightarrow> rat option" where
  "aws_ec2_hourly w instance_type location windows =
     (let filters =
        [(''instanceType'', instance_type), (''location'', location),
         (''operatingSystem'', if windows then ''Windows'' else ''Linux''), (''tenancy'', ''Shared''),
         (''preInstalledSw'', ''NA''), (''capacitystatus'', ''Used'')];
          filters = (if windows then AList.update ''licenseModel'' ''No License required'' filters
                     else filters)
      in aws_first_usd w ''AmazonEC2'' filters None 1)"

definition aws_hourly :: "world \<Rightarrow> string \<Rightarrow> string \<Rightarrow> rat option" where
  "aws_hourly w instance_type region =
     (case map_of AWS_LOCATION region of
        None \<Rightarrow> None
      | Some location \<Rightarrow> aws_ec2_hourly w instance_type location False)"

definition upper :: "string \<Rightarrow> string" where
  "upper = map (\<lambda>c. if is_ascii_lower c then char_of (code c - 32) else c)"

definition gcp_family :: "string \<Rightarrow> string option" where
  "gcp_family instance_type =
     (let head = strip (hd (split_on CHR ''-'' instance_type))
      in if head = [] then None else Some (upper head))"

fun gcp_find_price :: "gcp_sku list \<Rightarrow> string \<Rightarrow> string \<Rightarrow> string \<Rightarrow> rat option" where
  "gcp_find_price [] region phrase family = None"
| "gcp_find_price (sku # skus) region phrase family =
     (if gs_usage_type sku = ''OnDemand'' \<and> gs_resource_family sku = family
         \<and> (region \<in> set (gs_regions sku) \<or> ''global'' \<in> set (gs_regions sku))
         \<and> contains phrase (gs_description sku)
         \<and> \<not> contains ''Sole Tenancy'' (gs_description sku)
         \<and> \<not> contains ''Custom'' (gs_description sku)
         \<and> gs_unit_price sku \<noteq> None
      then gs_unit_price sku
      else gcp_find_price skus region phrase family)"

text \<open>At most twenty pages; a failed call keeps what was read.\<close>

fun gcp_pages :: "nat \<Rightarrow> world \<Rightarrow> string \<Rightarrow> gcp_sku list \<Rightarrow> gcp_sku list" where
  "gcp_pages 0 w token skus = skus"
| "gcp_pages (Suc n) w token skus =
     (case w_gcp w token of
        None \<Rightarrow> skus
      | Some (page, next_token) \<Rightarrow>
          if next_token = [] then skus @ page else gcp_pages n w next_token (skus @ page))"

definition gcp_fetch_skus :: "world \<Rightarrow> gcp_sku list" where
  "gcp_fetch_skus w = gcp_pages 20 w [] []"

definition gcp_hourly :: "world \<Rightarrow> string \<Rightarrow> string \<Rightarrow> rat option" where
  "gcp_hourly w instance_type region =
     (if w_gcp_key w = None \<or> w_gcp_key w = Some [] then None
      else case gcp_family instance_type of
             None \<Rightarrow> None
           | Some family \<Rightarrow>
               (case spec_of GCP instance_type of
                  None \<Rightarrow> None
                | Some sp \<Rightarrow>
                    let skus = gcp_fetch_skus w in
                    if skus = [] then None
                    else case (gcp_find_price skus region (family @ '' Instance Core running'') ''Compute'',
                               gcp_find_price skus region (family @ '' Instance Ram running'') ''Compute'') of
                           (Some core, Some ram) \<Rightarrow>
                             Some (round_dp 6 (of_int (i_vcpu sp) * core + i_memory sp * ram))
                         | _ \<Rightarrow> None))"

subsection \<open>Line rates\<close>

definition RATE_STORAGE :: string where "RATE_STORAGE = ''storage''"
definition RATE_WINDOWS :: string where "RATE_WINDOWS = ''windows_licensing''"
definition RATE_LB :: string where "RATE_LB = ''load_balancers''"
definition LINE_RATES :: "string list" where "LINE_RATES = [RATE_STORAGE, RATE_WINDOWS, RATE_LB]"

definition uplift :: "rat option \<Rightarrow> rat option \<Rightarrow> int \<Rightarrow> rat option" where
  "uplift windows_hr linux_hr vcpu =
     (case (windows_hr, linux_hr) of
        (Some wh, Some lh) \<Rightarrow> if wh \<le> lh then None else Some (round_dp 6 ((wh - lh) / of_int vcpu))
      | _ \<Rightarrow> None)"

definition azure_line_rate :: "world \<Rightarrow> string \<Rightarrow> string \<Rightarrow> rat option" where
  "azure_line_rate w kind region =
     (if kind = RATE_STORAGE then
        let sku = ''E10 LRS'';
            items = (case w_azure w [(''serviceName'', ''Storage''), (''armRegionName'', region),
                       (''skuName'', sku), (''meterName'', sku @ '' Disk''),
                       (''priceType'', ''Consumption'')] of None \<Rightarrow> [] | Some is \<Rightarrow> is);
            prices = map az_price (filter (\<lambda>i. az_meter i = sku @ '' Disk''
                       \<and> az_unit i = ''1/Month'' \<and> az_price i \<noteq> 0) items)
        in (case min_opt prices of None \<Rightarrow> None | Some p \<Rightarrow> Some (round_dp 6 (p / 128)))
      else if kind = RATE_WINDOWS then
        uplift (azure_vm_hourly w ''Standard_D2s_v5'' region True)
               (azure_vm_hourly w ''Standard_D2s_v5'' region False) 2
      else if kind = RATE_LB then
        let items = (case w_azure w [(''serviceName'', ''Load Balancer''), (''armRegionName'', ''Global''),
                       (''meterName'', ''Standard Included LB Rules and Outbound Rules''),
                       (''priceType'', ''Consumption'')] of None \<Rightarrow> [] | Some is \<Rightarrow> is);
            prices = map az_price (filter (\<lambda>i. az_unit i = ''1 Hour'' \<and> az_price i \<noteq> 0) items)
        in (case min_opt prices of None \<Rightarrow> None | Some p \<Rightarrow> Some (round_dp 2 (p * HOURS_PER_MONTH)))
      else None)"

definition aws_line_rate :: "world \<Rightarrow> string \<Rightarrow> string \<Rightarrow> rat option" where
  "aws_line_rate w kind region =
     (case map_of AWS_LOCATION region of
        None \<Rightarrow> None
      | Some location \<Rightarrow>
          if kind = RATE_STORAGE then
            aws_first_usd w ''AmazonEC2''
              [(''productFamily'', ''Storage''), (''volumeApiName'', ''gp3''), (''location'', location)] None 1
          else if kind = RATE_WINDOWS then
            uplift (aws_ec2_hourly w ''m5.large'' location True)
                   (aws_ec2_hourly w ''m5.large'' location False) 2
          else if kind = RATE_LB then
            (case aws_first_usd w ''AWSELB''
                    [(''productFamily'', ''Load Balancer-Application''), (''location'', location)]
                    (Some ''Hrs'') 10 of
               None \<Rightarrow> None | Some hourly \<Rightarrow> Some (round_dp 2 (hourly * HOURS_PER_MONTH)))
          else None)"

definition gcp_line_rate :: "world \<Rightarrow> string \<Rightarrow> string \<Rightarrow> rat option" where
  "gcp_line_rate w kind region =
     (if w_gcp_key w = None \<or> w_gcp_key w = Some [] \<or> kind \<notin> set LINE_RATES then None
      else let skus = gcp_fetch_skus w in
           if skus = [] then None
           else if kind = RATE_STORAGE then gcp_find_price skus region ''Balanced PD Capacity'' ''Storage''
           else if kind = RATE_WINDOWS then
             gcp_find_price skus region ''Datacenter Edition (CPU cost)'' ''License''
           else case gcp_find_price skus region ''Forwarding Rule Minimum Service Charge'' ''Network'' of
                  None \<Rightarrow> None | Some hourly \<Rightarrow> Some (round_dp 2 (hourly * HOURS_PER_MONTH)))"

subsection \<open>Cache and circuit breaker\<close>

record pricing_state =
  ps_cache :: "(string, rat \<times> rat) dict"
  ps_breakers :: "(string, nat \<times> rat) dict"
  ps_tick :: nat

text \<open>
  The readings of the \<open>n\<close>-th lookup: the wall clock and the monotonic clock (one reading of each per
  lookup), whether the cache file can be read and written, and the outside world.
\<close>

record pricing_env =
  pe_time :: "nat \<Rightarrow> rat"
  pe_monotonic :: "nat \<Rightarrow> rat"
  pe_readable :: "nat \<Rightarrow> bool"
  pe_writable :: "nat \<Rightarrow> bool"
  pe_world :: "nat \<Rightarrow> world"

definition CACHE_TTL_S :: rat where "CACHE_TTL_S = 24 * 3600"
definition BREAKER_THRESHOLD :: nat where "BREAKER_THRESHOLD = 3"
definition BREAKER_RESET_S :: rat where "BREAKER_RESET_S = 300"

definition cache_get :: "rat \<Rightarrow> (string, rat \<times> rat) dict \<Rightarrow> string \<Rightarrow> rat option" where
  "cache_get now cache key =
     (case map_of cache key of
        None \<Rightarrow> None
      | Some (price, stamp) \<Rightarrow> if now - stamp < CACHE_TTL_S then Some price else None)"

definition breaker_open :: "rat \<Rightarrow> (string, nat \<times> rat) dict \<Rightarrow> string \<Rightarrow> bool" where
  "breaker_open now breakers cloud =
     (case map_of breakers cloud of
        None \<Rightarrow> False
      | Some (fails, opened) \<Rightarrow> if fails < BREAKER_THRESHOLD then False else now - opened < BREAKER_RESET_S)"

definition record_failure :: "rat \<Rightarrow> string \<Rightarrow> (string, nat \<times> rat) dict \<Rightarrow> (string, nat \<times> rat) dict" where
  "record_failure now cloud breakers =
     (let (fails, opened) = (case map_of breakers cloud of None \<Rightarrow> (0, 0) | Some s \<Rightarrow> s)
      in AList.update cloud
           (fails + 1, if BREAKER_THRESHOLD \<le> fails + 1 then now else opened) breakers)"

definition record_success :: "string \<Rightarrow> (string, nat \<times> rat) dict \<Rightarrow> (string, nat \<times> rat) dict" where
  "record_success cloud breakers = AList.delete cloud breakers"

definition FETCHERS :: "(string, world \<Rightarrow> string \<Rightarrow> string \<Rightarrow> rat option) dict" where
  "FETCHERS = [(''azure'', azure_hourly), (''aws'', aws_hourly), (''gcp'', gcp_hourly)]"

definition RATE_FETCHERS :: "(string, world \<Rightarrow> string \<Rightarrow> string \<Rightarrow> rat option) dict" where
  "RATE_FETCHERS = [(''azure'', azure_line_rate), (''aws'', aws_line_rate), (''gcp'', gcp_line_rate)]"

text \<open>
  The common shape of \<open>live_hourly\<close> and \<open>live_line_rate\<close>: the cache first, then the breaker, then
  the fetcher \<open>fetch\<close> (\<open>None\<close> when the cloud has none).
\<close>

definition live_lookup ::
  "pricing_env \<Rightarrow> string \<Rightarrow> string \<Rightarrow> (world \<Rightarrow> rat option) option \<Rightarrow> pricing_state
    \<Rightarrow> rat option \<times> pricing_state" where
  "live_lookup env key breaker fetch st =
     (let n = ps_tick st;
          st = st\<lparr>ps_tick := n + 1\<rparr>;
          cache = (if pe_readable env n then ps_cache st else [])
      in case cache_get (pe_time env n) cache key of
           Some price \<Rightarrow> (Some price, st)
         | None \<Rightarrow>
             (case fetch of
                None \<Rightarrow> (None, st)
              | Some f \<Rightarrow>
                  if breaker_open (pe_monotonic env n) (ps_breakers st) breaker then (None, st)
                  else case f (pe_world env n) of
                         None \<Rightarrow>
                           (None, st\<lparr>ps_breakers :=
                              record_failure (pe_monotonic env n) breaker (ps_breakers st)\<rparr>)
                       | Some price \<Rightarrow>
                           (Some price, st\<lparr>ps_breakers := record_success breaker (ps_breakers st),
                              ps_cache := if pe_writable env n
                                          then AList.update key (price, pe_time env n) cache
                                          else ps_cache st\<rparr>)))"

definition live_hourly ::
  "pricing_env \<Rightarrow> string \<Rightarrow> string \<Rightarrow> string \<Rightarrow> pricing_state \<Rightarrow> rat option \<times> pricing_state" where
  "live_hourly env cloud instance_type region =
     live_lookup env (cloud @ '':'' @ region @ '':'' @ instance_type) cloud
       (map_option (\<lambda>f w. f w instance_type region) (map_of FETCHERS cloud))"

definition live_line_rate ::
  "pricing_env \<Rightarrow> string \<Rightarrow> string \<Rightarrow> string \<Rightarrow> pricing_state \<Rightarrow> rat option \<times> pricing_state" where
  "live_line_rate env cloud kind region =
     live_lookup env (cloud @ '':'' @ region @ '':rate:'' @ kind) (cloud @ '':rates'')
       (if kind \<in> set LINE_RATES
        then map_option (\<lambda>f w. f w kind region) (map_of RATE_FETCHERS cloud) else None)"

definition monthly_cost ::
  "pricing_env \<Rightarrow> string \<Rightarrow> string \<Rightarrow> string \<Rightarrow> rat \<Rightarrow> bool \<Rightarrow> pricing_state
    \<Rightarrow> (rat \<times> string) \<times> pricing_state" where
  "monthly_cost env cloud instance_type region static_monthly live st =
     (if live then
        (case live_hourly env cloud instance_type region st of
           (Some hr, st) \<Rightarrow> ((round_dp 2 (hr * HOURS_PER_MONTH), ''live''), st)
         | (None, st) \<Rightarrow> ((static_monthly, ''static''), st))
      else ((static_monthly, ''static''), st))"

subsection \<open>Facts\<close>

definition fails_of :: "pricing_state \<Rightarrow> string \<Rightarrow> nat" where
  "fails_of st b = (case map_of (ps_breakers st) b of None \<Rightarrow> 0 | Some (n, _) \<Rightarrow> n)"

lemma monthly_cost_static: "monthly_cost env cl i r s False st = ((s, ''static''), st)"
  by (simp add: monthly_cost_def)

lemma monthly_cost_source:
  "snd (fst (monthly_cost env cl i r s live st)) = ''live'' \<or>
   fst (monthly_cost env cl i r s live st) = (s, ''static'')"
  by (auto simp: monthly_cost_def split: prod.splits option.splits)

text \<open>An open breaker: the world is not consulted, and only a cached price can be returned.\<close>

lemma lookup_open:
  assumes "breaker_open (pe_monotonic env (ps_tick st)) (ps_breakers st) b"
  shows "live_lookup env key b f st =
    (cache_get (pe_time env (ps_tick st))
       (if pe_readable env (ps_tick st) then ps_cache st else []) key, st\<lparr>ps_tick := ps_tick st + 1\<rparr>)"
  using assms by (auto simp: live_lookup_def Let_def split: option.splits)

text \<open>
  While the clock stays inside the reset window, the failure count of a breaker never passes the
  threshold: the world is asked in vain at most three times, however many lookups there are.
\<close>

definition window_ok :: "rat \<Rightarrow> pricing_state \<Rightarrow> string \<Rightarrow> bool" where
  "window_ok t0 st b \<longleftrightarrow>
     (case map_of (ps_breakers st) b of
        None \<Rightarrow> True
      | Some (n, opened) \<Rightarrow> n \<le> BREAKER_THRESHOLD \<and> (n = BREAKER_THRESHOLD \<longrightarrow> t0 \<le> opened))"

lemma lookup_window:
  assumes "window_ok t0 st b'" and "t0 \<le> pe_monotonic env (ps_tick st)"
    and "pe_monotonic env (ps_tick st) < t0 + BREAKER_RESET_S"
  shows "window_ok t0 (snd (live_lookup env key b f st)) b'"
  using assms
  by (auto simp: live_lookup_def Let_def window_ok_def record_failure_def record_success_def
      breaker_open_def BREAKER_THRESHOLD_def split: option.splits prod.splits if_splits)

definition lookups ::
  "pricing_env \<Rightarrow> (string \<times> string \<times> string) list \<Rightarrow> pricing_state \<Rightarrow> pricing_state" where
  "lookups env qs st = foldl (\<lambda>st (c, i, r). snd (live_hourly env c i r st)) st qs"

lemma lookup_tick: "ps_tick (snd (live_lookup env key b f st)) = Suc (ps_tick st)"
  by (auto simp: live_lookup_def Let_def split: option.splits)

lemma lookups_window:
  assumes "window_ok t0 st b"
    and "\<forall>n. t0 \<le> pe_monotonic env n \<and> pe_monotonic env n < t0 + BREAKER_RESET_S"
  shows "window_ok t0 (lookups env qs st) b"
  using assms(1) unfolding lookups_def
  by (rule foldl_invariant) (auto simp: live_hourly_def intro!: lookup_window assms(2)[rule_format, THEN conjunct1] assms(2)[rule_format, THEN conjunct2])

lemma window_fails: "window_ok t0 st b \<Longrightarrow> fails_of st b \<le> BREAKER_THRESHOLD"
  by (auto simp: window_ok_def fails_of_def split: option.splits)

text \<open>
  While a cloud answers nothing, it is asked at most three times in one reset window, however many
  prices are looked up.
\<close>

definition consults :: "pricing_env \<Rightarrow> string \<times> string \<times> string \<Rightarrow> pricing_state \<Rightarrow> bool" where
  "consults env q st =
     (let (c, i, r) = q; n = ps_tick st
      in cache_get (pe_time env n) (if pe_readable env n then ps_cache st else []) (c @ '':'' @ r @ '':'' @ i) = None
         \<and> map_of FETCHERS c \<noteq> None \<and> \<not> breaker_open (pe_monotonic env n) (ps_breakers st) c)"

fun consulted :: "pricing_env \<Rightarrow> string \<Rightarrow> (string \<times> string \<times> string) list \<Rightarrow> pricing_state \<Rightarrow> nat" where
  "consulted env b [] st = 0"
| "consulted env b ((c, i, r) # qs) st =
     (if c = b \<and> consults env (c, i, r) st then 1 else 0) + consulted env b qs (snd (live_hourly env c i r st))"

definition dead_cloud :: "pricing_env \<Rightarrow> string \<Rightarrow> bool" where
  "dead_cloud env b \<longleftrightarrow>
     (\<forall>n i r. case map_of FETCHERS b of None \<Rightarrow> True | Some f \<Rightarrow> f (pe_world env n) i r = None)"

lemma fails_lookup:
  assumes "dead_cloud env b"
  shows "fails_of (snd (live_hourly env c i r st)) b =
    (if c = b \<and> consults env (c, i, r) st then 1 else 0) + fails_of st b"
proof (cases "c = b")
  case True
  let ?n = "ps_tick st"
  let ?key = "b @ '':'' @ r @ '':'' @ i"
  define hit where "hit = cache_get (pe_time env ?n) (if pe_readable env ?n then ps_cache st else []) ?key"
  define opn where "opn = breaker_open (pe_monotonic env ?n) (ps_breakers st) b"
  have c: "consults env (b, i, r) st \<longleftrightarrow> hit = None \<and> map_of FETCHERS b \<noteq> None \<and> \<not> opn"
    by (simp add: consults_def Let_def hit_def opn_def)
  have rec: "fails_of (st\<lparr>ps_tick := k, ps_breakers := record_failure t b (ps_breakers st)\<rparr>) b = Suc (fails_of st b)" for k t
    by (simp add: fails_of_def record_failure_def split: option.split prod.split)
  show ?thesis
  proof (cases "map_of FETCHERS b")
    case None
    then have e: "snd (live_hourly env b i r st) = st\<lparr>ps_tick := ?n + 1\<rparr>"
      by (cases "pe_readable env ?n"; cases hit) (simp_all add: live_hourly_def live_lookup_def Let_def hit_def)
    show ?thesis using True None by (simp only: e c) (simp add: fails_of_def)
  next
    case (Some f)
    then have none: "f (pe_world env ?n) i r = None" using assms by (simp add: dead_cloud_def)
    have tick: "fails_of (st\<lparr>ps_tick := k\<rparr>) b = fails_of st b" for k by (simp add: fails_of_def)
    have e: "snd (live_hourly env b i r st) =
        (if hit = None \<and> \<not> opn
         then st\<lparr>ps_tick := ?n + 1, ps_breakers := record_failure (pe_monotonic env ?n) b (ps_breakers st)\<rparr>
         else st\<lparr>ps_tick := ?n + 1\<rparr>)"
      by (cases "pe_readable env ?n"; cases hit)
        (simp_all add: live_hourly_def live_lookup_def Let_def hit_def opn_def Some none)
    show ?thesis using True Some by (simp only: e c) (simp add: rec tick)
  qed
next
  case False
  then show ?thesis
    by (auto simp: live_hourly_def live_lookup_def fails_of_def Let_def record_failure_def record_success_def split: option.splits prod.splits)
qed

lemma consults_fails:
  assumes "window_ok t0 st b" and "pe_monotonic env (ps_tick st) < t0 + BREAKER_RESET_S" and "consults env (b, i, r) st"
  shows "fails_of st b < BREAKER_THRESHOLD"
  using assms by (auto simp: consults_def window_ok_def fails_of_def breaker_open_def BREAKER_THRESHOLD_def Let_def split: option.splits prod.splits if_splits)

lemma consulted_bound:
  assumes "window_ok t0 st b" and "dead_cloud env b"
    and "\<forall>n. t0 \<le> pe_monotonic env n \<and> pe_monotonic env n < t0 + BREAKER_RESET_S"
  shows "consulted env b qs st + fails_of st b \<le> BREAKER_THRESHOLD"
  using assms(1)
proof (induction qs arbitrary: st)
  case Nil
  then show ?case using window_fails by simp
next
  case (Cons q qs)
  obtain c i r where q: "q = (c, i, r)" by (metis surj_pair)
  have "window_ok t0 (snd (live_hourly env c i r st)) b"
    using lookup_window [OF Cons.prems] assms(3) by (simp add: live_hourly_def)
  from Cons.IH [OF this] show ?case
    using fails_lookup [OF assms(2), of c i r st] consults_fails [OF Cons.prems] assms(3) by (simp add: q split: if_splits)
qed
text \<open>A fresh price in the cache is served whatever the breaker and the world say.\<close>

lemma lookup_cached:
  assumes "map_of (ps_cache st) key = Some (p, stamp)" and "pe_readable env (ps_tick st)"
    and "pe_time env (ps_tick st) - stamp < CACHE_TTL_S"
  shows "fst (live_lookup env key b f st) = Some p"
  using assms by (simp add: live_lookup_def Let_def cache_get_def)

end
