(* ===== verification/Rightsizing.thy ===== *)
theory Rightsizing
  imports Providers Pricing
begin

text \<open>
  \<open>agents/rightsizing.py\<close>: one compute plan per machine. The provider proposes, the target's catalog
  decides; the operating-system check, the volumes, the price and the unique Terraform labels follow.
\<close>

record rs_config =
  rs_util :: rat
  rs_env :: pricing_env

subsection \<open>The operating-system check\<close>

definition is_word :: "char \<Rightarrow> bool" where
  "is_word c \<longleftrightarrow> is_alnum c \<or> c = CHR ''_''"

text \<open>
  \<open>\(?\b(?:32|64)[\s-]?bit\)?\<close> at one position, \<open>prev_word\<close> telling whether the character before it is
  a word character: the text after the match, if there is one.
\<close>

definition arch_body :: "string \<Rightarrow> string option" where
  "arch_body s =
     (if starts_with ''32'' s \<or> starts_with ''64'' s then
        let r = drop 2 s;
            r = (case r of c # cs \<Rightarrow> if is_space c \<or> c = CHR ''-'' then cs else r | [] \<Rightarrow> r)
        in if starts_with ''bit'' (lower r)
           then let e = drop 3 r in Some (case e of CHR '')'' # cs \<Rightarrow> cs | _ \<Rightarrow> e)
           else None
      else None)"

definition arch_at :: "bool \<Rightarrow> string \<Rightarrow> string option" where
  "arch_at prev_word s =
     (case s of
        [] \<Rightarrow> None
      | c # cs \<Rightarrow> if c = CHR ''('' then arch_body cs else if prev_word then None else arch_body s)"

lemma arch_body_length: "arch_body s = Some r \<Longrightarrow> length r < length s"
  by (auto simp: arch_body_def Let_def starts_with_iff split: if_splits list.splits char.splits bool.splits)

lemma arch_at_length: "arch_at w s = Some r \<Longrightarrow> length r < length s"
  by (auto simp: arch_at_def split: list.splits if_splits dest: arch_body_length)

function sub_arch :: "bool \<Rightarrow> string \<Rightarrow> string" where
  "sub_arch w [] = []"
| "sub_arch w (c # cs) =
     (case arch_at w (c # cs) of
        Some r \<Rightarrow> CHR '' '' # sub_arch (is_word (last (take (length (c # cs) - length r) (c # cs)))) r
      | None \<Rightarrow> c # sub_arch (is_word c) cs)"
  by pat_completeness auto
termination
  by (relation "measure (\<lambda>(w, s). length s)") (auto dest: arch_at_length)

lemma dropWhile_shorter:
  "d # e # es = dropWhile p cs \<Longrightarrow> length (dropWhile q es) < Suc (length cs)"
  using length_dropWhile_le [of p cs] length_dropWhile_le [of q es]
  by (metis le_imp_less_Suc le_trans length_Cons le_SucI)

text \<open>\<open>findall\<close> of \<open>\d+(?:\.\d+)?\<close>.\<close>

function versions :: "string \<Rightarrow> string list" where
  "versions [] = []"
| "versions (c # cs) =
     (if \<not> is_digit c then versions cs
      else let ds = takeWhile is_digit cs; r = dropWhile is_digit cs
           in case r of
                d # e # es \<Rightarrow>
                  if d = CHR ''.'' \<and> is_digit e
                  then ((c # ds) @ CHR ''.'' # e # takeWhile is_digit es) # versions (dropWhile is_digit es)
                  else (c # ds) # versions r
              | _ \<Rightarrow> (c # ds) # versions r)"
  by pat_completeness auto
termination
  by (relation "measure length")
    (auto simp: le_imp_less_Suc length_dropWhile_le intro: dropWhile_shorter)

datatype os_note = OsFamilyChanged | OsSubstituted

definition os_family :: "string \<Rightarrow> string" where
  "os_family s = (if contains ''windows'' (lower s) then ''windows'' else ''linux'')"

definition os_substitution_note :: "string option \<Rightarrow> string \<Rightarrow> os_note option" where
  "os_substitution_note source_os image_key =
     (case source_os of
        None \<Rightarrow> None
      | Some os \<Rightarrow>
          if os = [] then None
          else case (versions (sub_arch False os), versions image_key) of
                 (sv # _, iv # _) \<Rightarrow>
                   if sv = iv then None
                   else if os_family os \<noteq> os_family image_key then Some OsFamilyChanged
                   else Some OsSubstituted
               | _ \<Rightarrow> None)"

definition family_changed :: "string option \<Rightarrow> string \<Rightarrow> bool" where
  "family_changed source_os image_key =
     (case source_os of None \<Rightarrow> False | Some os \<Rightarrow> os \<noteq> [] \<and> os_family os \<noteq> os_family image_key)"

subsection \<open>Volumes\<close>

definition MIN_ROOT_GIB :: int where
  "MIN_ROOT_GIB = 30"

definition root_and_extra :: "vm \<Rightarrow> int \<times> int list" where
  "root_and_extra vm =
     (case map ceiling (filter (\<lambda>d. 0 < d) (vm_disks vm)) of
        [] \<Rightarrow> (MIN_ROOT_GIB, [])
      | d # ds \<Rightarrow> (max MIN_ROOT_GIB d, ds))"

subsection \<open>One machine\<close>

text \<open>
  The guardrail: a proposed type outside the catalog is replaced by the best fit of the demand.
  \<open>None\<close> is \<open>smallest_fit\<close> raising on an empty catalog.
\<close>

definition choose_instance :: "rat \<Rightarrow> target \<Rightarrow> vm \<Rightarrow> tier \<Rightarrow> string \<Rightarrow> string option" where
  "choose_instance tu t vm tr suggested =
     (if instance_exists t suggested then Some suggested
      else let d = effective_demand tu vm
           in map_option i_name
                (smallest_fit (t_catalog t) (d_vcpu d) (d_memory d) (d_headroom d) (t_family_for_tier t tr)))"

definition tier_env_of :: "(string, tier \<times> environment) dict \<Rightarrow> vm \<Rightarrow> tier \<times> environment" where
  "tier_env_of te vm = (case map_of te (vm_name vm) of None \<Rightarrow> (OTHER, UNKNOWN) | Some x \<Rightarrow> x)"

definition compute_plan_for ::
  "target \<Rightarrow> vm \<Rightarrow> tier \<Rightarrow> environment \<Rightarrow> string \<Rightarrow> string \<Rightarrow> rat \<times> string \<Rightarrow> compute_plan" where
  "compute_plan_for t vm tr env itype img price =
     (let rs = has_utilization vm
      in \<lparr>c_vm_name = vm_name vm, c_resource_name = vm_resource_name vm,
          c_instance_type = itype, c_image_key = img,
          c_vcpu = (case spec_of t itype of Some i \<Rightarrow> i_vcpu i | None \<Rightarrow> vm_cpu vm),
          c_memory = (case spec_of t itype of Some i \<Rightarrow> i_memory i | None \<Rightarrow> vm_memory vm),
          c_root_gib = fst (root_and_extra vm), c_extra_gib = snd (root_and_extra vm),
          c_subnet_tier = t_subnet_tier_for_tier t tr,
          c_security_group = t_sg_for_tier t tr,
          c_tier = tr, c_environment = env, c_cost = fst price, c_price_source = snd price,
          c_right_sized = rs,
          c_source_vcpu = (if rs then Some (vm_cpu vm) else None),
          c_source_memory = (if rs then Some (vm_memory vm) else None),
          c_source_os = vm_os vm,
          c_os_family_changed = family_changed (vm_os vm) img,
          c_external_id = vm_external_id vm\<rparr>)"

definition plan_vm ::
  "rs_config \<Rightarrow> provider \<Rightarrow> (string, tier \<times> environment) dict \<Rightarrow> target \<Rightarrow> string \<Rightarrow> bool \<Rightarrow> vm
    \<Rightarrow> pricing_state \<Rightarrow> (compute_plan \<times> pricing_state) option" where
  "plan_vm cfg p te t region live vm st =
     (let (tr, env) = tier_env_of te vm
      in case p_rightsize p vm tr env of
           None \<Rightarrow> None
         | Some s \<Rightarrow>
             (case choose_instance (rs_util cfg) t vm tr (sug_instance s) of
                None \<Rightarrow> None
              | Some itype \<Rightarrow>
                  let img = (if sug_image s \<noteq> [] then sug_image s else t_image_key t (vm_os vm));
                      (price, st) = monthly_cost (rs_env cfg) (t_name t) itype region
                                      (t_cost_of t itype) live st
                  in Some (compute_plan_for t vm tr env itype img price, st)))"

fun plan_vms ::
  "rs_config \<Rightarrow> provider \<Rightarrow> (string, tier \<times> environment) dict \<Rightarrow> target \<Rightarrow> string \<Rightarrow> bool \<Rightarrow> vm list
    \<Rightarrow> pricing_state \<Rightarrow> (compute_plan list \<times> pricing_state) option" where
  "plan_vms cfg p te t region live [] st = Some ([], st)"
| "plan_vms cfg p te t region live (vm # vms) st =
     (case plan_vm cfg p te t region live vm st of
        None \<Rightarrow> None
      | Some (c, st) \<Rightarrow>
          (case plan_vms cfg p te t region live vms st of
             None \<Rightarrow> None
           | Some (cs, st) \<Rightarrow> Some (c # cs, st)))"

subsection \<open>Unique resource names\<close>

definition candidate :: "string \<Rightarrow> nat \<Rightarrow> string" where
  "candidate base k = base @ ''_'' @ str_of_nat k"

lemma candidate_inject [simp]: "candidate b j = candidate b k \<longleftrightarrow> j = k"
  by (simp add: candidate_def)

text \<open>The \<open>while candidate in seen\<close> loop; the suffix it ends with.\<close>

function next_free :: "string list \<Rightarrow> string \<Rightarrow> nat \<Rightarrow> nat" where
  "next_free seen base cnt =
     (if candidate base (cnt + 1) \<in> set seen then next_free seen base (cnt + 1) else cnt + 1)"
  by pat_completeness auto
termination
proof (relation "measure (\<lambda>(seen, base, cnt). card {k. cnt < k \<and> candidate base k \<in> set seen})", goal_cases)
  case (2 seen base cnt)
  have fin: "finite {k. cnt < k \<and> candidate base k \<in> set seen}"
  proof (rule finite_imageD)
    show "finite (candidate base ` {k. cnt < k \<and> candidate base k \<in> set seen})"
      by (rule finite_subset [of _ "set seen"]) auto
    show "inj_on (candidate base) {k. cnt < k \<and> candidate base k \<in> set seen}"
      by (auto simp: inj_on_def)
  qed
  have "{k. cnt + 1 < k \<and> candidate base k \<in> set seen} \<subset> {k. cnt < k \<and> candidate base k \<in> set seen}"
  proof (rule psubsetI)
    show "{k. cnt + 1 < k \<and> candidate base k \<in> set seen} \<subseteq> {k. cnt < k \<and> candidate base k \<in> set seen}"
      by auto
    have "cnt + 1 \<in> {k. cnt < k \<and> candidate base k \<in> set seen}" using 2 by simp
    then show "{k. cnt + 1 < k \<and> candidate base k \<in> set seen} \<noteq> {k. cnt < k \<and> candidate base k \<in> set seen}"
      by force
  qed
  then show ?case using psubset_card_mono [OF fin] by simp
qed simp

declare next_free.simps [simp del]

lemma next_free_new: "candidate base (next_free seen base cnt) \<notin> set seen"
  by (induction seen base cnt rule: next_free.induct) (subst next_free.simps, simp)

fun ensure_unique :: "(string, nat) dict \<Rightarrow> compute_plan list \<Rightarrow> compute_plan list" where
  "ensure_unique seen [] = []"
| "ensure_unique seen (p # ps) =
     (let base = c_resource_name p;
          cnt = (case map_of seen base of None \<Rightarrow> 0 | Some n \<Rightarrow> n);
          seen = AList.update base (cnt + 1) seen
      in if cnt = 0 then p # ensure_unique seen ps
         else let cand = candidate base (next_free (keys seen) base cnt)
              in p\<lparr>c_resource_name := cand\<rparr> # ensure_unique (AList.update cand 1 seen) ps)"

definition build_compute_plans ::
  "rs_config \<Rightarrow> vm list \<Rightarrow> provider \<Rightarrow> (string, tier \<times> environment) dict \<Rightarrow> target \<Rightarrow> string \<Rightarrow> bool
    \<Rightarrow> pricing_state \<Rightarrow> (compute_plan list \<times> pricing_state) option" where
  "build_compute_plans cfg vms p tier_env t region live st =
     (let region = (if region = [] then t_default_region t else region)
      in map_option (\<lambda>(cs, st). (ensure_unique [] cs, st))
           (plan_vms cfg p tier_env t region live vms st))"


subsection \<open>Unique names: the result of the renaming\<close>

definition named_like :: "compute_plan \<Rightarrow> compute_plan \<Rightarrow> bool" where
  "named_like c c' \<longleftrightarrow> c' = c\<lparr>c_resource_name := c_resource_name c'\<rparr>
     \<and> (c_resource_name c' = c_resource_name c \<or> (\<exists>k. c_resource_name c' = candidate (c_resource_name c) k))"

lemma ensure_unique_step:
  fixes seen :: "(string, nat) dict" and p :: compute_plan
  defines "b \<equiv> c_resource_name p"
  assumes seen: "\<forall>n \<in> set (map snd seen). 0 < n"
  obtains (fresh) "b \<notin> set (keys seen)"
      "ensure_unique seen (p # ps) = p # ensure_unique (AList.update b 1 seen) ps"
      "\<forall>n \<in> set (map snd (AList.update b 1 seen)). 0 < n"
  | (taken) k seen' where "candidate b k \<notin> set (keys seen)" "b \<in> set (keys seen)"
      "ensure_unique seen (p # ps) = p\<lparr>c_resource_name := candidate b k\<rparr> # ensure_unique seen' ps"
      "set (keys seen') = insert (candidate b k) (set (keys seen))"
      "\<forall>n \<in> set (map snd seen'). 0 < n"
proof (cases "map_of seen b")
  case None
  have "0 < n" if "n \<in> set (map snd (AList.update b 1 seen))" for n
    using that seen by (auto dest: AList_update_mem)
  then show thesis
    using None map_of_None_keys [of seen b]
    by (intro fresh) (simp_all add: None [unfolded b_def] b_def Let_def)
next
  case (Some n)
  then have n: "0 < n" "b \<in> set (keys seen)" using seen by (force dest: map_of_SomeD)+
  let ?s = "AList.update b (n + 1) seen"
  let ?k = "next_free (keys ?s) b n"
  have ks: "set (keys ?s) = set (keys seen)"
    unfolding keys_dict_update using n(2) by blast
  have new: "candidate b ?k \<notin> set (keys seen)"
    using next_free_new [of b "keys ?s" n] unfolding ks .
  show thesis
  proof (rule taken [OF new n(2)])
    show "ensure_unique seen (p # ps) =
        p\<lparr>c_resource_name := candidate b ?k\<rparr> # ensure_unique (AList.update (candidate b ?k) 1 ?s) ps"
      using Some n(1) by (simp add: b_def Let_def)
    show "set (keys (AList.update (candidate b ?k) 1 ?s)) = insert (candidate b ?k) (set (keys seen))"
      by (subst keys_dict_update) (simp only: ks)
    show "\<forall>n \<in> set (map snd (AList.update (candidate b ?k) 1 ?s)). 0 < n"
      using seen by (auto dest!: AList_update_mem)
  qed
qed

lemma ensure_unique_gen:
  assumes "\<forall>n \<in> set (map snd seen). 0 < n"
  shows "distinct (map c_resource_name (ensure_unique seen ps))
    \<and> set (map c_resource_name (ensure_unique seen ps)) \<inter> set (keys seen) = {}
    \<and> list_all2 named_like ps (ensure_unique seen ps)"
  using assms
proof (induction ps arbitrary: seen)
  case Nil
  then show ?case by simp
next
  case (Cons p ps)
  show ?case
  proof (cases rule: ensure_unique_step [OF Cons.prems, of p ps, case_names fresh taken])
    case fresh
    let ?s = "AList.update (c_resource_name p) 1 seen"
    have ks: "set (keys ?s) = insert (c_resource_name p) (set (keys seen))"
      by (rule keys_dict_update)
    have ih: "distinct (map c_resource_name (ensure_unique ?s ps))"
        "set (map c_resource_name (ensure_unique ?s ps)) \<inter> insert (c_resource_name p) (set (keys seen)) = {}"
        "list_all2 named_like ps (ensure_unique ?s ps)"
      using Cons.IH [OF fresh(3)] unfolding ks by blast+
    have "named_like p p" by (simp add: named_like_def)
    then show ?thesis using fresh(1,2) ih by auto
  next
    case (taken k s)
    have ih: "distinct (map c_resource_name (ensure_unique s ps))"
        "set (map c_resource_name (ensure_unique s ps))
           \<inter> insert (candidate (c_resource_name p) k) (set (keys seen)) = {}"
        "list_all2 named_like ps (ensure_unique s ps)"
      using Cons.IH [OF taken(5)] unfolding taken(4) by blast+
    have "named_like p (p\<lparr>c_resource_name := candidate (c_resource_name p) k\<rparr>)"
      by (auto simp: named_like_def)
    then show ?thesis using taken(1,3) ih by auto
  qed
qed

lemma ensure_unique_distinct: "distinct (map c_resource_name (ensure_unique [] ps))"
  and ensure_unique_like: "list_all2 named_like ps (ensure_unique [] ps)"
  using ensure_unique_gen [of "[]" ps] by simp_all

lemma candidate_tf_name:
  assumes "tf_name_chars b"
  shows "tf_name_chars (candidate b k)"
proof -
  have "list_all (\<lambda>x. is_ascii_alnum x \<or> x = CHR ''_'' \<or> x = CHR ''-'') (''_'' @ str_of_nat k)"
    using digits_str_of_nat [of _ k] by (auto simp: list_all_iff is_ascii_alnum_def)
  then show ?thesis using tf_name_chars_append [OF assms] by (simp add: candidate_def)
qed

subsection \<open>What every compute plan satisfies\<close>

definition plan_of :: "target \<Rightarrow> vm \<Rightarrow> compute_plan \<Rightarrow> bool" where
  "plan_of t vm c \<longleftrightarrow>
     c_vm_name c = vm_name vm \<and> c_resource_name c = vm_resource_name vm
     \<and> instance_exists t (c_instance_type c)
     \<and> c_security_group c = t_sg_for_tier t (c_tier c)
     \<and> c_subnet_tier c = t_subnet_tier_for_tier t (c_tier c)
     \<and> MIN_ROOT_GIB \<le> c_root_gib c \<and> (\<forall>d \<in> set (c_extra_gib c). 0 < d)
     \<and> c_source_os c = vm_os vm \<and> c_external_id c = vm_external_id vm
     \<and> c_image_key c \<noteq> [] \<and> c_os_family_changed c = family_changed (vm_os vm) (c_image_key c)
     \<and> c_right_sized c = has_utilization vm
     \<and> c_price_source c \<in> {''live'', ''static''}
     \<and> (c_price_source c = ''static'' \<longrightarrow> c_cost c = t_cost_of t (c_instance_type c))"

lemma root_and_extra_bounds:
  "root_and_extra vm = (r, ex) \<Longrightarrow> MIN_ROOT_GIB \<le> r \<and> (\<forall>d \<in> set ex. 0 < d)"
proof -
  assume a: "root_and_extra vm = (r, ex)"
  have pos: "\<forall>d \<in> set (map ceiling (filter (\<lambda>d. 0 < d) (vm_disks vm))). 0 < d" by auto
  show ?thesis
  proof (cases "map ceiling (filter (\<lambda>d. 0 < d) (vm_disks vm))")
    case Nil
    with a show ?thesis by (simp add: root_and_extra_def del: map_is_Nil_conv)
  next
    case (Cons d ds)
    with a have "r = max MIN_ROOT_GIB d" "ex = ds" by (simp_all add: root_and_extra_def)
    then show ?thesis using pos unfolding Cons by simp
  qed
qed

context cloud_target
begin

lemma choose_total: "\<exists>i. choose_instance tu T vm tr s = Some i \<and> instance_exists T i"
proof -
  let ?d = "effective_demand tu vm"
  obtain i where "smallest_fit (t_catalog T) (d_vcpu ?d) (d_memory ?d) (d_headroom ?d) (t_family_for_tier T tr) = Some i"
      and "i \<in> set (t_catalog T)"
    using fit_exists by blast
  then show ?thesis by (auto simp: choose_instance_def Let_def intro: mem_exists)
qed

end

definition image_keys_ok :: "target \<Rightarrow> bool" where
  "image_keys_ok t \<longleftrightarrow> (\<forall>os. t_image_key t os \<noteq> [])"

lemma plan_vm_spec:
  assumes "cloud_target t" and "image_keys_ok t" and "plan_vm cfg p te t region live vm st = Some (c, st')"
  shows "plan_of t vm c"
proof -
  obtain tr env where te: "tier_env_of te vm = (tr, env)" by fastforce
  obtain s where s: "p_rightsize p vm tr env = Some s"
    using assms(3) by (auto simp: plan_vm_def te split: option.splits)
  obtain i where i: "choose_instance (rs_util cfg) t vm tr (sug_instance s) = Some i" "instance_exists t i"
    using cloud_target.choose_total [OF assms(1)] by blast
  obtain cost src st2 where m: "monthly_cost (rs_env cfg) (t_name t) i region (t_cost_of t i) live st = ((cost, src), st2)"
    by (metis surj_pair)
  have src: "src \<in> {''live'', ''static''} \<and> (src = ''static'' \<longrightarrow> cost = t_cost_of t i)"
    using monthly_cost_source [of "rs_env cfg" "t_name t" i region "t_cost_of t i" live st] by (auto simp: m)
  let ?img = "if sug_image s \<noteq> [] then sug_image s else t_image_key t (vm_os vm)"
  have c: "c = compute_plan_for t vm tr env i ?img (cost, src)"
    using assms(3) by (simp add: plan_vm_def te s i(1) m)
  have "?img \<noteq> []" using assms(2) by (simp add: image_keys_ok_def)
  then show ?thesis
    using i(2) src root_and_extra_bounds [of vm "fst (root_and_extra vm)" "snd (root_and_extra vm)"]
    unfolding c by (simp add: compute_plan_for_def plan_of_def Let_def)
qed

lemma plan_vms_spec:
  assumes "cloud_target t" and "image_keys_ok t"
  shows "plan_vms cfg p te t region live vms st = Some (cs, st') \<Longrightarrow> list_all2 (plan_of t) vms cs"
proof (induction vms arbitrary: cs st st')
  case (Cons vm vms)
  then show ?case
    by (auto split: option.splits prod.splits intro: plan_vm_spec [OF assms])
qed simp

definition provider_total :: "provider \<Rightarrow> bool" where
  "provider_total p \<longleftrightarrow> (\<forall>vm tr env. p_rightsize p vm tr env \<noteq> None)"

lemma plan_vm_total:
  assumes "cloud_target t" and "provider_total p"
  shows "plan_vm cfg p te t region live vm st \<noteq> None"
proof -
  obtain tr env where te: "tier_env_of te vm = (tr, env)" by fastforce
  have "p_rightsize p vm tr env \<noteq> None" using assms(2) by (simp only: provider_total_def) blast
  then obtain s where s: "p_rightsize p vm tr env = Some s" by blast
  obtain i where i: "choose_instance (rs_util cfg) t vm tr (sug_instance s) = Some i"
    using cloud_target.choose_total [OF assms(1)] by blast
  show ?thesis using te s i by (simp add: plan_vm_def split: prod.splits)
qed

lemma plan_vms_total:
  assumes "cloud_target t" and "provider_total p"
  shows "plan_vms cfg p te t region live vms st \<noteq> None"
proof (induction vms arbitrary: st)
  case (Cons vm vms)
  obtain c st2 where "plan_vm cfg p te t region live vm st = Some (c, st2)"
    using plan_vm_total [OF assms, of cfg te region live vm st] by (metis option.exhaust surj_pair)
  moreover obtain cs st3 where "plan_vms cfg p te t region live vms st2 = Some (cs, st3)"
    using Cons.IH [of st2] by (metis option.exhaust surj_pair)
  ultimately show ?case by simp
qed simp

text \<open>The plans of the renamed list: as before except for the label, which stays a valid one.\<close>

definition plan_for :: "target \<Rightarrow> vm \<Rightarrow> compute_plan \<Rightarrow> bool" where
  "plan_for t vm c \<longleftrightarrow> plan_of t vm (c\<lparr>c_resource_name := vm_resource_name vm\<rparr>) \<and> tf_name_ok (c_resource_name c)"

lemma build_spec:
  assumes "cloud_target t" and "image_keys_ok t"
    and "build_compute_plans cfg vms p te t region live st = Some (cs, st')"
  shows "list_all2 (plan_for t) vms cs" and "distinct (map c_resource_name cs)"
proof -
  obtain cs0 where cs0: "plan_vms cfg p te t (if region = [] then t_default_region t else region) live vms st = Some (cs0, st')"
      and cs: "cs = ensure_unique [] cs0"
    using assms(3) by (auto simp: build_compute_plans_def)
  show "distinct (map c_resource_name cs)" unfolding cs by (rule ensure_unique_distinct)
  have a: "list_all2 (plan_of t) vms cs0" using plan_vms_spec [OF assms(1,2) cs0] .
  have b: "list_all2 named_like cs0 cs" unfolding cs by (rule ensure_unique_like)
  have step: "plan_for t vm c'" if "plan_of t vm c" "named_like c c'" for vm c c'
  proof -
    have "c' \<lparr>c_resource_name := vm_resource_name vm\<rparr> = c"
      using that by (auto simp: named_like_def plan_of_def)
    moreover have "tf_name_chars (c_resource_name c)"
      using that(1) by (simp add: plan_of_def vm_resource_name_def safe_name_chars)
    then have "tf_name_ok (c_resource_name c)" "tf_name_ok (candidate (c_resource_name c) k)" for k
      by (simp_all add: tf_name_ok_chars candidate_tf_name)
    then have "tf_name_ok (c_resource_name c')"
      using that(2) unfolding named_like_def by metis
    ultimately show ?thesis using that(1) by (simp add: plan_for_def)
  qed
  show "list_all2 (plan_for t) vms cs"
    by (rule list_all2_trans [OF _ a b]) (rule step)
qed

end
