(* ===== verification/Ipv4.thy ===== *)
theory Ipv4
  imports PyStr
begin

text \<open>
  The IPv4 part of Python's \<open>ipaddress\<close> as the repository uses it: \<open>ip_network(s, strict)\<close>,
  \<open>str(network)\<close>, \<open>subnets(new_prefix)\<close>, \<open>subnet_of\<close>, \<open>overlaps\<close> and \<open>is_private\<close>. Addresses
  are naturals below \<open>2 ^ 32\<close>. \<open>None\<close> is \<open>ValueError\<close>. IPv6 literals are outside the model: they
  parse to \<open>None\<close> here, and every caller that could meet one rejects it as well.
\<close>

record ipnet =
  nw_addr :: nat
  nw_plen :: nat

definition mk_net :: "nat \<Rightarrow> nat \<Rightarrow> ipnet" where
  "mk_net a p = \<lparr>nw_addr = a, nw_plen = p\<rparr>"

definition block :: "nat \<Rightarrow> nat" where
  "block p = 2 ^ (32 - p)"

definition net_ok :: "ipnet \<Rightarrow> bool" where
  "net_ok n \<longleftrightarrow> nw_plen n \<le> 32 \<and> nw_addr n < 2 ^ 32 \<and> nw_addr n mod block (nw_plen n) = 0"

definition broadcast :: "ipnet \<Rightarrow> nat" where
  "broadcast n = nw_addr n + block (nw_plen n) - 1"

definition net_range :: "ipnet \<Rightarrow> nat set" where
  "net_range n = {nw_addr n .. broadcast n}"

subsection \<open>Parsing and printing\<close>

definition parse_octet :: "string \<Rightarrow> nat option" where
  "parse_octet s =
     (if all_digits s \<and> length s \<le> 3 \<and> (s = ''0'' \<or> hd s \<noteq> CHR ''0'') \<and> nat_of_str s \<le> 255
      then Some (nat_of_str s) else None)"

definition parse_addr :: "string \<Rightarrow> nat option" where
  "parse_addr s =
     (case map parse_octet (split_on CHR ''.'' s) of
        [Some a, Some b, Some c, Some d] \<Rightarrow> Some (((a * 256 + b) * 256 + c) * 256 + d)
      | _ \<Rightarrow> None)"

text \<open>\<open>_make_netmask\<close>: a prefix length, else a netmask, else a host mask.\<close>

definition prefix_of_mask :: "nat \<Rightarrow> nat option" where
  "prefix_of_mask m = find (\<lambda>p. 2 ^ 32 - block p = m) [0..<33]"

definition parse_mask :: "string \<Rightarrow> nat option" where
  "parse_mask s =
     (if all_digits s \<and> nat_of_str s \<le> 32 then Some (nat_of_str s)
      else case parse_addr s of
             None \<Rightarrow> None
           | Some m \<Rightarrow> (case prefix_of_mask m of
                          Some p \<Rightarrow> Some p
                        | None \<Rightarrow> prefix_of_mask (2 ^ 32 - 1 - m)))"

definition make_net :: "bool \<Rightarrow> nat option \<Rightarrow> nat option \<Rightarrow> ipnet option" where
  "make_net strict a p =
     (case (a, p) of
        (Some a, Some p) \<Rightarrow>
          if a mod block p = 0 then Some (mk_net a p)
          else if strict then None else Some (mk_net (a - a mod block p) p)
      | _ \<Rightarrow> None)"

definition ip_network :: "bool \<Rightarrow> string \<Rightarrow> ipnet option" where
  "ip_network strict s =
     (case split_on CHR ''/'' s of
        [a] \<Rightarrow> make_net strict (parse_addr a) (Some 32)
      | [a, m] \<Rightarrow> make_net strict (parse_addr a) (parse_mask m)
      | _ \<Rightarrow> None)"

definition str_of_addr :: "nat \<Rightarrow> string" where
  "str_of_addr a =
     str_of_nat (a div 2 ^ 24) @ ''.'' @ str_of_nat (a div 2 ^ 16 mod 256) @ ''.''
       @ str_of_nat (a div 2 ^ 8 mod 256) @ ''.'' @ str_of_nat (a mod 256)"

definition str_of_net :: "ipnet \<Rightarrow> string" where
  "str_of_net n = str_of_addr (nw_addr n) @ ''/'' @ str_of_nat (nw_plen n)"

lemma block_pos [simp]: "0 < block p"
  by (simp add: block_def)

lemma block_dvd: "p \<le> q \<Longrightarrow> block q dvd block p"
  by (simp add: block_def le_imp_power_dvd)

lemma block_dvd_top: "block p dvd 2 ^ 32"
  unfolding block_def by (rule le_imp_power_dvd) simp

lemma block_32 [simp]: "block 32 = 1"
  by (simp add: block_def)

lemma parse_octet_str: "n \<le> 255 \<Longrightarrow> parse_octet (str_of_nat n) = Some n"
proof -
  assume n: "n \<le> 255"
  have "str_of_nat 0 = ''0''" by code_simp
  then have "str_of_nat n = ''0'' \<or> hd (str_of_nat n) \<noteq> CHR ''0''"
    using hd_str_of_nat [of n] by (cases "n = 0") auto
  moreover have "length (str_of_nat n) \<le> 3" using n by (intro length_str_of_nat_octet) simp
  ultimately show ?thesis using n by (simp add: parse_octet_def)
qed

lemma no_sep_digits: "\<not> is_digit c \<Longrightarrow> c \<notin> set (str_of_nat n)"
  using digits_str_of_nat by blast

lemma octets_of_addr:
  "((a div 2 ^ 24 * 256 + a div 2 ^ 16 mod 256) * 256 + a div 2 ^ 8 mod 256) * 256 + a mod 256
     = (a :: nat)"
proof -
  have "a div 2 ^ 24 = a div 2 ^ 16 div 256" by (simp add: div_mult2_eq [symmetric])
  moreover have "a div 2 ^ 16 = a div 2 ^ 8 div 256" by (simp add: div_mult2_eq [symmetric])
  ultimately show ?thesis by (simp add: mult.commute [of _ "256::nat"])
qed

lemma parse_addr_str:
  assumes "a < 2 ^ 32"
  shows "parse_addr (str_of_addr a) = Some a"
proof -
  have dot: "CHR ''.'' \<notin> set (str_of_nat n)" for n
    by (rule no_sep_digits) (simp add: is_digit_def)
  have hi: "a div 2 ^ 24 \<le> 255" using assms by simp
  have split: "split_on CHR ''.'' (str_of_addr a) =
      [str_of_nat (a div 2 ^ 24), str_of_nat (a div 2 ^ 16 mod 256),
       str_of_nat (a div 2 ^ 8 mod 256), str_of_nat (a mod 256)]"
    unfolding str_of_addr_def
    by (simp only: append_Cons append_Nil split_on_append [OF dot] split_on_plain [OF dot])
  have "map parse_octet (split_on CHR ''.'' (str_of_addr a)) =
      [Some (a div 2 ^ 24), Some (a div 2 ^ 16 mod 256), Some (a div 2 ^ 8 mod 256), Some (a mod 256)]"
    unfolding split using hi by (simp add: parse_octet_str)
  then show ?thesis by (simp only: parse_addr_def list.case option.case octets_of_addr)
qed

lemma slash_addr: "CHR ''/'' \<notin> set (str_of_addr a)"
  using no_sep_digits [of "CHR ''/''"] by (auto simp: str_of_addr_def is_digit_def)

lemma parse_mask_str: "p \<le> 32 \<Longrightarrow> parse_mask (str_of_nat p) = Some p"
  by (simp add: parse_mask_def)

text \<open>Printing and reading back a network is the identity, in both modes.\<close>

lemma ip_network_str:
  assumes "net_ok n"
  shows "ip_network strict (str_of_net n) = Some n"
proof -
  have "CHR ''/'' \<notin> set (str_of_nat p)" for p
    by (rule no_sep_digits) (simp add: is_digit_def)
  note slash = split_on_plain [OF this]
  have "split_on CHR ''/'' (str_of_net n) = [str_of_addr (nw_addr n), str_of_nat (nw_plen n)]"
    unfolding str_of_net_def
    by (simp only: append_Cons append_Nil split_on_append [OF slash_addr] slash)
  then show ?thesis
    using assms
    by (simp add: ip_network_def make_net_def parse_addr_str parse_mask_str net_ok_def mk_net_def)
qed

lemma str_of_net_inject: "net_ok m \<Longrightarrow> net_ok n \<Longrightarrow> str_of_net m = str_of_net n \<longleftrightarrow> m = n"
  using ip_network_str by (metis option.inject)

text \<open>Whatever parses is a well-formed network.\<close>

lemma parse_octet_le: "parse_octet s = Some n \<Longrightarrow> n \<le> 255"
  by (auto simp: parse_octet_def split: if_splits)

lemma parse_addr_bound: "parse_addr s = Some a \<Longrightarrow> a < 2 ^ 32"
proof -
  assume "parse_addr s = Some a"
  then obtain w x y z where a: "a = ((w * 256 + x) * 256 + y) * 256 + z"
    and m: "map parse_octet (split_on CHR ''.'' s) = [Some w, Some x, Some y, Some z]"
    by (auto simp: parse_addr_def split: list.splits option.splits)
  have "Some v \<in> set (map parse_octet (split_on CHR ''.'' s)) \<Longrightarrow> v \<le> 255" for v
    by (auto simp: parse_octet_le)
  then have "w \<le> 255" "x \<le> 255" "y \<le> 255" "z \<le> 255" unfolding m by auto
  then show ?thesis by (simp add: a)
qed

lemma prefix_of_mask_le: "prefix_of_mask m = Some p \<Longrightarrow> p \<le> 32"
  by (auto simp: prefix_of_mask_def find_Some_iff simp del: upt_Suc)

lemma parse_mask_le: "parse_mask s = Some p \<Longrightarrow> p \<le> 32"
  by (auto simp: parse_mask_def split: if_splits option.splits dest: prefix_of_mask_le)

lemma make_net_ok:
  assumes "make_net strict a p = Some n" and "\<And>x. a = Some x \<Longrightarrow> x < 2 ^ 32"
    and "\<And>q. p = Some q \<Longrightarrow> q \<le> 32"
  shows "net_ok n"
proof -
  from assms(1) obtain x q where x: "a = Some x" "p = Some q"
    by (auto simp: make_net_def split: option.splits)
  then have "x - x mod block q < 2 ^ 32" using assms(2) [OF x(1)] by linarith
  moreover have "(x - x mod block q) mod block q = 0" by (simp add: minus_mod_eq_mult_div)
  ultimately show ?thesis
    using assms x by (auto simp: make_net_def net_ok_def mk_net_def split: if_splits)
qed

lemma ip_network_ok: "ip_network strict s = Some n \<Longrightarrow> net_ok n"
  by (auto simp: ip_network_def split: list.splits
      elim!: make_net_ok dest: parse_addr_bound parse_mask_le)

lemma ip_network_strict: "ip_network True s = Some n \<Longrightarrow> ip_network False s = Some n"
  by (auto simp: ip_network_def make_net_def split: list.splits option.splits if_splits)

subsection \<open>Ranges, containment, overlap\<close>

definition subnet_of :: "ipnet \<Rightarrow> ipnet \<Rightarrow> bool" where
  "subnet_of a b \<longleftrightarrow> nw_addr b \<le> nw_addr a \<and> broadcast a \<le> broadcast b"

definition in_net :: "nat \<Rightarrow> ipnet \<Rightarrow> bool" where
  "in_net x n \<longleftrightarrow> nw_addr n \<le> x \<and> x \<le> broadcast n"

definition overlaps :: "ipnet \<Rightarrow> ipnet \<Rightarrow> bool" where
  "overlaps a b \<longleftrightarrow>
     in_net (nw_addr b) a \<or> in_net (broadcast b) a \<or> in_net (nw_addr a) b \<or> in_net (broadcast a) b"

lemma addr_le_broadcast: "nw_addr n \<le> broadcast n"
  using block_pos [of "nw_plen n"] unfolding broadcast_def by linarith

lemma overlaps_iff: "overlaps a b \<longleftrightarrow> net_range a \<inter> net_range b \<noteq> {}"
proof
  assume "overlaps a b"
  then show "net_range a \<inter> net_range b \<noteq> {}"
    using addr_le_broadcast [of a] addr_le_broadcast [of b]
    by (force simp: overlaps_def in_net_def net_range_def)
next
  assume "net_range a \<inter> net_range b \<noteq> {}"
  then show "overlaps a b" by (auto simp: overlaps_def in_net_def net_range_def)
qed

lemma subnet_of_iff: "subnet_of a b \<longleftrightarrow> net_range a \<subseteq> net_range b"
  using addr_le_broadcast [of a] by (auto simp: subnet_of_def net_range_def)

subsection \<open>subnets\<close>

text \<open>\<open>Inl ()\<close> is the \<open>ValueError\<close> \<open>new prefix must be longer\<close>; a /32 yields itself.\<close>

definition subnets :: "ipnet \<Rightarrow> nat \<Rightarrow> unit + ipnet list" where
  "subnets n new =
     (if nw_plen n = 32 then Inr [n]
      else if new < nw_plen n then Inl ()
      else Inr (map (\<lambda>i. mk_net (nw_addr n + i * block new) new) [0..<2 ^ (new - nw_plen n)]))"

lemma block_split: "p \<le> q \<Longrightarrow> q \<le> 32 \<Longrightarrow> block p = 2 ^ (q - p) * block q"
  by (simp add: block_def power_add [symmetric])

lemma net_top:
  assumes "net_ok n"
  shows "nw_addr n + block (nw_plen n) \<le> 2 ^ 32"
proof -
  from assms have d: "block (nw_plen n) dvd nw_addr n" "block (nw_plen n) dvd 2 ^ 32"
    and lt: "nw_addr n < 2 ^ 32"
    using block_dvd_top unfolding net_ok_def mod_eq_0_iff_dvd by blast+
  obtain k where k: "nw_addr n = block (nw_plen n) * k" using d(1) by (rule dvdE)
  obtain l where l: "2 ^ 32 = block (nw_plen n) * l" using d(2) by (rule dvdE)
  have "block (nw_plen n) * k < block (nw_plen n) * l" using lt unfolding k l .
  then have "k < l" by (metis mult_less_cancel1)
  then have "block (nw_plen n) * Suc k \<le> block (nw_plen n) * l" by (intro mult_le_mono2) simp
  then show ?thesis unfolding k l by (simp add: add.commute)
qed

lemma subnets_nth:
  assumes "net_ok n" and "subnets n new = Inr ns" and "nw_plen n < 32" and "new \<le> 32" and "i < length ns"
  shows "net_ok (ns ! i)" and "subnet_of (ns ! i) n" and "ns ! i = mk_net (nw_addr n + i * block new) new"
    and "length ns = 2 ^ (new - nw_plen n)"
proof -
  have le: "nw_plen n \<le> new" and ns: "ns = map (\<lambda>i. mk_net (nw_addr n + i * block new) new) [0..<2 ^ (new - nw_plen n)]"
    using assms(2,3) by (auto simp: subnets_def split: if_splits)
  show len: "length ns = 2 ^ (new - nw_plen n)" by (simp add: ns)
  have i: "i < 2 ^ (new - nw_plen n)" using assms(5) len by simp
  show nth: "ns ! i = mk_net (nw_addr n + i * block new) new" using i by (simp add: ns)
  have "Suc i * block new \<le> 2 ^ (new - nw_plen n) * block new" using i by (intro mult_le_mono1) simp
  then have top: "i * block new + block new \<le> block (nw_plen n)"
    using block_split [OF le assms(4)] by simp
  have "block new dvd nw_addr n"
    using assms(1) block_dvd [OF le] by (auto simp: net_ok_def mod_eq_0_iff_dvd intro: dvd_trans)
  then have "(nw_addr n + i * block new) mod block new = 0" by auto
  moreover have "nw_addr n + i * block new < 2 ^ 32"
    using net_top [OF assms(1)] top block_pos [of new] by linarith
  ultimately show "net_ok (ns ! i)" using assms(4) by (simp add: nth net_ok_def mk_net_def)
  show "subnet_of (ns ! i) n"
    using top block_pos [of new] by (simp add: nth subnet_of_def broadcast_def mk_net_def)
qed

lemma subnets_disjoint:
  assumes "net_ok n" and "subnets n new = Inr ns" and "nw_plen n < 32" and "new \<le> 32"
    and "i < j" and "j < length ns"
  shows "\<not> overlaps (ns ! i) (ns ! j)"
proof -
  have i: "i < length ns" using assms(5,6) by simp
  note a = subnets_nth(3) [OF assms(1-4) i] and b = subnets_nth(3) [OF assms(1-4,6)]
  have "Suc i * block new \<le> j * block new" using assms(5) by (intro mult_le_mono1) simp
  then have "broadcast (ns ! i) < nw_addr (ns ! j)"
    using block_pos [of new] unfolding a b mk_net_def broadcast_def ipnet.simps mult_Suc by linarith
  then show ?thesis
    using addr_le_broadcast [of "ns ! i"] addr_le_broadcast [of "ns ! j"]
    by (auto simp: overlaps_def in_net_def)
qed

end
