(* ===== verification/LandingZone.thy ===== *)
theory LandingZone
  imports Ipv4 Prelude
begin

text \<open>
  \<open>landing_zone.py\<close>: the constraints a customer's platform team imposes, their validation on
  construction, the subnets carved from the allocated range, and the tags in each cloud's dialect.
  \<open>Inl\<close> is the exception raised; \<open>InvalidCidr\<close> also stands for the rejection of an IPv6 range.
\<close>

datatype lz_error =
    InvalidCidr string
  | CidrTooSmall string nat
  | BadTagKey string
  | TagValueTooLong string
  | BlankKmsKey
  | BadNamePrefix string
  | PrefixNotLonger
  | TooFewSubnets nat nat

record landing_zone =
  lz_cidr :: string
  lz_tags :: "(string, string) dict"
  lz_name_prefix :: "string option"
  lz_kms_key_id :: "string option"

definition DEFAULT_CIDR :: string where
  "DEFAULT_CIDR = ''10.0.0.0/16''"

definition SUBNET_PREFIX :: nat where
  "SUBNET_PREFIX = 24"

definition default_zone :: landing_zone where
  "default_zone = \<lparr>lz_cidr = DEFAULT_CIDR, lz_tags = [], lz_name_prefix = None, lz_kms_key_id = None\<rparr>"

text \<open>\<open>^[A-Za-z][A-Za-z0-9_.:/=+\-@]{0,127}$\<close> and \<open>^[A-Za-z][A-Za-z0-9-]{0,31}$\<close>\<close>

definition tag_key_re :: "string \<Rightarrow> bool" where
  "tag_key_re s \<longleftrightarrow>
     (case s of [] \<Rightarrow> False
      | c # cs \<Rightarrow> is_ascii_alpha c \<and> length cs \<le> 127
          \<and> list_all (\<lambda>x. is_ascii_alnum x \<or> x \<in> set ''_.:/=+-@'') cs)"

definition prefix_re :: "string \<Rightarrow> bool" where
  "prefix_re s \<longleftrightarrow>
     (case s of [] \<Rightarrow> False
      | c # cs \<Rightarrow> is_ascii_alpha c \<and> length cs \<le> 31
          \<and> list_all (\<lambda>x. is_ascii_alnum x \<or> x = CHR ''-'') cs)"

fun check_tags :: "(string \<times> string) list \<Rightarrow> lz_error option" where
  "check_tags [] = None"
| "check_tags ((k, v) # tags) =
     (if \<not> dollar tag_key_re k then Some (BadTagKey k)
      else if 256 < length v then Some (TagValueTooLong k)
      else check_tags tags)"

fun check_kms :: "string option \<Rightarrow> lz_error option" where
  "check_kms None = None"
| "check_kms (Some k) = (if strip k = [] then Some BlankKmsKey else None)"

fun check_prefix :: "string option \<Rightarrow> lz_error option" where
  "check_prefix None = None"
| "check_prefix (Some p) = (if dollar prefix_re p then None else Some (BadNamePrefix p))"

text \<open>\<open>__post_init__\<close>, in its order of checks; \<open>None\<close> when the zone is accepted.\<close>

definition post_init :: "landing_zone \<Rightarrow> lz_error option" where
  "post_init z =
     (case ip_network True (lz_cidr z) of
        None \<Rightarrow> Some (InvalidCidr (lz_cidr z))
      | Some n \<Rightarrow>
          if SUBNET_PREFIX - 1 < nw_plen n then Some (CidrTooSmall (lz_cidr z) (nw_plen n))
          else case check_tags (lz_tags z) of
                 Some e \<Rightarrow> Some e
               | None \<Rightarrow>
                   case check_kms (lz_kms_key_id z) of
                     Some e \<Rightarrow> Some e
                   | None \<Rightarrow> check_prefix (lz_name_prefix z))"

definition zone_valid :: "landing_zone \<Rightarrow> bool" where
  "zone_valid z \<longleftrightarrow> post_init z = None"

definition zone_is_default :: "landing_zone \<Rightarrow> bool" where
  "zone_is_default z \<longleftrightarrow>
     lz_cidr z = DEFAULT_CIDR \<and> lz_tags z = [] \<and> (lz_name_prefix z = None \<or> lz_name_prefix z = Some [])"

subsection \<open>Carving subnets\<close>

definition carve_subnets :: "string \<Rightarrow> nat \<Rightarrow> lz_error + string list \<times> string list" where
  "carve_subnets cidr count_per_tier =
     (case ip_network True cidr of
        None \<Rightarrow> Inl (InvalidCidr cidr)
      | Some network \<Rightarrow>
          case subnets network SUBNET_PREFIX of
            Inl _ \<Rightarrow> Inl PrefixNotLonger
          | Inr available \<Rightarrow>
              let needed = count_per_tier * 2 in
              if length available < needed then Inl (TooFewSubnets (length available) needed)
              else Inr (map str_of_net (take count_per_tier available),
                        map str_of_net (drop count_per_tier (take needed available))))"

subsection \<open>Tags\<close>

text \<open>\<open>base.update(zone.tags)\<close>: the customer's value replaces the tool's on a conflict.\<close>

definition merge_tags :: "landing_zone option \<Rightarrow> string \<Rightarrow> (string, string) dict" where
  "merge_tags zone project =
     foldl (\<lambda>d (k, v). AList.update k v d)
       [(''Project'', project), (''ManagedBy'', ''IaCTranslate'')]
       (case zone of None \<Rightarrow> [] | Some z \<Rightarrow> lz_tags z)"

definition do_tag_char :: "char \<Rightarrow> bool" where
  "do_tag_char c \<longleftrightarrow> is_ascii_lower c \<or> is_digit c \<or> c \<in> set '':_-''"

definition do_tags :: "landing_zone \<Rightarrow> string list" where
  "do_tags z =
     map (\<lambda>(k, v). take 255 (strip_char CHR ''-''
            (sub_runs (\<lambda>c. \<not> do_tag_char c) ''-'' (lower (k @ '':'' @ v)))))
       (sort (lz_tags z))"

definition gcp_char :: "char \<Rightarrow> bool" where
  "gcp_char c \<longleftrightarrow> is_ascii_lower c \<or> is_digit c \<or> c \<in> set ''_-''"

definition gcp_fold :: "string \<Rightarrow> string" where
  "gcp_fold s = strip_char CHR ''-'' (sub_runs (\<lambda>c. \<not> gcp_char c) ''-'' (lower s))"

definition gcp_key :: "string \<Rightarrow> string" where
  "gcp_key key =
     (let clean = gcp_fold key
      in if clean \<noteq> [] \<and> \<not> is_alpha (hd clean) then ''k-'' @ clean else clean)"

definition gcp_labels :: "(string, string) dict \<Rightarrow> (string, string) dict" where
  "gcp_labels tags =
     foldl (\<lambda>out (k, v). let clean = gcp_key k in
               if clean \<noteq> [] then AList.update (take 63 clean) (take 63 (gcp_fold v)) out else out)
       [] (sort tags)"

subsection \<open>Facts\<close>

lemma zone_valid_cidr:
  assumes "zone_valid z"
  obtains n where "ip_network True (lz_cidr z) = Some n" and "net_ok n" and "nw_plen n \<le> 23"
  using assms
  by (auto simp: zone_valid_def post_init_def SUBNET_PREFIX_def split: option.splits if_splits
      dest: ip_network_ok intro: that)

text \<open>
  The carved blocks are the first \<open>2 * count\<close> subnets of the range: each reads back as a network
  inside it and no two share an address.
\<close>

lemma carve_subnets_Inr:
  assumes "ip_network True cidr = Some n" and "nw_plen n \<le> 24" and "2 * k \<le> 2 ^ (24 - nw_plen n)"
  obtains ns where "carve_subnets cidr k = Inr (map str_of_net (take k ns), map str_of_net (drop k ns))"
    and "length ns = 2 * k" and "\<forall>m \<in> set ns. net_ok m \<and> subnet_of m n \<and> nw_plen m = 24"
    and "\<And>i j. i < j \<Longrightarrow> j < 2 * k \<Longrightarrow> \<not> overlaps (ns ! i) (ns ! j)"
proof -
  have ok: "net_ok n" using assms(1) by (rule ip_network_ok)
  obtain av where av: "subnets n 24 = Inr av" using assms(2) by (auto simp: subnets_def)
  have p: "nw_plen n < 32" "(24::nat) \<le> 32" using assms(2) by auto
  note nth = subnets_nth [OF ok av p] and dis = subnets_disjoint [OF ok av p]
  have len: "length av = 2 ^ (24 - nw_plen n)" using av assms(2) by (auto simp: subnets_def)
  let ?ns = "take (2 * k) av"
  have l: "length ?ns = 2 * k" using len assms(3) by simp
  have "carve_subnets cidr k = Inr (map str_of_net (take k ?ns), map str_of_net (drop k ?ns))"
    using assms(1,3) av len by (simp add: carve_subnets_def SUBNET_PREFIX_def mult.commute)
  moreover have "\<forall>m \<in> set ?ns. net_ok m \<and> subnet_of m n \<and> nw_plen m = 24"
  proof
    fix m
    assume "m \<in> set ?ns"
    then obtain i where "i < length av" "m = av ! i" by (auto simp: in_set_conv_nth)
    then show "net_ok m \<and> subnet_of m n \<and> nw_plen m = 24"
      using nth(1-3) [of i] by (simp add: mk_net_def)
  qed
  moreover have "\<not> overlaps (?ns ! i) (?ns ! j)" if "i < j" "j < 2 * k" for i j
    using dis [OF that(1)] that l by simp
  ultimately show thesis using l that by blast
qed

lemma carve_subnets_too_small:
  assumes "ip_network True cidr = Some n" and "nw_plen n \<le> 24" and "2 ^ (24 - nw_plen n) < 2 * k"
  shows "carve_subnets cidr k = Inl (TooFewSubnets (2 ^ (24 - nw_plen n)) (k * 2))"
proof -
  obtain av where av: "subnets n 24 = Inr av" using assms(2) by (auto simp: subnets_def)
  have "length av = 2 ^ (24 - nw_plen n)" using av assms(2) by (auto simp: subnets_def)
  then show ?thesis using assms av by (simp add: carve_subnets_def SUBNET_PREFIX_def mult.commute)
qed

text \<open>Customer tags win, everything else keeps the tool's value.\<close>

lemma foldl_update_lookup:
  "map_of (foldl (\<lambda>d (k, v). AList.update k v d) d kvs) k =
     (case map_of (rev kvs) k of Some v \<Rightarrow> Some v | None \<Rightarrow> map_of d k)"
  by (induction kvs arbitrary: d) (auto simp: map_add_def split: option.splits)

lemma merge_tags_lookup:
  assumes "dict_ok (lz_tags z)"
  shows "map_of (merge_tags (Some z) project) k =
    (case map_of (lz_tags z) k of
       Some v \<Rightarrow> Some v
     | None \<Rightarrow> if k = ''Project'' then Some project
               else if k = ''ManagedBy'' then Some ''IaCTranslate'' else None)"
proof -
  have "map_of (rev (lz_tags z)) = map_of (lz_tags z)"
    using assms by (intro map_of_inject_set [THEN iffD2]) (auto simp: rev_map [symmetric])
  then show ?thesis by (auto simp: merge_tags_def foldl_update_lookup split: option.splits)
qed

lemma gcp_fold_chars: "c \<in> set (gcp_fold s) \<Longrightarrow> gcp_char c"
  using set_strip_by [of "\<lambda>x. x = CHR ''-''"] set_sub_runs
  by (fastforce simp: gcp_fold_def gcp_char_def)

definition gcp_label_ok :: "string \<times> string \<Rightarrow> bool" where
  "gcp_label_ok kv \<longleftrightarrow>
     fst kv \<noteq> [] \<and> length (fst kv) \<le> 63 \<and> is_ascii_lower (hd (fst kv)) \<and> list_all gcp_char (fst kv)
     \<and> length (snd kv) \<le> 63 \<and> list_all gcp_char (snd kv)"

lemma gcp_key_ok:
  assumes "gcp_key k \<noteq> []"
  shows "is_ascii_lower (hd (gcp_key k))" and "list_all gcp_char (gcp_key k)"
proof -
  have all: "\<forall>c \<in> set (gcp_fold k). gcp_char c" by (simp add: gcp_fold_chars)
  have lo: "gcp_char c \<Longrightarrow> is_alpha c \<Longrightarrow> is_ascii_lower c" for c
    by (auto simp: gcp_char_def is_alpha_def char_class_defs)
  show "list_all gcp_char (gcp_key k)"
    using all by (auto simp: gcp_key_def Let_def list_all_iff gcp_char_def char_class_defs)
  show "is_ascii_lower (hd (gcp_key k))"
  proof (cases "is_alpha (hd (gcp_fold k))")
    case True
    with assms all lo show ?thesis by (auto simp: gcp_key_def Let_def)
  next
    case False
    then show ?thesis using assms by (auto simp: gcp_key_def Let_def char_class_defs)
  qed
qed

lemma gcp_labels_ok_gen:
  "list_all gcp_label_ok d \<Longrightarrow>
   list_all gcp_label_ok (foldl (\<lambda>out (k, v). let clean = gcp_key k in
       if clean \<noteq> [] then AList.update (take 63 clean) (take 63 (gcp_fold v)) out else out) d kvs)"
proof (induction kvs arbitrary: d)
  case (Cons kv kvs)
  obtain k v where kv: "kv = (k, v)" by (cases kv)
  have "gcp_label_ok (take 63 (gcp_key k), take 63 (gcp_fold v))" if "gcp_key k \<noteq> []"
    using gcp_key_ok [OF that] gcp_fold_chars that
    by (auto simp: gcp_label_ok_def list_all_iff hd_take dest: in_set_takeD)
  then have "list_all gcp_label_ok (let clean = gcp_key k in
       if clean \<noteq> [] then AList.update (take 63 clean) (take 63 (gcp_fold v)) d else d)"
    using Cons.prems by (auto simp: list_all_iff Let_def dest: AList_update_mem)
  then show ?case using Cons.IH by (simp add: kv)
qed simp

lemma gcp_labels_ok: "list_all gcp_label_ok (gcp_labels tags)"
  unfolding gcp_labels_def by (rule gcp_labels_ok_gen) simp

end
