(* ===== verification/Network.thy ===== *)
theory Network
  imports Rightsizing LandingZone
begin

text \<open>
  \<open>agents/network.py\<close>: the subnets of the range in force, the security groups the compute plan
  refers to, and a load balancer for every group of more than one instance. Deterministic, never
  delegated to a provider.
\<close>

definition AZ_COUNT :: nat where "AZ_COUNT = 2"
definition HTTPS_PORT :: int where "HTTPS_PORT = 443"

definition listener_protocol :: "int \<Rightarrow> string" where
  "listener_protocol port = (if port = HTTPS_PORT then ''HTTPS'' else ''HTTP'')"

definition lb_listener_for :: "int \<Rightarrow> lb_listener" where
  "lb_listener_for p = \<lparr>ll_protocol = listener_protocol p, ll_listener_port = p, ll_target_port = p\<rparr>"

definition sg_by_name :: "security_group list \<Rightarrow> (string, security_group) dict" where
  "sg_by_name sgs = foldl (\<lambda>d sg. AList.update (sg_name sg) sg d) [] sgs"

type_synonym lb_group_key = "tier \<times> environment \<times> subnet_tier"

definition lb_key :: "compute_plan \<Rightarrow> lb_group_key" where
  "lb_key c = (c_tier c, c_environment c, c_subnet_tier c)"

fun lb_order :: "lb_group_key \<Rightarrow> string \<times> string \<times> string" where
  "lb_order (t, e, s) = (tier_value t, env_value e, subnet_value s)"

definition lb_groups :: "compute_plan list \<Rightarrow> (lb_group_key, compute_plan list) dict" where
  "lb_groups compute = sort_key (\<lambda>kv. lb_order (fst kv)) (group_by lb_key compute [])"

text \<open>The body of the loop: \<open>None\<close> is \<open>continue\<close>.\<close>

definition lb_for :: "security_group list \<Rightarrow> lb_group_key \<times> compute_plan list \<Rightarrow> load_balancer option" where
  "lb_for sgs kv =
     (let ((tr, env, sub), members) = kv
      in if length members < 2 then None
         else let group = c_security_group (hd members);
                  ports = (case map_of (sg_by_name sgs) group of
                             Some sg \<Rightarrow> sorted_set (map in_from_port (sg_ingress sg))
                           | None \<Rightarrow> []);
                  name = env_value env @ ''-'' @ tier_value tr @ ''-lb''
              in if ports = [] then None
                 else Some \<lparr>lb_name = name, lb_resource_name = terraform_safe_name name,
                        lb_tier = tr, lb_environment = env, lb_subnet_tier = sub,
                        lb_security_group = group, lb_listeners = map lb_listener_for ports,
                        lb_health_path = ''/'', lb_targets = map c_vm_name members\<rparr>)"

definition plan_load_balancers :: "compute_plan list \<Rightarrow> security_group list \<Rightarrow> load_balancer list" where
  "plan_load_balancers compute sgs = List.map_filter (lb_for sgs) (lb_groups compute)"

definition retarget_ingress :: "ingress_rule list \<Rightarrow> string \<Rightarrow> string \<Rightarrow> ingress_rule list" where
  "retarget_ingress rules default_cidr actual_cidr =
     (if actual_cidr = default_cidr then rules
      else map (\<lambda>r. r\<lparr>in_cidrs := map (\<lambda>c. if c = default_cidr then actual_cidr else c) (in_cidrs r)\<rparr>) rules)"

definition subnet_of_az :: "subnet_tier \<Rightarrow> string list \<Rightarrow> nat \<Rightarrow> subnet" where
  "subnet_of_az tr cidrs az =
     \<lparr>sn_name = subnet_value tr @ ''-'' @ str_of_nat az, sn_resource_name = subnet_value tr @ ''_'' @ str_of_nat az,
      sn_cidr = cidrs ! az, sn_tier = tr, sn_az = az\<rparr>"

definition sg_for :: "target \<Rightarrow> string \<Rightarrow> string \<Rightarrow> security_group" where
  "sg_for t vpc_cidr name =
     (let fallback = (case map_of (t_default_ingress t) ''app-sg'' of None \<Rightarrow> [] | Some rs \<Rightarrow> rs);
          rules = (case map_of (t_default_ingress t) name of None \<Rightarrow> fallback | Some rs \<Rightarrow> rs)
      in \<lparr>sg_name = name, sg_resource_name = terraform_safe_name name,
          sg_description = ''Security group for '' @ name,
          sg_ingress = retarget_ingress rules (t_vpc_cidr t) vpc_cidr\<rparr>)"

definition plan_network ::
  "compute_plan list \<Rightarrow> target \<Rightarrow> landing_zone option \<Rightarrow> lz_error + network_plan" where
  "plan_network compute t zone =
     (let vpc_cidr = (case zone of Some z \<Rightarrow> lz_cidr z | None \<Rightarrow> t_vpc_cidr t)
      in case carve_subnets vpc_cidr AZ_COUNT of
           Inl e \<Rightarrow> Inl e
         | Inr (public_cidrs, private_cidrs) \<Rightarrow>
             let subnets = concat (map (\<lambda>az. [subnet_of_az PUBLIC public_cidrs az,
                                               subnet_of_az PRIVATE private_cidrs az]) [0..<AZ_COUNT]);
                 sgs = map (sg_for t vpc_cidr) (sorted_set (map c_security_group compute))
             in Inr \<lparr>net_vpc_cidr = vpc_cidr, net_subnets = subnets, net_security_groups = sgs,
                     net_load_balancers = plan_load_balancers compute sgs,
                     net_internet_gateway = True,
                     net_nat_gateway = list_ex (\<lambda>c. c_subnet_tier c = PRIVATE) compute\<rparr>)"

definition vpc_of :: "target \<Rightarrow> landing_zone option \<Rightarrow> string" where
  "vpc_of t zone = (case zone of Some z \<Rightarrow> lz_cidr z | None \<Rightarrow> t_vpc_cidr t)"

subsection \<open>The planned network\<close>

text \<open>A range that holds four \<open>/24\<close> blocks yields a plan; the four subnets are spelled out.\<close>

lemma upt_AZ: "[0..<AZ_COUNT] = [0, 1]"
  by (simp add: AZ_COUNT_def upt_rec numeral_2_eq_2)

lemma take_drop_4:
  assumes "length ns = (4::nat)"
  obtains a b c d where "ns = [a, b, c, d]" "take 2 ns = [a, b]" "drop 2 ns = [c, d]"
proof -
  from assms obtain a b c d where "ns = [a, b, c, d]"
    by (auto simp: numeral_eq_Suc length_Suc_conv)
  then show thesis using that by simp
qed

lemma plan_network_Inr:
  assumes "ip_network True (vpc_of t zone) = Some n" and "nw_plen n \<le> 22"
  obtains a b c d net where "plan_network compute t zone = Inr net"
    and "net_vpc_cidr net = vpc_of t zone"
    and "net_subnets net = [subnet_of_az PUBLIC [str_of_net a, str_of_net b] 0,
        subnet_of_az PRIVATE [str_of_net c, str_of_net d] 0,
        subnet_of_az PUBLIC [str_of_net a, str_of_net b] 1,
        subnet_of_az PRIVATE [str_of_net c, str_of_net d] 1]"
    and "net_security_groups net =
        map (sg_for t (vpc_of t zone)) (sorted_set (map c_security_group compute))"
    and "net_load_balancers net = plan_load_balancers compute (net_security_groups net)"
    and "net_nat_gateway net \<longleftrightarrow> (\<exists>c \<in> set compute. c_subnet_tier c = PRIVATE)"
    and "\<forall>m \<in> {a, b, c, d}. net_ok m \<and> subnet_of m n \<and> nw_plen m = 24"
    and "\<not> overlaps a b" "\<not> overlaps a c" "\<not> overlaps a d"
      "\<not> overlaps b c" "\<not> overlaps b d" "\<not> overlaps c d"
proof -
  have le: "nw_plen n \<le> 24" using assms(2) by simp
  have "(2::nat) ^ 2 \<le> 2 ^ (24 - nw_plen n)" using assms(2) by (intro power_increasing) auto
  then have "2 * 2 \<le> (2::nat) ^ (24 - nw_plen n)" by simp
  from carve_subnets_Inr [OF assms(1) le this] obtain ns where
    carve: "carve_subnets (vpc_of t zone) 2 = Inr (map str_of_net (take 2 ns), map str_of_net (drop 2 ns))"
    and len: "length ns = 4" and ok: "\<forall>m \<in> set ns. net_ok m \<and> subnet_of m n \<and> nw_plen m = 24"
    and dis: "\<And>i j. i < j \<Longrightarrow> j < 4 \<Longrightarrow> \<not> overlaps (ns ! i) (ns ! j)"
    by auto
  obtain a b c d where ns: "ns = [a, b, c, d]" "take 2 ns = [a, b]" "drop 2 ns = [c, d]"
    using take_drop_4 [OF len] .
  let ?sgs = "map (sg_for t (vpc_of t zone)) (sorted_set (map c_security_group compute))"
  let ?net = "\<lparr>net_vpc_cidr = vpc_of t zone,
      net_subnets = [subnet_of_az PUBLIC [str_of_net a, str_of_net b] 0,
        subnet_of_az PRIVATE [str_of_net c, str_of_net d] 0,
        subnet_of_az PUBLIC [str_of_net a, str_of_net b] 1,
        subnet_of_az PRIVATE [str_of_net c, str_of_net d] 1],
      net_security_groups = ?sgs, net_load_balancers = plan_load_balancers compute ?sgs,
      net_internet_gateway = True, net_nat_gateway = list_ex (\<lambda>c. c_subnet_tier c = PRIVATE) compute\<rparr>"
  show thesis
  proof (rule that [of ?net a b c d])
    show "plan_network compute t zone = Inr ?net"
      using carve unfolding plan_network_def vpc_of_def [symmetric] upt_AZ
      by (simp add: AZ_COUNT_def ns(2,3) Let_def)
    show "\<forall>m \<in> {a, b, c, d}. net_ok m \<and> subnet_of m n \<and> nw_plen m = 24" using ok by (simp add: ns(1))
    show "\<not> overlaps a b" "\<not> overlaps a c" "\<not> overlaps a d"
      "\<not> overlaps b c" "\<not> overlaps b d" "\<not> overlaps c d"
      using dis [of 0 1] dis [of 0 2] dis [of 0 3] dis [of 1 2] dis [of 1 3] dis [of 2 3]
      by (simp_all add: ns(1) numeral_2_eq_2 numeral_3_eq_3)
  qed (simp_all add: list_ex_iff)
qed

text \<open>A \<open>/23\<close> passes the validation of the zone and is then too small for the plan.\<close>

lemma plan_network_23:
  assumes "ip_network True (lz_cidr z) = Some n" and "nw_plen n = 23"
  shows "plan_network compute t (Some z) = Inl (TooFewSubnets 2 4)"
  using carve_subnets_too_small [OF assms(1), of 2] assms(2)
  by (simp add: plan_network_def AZ_COUNT_def)

text \<open>Retargeting replaces exactly the default range.\<close>

lemma retarget_ingress_cidrs:
  "map in_cidrs (retarget_ingress rules d a) = map (map (\<lambda>c. if c = d then a else c) \<circ> in_cidrs) rules"
  by (auto simp: retarget_ingress_def map_idI o_def)

lemma retarget_ingress_ports:
  "map in_from_port (retarget_ingress rules d a) = map in_from_port rules"
  "map in_to_port (retarget_ingress rules d a) = map in_to_port rules"
  by (simp_all add: retarget_ingress_def o_def)

lemma retarget_ingress_empty [simp]: "retarget_ingress rules d a = [] \<longleftrightarrow> rules = []"
  by (simp add: retarget_ingress_def)

subsection \<open>Load balancers\<close>

lemma sg_by_name_lookup:
  assumes "distinct (map sg_name sgs)" and "sg \<in> set sgs"
  shows "map_of (sg_by_name sgs) (sg_name sg) = Some sg"
proof -
  have "map_of (foldl (\<lambda>d sg. AList.update (sg_name sg) sg d) d sgs) n =
      (if n \<in> sg_name ` set sgs then map_of (map (\<lambda>s. (sg_name s, s)) sgs) n else map_of d n)" for d n
    using assms(1) by (induction sgs arbitrary: d) auto
  moreover have "map_of (map (\<lambda>s. (sg_name s, s)) sgs) (sg_name sg) = Some sg"
    using assms by (intro map_of_is_SomeI) (auto simp: o_def)
  ultimately show ?thesis using assms(2) by (simp add: sg_by_name_def)
qed

lemma lb_groups_mem:
  "(k, ms) \<in> set (lb_groups compute) \<Longrightarrow> ms = filter (\<lambda>c. lb_key c = k) compute \<and> ms \<noteq> []"
  using group_by_entry [of k ms lb_key compute] by (simp add: lb_groups_def)

lemma lb_groups_complete:
  "c \<in> set compute \<Longrightarrow> (lb_key c, filter (\<lambda>x. lb_key x = lb_key c) compute) \<in> set (lb_groups compute)"
proof -
  assume c: "c \<in> set compute"
  have "map_of (group_by lb_key compute []) (lb_key c) = Some (filter (\<lambda>x. lb_key x = lb_key c) compute)"
    using c by (auto simp: map_of_group_by_empty filter_empty_conv)
  then show ?thesis by (auto simp: lb_groups_def dest: map_of_SomeD)
qed

lemma map_filter_mem: "y \<in> set (List.map_filter f xs) \<longleftrightarrow> (\<exists>x \<in> set xs. f x = Some y)"
  by (induction xs) (auto simp: List.map_filter_simps split: option.splits)

text \<open>
  Every load balancer fronts the whole of one (tier, environment, subnet tier) group, of at least two
  machines, on the sorted distinct ports of the group's security group.
\<close>

lemma lb_for_spec:
  "lb_for sgs (k, members) = Some lb \<Longrightarrow>
     2 \<le> length members \<and> k = (lb_tier lb, lb_environment lb, lb_subnet_tier lb)
     \<and> lb_targets lb = map c_vm_name members
     \<and> lb_security_group lb = c_security_group (hd members)
     \<and> (\<exists>sg. map_of (sg_by_name sgs) (lb_security_group lb) = Some sg
          \<and> lb_listeners lb = map lb_listener_for (sorted_set (map in_from_port (sg_ingress sg)))
          \<and> lb_listeners lb \<noteq> [])
     \<and> lb_name lb = env_value (lb_environment lb) @ ''-'' @ tier_value (lb_tier lb) @ ''-lb''
     \<and> lb_resource_name lb = terraform_safe_name (lb_name lb)"
  by (cases k) (auto simp: lb_for_def Let_def split: if_splits option.splits)

lemma lb_spec:
  assumes "lb \<in> set (plan_load_balancers compute sgs)"
  defines "members \<equiv> filter (\<lambda>c. lb_key c = (lb_tier lb, lb_environment lb, lb_subnet_tier lb)) compute"
  shows "2 \<le> length members" and "lb_targets lb = map c_vm_name members"
    and "lb_security_group lb = c_security_group (hd members)"
    and "\<exists>sg. map_of (sg_by_name sgs) (lb_security_group lb) = Some sg
          \<and> lb_listeners lb = map lb_listener_for (sorted_set (map in_from_port (sg_ingress sg)))
          \<and> lb_listeners lb \<noteq> []"
    and "lb_name lb = env_value (lb_environment lb) @ ''-'' @ tier_value (lb_tier lb) @ ''-lb''"
    and "lb_resource_name lb = terraform_safe_name (lb_name lb)"
proof -
  obtain k ms where k: "(k, ms) \<in> set (lb_groups compute)" "lb_for sgs (k, ms) = Some lb"
    using assms(1) by (auto simp: plan_load_balancers_def map_filter_mem)
  note s = lb_for_spec [OF k(2)]
  have ms: "ms = members" using lb_groups_mem [OF k(1)] s by (simp add: members_def)
  show "2 \<le> length members" and "lb_targets lb = map c_vm_name members"
    and "lb_security_group lb = c_security_group (hd members)"
    and "\<exists>sg. map_of (sg_by_name sgs) (lb_security_group lb) = Some sg
          \<and> lb_listeners lb = map lb_listener_for (sorted_set (map in_from_port (sg_ingress sg)))
          \<and> lb_listeners lb \<noteq> []"
    and "lb_name lb = env_value (lb_environment lb) @ ''-'' @ tier_value (lb_tier lb) @ ''-lb''"
    and "lb_resource_name lb = terraform_safe_name (lb_name lb)"
    using s unfolding ms by blast+
qed

text \<open>Each group has one balancer at most: the order key determines the group.\<close>

lemma lb_order_inject [simp]: "lb_order k = lb_order k' \<longleftrightarrow> k = k'"
  by (cases k; cases k') simp

definition lb_group :: "load_balancer \<Rightarrow> lb_group_key" where
  "lb_group lb = (lb_tier lb, lb_environment lb, lb_subnet_tier lb)"

lemma map_filter_keys_distinct:
  assumes "distinct (map fst kvs)" and "\<And>kv y. f kv = Some y \<Longrightarrow> key y = fst kv"
  shows "distinct (map key (List.map_filter f kvs))"
  using assms(1)
proof (induction kvs)
  case Nil
  then show ?case by (simp add: List.map_filter_simps)
next
  case (Cons kv kvs)
  have "key y \<noteq> fst kv" if y: "y \<in> set (List.map_filter f kvs)" for y
  proof -
    obtain kv' where "kv' \<in> set kvs" "f kv' = Some y" using y unfolding map_filter_mem by blast
    then have "key y = fst kv'" "fst kv' \<in> fst ` set kvs" using assms(2) by blast+
    moreover have "fst kv \<notin> fst ` set kvs" using Cons.prems by simp
    ultimately show ?thesis by metis
  qed
  then show ?case using Cons assms(2) [of kv]
    by (auto simp: List.map_filter_simps split: option.splits) blast
qed

lemma lb_groups_distinct: "distinct (map fst (lb_groups compute))"
proof -
  have "mset (map fst (lb_groups compute)) = mset (map fst (group_by lb_key compute []))"
    by (simp add: lb_groups_def)
  then show ?thesis
    using dict_ok_group_by [of "[]" lb_key compute] mset_eq_imp_distinct_iff by fastforce
qed

lemma plan_load_balancers_distinct: "distinct (map lb_group (plan_load_balancers compute sgs))"
  unfolding plan_load_balancers_def
  by (rule map_filter_keys_distinct [OF lb_groups_distinct]) (auto simp: lb_group_def dest!: lb_for_spec)

lemma lb_exists:
  assumes "c \<in> set compute" and "2 \<le> length (filter (\<lambda>x. lb_key x = lb_key c) compute)"
    and "map_of (sg_by_name sgs) (c_security_group (hd (filter (\<lambda>x. lb_key x = lb_key c) compute))) = Some sg"
    and "sg_ingress sg \<noteq> []"
  shows "\<exists>lb \<in> set (plan_load_balancers compute sgs). lb_group lb = lb_key c \<and> c_vm_name c \<in> set (lb_targets lb)"
proof -
  let ?ms = "filter (\<lambda>x. lb_key x = lb_key c) compute"
  obtain tr e su where k: "lb_key c = (tr, e, su)" by (cases "lb_key c") auto
  have "lb_for sgs (lb_key c, ?ms) \<noteq> None"
    using assms(2-4) by (simp add: lb_for_def k Let_def)
  then obtain lb where lb: "lb_for sgs (lb_key c, ?ms) = Some lb" by blast
  then have "lb \<in> set (plan_load_balancers compute sgs)"
    using lb_groups_complete [OF assms(1)] by (auto simp: plan_load_balancers_def map_filter_mem)
  moreover have "lb_group lb = lb_key c \<and> c_vm_name c \<in> set (lb_targets lb)"
    using lb_for_spec [OF lb] assms(1) by (simp add: lb_group_def)
  ultimately show ?thesis by blast
qed

end
