(* ===== verification/AgentPlan.thy ===== *)
theory AgentPlan
  imports Network
begin

text \<open>
  \<open>agents/__init__.py\<close>: \<open>build_migration_plan\<close> runs classification, right-sizing and network planning
  and assembles the plan. \<open>Inl\<close> is the exception that ends the run.
\<close>

datatype plan_error = RightsizeRaised | NetworkRaised lz_error

definition build_migration_plan ::
  "rs_config \<Rightarrow> vm list \<Rightarrow> string \<Rightarrow> target \<Rightarrow> string option \<Rightarrow> provider \<Rightarrow> string \<Rightarrow> bool
    \<Rightarrow> landing_zone option \<Rightarrow> pricing_state \<Rightarrow> plan_error + migration_plan \<times> pricing_state" where
  "build_migration_plan cfg vms project t region p source live zone st =
     (let region = (case region of Some r \<Rightarrow> if r \<noteq> [] then r else t_default_region t
                    | None \<Rightarrow> t_default_region t);
          app_groups = classify vms p;
          tier_env = tier_env_index app_groups
      in case build_compute_plans cfg vms p tier_env t region live st of
           None \<Rightarrow> Inl RightsizeRaised
         | Some (compute, st) \<Rightarrow>
             (case plan_network compute t zone of
                Inl e \<Rightarrow> Inl (NetworkRaised e)
              | Inr network \<Rightarrow>
                  Inr (\<lparr>plan_project = project, plan_source = source, plan_target = t_name t,
                        plan_region = region, plan_net = network, plan_compute = compute,
                        plan_app_groups = app_groups, plan_provider_used = p_name p,
                        plan_kms_key_id = (case zone of None \<Rightarrow> None | Some z \<Rightarrow> lz_kms_key_id z),
                        plan_live_requested = live\<rparr>, st)))"

lemma registered_image_keys: "(n, t) \<in> set REGISTRY \<Longrightarrow> image_keys_ok t"
proof -
  have "image_keys_ok AWS" "image_keys_ok AZURE" "image_keys_ok GCP" "image_keys_ok OCI"
    "image_keys_ok DIGITALOCEAN" "image_keys_ok NUTANIX" "image_keys_ok PROXMOX"
    by (auto simp: image_keys_ok_def AWS_def AZURE_def GCP_def OCI_def DIGITALOCEAN_def NUTANIX_def
        PROXMOX_def aws_image_key_def azure_image_key_def gcp_image_key_def oci_image_key_def
        do_image_key_def ntx_image_key_def pve_image_key_def Let_def split: option.splits)
  moreover assume "(n, t) \<in> set REGISTRY"
  ultimately show ?thesis by (auto simp: REGISTRY_def)
qed

lemma get_target_ok: "get_target n = Inr t \<Longrightarrow> cloud_target t \<and> image_keys_ok t"
  by (auto simp: get_target_def split: option.splits
      dest: map_of_SomeD registered_image_keys registered_cloud_target)

lemmas ip_eval = ip_network_def make_net_def parse_addr_def parse_mask_def parse_octet_def all_digits_def
  is_digit_def nat_of_str_def digit_val_def block_def

lemma default_range: "ip_network strict ''10.0.0.0/16'' = Some (mk_net 167772160 16)"
  by (simp add: ip_eval)

text \<open>The zone in force offers at least the four blocks the plan carves.\<close>

definition zone_fits :: "target \<Rightarrow> landing_zone option \<Rightarrow> bool" where
  "zone_fits t zone \<longleftrightarrow>
     (case ip_network True (vpc_of t zone) of None \<Rightarrow> False | Some n \<Rightarrow> nw_plen n \<le> 22)"

lemma zone_fits_default: "get_target n = Inr t \<Longrightarrow> zone_fits t None"
proof -
  have "(case ip_network True ''10.0.0.0/16'' of None \<Rightarrow> False | Some n \<Rightarrow> nw_plen n \<le> 22)"
    by (simp add: default_range mk_net_def)
  moreover assume "get_target n = Inr t"
  ultimately show ?thesis using get_target_vpc by (simp add: zone_fits_def vpc_of_def)
qed

lemma zone_fitsE:
  assumes "zone_fits t zone"
  obtains n where "ip_network True (vpc_of t zone) = Some n" and "nw_plen n \<le> 22"
  using assms by (auto simp: zone_fits_def split: option.splits)

text \<open>A network that was planned at all lies in a range that fits.\<close>

lemma plan_network_fits:
  assumes "plan_network compute t zone = Inr net"
  shows "zone_fits t zone"
proof -
  obtain n av where n: "ip_network True (vpc_of t zone) = Some n"
    and av: "subnets n 24 = Inr av" "4 \<le> length av"
    using assms unfolding plan_network_def vpc_of_def [symmetric] carve_subnets_def
    by (auto simp: Let_def AZ_COUNT_def SUBNET_PREFIX_def split: option.splits sum.splits if_splits)
  have "nw_plen n \<le> 22"
  proof (rule ccontr)
    assume "\<not> nw_plen n \<le> 22"
    moreover have "nw_plen n \<le> 24" "length av = 2 ^ (24 - nw_plen n)"
      using av by (auto simp: subnets_def split: if_splits)
    ultimately have "nw_plen n = 23 \<or> nw_plen n = 24" by linarith
    then show False using av(2) \<open>length av = 2 ^ (24 - nw_plen n)\<close> by auto
  qed
  then show ?thesis using n by (simp add: zone_fits_def)
qed

text \<open>Taking a built plan apart.\<close>

lemma build_migration_planD:
  assumes "build_migration_plan cfg vms project t region p source live zone st = Inr (plan, st')"
  obtains region' where
    "build_compute_plans cfg vms p (tier_env_index (classify vms p)) t region' live st
       = Some (plan_compute plan, st')"
    and "plan_network (plan_compute plan) t zone = Inr (plan_net plan)"
    and "plan_region plan = region'" and "plan_target plan = t_name t"
    and "plan_app_groups plan = classify vms p" and "plan_live_requested plan = live"
    and "plan_kms_key_id plan = (case zone of None \<Rightarrow> None | Some z \<Rightarrow> lz_kms_key_id z)"
  using assms
  by (auto simp: build_migration_plan_def Let_def split: option.splits sum.splits prod.splits intro: that)

lemma build_migration_plan_total:
  assumes "cloud_target t" and "provider_total p" and "zone_fits t zone"
  obtains plan st' where "build_migration_plan cfg vms project t region p source live zone st = Inr (plan, st')"
proof -
  define r where "r = (case region of Some r \<Rightarrow> if r \<noteq> [] then r else t_default_region t
      | None \<Rightarrow> t_default_region t)"
  obtain cs st1 where cs: "build_compute_plans cfg vms p (tier_env_index (classify vms p)) t r live st = Some (cs, st1)"
    using plan_vms_total [OF assms(1,2), of cfg "tier_env_index (classify vms p)" _ live vms st]
    by (auto simp: build_compute_plans_def Let_def) (metis not_Some_eq option.simps(9) prod.exhaust surj_pair)
  obtain n where n: "ip_network True (vpc_of t zone) = Some n" "nw_plen n \<le> 22"
    using assms(3) by (rule zone_fitsE)
  obtain net where net: "plan_network cs t zone = Inr net"
    using plan_network_Inr [OF n, of cs] by blast
  show thesis
    by (rule that) (simp add: build_migration_plan_def Let_def r_def [symmetric] cs net)
qed

end
