(* ===== verification/Validation.thy ===== *)
theory Validation
  imports AgentPlan
begin

text \<open>
  \<open>validation/validators.py\<close>: the checks on an assembled plan, run whatever provider produced it.
  An \<open>issue\<close> is one line of the report; the empty list means the plan is valid.
\<close>

datatype issue =
    NoCompute
  | UnknownInstance string string
  | BadResourceName string string
  | DuplicateCompute string string string
  | SmallRoot string int
  | BadVpcCidr string
  | BadSubnetCidr string string
  | SubnetOutsideVpc string string string
  | SubnetOverlap string string
  | UndefinedGroup string string
  | NoSubnetFor string subnet_tier
  | DuplicateResource string string

fun compute_issues :: "target \<Rightarrow> (string, string) dict \<Rightarrow> compute_plan list \<Rightarrow> issue list" where
  "compute_issues t seen [] = []"
| "compute_issues t seen (c # cs) =
     (if instance_exists t (c_instance_type c) then []
      else [UnknownInstance (c_vm_name c) (c_instance_type c)])
     @ (if tf_name_ok (c_resource_name c) then [] else [BadResourceName (c_vm_name c) (c_resource_name c)])
     @ (case map_of seen (c_resource_name c) of
          Some first \<Rightarrow> [DuplicateCompute (c_resource_name c) first (c_vm_name c)] | None \<Rightarrow> [])
     @ (if c_root_gib c < 8 then [SmallRoot (c_vm_name c) (c_root_gib c)] else [])
     @ compute_issues t
         (case map_of seen (c_resource_name c) of
            Some _ \<Rightarrow> seen | None \<Rightarrow> AList.update (c_resource_name c) (c_vm_name c) seen) cs"

fun parse_subnets :: "ipnet option \<Rightarrow> string \<Rightarrow> subnet list \<Rightarrow> issue list \<times> (string \<times> ipnet) list" where
  "parse_subnets vpc vpc_cidr [] = ([], [])"
| "parse_subnets vpc vpc_cidr (sn # sns) =
     (let (issues, parsed) = parse_subnets vpc vpc_cidr sns
      in case ip_network False (sn_cidr sn) of
           None \<Rightarrow> (BadSubnetCidr (sn_name sn) (sn_cidr sn) # issues, parsed)
         | Some net \<Rightarrow>
             ((case vpc of
                 Some v \<Rightarrow> if subnet_of net v then [] else [SubnetOutsideVpc (sn_name sn) (sn_cidr sn) vpc_cidr]
               | None \<Rightarrow> []) @ issues,
              (sn_name sn, net) # parsed))"

fun overlap_issues :: "(string \<times> ipnet) list \<Rightarrow> issue list" where
  "overlap_issues [] = []"
| "overlap_issues ((a, an) # rest) =
     map (\<lambda>(b, bn). SubnetOverlap a b) (filter (\<lambda>(b, bn). overlaps an bn) rest) @ overlap_issues rest"

definition reference_issues :: "network_plan \<Rightarrow> compute_plan \<Rightarrow> issue list" where
  "reference_issues net c =
     (if c_security_group c \<in> set (map sg_name (net_security_groups net)) then []
      else [UndefinedGroup (c_vm_name c) (c_security_group c)])
     @ (if c_subnet_tier c \<in> set (map sn_tier (net_subnets net)) then []
        else [NoSubnetFor (c_vm_name c) (c_subnet_tier c)])"

fun duplicate_issues :: "string \<Rightarrow> string set \<Rightarrow> string list \<Rightarrow> issue list" where
  "duplicate_issues label seen [] = []"
| "duplicate_issues label seen (n # ns) =
     (if n \<in> seen then [DuplicateResource label n] else []) @ duplicate_issues label (insert n seen) ns"

definition validate_plan :: "migration_plan \<Rightarrow> target \<Rightarrow> issue list" where
  "validate_plan plan t =
     (let net = plan_net plan;
          vpc = ip_network False (net_vpc_cidr net);
          (subnet_issues, parsed) = parse_subnets vpc (net_vpc_cidr net) (net_subnets net)
      in (if plan_compute plan = [] then [NoCompute] else [])
         @ compute_issues t [] (plan_compute plan)
         @ (case vpc of None \<Rightarrow> [BadVpcCidr (net_vpc_cidr net)] | Some _ \<Rightarrow> [])
         @ subnet_issues
         @ overlap_issues parsed
         @ concat (map (reference_issues net) (plan_compute plan))
         @ duplicate_issues ''security group'' {} (map sg_resource_name (net_security_groups net))
         @ duplicate_issues ''subnet'' {} (map sn_resource_name (net_subnets net)))"

text \<open>\<open>assert_valid\<close>: \<open>Inl\<close> is \<open>PlanValidationError\<close> with its issues.\<close>

definition assert_valid :: "migration_plan \<Rightarrow> target \<Rightarrow> issue list + unit" where
  "assert_valid plan t = (case validate_plan plan t of [] \<Rightarrow> Inr () | issues \<Rightarrow> Inl issues)"

subsection \<open>What an empty report means\<close>

definition subnet_net :: "subnet \<Rightarrow> ipnet" where
  "subnet_net sn = the (ip_network False (sn_cidr sn))"

definition subnets_ok :: "network_plan \<Rightarrow> bool" where
  "subnets_ok net \<longleftrightarrow>
     (\<exists>vpc. ip_network False (net_vpc_cidr net) = Some vpc
        \<and> (\<forall>sn \<in> set (net_subnets net). ip_network False (sn_cidr sn) \<noteq> None
             \<and> net_range (subnet_net sn) \<subseteq> net_range vpc)
        \<and> sorted_wrt (\<lambda>a b. net_range (subnet_net a) \<inter> net_range (subnet_net b) = {}) (net_subnets net))"

definition plan_ok :: "migration_plan \<Rightarrow> target \<Rightarrow> bool" where
  "plan_ok plan t \<longleftrightarrow>
     plan_compute plan \<noteq> []
     \<and> (\<forall>c \<in> set (plan_compute plan). instance_exists t (c_instance_type c)
          \<and> tf_name_ok (c_resource_name c) \<and> 8 \<le> c_root_gib c
          \<and> c_security_group c \<in> set (map sg_name (net_security_groups (plan_net plan)))
          \<and> c_subnet_tier c \<in> set (map sn_tier (net_subnets (plan_net plan))))
     \<and> distinct (map c_resource_name (plan_compute plan))
     \<and> subnets_ok (plan_net plan)
     \<and> distinct (map sg_resource_name (net_security_groups (plan_net plan)))
     \<and> distinct (map sn_resource_name (net_subnets (plan_net plan)))"

lemma compute_issues_Nil:
  "compute_issues t seen cs = [] \<longleftrightarrow>
     (\<forall>c \<in> set cs. instance_exists t (c_instance_type c) \<and> tf_name_ok (c_resource_name c) \<and> 8 \<le> c_root_gib c)
     \<and> distinct (map c_resource_name cs) \<and> set (map c_resource_name cs) \<inter> set (keys seen) = {}"
proof (induction t seen cs rule: compute_issues.induct)
  case (2 t seen c cs)
  show ?case
  proof (cases "map_of seen (c_resource_name c)")
    case None
    have k: "set (keys (AList.update (c_resource_name c) (c_vm_name c) seen))
        = insert (c_resource_name c) (set (keys seen))" by (rule keys_dict_update)
    have n: "c_resource_name c \<notin> set (keys seen)" using None by (simp add: map_of_None_keys)
    have "compute_issues t seen (c # cs) = [] \<longleftrightarrow>
        instance_exists t (c_instance_type c) \<and> tf_name_ok (c_resource_name c) \<and> 8 \<le> c_root_gib c
        \<and> compute_issues t (AList.update (c_resource_name c) (c_vm_name c) seen) cs = []"
      unfolding compute_issues.simps None option.case by auto
    then show ?thesis
      using 2 n unfolding None option.case k by (simp del: set_map) blast
  next
    case (Some x)
    then have "c_resource_name c \<in> set (keys seen)" by (rule map_of_Some_keys)
    then show ?thesis using Some by auto
  qed
qed simp

lemma parse_subnets_Nil:
  "parse_subnets (Some v) cidr sns = (iss, ps) \<Longrightarrow>
     (iss = [] \<longleftrightarrow> (\<forall>sn \<in> set sns. ip_network False (sn_cidr sn) \<noteq> None \<and> subnet_of (subnet_net sn) v))
     \<and> (iss = [] \<longrightarrow> map snd ps = map subnet_net sns)"
proof (induction sns arbitrary: iss ps)
  case (Cons sn sns)
  obtain iss' ps' where p: "parse_subnets (Some v) cidr sns = (iss', ps')" by fastforce
  note ih = Cons.IH [OF p]
  show ?case
  proof (cases "ip_network False (sn_cidr sn)")
    case None
    then show ?thesis using Cons.prems by (simp add: p) blast
  next
    case (Some n)
    then have n: "subnet_net sn = n" by (simp add: subnet_net_def)
    show ?thesis
    proof (cases "subnet_of n v")
      case True
      then have "iss = iss'" "ps = (sn_name sn, n) # ps'" using Cons.prems Some by (simp_all add: p)
      then show ?thesis using ih Some True n by simp
    next
      case False
      then have "iss \<noteq> []" using Cons.prems Some by (auto simp: p)
      then show ?thesis using False n by simp
    qed
  qed
qed simp

lemma overlap_issues_Nil:
  "overlap_issues ps = [] \<longleftrightarrow> sorted_wrt (\<lambda>a b. \<not> overlaps a b) (map snd ps)"
  by (induction ps rule: overlap_issues.induct) (auto simp: filter_empty_conv)

lemma duplicate_issues_Nil:
  "duplicate_issues l seen ns = [] \<longleftrightarrow> distinct ns \<and> set ns \<inter> seen = {}"
  by (induction l seen ns rule: duplicate_issues.induct) auto

text \<open>The validator is sound and complete for the declarative statement.\<close>

lemma validate_plan_Nil: "validate_plan plan t = [] \<longleftrightarrow> plan_ok plan t"
proof -
  let ?net = "plan_net plan"
  obtain iss ps where p: "parse_subnets (ip_network False (net_vpc_cidr ?net)) (net_vpc_cidr ?net) (net_subnets ?net) = (iss, ps)"
    by fastforce
  have refs: "concat (map (reference_issues ?net) cs) = [] \<longleftrightarrow>
      (\<forall>c \<in> set cs. c_security_group c \<in> set (map sg_name (net_security_groups ?net))
          \<and> c_subnet_tier c \<in> set (map sn_tier (net_subnets ?net)))" for cs
    by (auto simp: reference_issues_def)
  have "subnets_ok ?net \<longleftrightarrow>
      (case ip_network False (net_vpc_cidr ?net) of None \<Rightarrow> [BadVpcCidr (net_vpc_cidr ?net)] | Some _ \<Rightarrow> []) = []
      \<and> iss = [] \<and> overlap_issues ps = []"
  proof (cases "ip_network False (net_vpc_cidr ?net)")
    case (Some v)
    note ps = parse_subnets_Nil [OF p [unfolded Some]]
    have "overlap_issues ps = [] \<longleftrightarrow>
        sorted_wrt (\<lambda>a b. net_range (subnet_net a) \<inter> net_range (subnet_net b) = {}) (net_subnets ?net)"
      if "iss = []"
    proof -
      have "map snd ps = map subnet_net (net_subnets ?net)" using ps that by blast
      then show ?thesis by (simp add: overlap_issues_Nil overlaps_iff sorted_wrt_map)
    qed
    then show ?thesis using ps unfolding subnets_ok_def Some subnet_of_iff by (simp, blast)
  qed (simp add: subnets_ok_def)
  then show ?thesis
    unfolding validate_plan_def plan_ok_def Let_def
    by (simp add: p compute_issues_Nil refs duplicate_issues_Nil del: set_map concat_eq_Nil_conv)
      blast
qed

subsection \<open>Built plans pass\<close>

lemma planned_subnets_ok:
  assumes "plan_network compute t zone = Inr net"
  shows "subnets_ok net" and "distinct (map sn_resource_name (net_subnets net))"
    and "c_subnet_tier c \<in> set (map sn_tier (net_subnets net))"
proof -
  obtain n where n: "ip_network True (vpc_of t zone) = Some n" "nw_plen n \<le> 22"
    using plan_network_fits [OF assms] by (rule zone_fitsE)
  obtain a b c' d net' where p: "plan_network compute t zone = Inr net'"
    and vpc: "net_vpc_cidr net' = vpc_of t zone"
    and subs: "net_subnets net' = [subnet_of_az PUBLIC [str_of_net a, str_of_net b] 0,
        subnet_of_az PRIVATE [str_of_net c', str_of_net d] 0,
        subnet_of_az PUBLIC [str_of_net a, str_of_net b] 1,
        subnet_of_az PRIVATE [str_of_net c', str_of_net d] 1]"
    and ok: "\<forall>m \<in> {a, b, c', d}. net_ok m \<and> subnet_of m n \<and> nw_plen m = 24"
    and dis: "\<not> overlaps a b" "\<not> overlaps a c'" "\<not> overlaps a d"
      "\<not> overlaps b c'" "\<not> overlaps b d" "\<not> overlaps c' d"
    using plan_network_Inr [OF n, of compute] by metis
  have net: "net' = net" using p assms by simp
  have parse: "ip_network False (str_of_net m) = Some m" if "m \<in> {a, b, c', d}" for m
    using ok that ip_network_str by blast
  have sn: "subnet_net (subnet_of_az PUBLIC [str_of_net a, str_of_net b] 0) = a"
    "subnet_net (subnet_of_az PRIVATE [str_of_net c', str_of_net d] 0) = c'"
    "subnet_net (subnet_of_az PUBLIC [str_of_net a, str_of_net b] 1) = b"
    "subnet_net (subnet_of_az PRIVATE [str_of_net c', str_of_net d] 1) = d"
    by (simp_all add: subnet_net_def subnet_of_az_def parse)
  have disj: "net_range a \<inter> net_range b = {}" "net_range a \<inter> net_range c' = {}"
    "net_range a \<inter> net_range d = {}" "net_range b \<inter> net_range c' = {}"
    "net_range b \<inter> net_range d = {}" "net_range c' \<inter> net_range d = {}"
    using dis unfolding overlaps_iff by blast+
  have cont: "net_range m \<subseteq> net_range n" if "m \<in> {a, b, c', d}" for m
    using ok that unfolding subnet_of_iff by blast
  have parses: "\<forall>s \<in> set (net_subnets net'). ip_network False (sn_cidr s) \<noteq> None"
    by (simp add: subs subnet_of_az_def parse)
  have ranges: "\<forall>s \<in> set (net_subnets net'). net_range (subnet_net s) \<subseteq> net_range n"
    unfolding subs using cont by (simp only: list.set ball_simps sn) simp
  have "sorted_wrt (\<lambda>a b. net_range (subnet_net a) \<inter> net_range (subnet_net b) = {}) (net_subnets net')"
    unfolding subs using disj by (simp only: sorted_wrt.simps list.set ball_simps sn) (simp add: Int_commute)
  then show "subnets_ok net"
    unfolding subnets_ok_def net [symmetric] vpc using ip_network_strict [OF n(1)] parses ranges by blast
  show "distinct (map sn_resource_name (net_subnets net))"
    unfolding net [symmetric] subs by (simp add: subnet_of_az_def)
  show "c_subnet_tier c \<in> set (map sn_tier (net_subnets net))"
    unfolding net [symmetric] subs by (cases "c_subnet_tier c") (simp_all add: subnet_of_az_def)
qed

lemma planned_groups:
  assumes "plan_network compute t zone = Inr net"
  shows "net_security_groups net = map (sg_for t (vpc_of t zone)) (sorted_set (map c_security_group compute))"
proof -
  obtain n where n: "ip_network True (vpc_of t zone) = Some n" "nw_plen n \<le> 22"
    using plan_network_fits [OF assms] by (rule zone_fitsE)
  show ?thesis using plan_network_Inr [OF n, of compute] assms by (metis sum.inject(2))
qed

lemma sg_for_name [simp]: "sg_name (sg_for t v g) = g" "sg_resource_name (sg_for t v g) = terraform_safe_name g"
  by (simp_all add: sg_for_def Let_def)

lemma sg_names_planned:
  "map sg_name (map (sg_for t v) gs) = gs"
  by (simp add: o_def)

text \<open>
  The central guarantee: whatever provider made the decisions, a plan that is built is a valid one.
\<close>

lemma built_plan_ok:
  assumes "cloud_target t" and "image_keys_ok t" and "vms \<noteq> []"
    and "build_migration_plan cfg vms project t region p source live zone st = Inr (plan, st')"
  shows "plan_ok plan t"
proof -
  obtain r where b: "build_compute_plans cfg vms p (tier_env_index (classify vms p)) t r live st
        = Some (plan_compute plan, st')"
      and n: "plan_network (plan_compute plan) t zone = Inr (plan_net plan)"
    using assms(4) by (rule build_migration_planD)
  let ?cs = "plan_compute plan"
  note spec = build_spec [OF assms(1,2) b]
  have each: "instance_exists t (c_instance_type c) \<and> tf_name_ok (c_resource_name c) \<and> 8 \<le> c_root_gib c
      \<and> (\<exists>tr. c_security_group c = t_sg_for_tier t tr)" if c: "c \<in> set ?cs" for c
  proof -
    obtain vm where "plan_for t vm c"
      using spec(1) c by (metis in_set_conv_nth list_all2_conv_all_nth)
    then show ?thesis by (auto simp: plan_for_def plan_of_def MIN_ROOT_GIB_def)
  qed
  have ne: "?cs \<noteq> []" using spec(1) assms(3) by auto
  have groups: "map sg_name (net_security_groups (plan_net plan)) = sorted_set (map c_security_group ?cs)"
    unfolding planned_groups [OF n] by (rule sg_names_planned)
  have "distinct (map sg_resource_name (net_security_groups (plan_net plan)))"
    unfolding planned_groups [OF n] map_map
  proof (rule distinct_map [THEN iffD2], intro conjI)
    show "inj_on (sg_resource_name \<circ> sg_for t (vpc_of t zone)) (set (sorted_set (map c_security_group ?cs)))"
    proof (rule inj_onI)
      fix g h
      assume gh: "g \<in> set (sorted_set (map c_security_group ?cs))" "h \<in> set (sorted_set (map c_security_group ?cs))"
        and eq: "(sg_resource_name \<circ> sg_for t (vpc_of t zone)) g = (sg_resource_name \<circ> sg_for t (vpc_of t zone)) h"
      have "\<exists>tr. x = t_sg_for_tier t tr" if x: "x \<in> set (sorted_set (map c_security_group ?cs))" for x
      proof -
        obtain c where "c \<in> set ?cs" "x = c_security_group c" using x by auto
        then show ?thesis using each by blast
      qed
      then obtain a b where ab: "g = t_sg_for_tier t a" "h = t_sg_for_tier t b"
        using gh by blast
      have "terraform_safe_name g = terraform_safe_name h" using eq by simp
      then show "g = h" unfolding ab by (rule cloud_target.sg_labels [OF assms(1)])
    qed
  qed simp
  moreover have "c_security_group c \<in> set (map sg_name (net_security_groups (plan_net plan)))"
    if "c \<in> set ?cs" for c
    unfolding groups using that by simp
  ultimately show ?thesis
    unfolding plan_ok_def
    using ne each spec(2) planned_subnets_ok [OF n] by blast
qed

end
