(* ===== verification/Waves.thy ===== *)
theory Waves
  imports Models "HOL-Library.Multiset"
begin

text \<open>
  \<open>waves.py\<close>: the migration waves of a plan, grouped by environment rank and tier depth. The prose of
  a wave (name, rollback, checks, summary, notes) is left out.
\<close>

fun tier_depth :: "tier \<Rightarrow> nat" where
  "tier_depth DATABASE = 0"
| "tier_depth CACHE = 0"
| "tier_depth OTHER = 0"
| "tier_depth APP = 1"
| "tier_depth WEB = 2"

fun env_rank :: "environment \<Rightarrow> nat" where
  "env_rank DEVELOPMENT = 0"
| "env_rank TEST = 0"
| "env_rank STAGING = 1"
| "env_rank UNKNOWN = 2"
| "env_rank PRODUCTION = 2"

text \<open>The first word of \<open>_TIER_DEPTH_LABEL\<close>.\<close>

definition depth_word :: "nat \<Rightarrow> string" where
  "depth_word d = (if d = 0 then ''foundational'' else if d = 1 then ''application'' else ''presentation'')"

record wave =
  wv_id :: string
  wv_sequence :: nat
  wv_environment :: environment
  wv_tier_depth :: nat
  wv_workloads :: "string list"
  wv_depends_on :: "string list"
  wv_downtime :: nat

type_synonym wave_group = "nat \<times> nat"

definition wave_key :: "compute_plan \<Rightarrow> wave_group" where
  "wave_key c = (env_rank (c_environment c), tier_depth (c_tier c))"

definition fronted :: "migration_plan \<Rightarrow> string list" where
  "fronted p = concat (map lb_targets (net_load_balancers (plan_net p)))"

definition make_wave ::
  "string list \<Rightarrow> nat \<Rightarrow> wave_group \<Rightarrow> compute_plan list \<Rightarrow> (wave_group, string) dict \<Rightarrow> wave" where
  "make_wave fr sequence key grp ids =
     (let (rank, depth) = key;
          members = sort_key c_vm_name grp;
          env = c_environment (hd members);
          all_fronted = (members \<noteq> [] \<and> list_all (\<lambda>c. c_vm_name c \<in> set fr) members)
      in \<lparr>wv_id = ''wave-'' @ str_of_nat sequence @ ''-'' @ env_value env @ ''-'' @ depth_word depth,
          wv_sequence = sequence, wv_environment = env, wv_tier_depth = depth,
          wv_workloads = map c_vm_name members,
          wv_depends_on = List.map_filter (\<lambda>d. map_of ids (rank, d)) [0..<depth],
          wv_downtime = (if all_fronted then 0 else if depth = 0 then 30 else 10)\<rparr>)"

fun wave_loop ::
  "string list \<Rightarrow> (wave_group, compute_plan list) dict \<Rightarrow> nat \<Rightarrow> (wave_group, string) dict
    \<Rightarrow> wave_group list \<Rightarrow> wave list" where
  "wave_loop fr groups sequence ids [] = []"
| "wave_loop fr groups sequence ids (key # rest) =
     (let grp = (case map_of groups key of Some g \<Rightarrow> g | None \<Rightarrow> []);
          w = make_wave fr sequence key grp ids
      in w # wave_loop fr groups (sequence + 1) (AList.update key (wv_id w) ids) rest)"

definition plan_waves :: "migration_plan \<Rightarrow> wave list" where
  "plan_waves p =
     (let groups = group_by wave_key (plan_compute p) []
      in wave_loop (fronted p) groups 0 [] (sort (keys groups)))"

definition total_downtime :: "migration_plan \<Rightarrow> nat" where
  "total_downtime p = sum_list (map wv_downtime (plan_waves p))"

subsection \<open>Facts\<close>

text \<open>The waves are the groups in key order, each built with the ids of the waves before it.\<close>

definition group_of :: "compute_plan list \<Rightarrow> wave_group \<Rightarrow> compute_plan list" where
  "group_of cs k = filter (\<lambda>c. wave_key c = k) cs"

definition wave_keys :: "compute_plan list \<Rightarrow> wave_group list" where
  "wave_keys cs = sort (keys (group_by wave_key cs []))"

lemma wave_keys: "set (wave_keys cs) = wave_key ` set cs" "distinct (wave_keys cs)" "sorted (wave_keys cs)"
proof -
  have "set (keys (group_by wave_key cs [])) = wave_key ` set cs"
    using keys_group_by [of wave_key cs "[]"] by simp
  then show "set (wave_keys cs) = wave_key ` set cs" by (simp add: wave_keys_def)
  show "distinct (wave_keys cs)" "sorted (wave_keys cs)"
    using dict_ok_group_by [of "[]" wave_key cs] by (simp_all add: wave_keys_def)
qed

lemma wave_loop_length: "length (wave_loop fr g s ids ks) = length ks"
  by (induction fr g s ids ks rule: wave_loop.induct) (simp_all add: Let_def)

text \<open>
  The \<open>i\<close>-th wave is made from the \<open>i\<close>-th key, with a dictionary that holds exactly the ids of the
  earlier waves of the loop and the initial entries.
\<close>

lemma wave_loop_nth:
  assumes "i < length ks" and "distinct ks" and "set ks \<inter> set (keys ids) = {}"
  shows "\<exists>ids'. wave_loop fr g s ids ks ! i
      = make_wave fr (s + i) (ks ! i) (case map_of g (ks ! i) of Some x \<Rightarrow> x | None \<Rightarrow> []) ids'
    \<and> (\<forall>k v. map_of ids' k = Some v \<longleftrightarrow>
          map_of ids k = Some v \<or> (\<exists>j < i. ks ! j = k \<and> wv_id (wave_loop fr g s ids ks ! j) = v))"
  using assms
proof (induction fr g s ids ks arbitrary: i rule: wave_loop.induct)
  case (2 fr g s ids k ks)
  let ?grp = "case map_of g k of Some x \<Rightarrow> x | None \<Rightarrow> []"
  let ?w = "make_wave fr s k ?grp ids"
  let ?ids = "AList.update k (wv_id ?w) ids"
  have unf: "wave_loop fr g s ids (k # ks) = ?w # wave_loop fr g (s + 1) ?ids ks"
    by (simp add: Let_def)
  show ?case
  proof (cases i)
    case 0
    then show ?thesis unfolding unf by (intro exI [of _ ids]) simp
  next
    case (Suc j)
    have ks: "set (keys ?ids) = insert k (set (keys ids))" by (rule keys_dict_update)
    have "\<exists>ids'. wave_loop fr g (s + 1) ?ids ks ! j
        = make_wave fr (s + 1 + j) (ks ! j) (case map_of g (ks ! j) of Some x \<Rightarrow> x | None \<Rightarrow> []) ids'
      \<and> (\<forall>k' v. map_of ids' k' = Some v \<longleftrightarrow>
          map_of ?ids k' = Some v \<or> (\<exists>l < j. ks ! l = k' \<and> wv_id (wave_loop fr g (s + 1) ?ids ks ! l) = v))"
      using 2(1) [OF refl refl] 2(2-4) Suc unfolding ks by auto
    then obtain ids' where i1: "wave_loop fr g (s + 1) ?ids ks ! j
        = make_wave fr (s + 1 + j) (ks ! j) (case map_of g (ks ! j) of Some x \<Rightarrow> x | None \<Rightarrow> []) ids'"
      and i2: "\<And>k' v. map_of ids' k' = Some v \<longleftrightarrow>
          map_of ?ids k' = Some v \<or> (\<exists>l < j. ks ! l = k' \<and> wv_id (wave_loop fr g (s + 1) ?ids ks ! l) = v)"
      by blast
    have kn: "map_of ids k = None" using 2(4) by (simp add: map_of_eq_None_iff)
    have "map_of ids' k' = Some v \<longleftrightarrow>
        map_of ids k' = Some v \<or> (\<exists>l < i. (k # ks) ! l = k' \<and> wv_id (wave_loop fr g s ids (k # ks) ! l) = v)" for k' v
      unfolding i2 unf Suc Ex_less_Suc2 using kn by auto
    then show ?thesis using i1 unfolding unf Suc by (intro exI [of _ ids']) simp
  qed
qed simp

lemma group_lookup:
  "(case map_of (group_by wave_key cs []) k of Some x \<Rightarrow> x | None \<Rightarrow> []) = group_of cs k"
  by (simp add: map_of_group_by_empty group_of_def)

lemma plan_waves_loop:
  "plan_waves p = wave_loop (fronted p) (group_by wave_key (plan_compute p) []) 0 [] (wave_keys (plan_compute p))"
  by (simp add: plan_waves_def wave_keys_def Let_def)

lemma length_plan_waves: "length (plan_waves p) = length (wave_keys (plan_compute p))"
  by (simp add: plan_waves_loop wave_loop_length)

lemma plan_waves_nth:
  assumes "i < length (plan_waves p)"
  obtains ids where
    "plan_waves p ! i = make_wave (fronted p) i (wave_keys (plan_compute p) ! i)
       (group_of (plan_compute p) (wave_keys (plan_compute p) ! i)) ids"
    and "\<And>k v. map_of ids k = Some v \<longleftrightarrow>
       (\<exists>j < i. wave_keys (plan_compute p) ! j = k \<and> wv_id (plan_waves p ! j) = v)"
proof -
  let ?ks = "wave_keys (plan_compute p)"
  have i: "i < length ?ks" using assms by (simp add: length_plan_waves)
  have d: "distinct ?ks" "set ?ks \<inter> set (keys ([] :: (wave_group, string) dict)) = {}"
    using wave_keys(2) by simp_all
  obtain ids where a: "plan_waves p ! i = make_wave (fronted p) (0 + i) (?ks ! i) (group_of (plan_compute p) (?ks ! i)) ids"
    and b: "\<forall>k v. map_of ids k = Some v \<longleftrightarrow> map_of [] k = Some v \<or>
       (\<exists>j < i. ?ks ! j = k \<and> wv_id (plan_waves p ! j) = v)"
    using wave_loop_nth [OF i d, of "fronted p" "group_by wave_key (plan_compute p) []" 0]
    unfolding plan_waves_loop [symmetric] group_lookup by blast
  have e: "map_of ([] :: (wave_group, string) dict) k = Some v \<longleftrightarrow> False" for k v by simp
  show thesis
  proof (rule that)
    show "plan_waves p ! i = make_wave (fronted p) i (?ks ! i) (group_of (plan_compute p) (?ks ! i)) ids"
      using a by simp
    show "map_of ids k = Some v \<longleftrightarrow> (\<exists>j < i. ?ks ! j = k \<and> wv_id (plan_waves p ! j) = v)" for k v
      using b unfolding e by blast
  qed
qed

lemma group_of_key: "c \<in> set (group_of cs k) \<Longrightarrow> wave_key c = k \<and> c \<in> set cs"
  by (simp add: group_of_def)

lemma make_wave_fields:
  assumes "group_of cs (r, d) \<noteq> []"
  shows "wv_sequence (make_wave fr i (r, d) (group_of cs (r, d)) ids) = i"
    and "env_rank (wv_environment (make_wave fr i (r, d) (group_of cs (r, d)) ids)) = r"
    and "wv_tier_depth (make_wave fr i (r, d) (group_of cs (r, d)) ids) = d"
    and "wv_workloads (make_wave fr i (r, d) (group_of cs (r, d)) ids)
      = map c_vm_name (sort_key c_vm_name (group_of cs (r, d)))"
    and "wv_depends_on (make_wave fr i (r, d) (group_of cs (r, d)) ids)
      = List.map_filter (\<lambda>d'. map_of ids (r, d')) [0..<d]"
    and "wv_downtime (make_wave fr i (r, d) (group_of cs (r, d)) ids) = 0 \<longleftrightarrow>
      (\<forall>c \<in> set (group_of cs (r, d)). c_vm_name c \<in> set fr)"
proof -
  have ne: "sort_key c_vm_name (group_of cs (r, d)) \<noteq> []"
    using assms by (metis length_0_conv length_sort)
  then have "hd (sort_key c_vm_name (group_of cs (r, d))) \<in> set (group_of cs (r, d))"
    by (metis hd_in_set set_sort)
  then have "wave_key (hd (sort_key c_vm_name (group_of cs (r, d)))) = (r, d)"
    using group_of_key by blast
  then show "env_rank (wv_environment (make_wave fr i (r, d) (group_of cs (r, d)) ids)) = r"
    by (simp add: make_wave_def wave_key_def Let_def)
  show "wv_downtime (make_wave fr i (r, d) (group_of cs (r, d)) ids) = 0 \<longleftrightarrow>
      (\<forall>c \<in> set (group_of cs (r, d)). c_vm_name c \<in> set fr)"
    using ne by (simp add: make_wave_def Let_def list_all_iff)
qed (simp_all add: make_wave_def Let_def)

lemma wave_group_ne: "k \<in> set (wave_keys cs) \<Longrightarrow> group_of cs k \<noteq> []"
  unfolding wave_keys(1) group_of_def by (auto simp: filter_empty_conv)

definition wave_pos :: "wave \<Rightarrow> nat \<times> nat" where
  "wave_pos w = (env_rank (wv_environment w), wv_tier_depth w)"

lemma plan_waves_fields:
  assumes "i < length (plan_waves p)"
  defines "k \<equiv> wave_keys (plan_compute p) ! i"
  shows "wave_pos (plan_waves p ! i) = k" and "wv_sequence (plan_waves p ! i) = i"
    and "wv_workloads (plan_waves p ! i) = map c_vm_name (sort_key c_vm_name (group_of (plan_compute p) k))"
    and "wv_downtime (plan_waves p ! i) = 0 \<longleftrightarrow>
      (\<forall>c \<in> set (group_of (plan_compute p) k). c_vm_name c \<in> set (fronted p))"
proof -
  obtain r d where k: "wave_keys (plan_compute p) ! i = (r, d)" by fastforce
  have "wave_keys (plan_compute p) ! i \<in> set (wave_keys (plan_compute p))"
    using assms(1) by (simp add: length_plan_waves)
  then have ne: "group_of (plan_compute p) (r, d) \<noteq> []" unfolding k by (rule wave_group_ne)
  obtain ids where w: "plan_waves p ! i = make_wave (fronted p) i (r, d) (group_of (plan_compute p) (r, d)) ids"
    using plan_waves_nth [OF assms(1)] unfolding k by metis
  note f = make_wave_fields [OF ne, of "fronted p" i ids]
  show "wave_pos (plan_waves p ! i) = k" "wv_sequence (plan_waves p ! i) = i"
    "wv_workloads (plan_waves p ! i) = map c_vm_name (sort_key c_vm_name (group_of (plan_compute p) k))"
    "wv_downtime (plan_waves p ! i) = 0 \<longleftrightarrow>
      (\<forall>c \<in> set (group_of (plan_compute p) k). c_vm_name c \<in> set (fronted p))"
    unfolding k_def k w wave_pos_def using f by simp_all
qed

text \<open>Waves come in strictly increasing order of (environment rank, tier depth).\<close>

lemma plan_waves_order:
  assumes "i < j" and "j < length (plan_waves p)"
  shows "wave_pos (plan_waves p ! i) < wave_pos (plan_waves p ! j)"
proof -
  let ?ks = "wave_keys (plan_compute p)"
  have "?ks ! i \<le> ?ks ! j" "?ks ! i \<noteq> ?ks ! j"
    using assms wave_keys(2,3) [of "plan_compute p"]
    by (auto simp: sorted_nth_mono nth_eq_iff_index_eq length_plan_waves)
  then show ?thesis using assms by (simp add: plan_waves_fields(1))
qed

text \<open>
  The dependencies of a wave are the ids of exactly the waves of its environment rank at a lower
  depth, and all of those come earlier.
\<close>

lemma plan_waves_depends:
  assumes "i < length (plan_waves p)"
  shows "set (wv_depends_on (plan_waves p ! i)) =
    {wv_id (plan_waves p ! j) |j. j < length (plan_waves p)
       \<and> fst (wave_pos (plan_waves p ! j)) = fst (wave_pos (plan_waves p ! i))
       \<and> snd (wave_pos (plan_waves p ! j)) < snd (wave_pos (plan_waves p ! i))}"
proof -
  let ?cs = "plan_compute p" let ?ks = "wave_keys ?cs" let ?ws = "plan_waves p"
  obtain r d where k: "?ks ! i = (r, d)" by fastforce
  have "?ks ! i \<in> set ?ks" using assms by (simp add: length_plan_waves)
  then have ne: "group_of ?cs (r, d) \<noteq> []" unfolding k by (rule wave_group_ne)
  obtain ids where w: "?ws ! i = make_wave (fronted p) i (r, d) (group_of ?cs (r, d)) ids"
    and ids: "\<And>k v. map_of ids k = Some v \<longleftrightarrow> (\<exists>j < i. ?ks ! j = k \<and> wv_id (?ws ! j) = v)"
    using plan_waves_nth [OF assms] unfolding k by metis
  have pos: "wave_pos (?ws ! i) = (r, d)" using plan_waves_fields(1) [OF assms] k by simp
  have "set (wv_depends_on (?ws ! i)) = {v. \<exists>d' < d. map_of ids (r, d') = Some v}"
    unfolding w make_wave_fields(5) [OF ne]
    by (auto simp: List.map_filter_def image_iff intro!: exI)
  also have "\<dots> = {wv_id (?ws ! j) |j. j < i \<and> fst (?ks ! j) = r \<and> snd (?ks ! j) < d}"
    unfolding ids by (auto simp: prod_eq_iff)
  also have "\<dots> = {wv_id (?ws ! j) |j. j < length ?ws
      \<and> fst (wave_pos (?ws ! j)) = fst (wave_pos (?ws ! i)) \<and> snd (wave_pos (?ws ! j)) < snd (wave_pos (?ws ! i))}"
  proof -
    have "j < i \<and> fst (?ks ! j) = r \<and> snd (?ks ! j) < d \<longleftrightarrow>
        j < length ?ws \<and> fst (wave_pos (?ws ! j)) = r \<and> snd (wave_pos (?ws ! j)) < d" for j
    proof
      assume "j < i \<and> fst (?ks ! j) = r \<and> snd (?ks ! j) < d"
      then show "j < length ?ws \<and> fst (wave_pos (?ws ! j)) = r \<and> snd (wave_pos (?ws ! j)) < d"
        using assms by (simp add: plan_waves_fields(1))
    next
      assume a: "j < length ?ws \<and> fst (wave_pos (?ws ! j)) = r \<and> snd (wave_pos (?ws ! j)) < d"
      have "j < i"
      proof (rule ccontr)
        assume "\<not> j < i"
        then have "i = j \<or> i < j" by linarith
        then have "wave_pos (?ws ! i) \<le> wave_pos (?ws ! j)"
          using plan_waves_order [of i j p] a by auto
        then show False using a pos by (auto simp: less_eq_prod_def prod_eq_iff)
      qed
      then show "j < i \<and> fst (?ks ! j) = r \<and> snd (?ks ! j) < d"
        using a assms by (simp add: plan_waves_fields(1))
    qed
    then show ?thesis unfolding pos by simp
  qed
  finally show ?thesis .
qed

text \<open>Every workload of the plan is in the waves exactly as often as in the plan.\<close>

lemma group_of_partition:
  assumes "distinct ks" and "wave_key ` set cs \<subseteq> set ks"
  shows "mset (concat (map (group_of cs) ks)) = mset cs"
  using assms(2)
proof (induction cs)
  case Nil
  then show ?case by (simp add: group_of_def)
next
  case (Cons c cs)
  have "mset (concat (map (group_of (c # cs)) ks')) =
      mset (concat (map (group_of cs) ks')) + (if wave_key c \<in> set ks' then {#c#} else {#})"
    if "distinct ks'" for ks'
    using that by (induction ks') (auto simp: group_of_def)
  then show ?case using assms(1) Cons by simp
qed

lemma plan_waves_partition:
  "mset (concat (map wv_workloads (plan_waves p))) = mset (map c_vm_name (plan_compute p))"
proof -
  let ?cs = "plan_compute p" let ?ks = "wave_keys ?cs"
  have "map wv_workloads (plan_waves p) = map (\<lambda>k. map c_vm_name (sort_key c_vm_name (group_of ?cs k))) ?ks"
    by (rule nth_equalityI) (simp_all add: length_plan_waves plan_waves_fields)
  moreover have "mset (concat (map (\<lambda>k. map c_vm_name (sort_key c_vm_name (group_of ?cs k))) ks))
      = image_mset c_vm_name (mset (concat (map (group_of ?cs) ks)))" for ks
    by (induction ks) simp_all
  moreover have "mset (concat (map (group_of ?cs) ?ks)) = mset ?cs"
    by (rule group_of_partition) (simp_all add: wave_keys)
  ultimately show ?thesis by simp
qed

end
