(* ===== verification/Graph.thy ===== *)
theory Graph
  imports Validation
begin

text \<open>
  \<open>graph.py\<close>: the topology graph of a plan, and \<open>assign_subnets\<close>, the one place where placement is
  decided. The attribute dictionaries of the nodes are a datatype with one constructor per node kind.
\<close>

datatype node_kind = VPC | SUBNET | SECURITY_GROUP | INSTANCE | LOAD_BALANCER

datatype edge_kind = CONTAINS | PLACED_IN | SECURED_BY | FRONTS

datatype attributes =
    VpcAttrs string bool bool
  | SubnetAttrs string subnet_tier nat
  | GroupAttrs string "ingress_rule list"
  | InstanceAttrs string tier environment subnet_tier int rat string int "int list"
  | LbAttrs tier environment subnet_tier bool string "lb_listener list"

record graph_node =
  gn_id :: string
  gn_kind :: node_kind
  gn_name :: string
  gn_attributes :: attributes

record graph_edge =
  ge_source :: string
  ge_target :: string
  ge_kind :: edge_kind

record infra_graph =
  g_project :: string
  g_target :: string
  g_region :: string
  g_nodes :: "graph_node list"
  g_edges :: "graph_edge list"

definition nodes_of :: "infra_graph \<Rightarrow> node_kind \<Rightarrow> graph_node list" where
  "nodes_of g k = filter (\<lambda>n. gn_kind n = k) (g_nodes g)"

definition node_by_id :: "infra_graph \<Rightarrow> string \<Rightarrow> graph_node option" where
  "node_by_id g i = find (\<lambda>n. gn_id n = i) (g_nodes g)"

definition out_edges :: "infra_graph \<Rightarrow> string \<Rightarrow> edge_kind option \<Rightarrow> graph_edge list" where
  "out_edges g i k =
     filter (\<lambda>e. ge_source e = i \<and> (case k of None \<Rightarrow> True | Some k \<Rightarrow> ge_kind e = k)) (g_edges g)"

definition vpc_id :: string where "vpc_id = ''vpc''"
definition subnet_id :: "string \<Rightarrow> string" where "subnet_id r = ''subnet:'' @ r"
definition sg_id :: "string \<Rightarrow> string" where "sg_id r = ''sg:'' @ r"
definition instance_id :: "string \<Rightarrow> string" where "instance_id r = ''instance:'' @ r"
definition lb_id :: "string \<Rightarrow> string" where "lb_id r = ''lb:'' @ r"

definition edge :: "string \<Rightarrow> string \<Rightarrow> edge_kind \<Rightarrow> graph_edge" where
  "edge s t k = \<lparr>ge_source = s, ge_target = t, ge_kind = k\<rparr>"

subsection \<open>Placement\<close>

definition tier_pool :: "network_plan \<Rightarrow> subnet_tier \<Rightarrow> string list" where
  "tier_pool net tr = map sn_resource_name (filter (\<lambda>s. sn_tier s = tr) (net_subnets net))"

text \<open>The pool of a machine: the subnets of its tier, any subnet when there is none of its tier.\<close>

definition pool_for :: "network_plan \<Rightarrow> subnet_tier \<Rightarrow> string list" where
  "pool_for net tr =
     (if tier_pool net tr = [] then map sn_resource_name (net_subnets net) else tier_pool net tr)"

fun assign_loop ::
  "network_plan \<Rightarrow> (subnet_tier \<Rightarrow> nat) \<Rightarrow> (string, string) dict \<Rightarrow> compute_plan list \<Rightarrow> (string, string) dict" where
  "assign_loop net counters mapping [] = mapping"
| "assign_loop net counters mapping (c # cs) =
     (let pool = pool_for net (c_subnet_tier c)
      in if pool = [] then assign_loop net counters mapping cs
         else let idx = counters (c_subnet_tier c) mod length pool
              in assign_loop net (counters(c_subnet_tier c := counters (c_subnet_tier c) + 1))
                   (AList.update (c_vm_name c) (pool ! idx) mapping) cs)"

definition assign_subnets :: "migration_plan \<Rightarrow> (string, string) dict" where
  "assign_subnets p = assign_loop (plan_net p) (\<lambda>_. 0) [] (plan_compute p)"

subsection \<open>The graph\<close>

definition vpc_node :: "migration_plan \<Rightarrow> graph_node" where
  "vpc_node p =
     \<lparr>gn_id = vpc_id, gn_kind = VPC, gn_name = plan_project p @ ''-vpc'',
      gn_attributes = VpcAttrs (net_vpc_cidr (plan_net p)) (net_internet_gateway (plan_net p))
        (net_nat_gateway (plan_net p))\<rparr>"

definition subnet_node :: "subnet \<Rightarrow> graph_node" where
  "subnet_node sn =
     \<lparr>gn_id = subnet_id (sn_resource_name sn), gn_kind = SUBNET, gn_name = sn_name sn,
      gn_attributes = SubnetAttrs (sn_cidr sn) (sn_tier sn) (sn_az sn)\<rparr>"

definition group_node :: "security_group \<Rightarrow> graph_node" where
  "group_node sg =
     \<lparr>gn_id = sg_id (sg_resource_name sg), gn_kind = SECURITY_GROUP, gn_name = sg_name sg,
      gn_attributes = GroupAttrs (sg_description sg) (sg_ingress sg)\<rparr>"

definition instance_node :: "compute_plan \<Rightarrow> graph_node" where
  "instance_node c =
     \<lparr>gn_id = instance_id (c_resource_name c), gn_kind = INSTANCE, gn_name = c_vm_name c,
      gn_attributes = InstanceAttrs (c_instance_type c) (c_tier c) (c_environment c) (c_subnet_tier c)
        (c_vcpu c) (c_memory c) (c_image_key c) (c_root_gib c) (c_extra_gib c)\<rparr>"

definition lb_node :: "load_balancer \<Rightarrow> graph_node" where
  "lb_node lb =
     \<lparr>gn_id = lb_id (lb_resource_name lb), gn_kind = LOAD_BALANCER, gn_name = lb_name lb,
      gn_attributes = LbAttrs (lb_tier lb) (lb_environment lb) (lb_subnet_tier lb) (internet_facing lb)
        (lb_health_path lb) (lb_listeners lb)\<rparr>"

definition sg_ids :: "network_plan \<Rightarrow> (string, string) dict" where
  "sg_ids net =
     foldl (\<lambda>d sg. AList.update (sg_name sg) (sg_id (sg_resource_name sg)) d) [] (net_security_groups net)"

definition instance_ids :: "compute_plan list \<Rightarrow> (string, string) dict" where
  "instance_ids cs =
     foldl (\<lambda>d c. AList.update (c_vm_name c) (instance_id (c_resource_name c)) d) [] cs"

text \<open>The edges that a lookup decides; a missing or empty value gives none.\<close>

definition edge_to :: "string \<Rightarrow> edge_kind \<Rightarrow> (string \<Rightarrow> string) \<Rightarrow> string option \<Rightarrow> graph_edge list" where
  "edge_to s k f v = (case v of Some x \<Rightarrow> if x = [] then [] else [edge s (f x) k] | None \<Rightarrow> [])"

definition instance_edges ::
  "(string, string) dict \<Rightarrow> (string, string) dict \<Rightarrow> compute_plan \<Rightarrow> graph_edge list" where
  "instance_edges placed sgs c =
     (let iid = instance_id (c_resource_name c)
      in edge_to iid PLACED_IN subnet_id (map_of placed (c_vm_name c))
         @ edge_to iid SECURED_BY (\<lambda>x. x) (map_of sgs (c_security_group c)))"

definition lb_edges ::
  "network_plan \<Rightarrow> (string, string) dict \<Rightarrow> (string, string) dict \<Rightarrow> load_balancer \<Rightarrow> graph_edge list" where
  "lb_edges net sgs iids lb =
     (let lid = lb_id (lb_resource_name lb)
      in map (\<lambda>sn. edge lid (subnet_id (sn_resource_name sn)) PLACED_IN)
           (filter (\<lambda>sn. sn_tier sn = lb_subnet_tier lb) (net_subnets net))
         @ edge_to lid SECURED_BY (\<lambda>x. x) (map_of sgs (lb_security_group lb))
         @ concat (map (\<lambda>v. edge_to lid FRONTS (\<lambda>x. x) (map_of iids v)) (lb_targets lb)))"

definition build_graph :: "migration_plan \<Rightarrow> infra_graph" where
  "build_graph p =
     (let net = plan_net p;
          sgs = sg_ids net;
          placed = assign_subnets p;
          iids = instance_ids (plan_compute p)
      in \<lparr>g_project = plan_project p, g_target = plan_target p, g_region = plan_region p,
          g_nodes = [vpc_node p] @ map subnet_node (net_subnets net)
            @ map group_node (net_security_groups net) @ map instance_node (plan_compute p)
            @ map lb_node (net_load_balancers net),
          g_edges = map (\<lambda>sn. edge vpc_id (subnet_id (sn_resource_name sn)) CONTAINS) (net_subnets net)
            @ concat (map (instance_edges placed sgs) (plan_compute p))
            @ concat (map (lb_edges net sgs iids) (net_load_balancers net))\<rparr>)"

subsection \<open>Referential integrity\<close>

definition node_ids :: "migration_plan \<Rightarrow> string set" where
  "node_ids p = set (map gn_id (g_nodes (build_graph p)))"

lemma node_ids: "node_ids p = insert vpc_id
    (subnet_id ` sn_resource_name ` set (net_subnets (plan_net p))
     \<union> sg_id ` sg_resource_name ` set (net_security_groups (plan_net p))
     \<union> instance_id ` c_resource_name ` set (plan_compute p)
     \<union> lb_id ` lb_resource_name ` set (net_load_balancers (plan_net p)))"
  by (auto simp: node_ids_def build_graph_def Let_def vpc_node_def subnet_node_def group_node_def
      instance_node_def lb_node_def)

lemma assign_loop_range:
  assumes "map_of (assign_loop net counters mapping cs) v = Some r"
    and "\<And>v r. map_of mapping v = Some r \<Longrightarrow> r \<in> sn_resource_name ` set (net_subnets net)"
  shows "r \<in> sn_resource_name ` set (net_subnets net)"
  using assms
proof (induction net counters mapping cs rule: assign_loop.induct)
  case (2 net counters mapping c cs)
  let ?pool = "pool_for net (c_subnet_tier c)"
  show ?case
  proof (cases "?pool = []")
    case True
    then show ?thesis using 2 by (simp add: Let_def)
  next
    case False
    then have "?pool ! (counters (c_subnet_tier c) mod length ?pool) \<in> set ?pool" by simp
    also have "set ?pool \<subseteq> sn_resource_name ` set (net_subnets net)"
      by (auto simp: pool_for_def tier_pool_def)
    finally have pool: "?pool ! (counters (c_subnet_tier c) mod length ?pool) \<in> sn_resource_name ` set (net_subnets net)" .
    have step: "map_of (assign_loop net (counters(c_subnet_tier c := counters (c_subnet_tier c) + 1))
        (AList.update (c_vm_name c) (?pool ! (counters (c_subnet_tier c) mod length ?pool)) mapping) cs) v = Some r"
      using 2(3) False by (simp add: Let_def)
    show ?thesis
      by (rule "2.IH"(2) [OF refl False refl step]) (use pool 2(4) in \<open>auto split: if_splits\<close>)
  qed
qed auto

lemma fold_update_range:
  "map_of (foldl (\<lambda>d x. AList.update (f x) (g x) d) d xs) k = Some v \<Longrightarrow>
     (\<And>k v. map_of d k = Some v \<Longrightarrow> v \<in> A) \<Longrightarrow> g ` set xs \<subseteq> A \<Longrightarrow> v \<in> A"
proof (induction xs arbitrary: d)
  case (Cons x xs)
  show ?case
    by (rule Cons.IH [of "AList.update (f x) (g x) d"])
      (use Cons.prems in \<open>auto split: if_splits\<close>)
qed simp

lemma edge_to_mem: "e \<in> set (edge_to s k f v) \<longleftrightarrow> (\<exists>x. v = Some x \<and> x \<noteq> [] \<and> e = edge s (f x) k)"
  by (auto simp: edge_to_def split: option.splits)

text \<open>Every edge joins two nodes of the graph.\<close>

lemma graph_edges_closed:
  assumes "e \<in> set (g_edges (build_graph p))"
  shows "ge_source e \<in> node_ids p \<and> ge_target e \<in> node_ids p"
proof -
  let ?net = "plan_net p"
  have sg: "x \<in> sg_id ` sg_resource_name ` set (net_security_groups ?net)" if "map_of (sg_ids ?net) n = Some x" for n x
    by (rule fold_update_range [OF that [unfolded sg_ids_def]]) auto
  have inst: "x \<in> instance_id ` c_resource_name ` set (plan_compute p)"
    if "map_of (instance_ids (plan_compute p)) n = Some x" for n x
    by (rule fold_update_range [OF that [unfolded instance_ids_def]]) auto
  have pl: "x \<in> sn_resource_name ` set (net_subnets ?net)" if "map_of (assign_subnets p) n = Some x" for n x
    by (rule assign_loop_range [OF that [unfolded assign_subnets_def]]) simp
  consider (c) sn where "sn \<in> set (net_subnets ?net)" "e = edge vpc_id (subnet_id (sn_resource_name sn)) CONTAINS"
    | (i) c where "c \<in> set (plan_compute p)" "e \<in> set (instance_edges (assign_subnets p) (sg_ids ?net) c)"
    | (l) lb where "lb \<in> set (net_load_balancers ?net)"
        "e \<in> set (lb_edges ?net (sg_ids ?net) (instance_ids (plan_compute p)) lb)"
    using assms by (auto simp: build_graph_def Let_def)
  then show ?thesis
  proof cases
    case c
    then show ?thesis by (simp add: node_ids edge_def)
  next
    case i
    then show ?thesis
      by (auto simp: instance_edges_def Let_def edge_to_mem edge_def node_ids dest!: pl sg)
  next
    case l
    then show ?thesis
      by (auto simp: lb_edges_def Let_def edge_to_mem edge_def node_ids dest!: sg inst)
  qed
qed

subsection \<open>Unique node ids\<close>

lemma id_prefixes:
  "subnet_id a = subnet_id b \<longleftrightarrow> a = b" "sg_id a = sg_id b \<longleftrightarrow> a = b"
  "instance_id a = instance_id b \<longleftrightarrow> a = b" "lb_id a = lb_id b \<longleftrightarrow> a = b"
  "vpc_id \<noteq> subnet_id a" "vpc_id \<noteq> sg_id a" "vpc_id \<noteq> instance_id a" "vpc_id \<noteq> lb_id a"
  "subnet_id a \<noteq> sg_id b" "subnet_id a \<noteq> instance_id b" "subnet_id a \<noteq> lb_id b"
  "sg_id a \<noteq> instance_id b" "sg_id a \<noteq> lb_id b" "instance_id a \<noteq> lb_id b"
  by (simp_all add: vpc_id_def subnet_id_def sg_id_def instance_id_def lb_id_def)

lemma distinct_ids_map: "inj f \<Longrightarrow> distinct (map (\<lambda>x. f (g x)) xs) \<longleftrightarrow> distinct (map g xs)"
  by (induction xs) (auto dest: injD)

lemma graph_ids_distinct:
  "distinct (map gn_id (g_nodes (build_graph p))) \<longleftrightarrow>
     distinct (map sn_resource_name (net_subnets (plan_net p)))
     \<and> distinct (map sg_resource_name (net_security_groups (plan_net p)))
     \<and> distinct (map c_resource_name (plan_compute p))
     \<and> distinct (map lb_resource_name (net_load_balancers (plan_net p)))"
proof -
  have inj: "inj subnet_id" "inj sg_id" "inj instance_id" "inj lb_id"
    by (simp_all add: inj_def id_prefixes)
  have ids: "map gn_id (g_nodes (build_graph p)) =
      [vpc_id] @ map (\<lambda>x. subnet_id (sn_resource_name x)) (net_subnets (plan_net p))
      @ map (\<lambda>x. sg_id (sg_resource_name x)) (net_security_groups (plan_net p))
      @ map (\<lambda>x. instance_id (c_resource_name x)) (plan_compute p)
      @ map (\<lambda>x. lb_id (lb_resource_name x)) (net_load_balancers (plan_net p))"
    by (simp add: build_graph_def Let_def vpc_node_def subnet_node_def group_node_def
      instance_node_def lb_node_def)
  show ?thesis
    unfolding ids distinct_append
    by (simp add: distinct_ids_map [OF inj(1)] distinct_ids_map [OF inj(2)]
        distinct_ids_map [OF inj(3)] distinct_ids_map [OF inj(4)] id_prefixes
        id_prefixes(5-14) [THEN not_sym] disjoint_iff image_iff)
      (auto simp: id_prefixes)
qed

text \<open>The labels of load balancers are determined by their environment and tier.\<close>

lemma lb_label: "terraform_safe_name (env_value e @ ''-'' @ tier_value t @ ''-lb'') = env_value e @ ''_'' @ tier_value t @ ''_lb''"
  by (cases e; cases t; simp add: safe_name_eval)

lemma lb_label_inject:
  "env_value e @ ''_'' @ tier_value t @ ''_lb'' = env_value e' @ ''_'' @ tier_value t' @ ''_lb'' \<longleftrightarrow> e = e' \<and> t = t'"
proof
  assume a: "env_value e @ ''_'' @ tier_value t @ ''_lb'' = env_value e' @ ''_'' @ tier_value t' @ ''_lb''"
  have "takeWhile (\<lambda>c. c \<noteq> CHR ''_'') (env_value x @ ''_'' @ y) = env_value x" for x y
    by (cases x) simp_all
  then have "env_value e = env_value e'" using a by metis
  then show "e = e' \<and> t = t'" using a by simp
qed simp

text \<open>
  On a registered target a machine's subnet tier follows from its tier, so two balancers never share
  a label.
\<close>

lemma planned_lb_labels:
  assumes "\<And>c. c \<in> set compute \<Longrightarrow> c_subnet_tier c = f (c_tier c)"
  shows "distinct (map lb_resource_name (plan_load_balancers compute sgs))"
proof -
  let ?lbs = "plan_load_balancers compute sgs"
  have sub: "lb_subnet_tier lb = f (lb_tier lb) \<and> lb_resource_name lb = env_value (lb_environment lb) @ ''_'' @ tier_value (lb_tier lb) @ ''_lb''"
    if lb: "lb \<in> set ?lbs" for lb
  proof -
    note s = lb_spec [OF lb]
    let ?ms = "filter (\<lambda>c. lb_key c = (lb_tier lb, lb_environment lb, lb_subnet_tier lb)) compute"
    have "?ms \<noteq> []" using s(1) by auto
    then have "hd ?ms \<in> set ?ms" by (rule hd_in_set)
    then have "hd ?ms \<in> set compute" "lb_key (hd ?ms) = (lb_tier lb, lb_environment lb, lb_subnet_tier lb)" by auto
    then show ?thesis using assms [of "hd ?ms"] s(5,6) lb_label by (simp add: lb_key_def)
  qed
  have "inj_on lb_resource_name (set ?lbs)"
  proof (rule inj_onI)
    fix a b
    assume ab: "a \<in> set ?lbs" "b \<in> set ?lbs" "lb_resource_name a = lb_resource_name b"
    have "lb_group a = lb_group b"
      using sub [OF ab(1)] sub [OF ab(2)] ab(3) lb_label_inject by (simp add: lb_group_def)
    moreover have "inj_on lb_group (set ?lbs)"
      using plan_load_balancers_distinct by (simp add: distinct_map)
    ultimately show "a = b" using ab(1,2) by (simp add: inj_on_def)
  qed
  moreover have "distinct ?lbs"
    using plan_load_balancers_distinct by (simp add: distinct_map)
  ultimately show ?thesis by (simp add: distinct_map)
qed

subsection \<open>Placement is round-robin\<close>

definition same_tier_before :: "compute_plan list \<Rightarrow> nat \<Rightarrow> nat" where
  "same_tier_before cs i = length (filter (\<lambda>c. c_subnet_tier c = c_subnet_tier (cs ! i)) (take i cs))"

lemma assign_loop_keeps:
  "v \<notin> c_vm_name ` set cs \<Longrightarrow> map_of (assign_loop net counters mapping cs) v = map_of mapping v"
  by (induction net counters mapping cs rule: assign_loop.induct) (auto simp: Let_def)

lemma assign_loop_nth:
  assumes "distinct (map c_vm_name cs)" and "i < length cs" and "pool_for net (c_subnet_tier (cs ! i)) \<noteq> []"
  shows "map_of (assign_loop net counters mapping cs) (c_vm_name (cs ! i)) =
    Some (pool_for net (c_subnet_tier (cs ! i)) !
      ((counters (c_subnet_tier (cs ! i)) + same_tier_before cs i) mod length (pool_for net (c_subnet_tier (cs ! i)))))"
  using assms
proof (induction net counters mapping cs arbitrary: i rule: assign_loop.induct)
  case (2 net counters mapping c cs)
  let ?pool = "pool_for net (c_subnet_tier c)"
  let ?m = "AList.update (c_vm_name c) (?pool ! (counters (c_subnet_tier c) mod length ?pool)) mapping"
  let ?ct = "counters(c_subnet_tier c := counters (c_subnet_tier c) + 1)"
  show ?case
  proof (cases i)
    case 0
    then have "?pool \<noteq> []" using 2(5) by simp
    then show ?thesis using 0 2(3) by (simp add: Let_def assign_loop_keeps same_tier_before_def)
  next
    case (Suc j)
    have j: "distinct (map c_vm_name cs)" "j < length cs" "pool_for net (c_subnet_tier (cs ! j)) \<noteq> []"
      using 2(3-5) Suc by simp_all
    show ?thesis
    proof (cases "?pool = []")
      case True
      then have "c_subnet_tier c \<noteq> c_subnet_tier (cs ! j)" using j(3) by auto
      then show ?thesis
        using "2.IH"(1) [OF refl True j] True Suc by (simp add: Let_def same_tier_before_def)
    next
      case False
      have unf: "assign_loop net counters mapping (c # cs) = assign_loop net ?ct ?m cs"
        using False by (simp add: Let_def)
      have ct: "?ct (c_subnet_tier (cs ! j)) + same_tier_before cs j
          = counters (c_subnet_tier (cs ! j)) + same_tier_before (c # cs) (Suc j)"
        by (simp add: same_tier_before_def)
      show ?thesis
        using "2.IH"(2) [OF refl False refl j] unfolding unf Suc nth_Cons_Suc ct .
    qed
  qed
qed simp

end
