(* ===== verification/Costing.thy ===== *)
theory Costing
  imports Pricing
begin

text \<open>
  \<open>costing.py\<close>: the monthly bill of a plan, compute plus storage, Windows licensing and load
  balancers. The line rates are live where asked for and available, so the pricing state is threaded
  through. The prose of \<open>pricing_basis\<close> and the exclusions are left out.
\<close>

definition STORAGE_USD :: "(string, rat) dict" where
  "STORAGE_USD =
     [(''aws'', 0.080), (''azure'', 0.113), (''gcp'', 0.100), (''oci'', 0.0255), (''digitalocean'', 0.100)]"

definition WINDOWS_USD :: "(string, rat) dict" where
  "WINDOWS_USD =
     [(''aws'', 0.046), (''azure'', 0.046), (''gcp'', 0.046), (''oci'', 0.046), (''digitalocean'', 0)]"

definition LB_USD :: "(string, rat) dict" where
  "LB_USD =
     [(''aws'', 16.43), (''azure'', 18.25), (''gcp'', 18.25), (''oci'', 18.25), (''digitalocean'', 12)]"

definition STATIC_RATES :: "(string, (string, rat) dict \<times> rat) dict" where
  "STATIC_RATES =
     [(RATE_STORAGE, (STORAGE_USD, 0.10)), (RATE_WINDOWS, (WINDOWS_USD, 0.046)), (RATE_LB, (LB_USD, 18.25))]"

record line_rate =
  lr_rate :: rat
  lr_source :: string

text \<open>One line: the live rate when it was asked for and found, else the table, else its default.\<close>

definition line_rate_of ::
  "pricing_env \<Rightarrow> bool \<Rightarrow> string \<Rightarrow> string \<Rightarrow> string \<Rightarrow> (string, rat) dict \<times> rat \<Rightarrow> pricing_state
    \<Rightarrow> line_rate \<times> pricing_state" where
  "line_rate_of env live cloud region kind td st =
     (let (r, st) = (if live then live_line_rate env cloud kind region st else (None, st));
          (table, dflt) = td
      in case r of
           Some x \<Rightarrow> (\<lparr>lr_rate = x, lr_source = ''live''\<rparr>, st)
         | None \<Rightarrow> (\<lparr>lr_rate = (case map_of table cloud of Some x \<Rightarrow> x | None \<Rightarrow> dflt),
                     lr_source = ''static''\<rparr>, st))"

fun line_rates ::
  "pricing_env \<Rightarrow> bool \<Rightarrow> string \<Rightarrow> string \<Rightarrow> (string, (string, rat) dict \<times> rat) dict \<Rightarrow> pricing_state
    \<Rightarrow> (string, line_rate) dict \<times> pricing_state" where
  "line_rates env live cloud region [] st = ([], st)"
| "line_rates env live cloud region ((kind, td) # rest) st =
     (let (r, st) = line_rate_of env live cloud region kind td st;
          (rs, st) = line_rates env live cloud region rest st
      in ((kind, r) # rs, st))"

record cost_breakdown =
  cb_compute :: rat
  cb_storage :: rat
  cb_windows :: rat
  cb_lbs :: rat
  cb_total :: rat
  cb_windows_workloads :: nat
  cb_storage_gib :: int
  cb_lb_count :: nat
  cb_rate_sources :: "(string, string) dict"
  cb_priced :: bool

definition is_windows :: "compute_plan \<Rightarrow> bool" where
  "is_windows c \<longleftrightarrow> starts_with ''windows'' (c_image_key c)"

definition disk_gib :: "compute_plan \<Rightarrow> int" where
  "disk_gib c = c_root_gib c + sum_list (c_extra_gib c)"

definition rate_of :: "(string, line_rate) dict \<Rightarrow> string \<Rightarrow> rat" where
  "rate_of rates kind = (case map_of rates kind of Some r \<Rightarrow> lr_rate r | None \<Rightarrow> 0)"

definition estimate_costs ::
  "pricing_env \<Rightarrow> migration_plan \<Rightarrow> pricing_state \<Rightarrow> target_error + cost_breakdown \<times> pricing_state" where
  "estimate_costs env p st =
     (let cloud = lower (plan_target p);
          cs = plan_compute p;
          total_gib = sum_list (map disk_gib cs);
          windows = filter is_windows cs;
          lb_count = length (net_load_balancers (plan_net p))
      in case get_target cloud of
           Inl e \<Rightarrow> Inl e
         | Inr t \<Rightarrow>
             if ''priced'' \<notin> set (t_capabilities t) then
               Inr (\<lparr>cb_compute = 0, cb_storage = 0, cb_windows = 0, cb_lbs = 0, cb_total = 0,
                     cb_windows_workloads = length windows, cb_storage_gib = total_gib,
                     cb_lb_count = lb_count,
                     cb_rate_sources = map (\<lambda>k. (k, ''static'')) LINE_RATES, cb_priced = False\<rparr>, st)
             else
               let (rates, st) = line_rates env (plan_live_requested p) cloud (plan_region p) STATIC_RATES st;
                   compute = sum_list (map c_cost cs);
                   storage = of_int total_gib * rate_of rates RATE_STORAGE;
                   licensing = sum_list (map (\<lambda>c. of_int (c_vcpu c) * rate_of rates RATE_WINDOWS * HOURS_PER_MONTH) windows);
                   lbs = of_nat lb_count * rate_of rates RATE_LB
               in Inr (\<lparr>cb_compute = round_dp 2 compute, cb_storage = round_dp 2 storage,
                        cb_windows = round_dp 2 licensing, cb_lbs = round_dp 2 lbs,
                        cb_total = round_dp 2 (compute + storage + licensing + lbs),
                        cb_windows_workloads = length windows, cb_storage_gib = total_gib,
                        cb_lb_count = lb_count,
                        cb_rate_sources = map (\<lambda>(k, r). (k, lr_source r)) rates, cb_priced = True\<rparr>, st))"

definition compute_share_pct :: "cost_breakdown \<Rightarrow> rat" where
  "compute_share_pct b = (if cb_total b \<noteq> 0 then round_dp 1 (cb_compute b / cb_total b * 100) else 0)"

subsection \<open>Facts\<close>

text \<open>
  The lines are each rounded to a cent, and so is their unrounded sum: the total is the sum of the
  four lines to within two and a half cents.
\<close>

lemma round_sum4:
  "\<bar>round_dp 2 (a + b + c + d) - (round_dp 2 a + round_dp 2 b + round_dp 2 c + round_dp 2 d)\<bar> \<le> 25/1000"
proof -
  have "\<bar>round_dp 2 x - x\<bar> \<le> 1/200" for x
    using round_dp_near [of 2 x] by simp
  note near = abs_le_D1 [OF this] abs_le_D2 [OF this]
  show ?thesis
    unfolding abs_le_iff
    using near [of "a + b + c + d"] near [of a] near [of b] near [of c] near [of d] by linarith
qed

lemma estimate_lines:
  assumes "estimate_costs env p st = Inr (b, st')"
  shows "\<bar>cb_total b - (cb_compute b + cb_storage b + cb_windows b + cb_lbs b)\<bar> \<le> 25/1000"
  using assms round_sum4
  by (auto simp: estimate_costs_def Let_def split: sum.splits if_splits prod.splits)

text \<open>Unpriced targets get no number at all; the others are always priced.\<close>

lemma capabilities_priced:
  "get_target n = Inr t \<Longrightarrow> ''priced'' \<in> set (t_capabilities t) \<longleftrightarrow> n \<noteq> ''nutanix'' \<and> n \<noteq> ''proxmox''"
  by (auto simp: get_target_def REGISTRY_def AWS_def AZURE_def GCP_def OCI_def DIGITALOCEAN_def
      NUTANIX_def PROXMOX_def split: option.splits if_splits)

lemma estimate_priced:
  assumes "estimate_costs env p st = Inr (b, st')"
  shows "cb_priced b \<longleftrightarrow> lower (plan_target p) \<noteq> ''nutanix'' \<and> lower (plan_target p) \<noteq> ''proxmox''"
    and "\<not> cb_priced b \<Longrightarrow> cb_total b = 0 \<and> st' = st"
proof -
  obtain t where t: "get_target (lower (plan_target p)) = Inr t"
    using assms by (auto simp: estimate_costs_def Let_def split: sum.splits)
  note c = capabilities_priced [OF t]
  show "cb_priced b \<longleftrightarrow> lower (plan_target p) \<noteq> ''nutanix'' \<and> lower (plan_target p) \<noteq> ''proxmox''"
    using assms t c by (auto simp: estimate_costs_def Let_def split: if_splits prod.splits)
  show "\<not> cb_priced b \<Longrightarrow> cb_total b = 0 \<and> st' = st"
    using assms t by (auto simp: estimate_costs_def Let_def split: if_splits prod.splits)
qed

text \<open>Without live pricing the line rates are those of the tables and the state is untouched.\<close>

lemma line_rates_static:
  "line_rates env False cloud region kinds st =
     (map (\<lambda>(k, table, dflt). (k, \<lparr>lr_rate = (case map_of table cloud of Some x \<Rightarrow> x | None \<Rightarrow> dflt),
                                  lr_source = ''static''\<rparr>)) kinds, st)"
  by (induction env "False" cloud region kinds st rule: line_rates.induct)
    (auto simp: line_rate_of_def Let_def split: prod.splits)

end
