(* ===== verification/Policy.thy ===== *)
theory Policy
  imports Costing Validation
begin

text \<open>
  \<open>policy\<close>: configured rules evaluated on a validated plan. A policy reads the plan and returns
  violations; the deny-severity ones block rendering. The parameters of a policy are the fields of
  \<open>policy_config\<close> with the types the built-ins read.
\<close>

datatype severity = DENY | WARN

record violation =
  pv_policy :: string
  pv_severity :: severity
  pv_resource :: "string option"

record policy_config =
  pc_severity :: "string option"
  pc_families :: "string list"
  pc_max :: "int option"
  pc_budget :: "rat option"
  pc_prefix :: "string option"

definition empty_config :: policy_config where
  "empty_config = \<lparr>pc_severity = None, pc_families = [], pc_max = None, pc_budget = None, pc_prefix = None\<rparr>"

datatype policy_error = UnknownPolicy string | BadSeverity string | CostError target_error

definition denials :: "violation list \<Rightarrow> violation list" where
  "denials vs = filter (\<lambda>v. pv_severity v = DENY) vs"

definition warnings :: "violation list \<Rightarrow> violation list" where
  "warnings vs = filter (\<lambda>v. pv_severity v = WARN) vs"

definition policy_ok :: "violation list \<Rightarrow> bool" where
  "policy_ok vs \<longleftrightarrow> denials vs = []"

subsection \<open>The built-in policies\<close>

definition violate :: "string \<Rightarrow> severity \<Rightarrow> compute_plan \<Rightarrow> violation" where
  "violate n sev c = \<lparr>pv_policy = n, pv_severity = sev, pv_resource = Some (c_vm_name c)\<rparr>"

definition violate_plan :: "string \<Rightarrow> severity \<Rightarrow> violation" where
  "violate_plan n sev = \<lparr>pv_policy = n, pv_severity = sev, pv_resource = None\<rparr>"

definition no_public_subnets :: "migration_plan \<Rightarrow> policy_config \<Rightarrow> severity \<Rightarrow> violation list" where
  "no_public_subnets p cfg sev =
     map (violate ''no_public_subnets'' sev) (filter (\<lambda>c. c_subnet_tier c = PUBLIC) (plan_compute p))"

definition allowed_instance_families :: "migration_plan \<Rightarrow> policy_config \<Rightarrow> severity \<Rightarrow> violation list" where
  "allowed_instance_families p cfg sev =
     (if pc_families cfg = [] then []
      else map (violate ''allowed_instance_families'' sev)
             (filter (\<lambda>c. \<not> list_ex (\<lambda>f. starts_with f (c_instance_type c)) (pc_families cfg)) (plan_compute p)))"

definition max_vcpu :: "migration_plan \<Rightarrow> policy_config \<Rightarrow> severity \<Rightarrow> violation list" where
  "max_vcpu p cfg sev =
     (case pc_max cfg of
        None \<Rightarrow> []
      | Some limit \<Rightarrow> map (violate ''max_vcpu'' sev) (filter (\<lambda>c. limit < c_vcpu c) (plan_compute p)))"

definition naming_prefix :: "migration_plan \<Rightarrow> policy_config \<Rightarrow> severity \<Rightarrow> violation list" where
  "naming_prefix p cfg sev =
     (case pc_prefix cfg of
        None \<Rightarrow> []
      | Some pre \<Rightarrow>
          if pre = [] then []
          else map (violate ''naming_prefix'' sev)
                 (filter (\<lambda>c. \<not> starts_with pre (c_resource_name c)) (plan_compute p)))"

definition require_nat :: "migration_plan \<Rightarrow> policy_config \<Rightarrow> severity \<Rightarrow> violation list" where
  "require_nat p cfg sev =
     (if net_nat_gateway (plan_net p) then [] else [violate_plan ''require_nat'' sev])"

definition require_customer_managed_key :: "migration_plan \<Rightarrow> policy_config \<Rightarrow> severity \<Rightarrow> violation list" where
  "require_customer_managed_key p cfg sev =
     (if plan_kms_key_id p \<noteq> None \<and> plan_kms_key_id p \<noteq> Some [] then []
      else [violate_plan ''require_customer_managed_key'' sev])"

text \<open>The budget is checked against the whole bill, which may look prices up.\<close>

definition max_monthly_cost ::
  "pricing_env \<Rightarrow> migration_plan \<Rightarrow> policy_config \<Rightarrow> severity \<Rightarrow> pricing_state
    \<Rightarrow> policy_error + violation list \<times> pricing_state" where
  "max_monthly_cost env p cfg sev st =
     (case pc_budget cfg of
        None \<Rightarrow> Inr ([], st)
      | Some budget \<Rightarrow>
          (case estimate_costs env p st of
             Inl e \<Rightarrow> Inl (CostError e)
           | Inr (b, st) \<Rightarrow>
               Inr (if budget < cb_total b then [violate_plan ''max_monthly_cost'' sev] else [], st)))"

type_synonym policy_fn =
  "pricing_env \<Rightarrow> migration_plan \<Rightarrow> policy_config \<Rightarrow> severity \<Rightarrow> pricing_state
    \<Rightarrow> policy_error + violation list \<times> pricing_state"

definition pure_policy ::
  "(migration_plan \<Rightarrow> policy_config \<Rightarrow> severity \<Rightarrow> violation list) \<Rightarrow> policy_fn" where
  "pure_policy f env p cfg sev st = Inr (f p cfg sev, st)"

definition POLICIES :: "(string, policy_fn \<times> severity) dict" where
  "POLICIES =
     [(''no_public_subnets'', (pure_policy no_public_subnets, DENY)),
      (''allowed_instance_families'', (pure_policy allowed_instance_families, DENY)),
      (''max_vcpu'', (pure_policy max_vcpu, DENY)),
      (''max_monthly_cost'', (max_monthly_cost, DENY)),
      (''naming_prefix'', (pure_policy naming_prefix, WARN)),
      (''require_nat'', (pure_policy require_nat, DENY)),
      (''require_customer_managed_key'', (pure_policy require_customer_managed_key, DENY))]"

subsection \<open>evaluate\<close>

definition severity_of :: "policy_config \<Rightarrow> severity \<Rightarrow> policy_error + severity" where
  "severity_of cfg dflt =
     (case pc_severity cfg of
        None \<Rightarrow> Inr dflt
      | Some s \<Rightarrow> if s = [] then Inr dflt else if s = ''deny'' then Inr DENY
                  else if s = ''warn'' then Inr WARN else Inl (BadSeverity s))"

fun evaluate ::
  "pricing_env \<Rightarrow> migration_plan \<Rightarrow> (string \<times> policy_config option) list \<Rightarrow> pricing_state
    \<Rightarrow> policy_error + violation list \<times> pricing_state" where
  "evaluate env p [] st = Inr ([], st)"
| "evaluate env p ((name, c) # rest) st =
     (case map_of POLICIES name of
        None \<Rightarrow> Inl (UnknownPolicy name)
      | Some (f, dflt) \<Rightarrow>
          let cfg = (case c of None \<Rightarrow> empty_config | Some x \<Rightarrow> x)
          in case severity_of cfg dflt of
               Inl e \<Rightarrow> Inl e
             | Inr sev \<Rightarrow>
                 (case f env p cfg sev st of
                    Inl e \<Rightarrow> Inl e
                  | Inr (vs, st) \<Rightarrow>
                      (case evaluate env p rest st of
                         Inl e \<Rightarrow> Inl e
                       | Inr (ws, st) \<Rightarrow> Inr (vs @ ws, st))))"

subsection \<open>What passing the gate means\<close>

lemma policy_ok_append [simp]: "policy_ok (vs @ ws) \<longleftrightarrow> policy_ok vs \<and> policy_ok ws"
  by (simp add: policy_ok_def denials_def)

text \<open>
  A configured policy was run with its severity, and the gate passes only if its own violations hold
  no denial.
\<close>

lemma evaluate_entry:
  assumes "evaluate env p cfgs st = Inr (vs, st')" and "(name, c) \<in> set cfgs"
  obtains f dflt sev ws s1 s2 where "map_of POLICIES name = Some (f, dflt)"
    and "severity_of (case c of None \<Rightarrow> empty_config | Some x \<Rightarrow> x) dflt = Inr sev"
    and "f env p (case c of None \<Rightarrow> empty_config | Some x \<Rightarrow> x) sev s1 = Inr (ws, s2)"
    and "set ws \<subseteq> set vs"
  using assms
proof (induction env p cfgs st arbitrary: vs st' thesis rule: evaluate.induct)
  case (2 env p n d rest st)
  obtain f dflt where f: "map_of POLICIES n = Some (f, dflt)"
    using 2(3) by (auto split: option.splits)
  let ?cfg = "case d of None \<Rightarrow> empty_config | Some x \<Rightarrow> x"
  obtain sev where sev: "severity_of ?cfg dflt = Inr sev"
    using 2(3) f by (auto simp: Let_def split: sum.splits)
  obtain ws s2 where ws: "f env p ?cfg sev st = Inr (ws, s2)"
    using 2(3) f sev by (auto simp: Let_def split: sum.splits)
  obtain us s3 where us: "evaluate env p rest s2 = Inr (us, s3)"
    using 2(3) f sev ws by (auto simp: Let_def split: sum.splits)
  have vs: "vs = ws @ us" using 2(3) f sev ws us by (simp add: Let_def)
  show ?case
  proof (cases "(name, c) = (n, d)")
    case True
    then show ?thesis using 2(2) [of f dflt sev st ws s2] f sev ws vs by auto
  next
    case False
    then have mem: "(name, c) \<in> set rest" using 2(4) by auto
    show ?thesis
      by (rule 2(1) [OF f refl refl sev ws refl _ us mem])
        (rule 2(2), assumption+, use vs in auto)
  qed
qed simp

lemma policy_ok_subset: "policy_ok vs \<Longrightarrow> set ws \<subseteq> set vs \<Longrightarrow> policy_ok ws"
  by (auto simp: policy_ok_def denials_def filter_empty_conv)

lemma violate_sev [simp]: "pv_severity (violate n sev c) = sev" "pv_severity (violate_plan n sev) = sev"
  by (simp_all add: violate_def violate_plan_def)

lemma policy_ok_map: "policy_ok (map (violate n DENY) cs) \<longleftrightarrow> cs = []"
  by (induction cs) (simp_all add: policy_ok_def denials_def)

end
