(* ===== verification/Guarantees.thy ===== *)
theory Guarantees
  imports Validation Waves Graph Policy
begin

text \<open>
  Facts about built plans that cross components: how large the instances are, which ranges the
  firewall rules name, where the subnets lie, and what a plan that passed the policy gate satisfies.
\<close>

subsection \<open>Sizing of a whole plan\<close>

definition covers :: "rat \<Rightarrow> vm \<Rightarrow> instance_spec \<Rightarrow> bool" where
  "covers tu vm i \<longleftrightarrow>
     (let d = effective_demand tu vm
      in fits (d_vcpu d * d_headroom d) (d_memory d * d_headroom d) None i)"

definition sized_for :: "rat \<Rightarrow> target \<Rightarrow> vm \<Rightarrow> compute_plan \<Rightarrow> bool" where
  "sized_for tu t vm c \<longleftrightarrow>
     (\<exists>i \<in> set (t_catalog t). c_instance_type c = i_name i \<and> c_vcpu c = i_vcpu i \<and> c_memory c = i_memory i
        \<and> ((\<exists>j \<in> set (t_catalog t). covers tu vm j) \<longrightarrow> covers tu vm i))"

lemma rule_vm_sized:
  assumes "cloud_target t" and "plan_vm cfg (rule_engine (rs_util cfg) t) te t region live vm st = Some (c, st')"
  shows "sized_for (rs_util cfg) t vm c"
proof -
  obtain tr env where te: "tier_env_of te vm = (tr, env)" by fastforce
  let ?d = "effective_demand (rs_util cfg) vm"
  obtain i where i: "smallest_fit (t_catalog t) (d_vcpu ?d) (d_memory ?d) (d_headroom ?d) (t_family_for_tier t tr) = Some i"
      "i \<in> set (t_catalog t)"
    using cloud_target.fit_exists [OF assms(1)] by blast
  have ch: "choose_instance (rs_util cfg) t vm tr (i_name i) = Some (i_name i)"
    by (simp add: choose_instance_def cloud_target.mem_exists [OF assms(1) i(2)])
  obtain price st2 where m: "monthly_cost (rs_env cfg) (t_name t) (i_name i) region (t_cost_of t (i_name i)) live st = (price, st2)"
    by (metis surj_pair)
  have rr: "p_rightsize (rule_engine (rs_util cfg) t) vm tr env = Some \<lparr>sug_instance = i_name i, sug_image = t_image_key t (vm_os vm)\<rparr>"
    by (simp add: rule_engine_def rule_rightsize_def Let_def i(1))
  have "\<exists>img. c = compute_plan_for t vm tr env (i_name i) img price"
    using assms(2) by (auto simp: plan_vm_def te rr ch m)
  then obtain img where c: "c = compute_plan_for t vm tr env (i_name i) img price" ..
  have sp: "spec_of t (i_name i) = Some i" by (rule cloud_target.spec_of_mem [OF assms(1) i(2)])
  have "covers (rs_util cfg) vm i" if "j \<in> set (t_catalog t)" "covers (rs_util cfg) vm j" for j
    using smallest_fit_fits [OF i(1) that(1)] that(2) by (simp add: covers_def Let_def)
  then show ?thesis unfolding sized_for_def
    using i(2) by (intro bexI [of _ i]) (auto simp: c compute_plan_for_def Let_def sp)
qed

lemma rule_vms_sized:
  assumes "cloud_target t"
  shows "plan_vms cfg (rule_engine (rs_util cfg) t) te t region live vms st = Some (cs, st')
    \<Longrightarrow> list_all2 (sized_for (rs_util cfg) t) vms cs"
proof (induction vms arbitrary: cs st st')
  case (Cons vm vms)
  then show ?case by (auto split: option.splits prod.splits intro: rule_vm_sized [OF assms])
qed simp

lemma sized_named_like: "sized_for tu t vm c \<Longrightarrow> named_like c c' \<Longrightarrow> sized_for tu t vm c'"
proof -
  assume s: "sized_for tu t vm c" and n: "named_like c c'"
  have "c' = c\<lparr>c_resource_name := c_resource_name c'\<rparr>" using n by (simp add: named_like_def)
  then have "c_instance_type c' = c_instance_type c" "c_vcpu c' = c_vcpu c" "c_memory c' = c_memory c"
    by (metis compute_plan.select_convs compute_plan.simps compute_plan.surjective)+
  then show ?thesis using s by (simp add: sized_for_def)
qed

lemma rule_plan_sized:
  assumes "cloud_target t"
    and "build_migration_plan cfg vms project t region (rule_engine (rs_util cfg) t) source live zone st = Inr (plan, st')"
  shows "list_all2 (sized_for (rs_util cfg) t) vms (plan_compute plan)"
proof -
  let ?p = "rule_engine (rs_util cfg) t"
  obtain r where "build_compute_plans cfg vms ?p (tier_env_index (classify vms ?p)) t r live st
        = Some (plan_compute plan, st')"
    using assms(2) by (rule build_migration_planD)
  then obtain cs0 r' where cs0: "plan_vms cfg ?p (tier_env_index (classify vms ?p)) t r' live vms st = Some (cs0, st')"
      and cs: "plan_compute plan = ensure_unique [] cs0"
    by (auto simp: build_compute_plans_def)
  have "list_all2 (sized_for (rs_util cfg) t) vms cs0" by (rule rule_vms_sized [OF assms(1) cs0])
  moreover have "list_all2 named_like cs0 (plan_compute plan)" unfolding cs by (rule ensure_unique_like)
  ultimately show ?thesis by (rule list_all2_trans [rotated]) (rule sized_named_like)
qed

text \<open>
  A machine with utilization data, on an instance that covers its demand, uses at most the target
  utilization of what it got.
\<close>

lemma sized_for_usage:
  assumes "sized_for tu t vm c" and "has_utilization vm" and "util_ok tu"
    and "j \<in> set (t_catalog t)" and "covers tu vm j"
  shows "of_int (vm_cpu vm) * util_frac (vm_cpu_util vm) \<le> tu * of_int (c_vcpu c)"
    and "vm_memory vm * util_frac (vm_mem_util vm) \<le> tu * c_memory c"
proof -
  obtain i where c: "c_vcpu c = i_vcpu i" "c_memory c = i_memory i" and cov: "covers tu vm i"
    using assms(1,4,5) unfolding sized_for_def by blast
  note u = right_sized_utilization [OF assms(2,3) refl cov [unfolded covers_def Let_def]]
  show "of_int (vm_cpu vm) * util_frac (vm_cpu_util vm) \<le> tu * of_int (c_vcpu c)"
    and "vm_memory vm * util_frac (vm_mem_util vm) \<le> tu * c_memory c"
    unfolding c using u .
qed

subsection \<open>Who may reach the workloads\<close>

lemma retarget_mem:
  assumes "r \<in> set (retarget_ingress rules d a)"
  obtains r0 where "r0 \<in> set rules" and "in_cidrs r = map (\<lambda>c. if c = d then a else c) (in_cidrs r0)"
proof -
  have "in_cidrs r \<in> set (map in_cidrs (retarget_ingress rules d a))" using assms by simp
  then have "in_cidrs r \<in> (map (\<lambda>c. if c = d then a else c) \<circ> in_cidrs) ` set rules"
    unfolding retarget_ingress_cidrs by simp
  then show thesis using that by auto
qed

lemma built_ingress:
  assumes "cloud_target t" and "image_keys_ok t"
    and "build_migration_plan cfg vms project t region p source live zone st = Inr (plan, st')"
    and "sg \<in> set (net_security_groups (plan_net plan))" and "r \<in> set (sg_ingress sg)"
  shows "in_cidrs r = (if sg_name sg = t_sg_for_tier t WEB then [INTERNET] else [net_vpc_cidr (plan_net plan)])"
proof -
  obtain rg where b: "build_compute_plans cfg vms p (tier_env_index (classify vms p)) t rg live st
        = Some (plan_compute plan, st')"
      and n: "plan_network (plan_compute plan) t zone = Inr (plan_net plan)"
    using assms(3) by (rule build_migration_planD)
  have vpc: "net_vpc_cidr (plan_net plan) = vpc_of t zone"
    using n by (auto simp: plan_network_def vpc_of_def Let_def dest!: arg_cong [of _ _ net_vpc_cidr] split: sum.splits prod.splits)
  obtain g where g: "g \<in> c_security_group ` set (plan_compute plan)" and sg: "sg = sg_for t (vpc_of t zone) g"
    using assms(4) unfolding planned_groups [OF n] by auto
  obtain c where c: "c \<in> set (plan_compute plan)" "g = c_security_group c" using g by auto
  obtain vm where "plan_for t vm c"
    using build_spec(1) [OF assms(1,2) b] c(1) by (metis in_set_conv_nth list_all2_conv_all_nth)
  then have gt: "g = t_sg_for_tier t (c_tier c)" using c(2) by (simp add: plan_for_def plan_of_def)
  obtain rules where rules: "map_of (t_default_ingress t) g = Some rules"
    using cloud_target.sg_ingress [OF assms(1), of "c_tier c"] gt by blast
  have "r \<in> set (retarget_ingress rules (t_vpc_cidr t) (vpc_of t zone))"
    using assms(5) by (simp add: sg sg_for_def Let_def rules)
  then obtain r0 where r0: "r0 \<in> set rules"
      and cid: "in_cidrs r = map (\<lambda>c. if c = t_vpc_cidr t then vpc_of t zone else c) (in_cidrs r0)"
    by (rule retarget_mem)
  have "in_cidrs r0 = (if g = t_sg_for_tier t WEB then [INTERNET] else [t_vpc_cidr t])"
    using cloud_target.ingress_cidrs [OF assms(1)] map_of_SomeD [OF rules] r0 by fastforce
  then show ?thesis
    using cid cloud_target.vpc_private [OF assms(1)] by (auto simp: vpc sg)
qed

subsection \<open>The topology of a built plan\<close>

lemma built_plan_for:
  assumes "cloud_target t" and "image_keys_ok t"
    and "build_migration_plan cfg vms project t region p source live zone st = Inr (plan, st')"
  shows "list_all2 (plan_for t) vms (plan_compute plan)"
  using assms(3) by (rule build_migration_planD) (rule build_spec(1) [OF assms(1,2)])

lemma built_graph_ids:
  assumes "cloud_target t" and "image_keys_ok t" and "vms \<noteq> []"
    and "build_migration_plan cfg vms project t region p source live zone st = Inr (plan, st')"
  shows "distinct (map gn_id (g_nodes (build_graph plan)))"
proof -
  have ok: "plan_ok plan t" by (rule built_plan_ok [OF assms])
  have net: "plan_network (plan_compute plan) t zone = Inr (plan_net plan)"
    using assms(4) by (rule build_migration_planD)
  have "c_subnet_tier c = t_subnet_tier_for_tier t (c_tier c)" if "c \<in> set (plan_compute plan)" for c
    using built_plan_for [OF assms(1,2,4)] that
    by (auto simp: plan_for_def plan_of_def in_set_conv_nth dest: list_all2_nthD2)
  then have "distinct (map lb_resource_name (plan_load_balancers (plan_compute plan) sgs))" for sgs
    by (rule planned_lb_labels)
  moreover have "\<exists>sgs. plan_load_balancers (plan_compute plan) sgs = net_load_balancers (plan_net plan)"
    using net by (auto simp: plan_network_def Let_def dest!: arg_cong [of _ _ net_load_balancers] split: sum.splits prod.splits)
  ultimately have "distinct (map lb_resource_name (net_load_balancers (plan_net plan)))" by metis
  then show ?thesis using ok by (simp add: graph_ids_distinct plan_ok_def)
qed

subsection \<open>What the policy gate guarantees\<close>

text \<open>What each configured policy asks of a plan, as a predicate on the plan.\<close>

definition policy_holds :: "string \<Rightarrow> policy_config \<Rightarrow> migration_plan \<Rightarrow> bool" where
  "policy_holds name cfg p \<longleftrightarrow>
     (name = ''no_public_subnets'' \<longrightarrow> (\<forall>c \<in> set (plan_compute p). c_subnet_tier c \<noteq> PUBLIC))
     \<and> (name = ''allowed_instance_families'' \<longrightarrow> pc_families cfg = []
          \<or> (\<forall>c \<in> set (plan_compute p). \<exists>f \<in> set (pc_families cfg). starts_with f (c_instance_type c)))
     \<and> (name = ''max_vcpu'' \<longrightarrow> (\<forall>m. pc_max cfg = Some m \<longrightarrow> (\<forall>c \<in> set (plan_compute p). c_vcpu c \<le> m)))
     \<and> (name = ''naming_prefix'' \<longrightarrow>
          (\<forall>pre. pc_prefix cfg = Some pre \<longrightarrow> (\<forall>c \<in> set (plan_compute p). starts_with pre (c_resource_name c))))
     \<and> (name = ''require_nat'' \<longrightarrow> net_nat_gateway (plan_net p))
     \<and> (name = ''require_customer_managed_key'' \<longrightarrow> plan_kms_key_id p \<notin> {None, Some []})"

lemma policy_ok_single: "policy_ok [violate_plan n DENY] = False"
  by (simp add: policy_ok_def denials_def)

lemma pure_policies:
  "policy_ok (no_public_subnets p cfg DENY) \<Longrightarrow> policy_holds ''no_public_subnets'' cfg p"
  "policy_ok (allowed_instance_families p cfg DENY) \<Longrightarrow> policy_holds ''allowed_instance_families'' cfg p"
  "policy_ok (max_vcpu p cfg DENY) \<Longrightarrow> policy_holds ''max_vcpu'' cfg p"
  "policy_ok (naming_prefix p cfg DENY) \<Longrightarrow> policy_holds ''naming_prefix'' cfg p"
  "policy_ok (require_nat p cfg DENY) \<Longrightarrow> policy_holds ''require_nat'' cfg p"
  "policy_ok (require_customer_managed_key p cfg DENY) \<Longrightarrow> policy_holds ''require_customer_managed_key'' cfg p"
  by (auto simp: policy_holds_def no_public_subnets_def allowed_instance_families_def max_vcpu_def naming_prefix_def
      require_nat_def require_customer_managed_key_def policy_ok_map policy_ok_single filter_empty_conv list_ex_iff
      split: if_splits option.splits)

lemma gate_sound:
  assumes "evaluate env p cfgs st = Inr (vs, st')" and "policy_ok vs"
    and "(name, Some cfg) \<in> set cfgs" and "severity_of cfg (snd (the (map_of POLICIES name))) = Inr DENY"
  shows "policy_holds name cfg p"
proof -
  obtain f dflt sev ws s1 s2 where f: "map_of POLICIES name = Some (f, dflt)"
      and sev: "severity_of cfg dflt = Inr sev" and run: "f env p cfg sev s1 = Inr (ws, s2)"
      and sub: "set ws \<subseteq> set vs"
    using evaluate_entry [OF assms(1,3)] by (metis option.simps(5))
  have ok: "policy_ok ws" by (rule policy_ok_subset [OF assms(2) sub])
  have d: "sev = DENY" using sev assms(4) f by simp
  have "(name, f, dflt) \<in> set POLICIES" using f by (rule map_of_SomeD)
  then show ?thesis
    using run ok d pure_policies
    by (auto simp: POLICIES_def pure_policy_def) (simp_all add: policy_holds_def)
qed

end
