(* ===== verification/RateLimit.thy ===== *)
theory RateLimit
  imports Prelude PyStr
begin

text \<open>
  \<open>api/ratelimit.py\<close>: token buckets, one per key, in a bounded table. Time is the monotonic clock as
  a rational; the shared Redis backend is the optional answer \<open>shared\<close> of one check.
\<close>

definition MAX_BUCKETS :: nat where
  "MAX_BUCKETS = 20000"

record bucket =
  bk_tokens :: rat
  bk_last_seen :: rat

type_synonym buckets = "(string, bucket) dict"

record limiter =
  rl_env_var :: string
  rl_default :: int
  rl_period :: rat
  rl_name :: string
  rl_buckets :: buckets

definition mk_limiter :: "string \<Rightarrow> int \<Rightarrow> rat \<Rightarrow> string \<Rightarrow> limiter" where
  "mk_limiter v d p n = \<lparr>rl_env_var = v, rl_default = d, rl_period = p, rl_name = n, rl_buckets = []\<rparr>"

text \<open>\<open>raw\<close> is the environment variable as an integer, \<open>None\<close> when it does not parse.\<close>

definition limit_of :: "limiter \<Rightarrow> int option \<Rightarrow> rat" where
  "limit_of l raw = of_int (case raw of Some i \<Rightarrow> i | None \<Rightarrow> rl_default l)"

text \<open>\<open>_evict_locked\<close>: drop what was idle for a full period, then the oldest quarter.\<close>

definition evict_buckets :: "rat \<Rightarrow> rat \<Rightarrow> buckets \<Rightarrow> buckets" where
  "evict_buckets period now bs =
     (if length bs < MAX_BUCKETS then bs
      else let live = filter (\<lambda>(k, b). \<not> period < now - bk_last_seen b) bs
           in if length live < MAX_BUCKETS then live
              else drop_quarter (\<lambda>(k, b). bk_last_seen b) live)"

definition retry_after :: "rat \<Rightarrow> rat \<Rightarrow> int" where
  "retry_after rate tokens = max 1 (\<lfloor>(1 - tokens) / rate\<rfloor> + 1)"

definition take_token :: "rat \<Rightarrow> rat \<Rightarrow> rat \<Rightarrow> string \<Rightarrow> buckets \<Rightarrow> (bool \<times> int) \<times> buckets" where
  "take_token limit period now key bs =
     (let rate = limit / period;
          (tokens, bs) = (case map_of bs key of
             None \<Rightarrow> (limit, evict_buckets period now bs)
           | Some b \<Rightarrow> (min limit (bk_tokens b + (now - bk_last_seen b) * rate), bs))
      in if 1 \<le> tokens
         then ((True, 0), AList.update key \<lparr>bk_tokens = tokens - 1, bk_last_seen = now\<rparr> bs)
         else ((False, retry_after rate tokens), AList.update key \<lparr>bk_tokens = tokens, bk_last_seen = now\<rparr> bs))"

definition check :: "int option \<Rightarrow> (bool \<times> int) option \<Rightarrow> rat \<Rightarrow> string \<Rightarrow> limiter \<Rightarrow> (bool \<times> int) \<times> limiter" where
  "check raw shared now key l =
     (let limit = limit_of l raw
      in if limit \<le> 0 then ((True, 0), l)
         else case shared of
                Some answer \<Rightarrow> (answer, l)
              | None \<Rightarrow>
                  let (answer, bs) = take_token limit (rl_period l) now key (rl_buckets l)
                  in (answer, l\<lparr>rl_buckets := bs\<rparr>))"

definition reset_limiter :: "limiter \<Rightarrow> limiter" where
  "reset_limiter l = l\<lparr>rl_buckets := []\<rparr>"

definition auth_limiter :: limiter where
  "auth_limiter = mk_limiter ''IACTRANSLATE_RATE_AUTH'' 10 60 ''auth attempts''"

definition write_limiter :: limiter where
  "write_limiter = mk_limiter ''IACTRANSLATE_RATE_WRITE'' 60 60 ''requests''"

definition read_limiter :: limiter where
  "read_limiter = mk_limiter ''IACTRANSLATE_RATE_READ'' 240 60 ''requests''"

text \<open>
  The caller: the first forwarded address when a trusted proxy sets the header, else the peer.
\<close>

definition client_key :: "bool \<Rightarrow> string \<Rightarrow> string option \<Rightarrow> string" where
  "client_key trust_proxy forwarded host =
     (if trust_proxy \<and> forwarded \<noteq> [] then strip (hd (split_on CHR '','' forwarded))
      else case host of Some h \<Rightarrow> h | None \<Rightarrow> ''unknown'')"

text \<open>\<open>_enforce\<close>: \<open>Inl\<close> is the 429 with its \<open>Retry-After\<close>; the bucket is charged either way.\<close>

definition enforce :: "int option \<Rightarrow> (bool \<times> int) option \<Rightarrow> rat \<Rightarrow> string \<Rightarrow> limiter \<Rightarrow> (int + unit) \<times> limiter" where
  "enforce raw shared now key l =
     (let ((allowed, r), l) = check raw shared now key l
      in (if allowed then Inr () else Inl r, l))"

definition limit_auth ::
  "int option \<Rightarrow> rat \<Rightarrow> string \<Rightarrow> string option \<Rightarrow> limiter \<Rightarrow> (int + unit) \<times> limiter" where
  "limit_auth raw now client email l =
     (case enforce raw None now (''auth-ip:'' @ client) l of
        (Inl r, l) \<Rightarrow> (Inl r, l)
      | (Inr _, l) \<Rightarrow>
          (case email of
             None \<Rightarrow> (Inr (), l)
           | Some e \<Rightarrow> if e = [] then (Inr (), l)
                       else enforce raw None now (''auth-email:'' @ lower (strip e)) l))"

subsection \<open>The table is bounded\<close>

lemma evict_length: "length (evict_buckets period now bs) \<le> length bs"
  by (auto simp: evict_buckets_def Let_def intro: le_trans [OF drop_quarter_length] le_trans [OF length_filter_le])

lemma evict_ok: "dict_ok bs \<Longrightarrow> dict_ok (evict_buckets period now bs)"
  by (simp add: evict_buckets_def Let_def distinct_map_filter)

lemma evict_mem: "x \<in> set (evict_buckets period now bs) \<Longrightarrow> x \<in> set bs"
  by (auto simp: evict_buckets_def Let_def dest!: drop_quarter_mem split: if_splits)

lemma evict_below_max:
  assumes "length bs \<le> MAX_BUCKETS"
  shows "length (evict_buckets period now bs) < MAX_BUCKETS"
proof -
  let ?live = "filter (\<lambda>(k, b). \<not> period < now - bk_last_seen b) bs"
  have le: "length ?live \<le> length bs" by (rule length_filter_le)
  show ?thesis
  proof (cases "length ?live < MAX_BUCKETS")
    case False
    then have "4 \<le> length ?live" by (simp add: MAX_BUCKETS_def)
    then have "length (drop_quarter (\<lambda>(k, b). bk_last_seen b) ?live) < MAX_BUCKETS"
      using drop_quarter_less le assms by (meson le_trans less_le_trans)
    then show ?thesis using False by (simp add: evict_buckets_def Let_def)
  qed (simp add: evict_buckets_def Let_def)
qed

definition table_ok :: "buckets \<Rightarrow> bool" where
  "table_ok bs \<longleftrightarrow> dict_ok bs \<and> length bs \<le> MAX_BUCKETS"

lemma take_token_table:
  assumes "table_ok bs"
  shows "table_ok (snd (take_token limit period now key bs))"
proof (cases "map_of bs key")
  case None
  have "length (AList.update key v (evict_buckets period now bs)) \<le> MAX_BUCKETS" for v
    using evict_below_max [of bs period now] assms
    by (simp only: length_dict_update table_ok_def) (simp split: if_splits)
  then show ?thesis
    using None assms evict_ok [of bs period now] by (auto simp: take_token_def Let_def table_ok_def)
next
  case (Some b)
  then have "key \<in> set (keys bs)" by (rule map_of_Some_keys)
  then have "length (AList.update key v bs) = length bs" for v
    by (simp only: length_dict_update if_True)
  then show ?thesis using Some assms by (auto simp: take_token_def Let_def table_ok_def)
qed

subsection \<open>Tokens stay within the limit\<close>

definition tokens_ok :: "rat \<Rightarrow> rat \<Rightarrow> buckets \<Rightarrow> bool" where
  "tokens_ok limit now bs \<longleftrightarrow>
     (\<forall>(k, b) \<in> set bs. 0 \<le> bk_tokens b \<and> bk_tokens b \<le> limit \<and> bk_last_seen b \<le> now)"

lemma take_token_tokens:
  assumes "tokens_ok limit t bs" and "t \<le> now" and "1 \<le> limit" and "0 < period"
  shows "tokens_ok limit now (snd (take_token limit period now key bs))"
proof -
  have mono: "tokens_ok limit now bs" using assms(1,2) by (fastforce simp: tokens_ok_def)
  have upd: "tokens_ok limit now (AList.update key b cs)"
    if "tokens_ok limit now cs" "0 \<le> bk_tokens b" "bk_tokens b \<le> limit" "bk_last_seen b \<le> now" for b cs
    using that unfolding tokens_ok_def by (auto dest!: AList_update_mem)
  show ?thesis
  proof (cases "map_of bs key")
    case None
    have "tokens_ok limit now (evict_buckets period now bs)"
      using mono evict_mem unfolding tokens_ok_def by blast
    then show ?thesis using None assms(3) by (auto simp: take_token_def Let_def intro!: upd)
  next
    case (Some b)
    then have "(key, b) \<in> set bs" by (rule map_of_SomeD)
    then have b: "0 \<le> bk_tokens b" "bk_last_seen b \<le> t" using assms(1) by (auto simp: tokens_ok_def)
    have "0 \<le> (now - bk_last_seen b) * (limit / period)"
      using b assms by (intro mult_nonneg_nonneg) auto
    then have "0 \<le> min limit (bk_tokens b + (now - bk_last_seen b) * (limit / period))"
      using b assms(3) by auto
    then show ?thesis using Some mono by (auto simp: take_token_def Let_def intro!: upd)
  qed
qed

subsection \<open>Retry-After is honoured\<close>

lemma take_token_denied:
  assumes "take_token limit period now key bs = ((False, r), bs')"
  obtains tk where "map_of bs' key = Some \<lparr>bk_tokens = tk, bk_last_seen = now\<rparr>"
    and "tk < 1" and "r = retry_after (limit / period) tk"
  using assms
  by (auto simp: take_token_def Let_def split: option.splits if_splits prod.splits intro: that)

lemma retry_suffices:
  assumes "take_token limit period now key bs = ((False, r), bs')" and "now + of_int r \<le> later"
    and "1 \<le> limit" and "0 < period"
  shows "fst (fst (take_token limit period later key bs'))"
proof -
  obtain tk where tk: "map_of bs' key = Some \<lparr>bk_tokens = tk, bk_last_seen = now\<rparr>" "tk < 1"
      "r = retry_after (limit / period) tk"
    using assms(1) by (rule take_token_denied)
  let ?rate = "limit / period"
  have rate: "0 < ?rate" using assms(3,4) by simp
  have "(1 - tk) / ?rate < of_int (\<lfloor>(1 - tk) / ?rate\<rfloor> + 1)"
    using floor_correct [of "(1 - tk) / ?rate"] by blast
  also have "\<dots> \<le> of_int r" unfolding of_int_le_iff tk(3) retry_after_def by (rule max.cobounded2)
  also have "\<dots> \<le> later - now" using assms(2) by simp
  finally have "1 - tk < (later - now) * ?rate" using rate pos_divide_less_eq by blast
  then have "1 \<le> min limit (tk + (later - now) * ?rate)" using assms(3) by simp
  then show ?thesis using tk(1) by (simp add: take_token_def Let_def)
qed

subsection \<open>The window bound\<close>

text \<open>
  A run of checks at non-decreasing times. While the table does not reach its cap, a key is allowed
  at most \<open>limit\<close> requests plus the refill of the elapsed time.
\<close>

fun run_checks :: "rat \<Rightarrow> rat \<Rightarrow> (rat \<times> string) list \<Rightarrow> buckets \<Rightarrow> (string \<times> bool) list \<times> buckets" where
  "run_checks limit period [] bs = ([], bs)"
| "run_checks limit period ((t, k) # qs) bs =
     (let ((a, r), bs) = take_token limit period t k bs;
          (as, bs) = run_checks limit period qs bs
      in ((k, a) # as, bs))"

definition allowed :: "string \<Rightarrow> (string \<times> bool) list \<Rightarrow> nat" where
  "allowed k as = length (filter (\<lambda>(k', a). k' = k \<and> a) as)"

definition credit :: "rat \<Rightarrow> rat \<Rightarrow> rat \<Rightarrow> string \<Rightarrow> buckets \<Rightarrow> rat" where
  "credit limit rate t k bs =
     (case map_of bs k of None \<Rightarrow> limit
      | Some b \<Rightarrow> min limit (bk_tokens b + (t - bk_last_seen b) * rate))"

lemma credit_le: "credit limit rate t k bs \<le> limit"
  by (auto simp: credit_def split: option.splits)

lemma credit_mono:
  assumes "t \<le> t'" and "0 \<le> rate"
  shows "credit limit rate t' k bs \<le> credit limit rate t k bs + (t' - t) * rate"
proof (cases "map_of bs k")
  case None
  then show ?thesis using assms by (simp add: credit_def)
next
  case (Some b)
  have "min limit (x + y) \<le> min limit x + y" if "0 \<le> y" for x y :: rat using that by auto
  from this [of "(t' - t) * rate" "bk_tokens b + (t - bk_last_seen b) * rate"] assms
  have "min limit (bk_tokens b + (t - bk_last_seen b) * rate + (t' - t) * rate)
      \<le> min limit (bk_tokens b + (t - bk_last_seen b) * rate) + (t' - t) * rate"
    by (simp add: mult_nonneg_nonneg)
  moreover have "bk_tokens b + (t - bk_last_seen b) * rate + (t' - t) * rate = bk_tokens b + (t' - bk_last_seen b) * rate"
    by (simp add: algebra_simps)
  ultimately show ?thesis using Some by (simp add: credit_def)
qed

lemma take_token_credit:
  assumes "length bs < MAX_BUCKETS" and "take_token limit period t k bs = ((a, r), bs')"
  shows "credit limit (limit / period) t k' bs' + (if k = k' \<and> a then 1 else 0) = credit limit (limit / period) t k' bs"
    and "k \<noteq> k' \<Longrightarrow> credit limit (limit / period) t k' bs' = credit limit (limit / period) t k' bs"
proof -
  have ev: "evict_buckets period t bs = bs" using assms(1) by (simp add: evict_buckets_def)
  define tk where "tk = credit limit (limit / period) t k bs"
  have tk: "tk \<le> limit" unfolding tk_def by (rule credit_le)
  have step: "take_token limit period t k bs =
      (if 1 \<le> tk then ((True, 0), AList.update k \<lparr>bk_tokens = tk - 1, bk_last_seen = t\<rparr> bs)
       else ((False, retry_after (limit / period) tk), AList.update k \<lparr>bk_tokens = tk, bk_last_seen = t\<rparr> bs))"
    by (auto simp: take_token_def Let_def ev tk_def credit_def split: option.splits)
  show "k \<noteq> k' \<Longrightarrow> credit limit (limit / period) t k' bs' = credit limit (limit / period) t k' bs"
    using assms(2) unfolding step by (auto simp: credit_def split: if_splits)
  then show "credit limit (limit / period) t k' bs' + (if k = k' \<and> a then 1 else 0) = credit limit (limit / period) t k' bs"
  proof (cases "k = k'")
    case True
    have "credit limit (limit / period) t k bs' + (if a then 1 else 0) = tk"
      using assms(2) tk unfolding step by (auto simp: credit_def split: if_splits)
    then show ?thesis using True by (simp add: tk_def)
  qed auto
qed

fun times_from :: "rat \<Rightarrow> (rat \<times> string) list \<Rightarrow> bool" where
  "times_from t [] = True"
| "times_from t ((t', k) # qs) = (t \<le> t' \<and> times_from t' qs)"

definition last_time :: "rat \<Rightarrow> (rat \<times> string) list \<Rightarrow> rat" where
  "last_time t qs = (if qs = [] then t else fst (last qs))"

lemma take_token_length: "length (snd (take_token limit period t k bs)) \<le> Suc (length bs)"
  using evict_length [of period t bs]
  by (auto simp: take_token_def Let_def length_dict_update simp del: set_map split: option.splits prod.splits)

lemma split_span: "(a - t) * x = (a - t') * x + (t' - t) * x" for a x :: rat
  by (simp add: algebra_simps)

lemma span_chain:
  "n \<le> c' + a \<Longrightarrow> c' + d = c1 \<Longrightarrow> c1 \<le> c0 + b \<Longrightarrow> s = a + b \<Longrightarrow> d + n \<le> c0 + s"
  for n :: rat
  by linarith

lemma run_window:
  assumes "times_from t qs" and "length bs + length qs \<le> MAX_BUCKETS" and "tokens_ok limit t bs"
    and "1 \<le> limit" and "0 < period"
  shows "of_nat (allowed k (fst (run_checks limit period qs bs)))
    \<le> credit limit (limit / period) t k bs + (last_time t qs - t) * (limit / period)"
  using assms(1-3)
proof (induction qs arbitrary: t bs)
  case Nil
  have "0 \<le> credit limit (limit / period) t k bs"
  proof (cases "map_of bs k")
    case None
    then show ?thesis using assms(4) by (simp add: credit_def)
  next
    case (Some b)
    then have "(k, b) \<in> set bs" by (rule map_of_SomeD)
    then have "0 \<le> bk_tokens b" "bk_last_seen b \<le> t" using Nil.prems(3) by (auto simp: tokens_ok_def)
    moreover from this have "0 \<le> (t - bk_last_seen b) * (limit / period)"
      using assms(4,5) by (intro mult_nonneg_nonneg) auto
    ultimately show ?thesis using Some assms(4) by (auto simp: credit_def)
  qed
  then show ?case by (simp add: allowed_def last_time_def)
next
  case (Cons q qs)
  obtain t' k' where q: "q = (t', k')" by (cases q)
  obtain a r bs' where tt: "take_token limit period t' k' bs = ((a, r), bs')" by (metis surj_pair)
  let ?rate = "limit / period"
  have rate: "0 \<le> ?rate" using assms(4,5) by simp
  have t: "t \<le> t'" "times_from t' qs" using Cons.prems(1) by (simp_all add: q)
  have "length bs' \<le> Suc (length bs)" using take_token_length [of limit period t' k' bs] by (simp add: tt)
  then have len: "length bs' + length qs \<le> MAX_BUCKETS" using Cons.prems(2) by simp
  have tok: "tokens_ok limit t' bs'"
    using take_token_tokens [OF Cons.prems(3) t(1) assms(4,5), of k'] by (simp add: tt)
  have "length bs < MAX_BUCKETS" using Cons.prems(2) by simp
  note cr = take_token_credit(1) [OF this tt, of k]
  have ih: "of_nat (allowed k (fst (run_checks limit period qs bs'))) \<le> credit limit ?rate t' k bs' + (last_time t' qs - t') * ?rate"
    by (rule Cons.IH [OF t(2) len tok])
  have "of_nat (allowed k (fst (run_checks limit period (q # qs) bs)))
      = (if k' = k \<and> a then 1 else 0) + rat_of_nat (allowed k (fst (run_checks limit period qs bs')))"
    by (auto simp: q tt allowed_def Let_def split: prod.splits)
  moreover have "last_time t (q # qs) = last_time t' qs" by (simp add: last_time_def q)
  moreover note span_chain [OF ih cr credit_mono [OF t(1) rate, of limit k bs] split_span]
  ultimately show ?case by (simp only:)
qed

end
