(* ===== verification/ApiAuth.thy ===== *)
theory ApiAuth
  imports PyStr
begin

text \<open>
  \<open>api/auth.py\<close>: the shared bearer token. \<open>expected\<close> is the environment variable
  \<open>IACTRANSLATE_API_KEY\<close> ([] when unset), \<open>header\<close> the value of \<open>Authorization\<close> ([] when absent).
\<close>

datatype auth_error = Unauthorized | DigestTypeError

definition api_key_configured :: "string \<Rightarrow> bool" where
  "api_key_configured env \<longleftrightarrow> strip env \<noteq> []"

text \<open>\<open>header.partition(" ")\<close> without the separator.\<close>

definition partition_space :: "string \<Rightarrow> string \<times> string" where
  "partition_space s = (takeWhile (\<lambda>c. c \<noteq> CHR '' '') s, drop 1 (dropWhile (\<lambda>c. c \<noteq> CHR '' '') s))"

text \<open>\<open>secrets.compare_digest\<close> raises \<open>TypeError\<close> on a string that is not ASCII.\<close>

definition compare_digest :: "string \<Rightarrow> string \<Rightarrow> auth_error + bool" where
  "compare_digest a b =
     (if list_all (\<lambda>c. code c < 128) (a @ b) then Inr (a = b) else Inl DigestTypeError)"

definition require_api_key :: "string \<Rightarrow> string \<Rightarrow> auth_error + unit" where
  "require_api_key env header =
     (let expected = strip env
      in if expected = [] then Inr ()
         else let (scheme, token) = partition_space header
              in if lower scheme \<noteq> ''bearer'' \<or> token = [] then Inl Unauthorized
                 else case compare_digest token expected of
                        Inl e \<Rightarrow> Inl e
                      | Inr same \<Rightarrow> if same then Inr () else Inl Unauthorized)"

lemma partition_space_join:
  assumes "CHR '' '' \<notin> set a"
  shows "partition_space (a @ '' '' @ b) = (a, b)"
proof -
  have "\<forall>c \<in> set a. c \<noteq> CHR '' ''" using assms by auto
  then show ?thesis by (simp add: partition_space_def takeWhile_append2 dropWhile_append2)
qed

text \<open>With a key configured, exactly the bearer of that key passes.\<close>

lemma require_api_key_iff:
  assumes "strip env \<noteq> []"
  shows "require_api_key env header = Inr () \<longleftrightarrow>
    (list_all (\<lambda>c. code c < 128) (strip env) \<and>
     (\<exists>scheme. lower scheme = ''bearer'' \<and> header = scheme @ '' '' @ strip env))"
proof
  assume r: "require_api_key env header = Inr ()"
  obtain scheme tok where p: "partition_space header = (scheme, tok)" by fastforce
  have s: "lower scheme = ''bearer''" "tok = strip env" "tok \<noteq> []" "list_all (\<lambda>c. code c < 128) (tok @ strip env)"
    using r assms p by (auto simp: require_api_key_def compare_digest_def Let_def split: if_splits)
  have sp: "scheme = takeWhile (\<lambda>c. c \<noteq> CHR '' '') header" "tok = drop 1 (dropWhile (\<lambda>c. c \<noteq> CHR '' '') header)"
    using p by (auto simp: partition_space_def)
  have ne: "dropWhile (\<lambda>c. c \<noteq> CHR '' '') header \<noteq> []" using sp(2) s(3) by (metis drop_Nil)
  then have hd: "hd (dropWhile (\<lambda>c. c \<noteq> CHR '' '') header) = CHR '' ''"
    using hd_dropWhile [OF ne] by blast
  have "dropWhile (\<lambda>c. c \<noteq> CHR '' '') header = '' '' @ tok"
    using ne hd sp(2) by (cases "dropWhile (\<lambda>c. c \<noteq> CHR '' '') header") auto
  then have "header = scheme @ '' '' @ tok" using sp(1) takeWhile_dropWhile_id by metis
  then show "list_all (\<lambda>c. code c < 128) (strip env) \<and>
     (\<exists>scheme. lower scheme = ''bearer'' \<and> header = scheme @ '' '' @ strip env)"
    using s by auto
next
  assume a: "list_all (\<lambda>c. code c < 128) (strip env) \<and>
     (\<exists>scheme. lower scheme = ''bearer'' \<and> header = scheme @ '' '' @ strip env)"
  obtain scheme where h: "list_all (\<lambda>c. code c < 128) (strip env)" "lower scheme = ''bearer''"
      "header = scheme @ '' '' @ strip env" using a by (elim conjE exE)
  have "CHR '' '' \<notin> set scheme"
  proof
    assume "CHR '' '' \<in> set scheme"
    then have "lower_char (CHR '' '') \<in> set (lower scheme)" by (simp add: rev_image_eqI)
    then show False unfolding h(2) by (simp add: lower_char_def char_class_defs)
  qed
  then have "partition_space header = (scheme, strip env)" unfolding h(3) by (rule partition_space_join)
  then show "require_api_key env header = Inr ()"
    using h assms by (simp add: require_api_key_def compare_digest_def)
qed

end
