(* ===== verification/Idempotency.thy ===== *)
theory Idempotency
  imports ApiAuth
begin

text \<open>
  \<open>api/idempotency.py\<close>: the table of idempotency keys. A request claims its scoped key, runs, and
  either completes (its response is replayed from then on) or abandons the claim. SHA-256 is the
  parameter \<open>hash\<close>; time is the monotonic clock, the bytes of a body are a string.
\<close>

definition DEFAULT_TTL_SECONDS :: rat where
  "DEFAULT_TTL_SECONDS = 24 * 3600"

definition MAX_RECORDS :: nat where
  "MAX_RECORDS = 10000"

definition MAX_KEY_LENGTH :: nat where
  "MAX_KEY_LENGTH = 255"

record idem_record =
  ir_fingerprint :: string
  ir_created_at :: rat
  ir_status :: "int option"
  ir_body :: "string option"
  ir_media_type :: string
  ir_in_flight :: bool

type_synonym records = "(string, idem_record) dict"

record idem_store =
  is_ttl :: rat
  is_records :: records

text \<open>\<open>env\<close> is \<open>IACTRANSLATE_IDEMPOTENCY_TTL\<close> as a float, \<open>None\<close> when it is absent or does not parse.\<close>

definition ttl_from_env :: "rat option \<Rightarrow> rat" where
  "ttl_from_env env = (case env of Some t \<Rightarrow> t | None \<Rightarrow> DEFAULT_TTL_SECONDS)"

definition mk_store :: "rat option \<Rightarrow> rat option \<Rightarrow> idem_store" where
  "mk_store ttl env =
     \<lparr>is_ttl = (case ttl of Some t \<Rightarrow> t | None \<Rightarrow> ttl_from_env env), is_records = []\<rparr>"

definition cache_raw :: "string option \<Rightarrow> string \<Rightarrow> string \<Rightarrow> string \<Rightarrow> string" where
  "cache_raw user verb path key =
     (case user of Some u \<Rightarrow> if u = [] then ''-'' else u | None \<Rightarrow> ''-'')
       @ ''|'' @ verb @ ''|'' @ path @ ''|'' @ key"

definition cache_key :: "(string \<Rightarrow> string) \<Rightarrow> string option \<Rightarrow> string \<Rightarrow> string \<Rightarrow> string \<Rightarrow> string" where
  "cache_key hash user verb path key = hash (cache_raw user verb path key)"

definition fingerprint :: "(string \<Rightarrow> string) \<Rightarrow> string \<Rightarrow> string" where
  "fingerprint hash body = hash body"

text \<open>\<open>_evict_locked\<close>: drop what is past its time to live, then the oldest quarter when still full.\<close>

definition evict_records :: "rat \<Rightarrow> rat \<Rightarrow> records \<Rightarrow> records" where
  "evict_records ttl now rs =
     (let live = filter (\<lambda>(k, r). \<not> ttl < now - ir_created_at r) rs
      in if length live < MAX_RECORDS then live
         else drop_quarter (\<lambda>(k, r). ir_created_at r) live)"

text \<open>
  \<open>begin\<close> returns \<open>None\<close> (the key is claimed) or the record to replay, or raises \<open>Conflict\<close> with its
  \<open>retry_after\<close> or \<open>BodyMismatch\<close>.
\<close>

datatype begin_result = Claimed | Replay idem_record | Conflict int | BodyMismatch

definition begin_request :: "rat \<Rightarrow> string \<Rightarrow> string \<Rightarrow> idem_store \<Rightarrow> begin_result \<times> idem_store" where
  "begin_request now ck fp s =
     (let rs = evict_records (is_ttl s) now (is_records s)
      in case map_of rs ck of
           Some r \<Rightarrow>
             (if ir_fingerprint r \<noteq> fp then BodyMismatch
              else if ir_in_flight r then Conflict 1
              else Replay r, s\<lparr>is_records := rs\<rparr>)
         | None \<Rightarrow>
             (Claimed, s\<lparr>is_records := AList.update ck
                \<lparr>ir_fingerprint = fp, ir_created_at = now, ir_status = None, ir_body = None,
                 ir_media_type = ''application/json'', ir_in_flight = True\<rparr> rs\<rparr>))"

definition complete :: "string \<Rightarrow> int \<Rightarrow> string \<Rightarrow> string \<Rightarrow> idem_store \<Rightarrow> idem_store" where
  "complete ck status body media s =
     (case map_of (is_records s) ck of
        None \<Rightarrow> s
      | Some r \<Rightarrow> s\<lparr>is_records := AList.update ck
          (r\<lparr>ir_status := Some status, ir_body := Some body, ir_media_type := media, ir_in_flight := False\<rparr>)
          (is_records s)\<rparr>)"

definition abandon :: "string \<Rightarrow> idem_store \<Rightarrow> idem_store" where
  "abandon ck s = s\<lparr>is_records := AList.delete ck (is_records s)\<rparr>"

definition reset_store :: "idem_store \<Rightarrow> idem_store" where
  "reset_store s = s\<lparr>is_records := []\<rparr>"

datatype key_error = KeyTooLong | KeyBadChar

definition key_char :: "char \<Rightarrow> bool" where
  "key_char c \<longleftrightarrow> is_alnum c \<or> c \<in> set ''-_:.''"

text \<open>\<open>headers\<close> is the value of the header, \<open>None\<close> when it is absent.\<close>

definition read_key :: "string option \<Rightarrow> key_error + string option" where
  "read_key header =
     (let raw = strip (case header of Some h \<Rightarrow> h | None \<Rightarrow> [])
      in if raw = [] then Inr None
         else if MAX_KEY_LENGTH < length raw then Inl KeyTooLong
         else if \<not> list_all key_char raw then Inl KeyBadChar
         else Inr (Some raw))"

text \<open>
  The middleware of \<open>api/main.py\<close>. \<open>call_next\<close> is the rest of the application on its state \<open>'w\<close>:
  a response, or \<open>None\<close> for an exception; \<open>None\<close> is what the middleware re-raises.
\<close>

record request =
  rq_method :: string
  rq_path :: string
  rq_key :: "string option"
  rq_cookie :: "string option"
  rq_body :: string
  rq_authorization :: string

record response =
  rs_status :: int
  rs_content :: string
  rs_media :: "string option"
  rs_headers :: "(string, string) dict"

definition HEADER :: string where
  "HEADER = ''Idempotency-Key''"

definition error_response :: "int \<Rightarrow> string \<Rightarrow> response" where
  "error_response status msg =
     \<lparr>rs_status = status, rs_content = ''{'' @ [CHR 34] @ ''detail'' @ [CHR 34] @ '':'' @ [CHR 34] @ msg @ [CHR 34] @ ''}'',
      rs_media = Some ''application/json'', rs_headers = []\<rparr>"

fun key_error_text :: "key_error \<Rightarrow> string" where
  "key_error_text KeyTooLong = HEADER @ '' must be at most '' @ str_of_nat MAX_KEY_LENGTH @ '' characters''"
| "key_error_text KeyBadChar = HEADER @ '' may contain only letters, digits and - _ : .''"

text \<open>A route guarded by \<open>Depends(require_api_key)\<close>: the dependency runs after the middleware.\<close>

definition guarded ::
  "string \<Rightarrow> request \<Rightarrow> ('w \<Rightarrow> response option \<times> 'w) \<Rightarrow> 'w \<Rightarrow> response option \<times> 'w" where
  "guarded env q route w =
     (case require_api_key env (rq_authorization q) of
        Inl Unauthorized \<Rightarrow> (Some (error_response 401 ''missing or invalid bearer token''), w)
      | Inl DigestTypeError \<Rightarrow> (None, w)
      | Inr _ \<Rightarrow> route w)"

definition replay :: "idem_record \<Rightarrow> response" where
  "replay r =
     \<lparr>rs_status = (case ir_status r of Some st \<Rightarrow> if st = 0 then 200 else st | None \<Rightarrow> 200),
      rs_content = (case ir_body r of Some b \<Rightarrow> b | None \<Rightarrow> []), rs_media = Some (ir_media_type r),
      rs_headers = [(''Idempotency-Replayed'', ''true'')]\<rparr>"

definition request_key :: "(string \<Rightarrow> string) \<Rightarrow> request \<Rightarrow> string \<Rightarrow> string" where
  "request_key hash q key =
     cache_key hash (case rq_cookie q of Some c \<Rightarrow> if c = [] then None else Some c | None \<Rightarrow> None)
       (rq_method q) (rq_path q) key"

definition finish_request :: "string \<Rightarrow> response option \<Rightarrow> idem_store \<Rightarrow> idem_store" where
  "finish_request ck resp s =
     (case resp of
        None \<Rightarrow> abandon ck s
      | Some r \<Rightarrow>
          if 200 \<le> rs_status r \<and> rs_status r < 300
          then complete ck (rs_status r) (rs_content r)
                 (case rs_media r of Some m \<Rightarrow> if m = [] then ''application/json'' else m | None \<Rightarrow> ''application/json'') s
          else abandon ck s)"

definition idem_middleware ::
  "(string \<Rightarrow> string) \<Rightarrow> rat \<Rightarrow> request \<Rightarrow> ('w \<Rightarrow> response option \<times> 'w) \<Rightarrow> idem_store \<Rightarrow> 'w
    \<Rightarrow> response option \<times> idem_store \<times> 'w" where
  "idem_middleware hash now q call_next s w =
     (if rq_method q \<noteq> ''POST'' then let (r, w) = call_next w in (r, s, w)
      else case read_key (rq_key q) of
             Inl e \<Rightarrow> (Some (error_response 400 (key_error_text e)), s, w)
           | Inr None \<Rightarrow> (let (r, w) = call_next w in (r, s, w))
           | Inr (Some key) \<Rightarrow>
               let ck = request_key hash q key;
                   (b, s) = begin_request now ck (fingerprint hash (rq_body q)) s
               in case b of
                    Conflict n \<Rightarrow> (Some ((error_response 409 ''a request with this Idempotency-Key is still in progress'')
                      \<lparr>rs_headers := [(''Retry-After'', str_of_int n)]\<rparr>), s, w)
                  | BodyMismatch \<Rightarrow> (Some (error_response 422
                      ''this Idempotency-Key was already used with a different request body; generate a new key per distinct request''), s, w)
                  | Replay r \<Rightarrow> (Some (replay r), s, w)
                  | Claimed \<Rightarrow> (let (r, w) = call_next w in (r, finish_request ck r s, w)))"

subsection \<open>The table is bounded\<close>

definition records_ok :: "idem_store \<Rightarrow> bool" where
  "records_ok s \<longleftrightarrow> dict_ok (is_records s) \<and> length (is_records s) \<le> MAX_RECORDS"

lemma evict_records_ok: "dict_ok rs \<Longrightarrow> dict_ok (evict_records ttl now rs)"
  by (simp add: evict_records_def Let_def distinct_map_filter)

lemma evict_records_length: "length (evict_records ttl now rs) \<le> length rs"
  by (auto simp: evict_records_def Let_def intro: le_trans [OF drop_quarter_length] le_trans [OF length_filter_le])

lemma evict_records_below:
  assumes "length rs \<le> MAX_RECORDS"
  shows "length (evict_records ttl now rs) < MAX_RECORDS"
proof -
  let ?live = "filter (\<lambda>(k, r). \<not> ttl < now - ir_created_at r) rs"
  have le: "length ?live \<le> length rs" by (rule length_filter_le)
  show ?thesis
  proof (cases "length ?live < MAX_RECORDS")
    case False
    then have "4 \<le> length ?live" by (simp add: MAX_RECORDS_def)
    then have "length (drop_quarter (\<lambda>(k, r). ir_created_at r) ?live) < MAX_RECORDS"
      using drop_quarter_less le assms by (meson le_trans less_le_trans)
    then show ?thesis using False by (simp add: evict_records_def Let_def)
  qed (simp add: evict_records_def Let_def)
qed

lemma evict_records_room:
  assumes "length rs < MAX_RECORDS"
  shows "evict_records ttl now rs = filter (\<lambda>(k, r). \<not> ttl < now - ir_created_at r) rs"
  using le_less_trans [OF length_filter_le assms] by (simp add: evict_records_def Let_def)

datatype idem_op = Begin rat string string | Complete string int string string | Abandon string

fun idem_step :: "idem_op \<Rightarrow> idem_store \<Rightarrow> begin_result option \<times> idem_store" where
  "idem_step (Begin now ck fp) s = (let (b, s) = begin_request now ck fp s in (Some b, s))"
| "idem_step (Complete ck status body media) s = (None, complete ck status body media s)"
| "idem_step (Abandon ck) s = (None, abandon ck s)"

fun idem_run :: "idem_op list \<Rightarrow> idem_store \<Rightarrow> idem_store" where
  "idem_run [] s = s"
| "idem_run (x # xs) s = idem_run xs (snd (idem_step x s))"

lemma idem_step_ok:
  assumes "records_ok s"
  shows "records_ok (snd (idem_step x s))"
proof (cases x)
  case (Begin now ck fp)
  have d: "dict_ok (evict_records (is_ttl s) now (is_records s))"
    using assms by (simp only: records_ok_def evict_records_ok)
  have l: "length (evict_records (is_ttl s) now (is_records s)) < MAX_RECORDS"
    using assms by (simp only: records_ok_def evict_records_below)
  then have "length (AList.update ck r (evict_records (is_ttl s) now (is_records s))) \<le> MAX_RECORDS" for r
    by (simp only: length_dict_update) (simp split: if_splits)
  then show ?thesis using Begin d l
    by (auto simp: records_ok_def begin_request_def Let_def split: option.splits)
next
  case (Complete ck status body media)
  show ?thesis
  proof (cases "map_of (is_records s) ck")
    case (Some r)
    then have "ck \<in> set (keys (is_records s))" by (rule map_of_Some_keys)
    then have "length (AList.update ck v (is_records s)) = length (is_records s)" for v
      by (simp only: length_dict_update if_True)
    then show ?thesis using assms Complete Some by (simp add: records_ok_def complete_def)
  qed (use assms Complete in \<open>simp add: complete_def\<close>)
next
  case (Abandon ck)
  then show ?thesis using assms length_delete_le [of ck "is_records s"]
    by (simp add: records_ok_def abandon_def)
qed

lemma idem_run_ok: "records_ok s \<Longrightarrow> records_ok (idem_run xs s)"
  by (induction xs s rule: idem_run.induct) (simp_all only: idem_run.simps idem_step_ok)

subsection \<open>One execution per key\<close>

fun op_key :: "idem_op \<Rightarrow> string" where
  "op_key (Begin now ck fp) = ck"
| "op_key (Complete ck status body media) = ck"
| "op_key (Abandon ck) = ck"

fun op_within :: "rat \<Rightarrow> rat \<Rightarrow> idem_op \<Rightarrow> bool" where
  "op_within t0 t1 (Begin now ck fp) = (t0 \<le> now \<and> now \<le> t1)"
| "op_within t0 t1 (Complete ck status body media) = True"
| "op_within t0 t1 (Abandon ck) = True"

fun claims :: "string \<Rightarrow> idem_op list \<Rightarrow> idem_store \<Rightarrow> nat" where
  "claims ck [] s = 0"
| "claims ck (x # xs) s =
     (let (b, s') = idem_step x s
      in (if b = Some Claimed \<and> op_key x = ck then 1 else 0) + claims ck xs s')"

definition held :: "string \<Rightarrow> rat \<Rightarrow> idem_store \<Rightarrow> bool" where
  "held ck limit s \<longleftrightarrow>
     (case map_of (is_records s) ck of Some r \<Rightarrow> limit \<le> ir_created_at r + is_ttl s | None \<Rightarrow> False)"

lemma idem_step_ttl [simp]: "is_ttl (snd (idem_step x s)) = is_ttl s"
  by (cases x) (auto simp: begin_request_def complete_def abandon_def Let_def split: option.splits)

lemma idem_step_length: "length (is_records (snd (idem_step x s))) \<le> Suc (length (is_records s))"
proof (cases x)
  case (Begin now ck fp)
  have "length (AList.update ck r (evict_records (is_ttl s) now (is_records s)))
      \<le> Suc (length (evict_records (is_ttl s) now (is_records s)))" for r
    by (simp only: length_dict_update) simp
  then have "length (AList.update ck r (evict_records (is_ttl s) now (is_records s))) \<le> Suc (length (is_records s))" for r
    using evict_records_length [of "is_ttl s" now "is_records s"] le_trans Suc_le_mono by meson
  then show ?thesis using Begin evict_records_length [of "is_ttl s" now "is_records s"]
    by (auto simp: begin_request_def Let_def intro: le_SucI split: option.splits)
next
  case (Complete ck status body media)
  then show ?thesis
    by (auto simp: complete_def length_dict_update simp del: set_map split: option.splits)
next
  case (Abandon ck)
  then show ?thesis using length_delete_le [of ck "is_records s"] by (simp add: abandon_def le_SucI)
qed

lemma evict_keeps:
  assumes "records_ok s" and "length (is_records s) < MAX_RECORDS" and "map_of (is_records s) ck = Some r"
    and "now \<le> ir_created_at r + is_ttl s"
  shows "map_of (evict_records (is_ttl s) now (is_records s)) ck = Some r"
  unfolding evict_records_room [OF assms(2)]
  by (rule map_of_filter_keep) (use assms in \<open>auto simp: records_ok_def\<close>)

lemma held_step:
  assumes "records_ok s" and "length (is_records s) < MAX_RECORDS" and "held ck limit s"
    and "x \<noteq> Abandon ck" and "op_within t0 limit x"
  shows "held ck limit (snd (idem_step x s))" and "op_key x = ck \<Longrightarrow> fst (idem_step x s) \<noteq> Some Claimed"
proof -
  obtain r where r: "map_of (is_records s) ck = Some r" "limit \<le> ir_created_at r + is_ttl s"
    using assms(3) by (auto simp: held_def split: option.splits)
  have keep: "map_of (evict_records (is_ttl s) now (is_records s)) ck = Some r" if "now \<le> limit" for now
    by (rule evict_keeps [OF assms(1,2) r(1)]) (use that r(2) in simp)
  show "held ck limit (snd (idem_step x s))"
    using assms(4,5) r keep
    by (cases x) (auto simp: held_def begin_request_def complete_def abandon_def Let_def split: option.splits)
  show "fst (idem_step x s) \<noteq> Some Claimed" if "op_key x = ck"
    using assms(5) keep that
    by (cases x) (auto simp: begin_request_def Let_def split: option.splits)
qed

lemma held_no_claims:
  assumes "records_ok s" and "length (is_records s) + length xs \<le> MAX_RECORDS" and "held ck limit s"
    and "Abandon ck \<notin> set xs" and "list_all (op_within t0 limit) xs"
  shows "claims ck xs s = 0"
  using assms
proof (induction xs arbitrary: s)
  case (Cons x xs)
  obtain b s' where st: "idem_step x s = (b, s')" by (metis surj_pair)
  have room: "length (is_records s) < MAX_RECORDS" using Cons.prems(2) by simp
  have x: "x \<noteq> Abandon ck" "op_within t0 limit x" using Cons.prems(4,5) by auto
  note h = held_step [OF Cons.prems(1) room Cons.prems(3) x]
  have "claims ck xs s' = 0"
  proof (rule Cons.IH)
    show "records_ok s'" using idem_step_ok [OF Cons.prems(1), of x] st by simp
    show "length (is_records s') + length xs \<le> MAX_RECORDS"
      using idem_step_length [of x s] Cons.prems(2) st by simp
    show "held ck limit s'" using h(1) st by simp
  qed (use Cons.prems(4,5) in auto)
  then show ?case using h(2) st by auto
qed simp

lemma claimed_held:
  assumes "fst (begin_request now ck fp s) = Claimed" and "limit \<le> now + is_ttl s"
  shows "held ck limit (snd (begin_request now ck fp s))"
  using assms by (auto simp: begin_request_def held_def Let_def split: option.splits if_splits)

lemma claims_at_most_once:
  assumes "records_ok s" and "length (is_records s) + length xs \<le> MAX_RECORDS"
    and "Abandon ck \<notin> set xs" and "list_all (op_within t0 (t0 + is_ttl s)) xs"
  shows "claims ck xs s \<le> 1"
  using assms
proof (induction xs arbitrary: s)
  case (Cons x xs)
  obtain b s' where st: "idem_step x s = (b, s')" by (metis surj_pair)
  have ok: "records_ok s'" using idem_step_ok [OF Cons.prems(1), of x] st by simp
  have len: "length (is_records s') + length xs \<le> MAX_RECORDS"
    using idem_step_length [of x s] Cons.prems(2) st by simp
  have ttl: "is_ttl s' = is_ttl s" using idem_step_ttl [of x s] st by simp
  have rest: "Abandon ck \<notin> set xs" "list_all (op_within t0 (t0 + is_ttl s')) xs"
    using Cons.prems(3,4) ttl by auto
  show ?case
  proof (cases "b = Some Claimed \<and> op_key x = ck")
    case True
    then obtain now fp where x: "x = Begin now ck fp" using st by (cases x) auto
    have "t0 \<le> now" using Cons.prems(4) x by simp
    then have "held ck (t0 + is_ttl s') s'"
      using claimed_held [of now ck fp s "t0 + is_ttl s"] True st x ttl by (auto split: prod.splits)
    from held_no_claims [OF ok len this rest] show ?thesis using st by simp
  next
    case False
    then show ?thesis using Cons.IH [OF ok len rest] st by auto
  qed
qed simp

subsection \<open>Expiry\<close>

text \<open>A claim older than the time to live is dropped while its request is still running.\<close>

lemma evict_drops:
  assumes "dict_ok rs" and "map_of rs ck = Some r" and "ttl < now - ir_created_at r"
  shows "map_of (evict_records ttl now rs) ck = None"
proof -
  have "ck \<notin> fst ` set (filter (\<lambda>(k, r). \<not> ttl < now - ir_created_at r) rs)"
    using assms(2,3) map_of_is_SomeI [OF assms(1)] by fastforce
  moreover have "set (evict_records ttl now rs) \<subseteq> set (filter (\<lambda>(k, r). \<not> ttl < now - ir_created_at r) rs)"
    by (auto simp: evict_records_def Let_def dest!: drop_quarter_mem)
  ultimately have "ck \<notin> set (keys (evict_records ttl now rs))" by auto
  then show ?thesis unfolding map_of_None_keys .
qed

subsection \<open>Scope\<close>

text \<open>
  The hashed text separates caller, method, path and key: none but the path can hold a bar.
\<close>

lemma split_first: "a @ c # s = b @ c # t \<Longrightarrow> c \<notin> set a \<Longrightarrow> c \<notin> set b \<Longrightarrow> a = b \<and> s = t"
  by (induction a arbitrary: b) (case_tac b; auto)+

lemma split_last:
  assumes "a @ c # s = b @ c # t" and "c \<notin> set s" and "c \<notin> set t"
  shows "a = b \<and> s = t"
proof -
  have "rev s @ c # rev a = rev t @ c # rev b"
    using arg_cong [OF assms(1), of rev] by simp
  then show ?thesis using split_first [of "rev s" c "rev a" "rev t" "rev b"] assms(2,3) by simp
qed

definition caller_ok :: "string option \<Rightarrow> bool" where
  "caller_ok user = (case user of None \<Rightarrow> True | Some u \<Rightarrow> u \<noteq> [] \<and> u \<noteq> ''-'' \<and> CHR ''|'' \<notin> set u)"

lemma key_no_bar: "list_all key_char key \<Longrightarrow> CHR ''|'' \<notin> set key"
proof -
  have "\<not> key_char (CHR ''|'')" by (simp add: key_char_def is_alnum_def is_alpha_def char_class_defs)
  then show "list_all key_char key \<Longrightarrow> CHR ''|'' \<notin> set key" by (auto simp: list_all_iff)
qed

lemma read_key_chars: "read_key h = Inr (Some key) \<Longrightarrow> list_all key_char key"
  by (auto simp: read_key_def Let_def split: if_splits)

lemma cache_raw_inject:
  assumes "cache_raw u m p k = cache_raw u' m' p' k'"
    and "caller_ok u" and "caller_ok u'" and "CHR ''|'' \<notin> set m" and "CHR ''|'' \<notin> set m'"
    and "CHR ''|'' \<notin> set k" and "CHR ''|'' \<notin> set k'"
  shows "u = u' \<and> m = m' \<and> p = p' \<and> k = k'"
proof -
  define f where "f user = (case user of None \<Rightarrow> ''-'' | Some v \<Rightarrow> v)" for user :: "string option"
  have raw: "cache_raw v m p k = f v @ CHR ''|'' # m @ CHR ''|'' # p @ CHR ''|'' # k" if "caller_ok v" for v m p k
    using that by (auto simp: cache_raw_def f_def caller_ok_def split: option.splits)
  have bar: "CHR ''|'' \<notin> set (f v)" if "caller_ok v" for v
    using that by (auto simp: f_def caller_ok_def split: option.splits)
  have "f u @ CHR ''|'' # m @ CHR ''|'' # p @ CHR ''|'' # k = f u' @ CHR ''|'' # m' @ CHR ''|'' # p' @ CHR ''|'' # k'"
    using assms(1) raw [OF assms(2)] raw [OF assms(3)] by simp
  from split_first [OF this bar [OF assms(2)] bar [OF assms(3)]]
  have u: "f u = f u'" and "m @ CHR ''|'' # p @ CHR ''|'' # k = m' @ CHR ''|'' # p' @ CHR ''|'' # k'" by auto
  from split_first [OF this(2) assms(4,5)]
  have m: "m = m'" and "p @ CHR ''|'' # k = p' @ CHR ''|'' # k'" by auto
  from split_last [OF this(2) assms(6,7)] have "p = p' \<and> k = k'" .
  moreover have "u = u'" using u assms(2,3) by (auto simp: f_def caller_ok_def split: option.splits)
  ultimately show ?thesis using m by simp
qed

subsection \<open>The middleware\<close>

definition keyed :: "request \<Rightarrow> string \<Rightarrow> bool" where
  "keyed q key \<longleftrightarrow> rq_method q = ''POST'' \<and> read_key (rq_key q) = Inr (Some key)"

definition executes :: "(string \<Rightarrow> string) \<Rightarrow> rat \<Rightarrow> request \<Rightarrow> string \<Rightarrow> idem_store \<Rightarrow> bool" where
  "executes hash now q key s \<longleftrightarrow>
     fst (begin_request now (request_key hash q key) (fingerprint hash (rq_body q)) s) = Claimed"

text \<open>A successful first execution leaves the record its retries replay.\<close>

lemma middleware_records:
  assumes "keyed q key" and "executes hash now q key s"
    and "idem_middleware hash now q h s w = (Some r, s', w')" and "200 \<le> rs_status r" and "rs_status r < 300"
  obtains rec where "map_of (is_records s') (request_key hash q key) = Some rec"
    and "is_ttl s' = is_ttl s" and "ir_created_at rec = now"
    and "ir_fingerprint rec = fingerprint hash (rq_body q)" and "\<not> ir_in_flight rec"
    and "rs_status (replay rec) = rs_status r" and "rs_content (replay rec) = rs_content r"
    and "h w = (Some r, w')"
    and "length (is_records s') \<le> Suc (length (evict_records (is_ttl s) now (is_records s)))"
proof -
  let ?ck = "request_key hash q key"
  let ?fp = "fingerprint hash (rq_body q)"
  let ?rs = "evict_records (is_ttl s) now (is_records s)"
  have none: "map_of ?rs ?ck = None"
    using assms(2) by (auto simp: executes_def begin_request_def Let_def split: option.splits if_splits)
  define new where "new = \<lparr>ir_fingerprint = ?fp, ir_created_at = now, ir_status = None, ir_body = None,
                 ir_media_type = ''application/json'', ir_in_flight = True\<rparr>"
  define s1 where "s1 = s\<lparr>is_records := AList.update ?ck new ?rs\<rparr>"
  have b: "begin_request now ?ck ?fp s = (Claimed, s1)"
    using none by (simp add: begin_request_def Let_def s1_def new_def)
  obtain r1 w1 where h: "h w = (r1, w1)" by (metis surj_pair)
  have "idem_middleware hash now q h s w = (r1, finish_request ?ck r1 s1, w1)"
    using assms(1) by (simp add: idem_middleware_def keyed_def Let_def b h)
  then have r1: "r1 = Some r" "s' = finish_request ?ck r1 s1" "w1 = w'" using assms(3) by auto
  define m where "m = (case rs_media r of Some m \<Rightarrow> if m = [] then ''application/json'' else m | None \<Rightarrow> ''application/json'')"
  define rec where "rec = new\<lparr>ir_status := Some (rs_status r), ir_body := Some (rs_content r), ir_media_type := m, ir_in_flight := False\<rparr>"
  have s': "s' = s1\<lparr>is_records := AList.update ?ck rec (is_records s1)\<rparr>"
    using assms(4,5) r1 by (simp add: finish_request_def complete_def s1_def rec_def m_def)
  have "?ck \<in> set (keys (is_records s1))" by (simp add: s1_def keys_dict_update del: set_map)
  then have "length (is_records s') = length (is_records s1)"
    by (simp add: s' length_dict_update del: set_map)
  also have "\<dots> \<le> Suc (length ?rs)" by (simp add: s1_def length_dict_update del: set_map)
  finally have len: "length (is_records s') \<le> Suc (length ?rs)" .
  have "map_of (is_records s') ?ck = Some rec" and "is_ttl s' = is_ttl s"
    by (simp_all add: s' s1_def)
  moreover have "ir_created_at rec = now" "ir_fingerprint rec = ?fp" "\<not> ir_in_flight rec"
    by (simp_all add: rec_def new_def)
  moreover have "rs_status (replay rec) = rs_status r" "rs_content (replay rec) = rs_content r"
    using assms(4) by (simp_all add: rec_def replay_def)
  moreover have "h w = (Some r, w')" using h r1 by simp
  ultimately show ?thesis using len that [of rec] by blast
qed

lemma middleware_replays:
  assumes "keyed q key" and "map_of (is_records s) (request_key hash q key) = Some rec"
    and "ir_fingerprint rec = fingerprint hash (rq_body q)" and "\<not> ir_in_flight rec"
    and "records_ok s" and "length (is_records s) < MAX_RECORDS" and "later \<le> ir_created_at rec + is_ttl s"
  shows "\<exists>s'. idem_middleware hash later q h s w = (Some (replay rec), s', w)"
proof -
  note k = evict_keeps [OF assms(5,6,2,7)]
  show ?thesis using assms(1,3,4) k
    by (simp add: idem_middleware_def keyed_def begin_request_def Let_def)
qed

lemma finish_request_ok: "records_ok s \<Longrightarrow> records_ok (finish_request ck r s)"
  using idem_step_ok [of s "Abandon ck"] idem_step_ok [of s "Complete ck st b m" for st b m]
  by (auto simp: finish_request_def split: option.splits)

lemma middleware_ok:
  assumes "records_ok s"
  shows "records_ok (fst (snd (idem_middleware hash now q h s w)))"
proof -
  have b: "records_ok (snd (begin_request now ck fp s))" for ck fp
    using idem_step_ok [OF assms, of "Begin now ck fp"] by (simp add: split_beta)
  show ?thesis
    using assms b finish_request_ok [OF b]
    by (auto simp: idem_middleware_def Let_def split_beta split: sum.splits option.splits begin_result.splits)
qed

lemma middleware_retry:
  assumes "keyed q key" and "executes hash now q key s" and "records_ok s" and "length (is_records s) + 1 < MAX_RECORDS"
    and "idem_middleware hash now q h s w = (Some r, s', w')" and "200 \<le> rs_status r" and "rs_status r < 300"
    and "keyed q' key" and "request_key hash q' key = request_key hash q key" and "rq_body q' = rq_body q"
    and "later \<le> now + is_ttl s"
  shows "\<exists>r2 s2. idem_middleware hash later q' h2 s' w2 = (Some r2, s2, w2)
    \<and> rs_status r2 = rs_status r \<and> rs_content r2 = rs_content r"
proof -
  obtain rec where rec: "map_of (is_records s') (request_key hash q key) = Some rec" "is_ttl s' = is_ttl s"
      "ir_created_at rec = now" "ir_fingerprint rec = fingerprint hash (rq_body q)" "\<not> ir_in_flight rec"
      "rs_status (replay rec) = rs_status r" "rs_content (replay rec) = rs_content r"
      "length (is_records s') \<le> Suc (length (evict_records (is_ttl s) now (is_records s)))"
    using assms(1,2,5-7) by (rule middleware_records)
  have len: "length (is_records s') < MAX_RECORDS"
    using rec(8) assms(4) evict_records_length [of "is_ttl s" now "is_records s"] by simp
  have ok: "records_ok s'" using middleware_ok [OF assms(3), of hash now q h w] by (simp add: assms(5))
  have "\<exists>s2. idem_middleware hash later q' h2 s' w2 = (Some (replay rec), s2, w2)"
    by (rule middleware_replays [OF assms(8) _ _ rec(5) ok len]) (use rec assms(9-11) in simp_all)
  then show ?thesis using rec(6,7) by blast
qed

end
