(* ===== verification/Roles.thy ===== *)
theory Roles
  imports Prelude PyStr
begin

text \<open>
  \<open>api/roles.py\<close>: the four ordered roles, the grants kept in memory, and the same grants written
  through to a table. The interface both implementations share is the locale \<open>membership\<close>; the SQL
  table is its rows in insertion order.
\<close>

datatype role = VIEWER | EDITOR | APPROVER | ADMIN

fun role_value :: "role \<Rightarrow> string" where
  "role_value VIEWER = ''viewer''"
| "role_value EDITOR = ''editor''"
| "role_value APPROVER = ''approver''"
| "role_value ADMIN = ''admin''"

fun role_rank :: "role \<Rightarrow> nat" where
  "role_rank VIEWER = 0"
| "role_rank EDITOR = 1"
| "role_rank APPROVER = 2"
| "role_rank ADMIN = 3"

definition at_least :: "role \<Rightarrow> role \<Rightarrow> bool" where
  "at_least held required \<longleftrightarrow> role_rank required \<le> role_rank held"

definition all_roles :: "role list" where
  "all_roles = [VIEWER, EDITOR, APPROVER, ADMIN]"

text \<open>\<open>Role(value)\<close>: the member with that value, \<open>None\<close> for a \<open>ValueError\<close>.\<close>

definition role_of_value :: "string \<Rightarrow> role option" where
  "role_of_value s = find (\<lambda>r. role_value r = s) all_roles"

datatype role_error = UnknownRole string

definition parse_role :: "string \<Rightarrow> role_error + role" where
  "parse_role s =
     (case role_of_value (lower (strip s)) of Some r \<Rightarrow> Inr r | None \<Rightarrow> Inl (UnknownRole s))"

instantiation role :: linorder
begin

definition less_eq_role :: "role \<Rightarrow> role \<Rightarrow> bool" where
  "less_eq_role a b \<longleftrightarrow> role_rank a \<le> role_rank b"

definition less_role :: "role \<Rightarrow> role \<Rightarrow> bool" where
  "less_role a b \<longleftrightarrow> role_rank a < role_rank b"

instance
proof
  fix a b :: role
  show "a \<le> b \<Longrightarrow> b \<le> a \<Longrightarrow> a = b"
    by (cases a; cases b) (simp_all add: less_eq_role_def)
qed (auto simp: less_eq_role_def less_role_def)

end

lemma at_least_iff [simp]: "at_least held required \<longleftrightarrow> required \<le> held"
  by (simp add: at_least_def less_eq_role_def)

lemma le_ADMIN [simp]: "r \<le> ADMIN"
  by (cases r) (simp_all add: less_eq_role_def)

lemma role_of_value_value [simp]: "role_of_value (role_value r) = Some r"
  by (cases r) (simp_all add: role_of_value_def all_roles_def)

lemma role_of_value_Some: "role_of_value s = Some r \<Longrightarrow> s = role_value r"
  by (auto simp: role_of_value_def find_Some_iff)

subsection \<open>Membership in memory\<close>

type_synonym grants = "(string, (string, role) dict) dict"

definition grants_of :: "string \<Rightarrow> grants \<Rightarrow> (string, role) dict" where
  "grants_of p g = (case map_of g p of Some d \<Rightarrow> d | None \<Rightarrow> [])"

definition mem_grant :: "string \<Rightarrow> string \<Rightarrow> role \<Rightarrow> grants \<Rightarrow> grants" where
  "mem_grant p u r g = AList.update p (AList.update u r (grants_of p g)) g"

definition mem_revoke :: "string \<Rightarrow> string \<Rightarrow> grants \<Rightarrow> bool \<times> grants" where
  "mem_revoke p u g =
     (case map_of g p of
        None \<Rightarrow> (False, g)
      | Some d \<Rightarrow>
          if map_of d u = None then (False, g)
          else let d' = AList.delete u d
               in (True, if d' = [] then AList.delete p g else AList.update p d' g))"

definition held_role :: "grants \<Rightarrow> string \<Rightarrow> string \<Rightarrow> role option" where
  "held_role g p u = map_of (grants_of p g) u"

definition role_for :: "string \<Rightarrow> string \<Rightarrow> string option \<Rightarrow> grants \<Rightarrow> role option" where
  "role_for p u owner g = (if owner = Some u then Some ADMIN else held_role g p u)"

record member =
  mb_user_id :: string
  mb_role :: string
  mb_owner :: bool

definition members :: "string \<Rightarrow> string option \<Rightarrow> grants \<Rightarrow> member list" where
  "members p owner g =
     (case owner of Some w \<Rightarrow> [\<lparr>mb_user_id = w, mb_role = role_value ADMIN, mb_owner = True\<rparr>] | None \<Rightarrow> [])
       @ map (\<lambda>(u, r). \<lparr>mb_user_id = u, mb_role = role_value r, mb_owner = False\<rparr>)
           (filter (\<lambda>(u, r). Some u \<noteq> owner) (sort_key fst (grants_of p g)))"

definition projects_for :: "string \<Rightarrow> grants \<Rightarrow> string list" where
  "projects_for u g = sort (map fst (filter (\<lambda>(p, d). map_of d u \<noteq> None) g))"

definition mem_drop_project :: "string \<Rightarrow> grants \<Rightarrow> grants" where
  "mem_drop_project p g = AList.delete p g"

definition grants_ok :: "grants \<Rightarrow> bool" where
  "grants_ok g \<longleftrightarrow> dict_ok g \<and> (\<forall>(p, d) \<in> set g. dict_ok d \<and> d \<noteq> [])"

subsection \<open>Membership in a table\<close>

text \<open>A row of \<open>project_members\<close>: its primary key, the role text and when it was granted.\<close>

type_synonym member_rows = "(string \<times> string, string \<times> rat) dict"

record sql_membership =
  sm_grants :: grants
  sm_rows :: member_rows

definition load_row :: "grants \<Rightarrow> (string \<times> string) \<times> string \<times> rat \<Rightarrow> grants" where
  "load_row g = (\<lambda>((p, u), (v, w)).
     case role_of_value v of
       Some r \<Rightarrow> mem_grant p u r g
     | None \<Rightarrow> g)"

definition load_rows :: "member_rows \<Rightarrow> grants" where
  "load_rows rows = foldl load_row [] rows"

definition open_sql :: "member_rows \<Rightarrow> sql_membership" where
  "open_sql rows = \<lparr>sm_grants = load_rows rows, sm_rows = rows\<rparr>"

text \<open>\<open>INSERT ... ON CONFLICT DO UPDATE SET role\<close> keeps the time of the first grant.\<close>

definition sql_grant :: "rat \<Rightarrow> string \<Rightarrow> string \<Rightarrow> role \<Rightarrow> sql_membership \<Rightarrow> sql_membership" where
  "sql_grant now p u r m =
     \<lparr>sm_grants = mem_grant p u r (sm_grants m),
      sm_rows = AList.update (p, u)
        (role_value r, case map_of (sm_rows m) (p, u) of Some (v, w) \<Rightarrow> w | None \<Rightarrow> now) (sm_rows m)\<rparr>"

definition sql_revoke :: "string \<Rightarrow> string \<Rightarrow> sql_membership \<Rightarrow> bool \<times> sql_membership" where
  "sql_revoke p u m =
     (let (removed, g) = mem_revoke p u (sm_grants m)
      in (removed, \<lparr>sm_grants = g, sm_rows = (if removed then AList.delete (p, u) (sm_rows m) else sm_rows m)\<rparr>))"

definition sql_drop_project :: "string \<Rightarrow> sql_membership \<Rightarrow> sql_membership" where
  "sql_drop_project p m =
     \<lparr>sm_grants = mem_drop_project p (sm_grants m),
      sm_rows = filter (\<lambda>((q, u), v). q \<noteq> p) (sm_rows m)\<rparr>"

definition sql_role_for :: "string \<Rightarrow> string \<Rightarrow> string option \<Rightarrow> sql_membership \<Rightarrow> role option" where
  "sql_role_for p u owner m = role_for p u owner (sm_grants m)"

definition row_role :: "member_rows \<Rightarrow> string \<Rightarrow> string \<Rightarrow> role option" where
  "row_role rows p u = (case map_of rows (p, u) of Some (v, w) \<Rightarrow> role_of_value v | None \<Rightarrow> None)"

definition sql_ok :: "sql_membership \<Rightarrow> bool" where
  "sql_ok m \<longleftrightarrow> grants_ok (sm_grants m) \<and> dict_ok (sm_rows m)
     \<and> (\<forall>p u. held_role (sm_grants m) p u = row_role (sm_rows m) p u)"

subsection \<open>The operations on lookups\<close>

lemma held_mem_grant: "held_role (mem_grant p u r g) p' u' = (if p' = p \<and> u' = u then Some r else held_role g p' u')"
  by (auto simp: held_role_def mem_grant_def grants_of_def)

lemma held_mem_revoke:
  "held_role (snd (mem_revoke p u g)) p' u' = (if p' = p \<and> u' = u then None else held_role g p' u')"
proof (cases "map_of g p")
  case None
  then show ?thesis by (simp add: mem_revoke_def held_role_def grants_of_def)
next
  case (Some d)
  have "map_of (AList.delete u d) = (map_of d)(u := None)" by (rule map_of_dict_delete)
  then have "AList.delete u d = [] \<Longrightarrow> u' \<noteq> u \<Longrightarrow> map_of d u' = None"
    by (metis fun_upd_other map_of.simps(1))
  then show ?thesis using Some by (auto simp: mem_revoke_def held_role_def grants_of_def Let_def)
qed

lemma mem_revoke_result: "fst (mem_revoke p u g) \<longleftrightarrow> held_role g p u \<noteq> None"
  by (auto simp: mem_revoke_def held_role_def grants_of_def Let_def split: option.splits)

lemma held_mem_drop: "held_role (mem_drop_project p g) p' u' = (if p' = p then None else held_role g p' u')"
  by (simp add: mem_drop_project_def held_role_def grants_of_def)

lemma grants_of_ok: "grants_ok g \<Longrightarrow> dict_ok (grants_of p g)"
  by (auto simp: grants_ok_def grants_of_def dest: map_of_SomeD split: option.splits)

lemma grants_ok_grant: "grants_ok g \<Longrightarrow> grants_ok (mem_grant p u r g)"
proof -
  assume g: "grants_ok g"
  have "dict_ok (AList.update u r (grants_of p g))" using grants_of_ok [OF g] by (rule dict_ok_update)
  moreover have "AList.update u r (grants_of p g) \<noteq> []" by (cases "grants_of p g") auto
  ultimately show ?thesis
    using g by (auto simp: grants_ok_def mem_grant_def dest!: AList_update_mem)
qed

lemma grants_ok_drop: "grants_ok g \<Longrightarrow> grants_ok (mem_drop_project p g)"
  by (auto simp: grants_ok_def mem_drop_project_def dest!: AList_delete_mem)

lemma grants_ok_revoke:
  assumes "grants_ok g"
  shows "grants_ok (snd (mem_revoke p u g))"
proof (cases "map_of g p")
  case None
  then show ?thesis using assms by (simp add: mem_revoke_def)
next
  case (Some d)
  then have "dict_ok d" using grants_of_ok [OF assms, of p] by (simp add: grants_of_def)
  then have d: "dict_ok (AList.delete u d)" by (rule dict_ok_delete)
  have "grants_ok (AList.update p (AList.delete u d) g)" if "AList.delete u d \<noteq> []"
    using assms d that by (auto simp: grants_ok_def dest!: AList_update_mem)
  moreover have "grants_ok (AList.delete p g)" using grants_ok_drop [OF assms] by (simp add: mem_drop_project_def)
  ultimately show ?thesis using Some assms by (simp add: mem_revoke_def Let_def)
qed

lemma held_load_row:
  "held_role (load_row g ((p, u), (v, w))) p' u' =
     (if (p', u') = (p, u) \<and> role_of_value v \<noteq> None then role_of_value v else held_role g p' u')"
  by (auto simp: load_row_def held_mem_grant split: option.splits)

lemma held_load_rows:
  assumes "dict_ok rows"
  shows "held_role (foldl load_row g rows) p u =
    (case map_of rows (p, u) of
       Some (v, w) \<Rightarrow> (case role_of_value v of Some r \<Rightarrow> Some r | None \<Rightarrow> held_role g p u)
     | None \<Rightarrow> held_role g p u)"
  using assms
proof (induction rows arbitrary: g)
  case (Cons row rows)
  obtain q w v t where row: "row = ((q, w), (v, t))" by (metis surj_pair)
  show ?case
  proof (cases "(p, u) = (q, w)")
    case True
    then have "map_of rows (p, u) = None" using Cons.prems by (simp add: row map_of_eq_None_iff)
    then show ?thesis using Cons True by (auto simp: row held_load_row split: option.splits)
  next
    case False
    then show ?thesis using Cons by (auto simp: row held_load_row split: option.splits)
  qed
qed simp

lemma held_open: "dict_ok rows \<Longrightarrow> held_role (sm_grants (open_sql rows)) p u = row_role rows p u"
proof -
  assume "dict_ok rows"
  from held_load_rows [OF this, of "[]" p u]
  show "held_role (sm_grants (open_sql rows)) p u = row_role rows p u"
    by (simp add: open_sql_def load_rows_def row_role_def held_role_def [of "[]"] grants_of_def [of p "[]"] split: option.splits)
qed

lemma grants_ok_load: "grants_ok g \<Longrightarrow> grants_ok (foldl load_row g rows)"
  by (rule foldl_invariant) (auto simp: load_row_def grants_ok_grant split: option.splits)

lemma sql_ok_open: "dict_ok rows \<Longrightarrow> sql_ok (open_sql rows)"
  using held_open [of rows] grants_ok_load [of "[]" rows]
  by (simp add: sql_ok_def open_sql_def load_rows_def) (simp add: grants_ok_def)

lemma row_role_update:
  "row_role (AList.update (p, u) (role_value r, t) rows) p' u'
    = (if p' = p \<and> u' = u then Some r else row_role rows p' u')"
  by (auto simp: row_role_def)

lemma row_role_delete:
  "row_role (AList.delete (p, u) rows) p' u' = (if p' = p \<and> u' = u then None else row_role rows p' u')"
  by (auto simp: row_role_def)

lemma map_of_filter_project:
  "map_of (filter (\<lambda>((q, w), v). q \<noteq> p) rows) (p', u') = (if p' = p then None else map_of rows (p', u'))"
  by (induction rows) auto

lemma row_role_drop:
  "row_role (filter (\<lambda>((q, w), v). q \<noteq> p) rows) p' u' = (if p' = p then None else row_role rows p' u')"
  by (simp add: row_role_def map_of_filter_project)

lemma sql_ok_grant: "sql_ok m \<Longrightarrow> sql_ok (sql_grant now p u r m)"
  by (simp add: sql_ok_def sql_grant_def grants_ok_grant held_mem_grant row_role_update)

lemma sql_ok_revoke:
  assumes "sql_ok m"
  shows "sql_ok (snd (sql_revoke p u m))"
proof -
  obtain b g where r: "mem_revoke p u (sm_grants m) = (b, g)" by (metis surj_pair)
  have g: "grants_ok g" using grants_ok_revoke [of "sm_grants m" p u] assms r by (simp add: sql_ok_def)
  have h: "held_role g p' u' = (if p' = p \<and> u' = u then None else held_role (sm_grants m) p' u')" for p' u'
    using held_mem_revoke [of p u "sm_grants m"] r by simp
  have b: "b \<longleftrightarrow> held_role (sm_grants m) p u \<noteq> None"
    using mem_revoke_result [of p u "sm_grants m"] r by simp
  show ?thesis
  proof (cases b)
    case True
    then show ?thesis using assms g h r by (simp add: sql_ok_def sql_revoke_def row_role_delete)
  next
    case False
    then show ?thesis using assms g h r b by (auto simp: sql_ok_def sql_revoke_def)
  qed
qed

lemma sql_ok_drop: "sql_ok m \<Longrightarrow> sql_ok (sql_drop_project p m)"
  by (simp add: sql_ok_def sql_drop_project_def grants_ok_drop held_mem_drop row_role_drop distinct_map_filter)

subsection \<open>The interface\<close>

text \<open>What the API relies on: who holds which role after each operation.\<close>

datatype member_op = Grant rat string string role | Revoke string string | Drop string

locale membership =
  fixes ok :: "'m \<Rightarrow> bool"
    and grant :: "rat \<Rightarrow> string \<Rightarrow> string \<Rightarrow> role \<Rightarrow> 'm \<Rightarrow> 'm"
    and revoke :: "string \<Rightarrow> string \<Rightarrow> 'm \<Rightarrow> bool \<times> 'm"
    and drop_project :: "string \<Rightarrow> 'm \<Rightarrow> 'm"
    and held :: "'m \<Rightarrow> string \<Rightarrow> string \<Rightarrow> role option"
  assumes held_grant: "ok m \<Longrightarrow>
      held (grant t p u r m) p' u' = (if p' = p \<and> u' = u then Some r else held m p' u')"
    and held_revoke: "ok m \<Longrightarrow>
      held (snd (revoke p u m)) p' u' = (if p' = p \<and> u' = u then None else held m p' u')"
    and revoke_result: "ok m \<Longrightarrow> fst (revoke p u m) \<longleftrightarrow> held m p u \<noteq> None"
    and held_drop: "ok m \<Longrightarrow> held (drop_project p m) p' u' = (if p' = p then None else held m p' u')"
    and ok_grant: "ok m \<Longrightarrow> ok (grant t p u r m)"
    and ok_revoke: "ok m \<Longrightarrow> ok (snd (revoke p u m))"
    and ok_drop: "ok m \<Longrightarrow> ok (drop_project p m)"

text \<open>A run of operations, and what it means on the abstract map of roles.\<close>

fun member_step ::
  "(rat \<Rightarrow> string \<Rightarrow> string \<Rightarrow> role \<Rightarrow> 'm \<Rightarrow> 'm) \<Rightarrow> (string \<Rightarrow> string \<Rightarrow> 'm \<Rightarrow> bool \<times> 'm)
    \<Rightarrow> (string \<Rightarrow> 'm \<Rightarrow> 'm) \<Rightarrow> 'm \<Rightarrow> member_op \<Rightarrow> 'm" where
  "member_step gr rv dp m (Grant t p u r) = gr t p u r m"
| "member_step gr rv dp m (Revoke p u) = snd (rv p u m)"
| "member_step gr rv dp m (Drop p) = dp p m"

fun abs_step :: "(string \<Rightarrow> string \<Rightarrow> role option) \<Rightarrow> member_op \<Rightarrow> string \<Rightarrow> string \<Rightarrow> role option" where
  "abs_step h (Grant t p u r) = h(p := (h p)(u \<mapsto> r))"
| "abs_step h (Revoke p u) = h(p := (h p)(u := None))"
| "abs_step h (Drop p) = h(p := Map.empty)"

context membership
begin

lemma step_ok: "ok m \<Longrightarrow> ok (member_step grant revoke drop_project m x)"
  by (cases x) (simp_all add: ok_grant ok_revoke ok_drop)

lemma step_abs: "ok m \<Longrightarrow> held (member_step grant revoke drop_project m x) = abs_step (held m) x"
  by (cases x) (auto simp: held_grant held_revoke held_drop fun_eq_iff)

lemma run_ok: "ok m \<Longrightarrow> ok (foldl (member_step grant revoke drop_project) m xs)"
  by (rule foldl_invariant) (simp_all add: step_ok)

lemma run_abs: "ok m \<Longrightarrow> held (foldl (member_step grant revoke drop_project) m xs) = foldl abs_step (held m) xs"
  by (induction xs arbitrary: m) (simp_all add: step_ok step_abs)

end

abbreviation mem_run :: "grants \<Rightarrow> member_op list \<Rightarrow> grants" where
  "mem_run \<equiv> foldl (member_step (\<lambda>t. mem_grant) mem_revoke mem_drop_project)"

abbreviation sql_run :: "sql_membership \<Rightarrow> member_op list \<Rightarrow> sql_membership" where
  "sql_run \<equiv> foldl (member_step sql_grant sql_revoke sql_drop_project)"

interpretation mem: membership grants_ok "\<lambda>t. mem_grant" mem_revoke mem_drop_project held_role
  by unfold_locales
    (simp_all add: held_mem_grant held_mem_revoke mem_revoke_result held_mem_drop
       grants_ok_grant grants_ok_revoke grants_ok_drop)

interpretation sql: membership sql_ok sql_grant sql_revoke sql_drop_project "\<lambda>m. held_role (sm_grants m)"
proof unfold_locales
  fix m :: sql_membership and p u p' u' :: string and r :: role and t :: rat
  show "held_role (sm_grants (sql_grant t p u r m)) p' u' =
      (if p' = p \<and> u' = u then Some r else held_role (sm_grants m) p' u')"
    by (simp add: sql_grant_def held_mem_grant)
  show "held_role (sm_grants (snd (sql_revoke p u m))) p' u' =
      (if p' = p \<and> u' = u then None else held_role (sm_grants m) p' u')"
    using held_mem_revoke [of p u "sm_grants m" p' u'] by (simp add: sql_revoke_def split_beta)
  show "fst (sql_revoke p u m) \<longleftrightarrow> held_role (sm_grants m) p u \<noteq> None"
    using mem_revoke_result [of p u "sm_grants m"] by (simp add: sql_revoke_def split_beta)
  show "held_role (sm_grants (sql_drop_project p m)) p' u' = (if p' = p then None else held_role (sm_grants m) p' u')"
    by (simp add: sql_drop_project_def held_mem_drop)
qed (simp_all add: sql_ok_grant sql_ok_revoke sql_ok_drop)

lemma grants_ok_empty [simp]: "grants_ok []"
  by (simp add: grants_ok_def)

text \<open>A restart reads back exactly the grants the process held.\<close>

lemma reopen_held:
  assumes "sql_ok m"
  shows "held_role (sm_grants (open_sql (sm_rows m))) p u = held_role (sm_grants m) p u"
  using assms held_open [of "sm_rows m" p u] by (simp add: sql_ok_def)

lemma members_spec:
  assumes "grants_ok g"
  shows "set (members p owner g) =
    {\<lparr>mb_user_id = u, mb_role = role_value r, mb_owner = (owner = Some u)\<rparr> | u r. role_for p u owner g = Some r}"
proof -
  have m: "(u, r) \<in> set (grants_of p g) \<longleftrightarrow> held_role g p u = Some r" for u r
    using grants_of_ok [OF assms, of p] by (simp add: held_role_def)
  show ?thesis
    by (auto simp: members_def role_for_def m image_iff split: option.splits)
qed

lemma projects_for_spec:
  assumes "grants_ok g"
  shows "p \<in> set (projects_for u g) \<longleftrightarrow> held_role g p u \<noteq> None"
proof -
  have "(p, d) \<in> set g \<longleftrightarrow> map_of g p = Some d" for d
    using assms by (simp add: grants_ok_def)
  then show ?thesis
    by (auto simp: projects_for_def held_role_def grants_of_def image_iff split: option.splits)
qed

end
