(* ===== verification/Store.thy ===== *)
theory Store
  imports PyStr "HOL-Library.Multiset"
begin

text \<open>
  \<open>api/store.py\<close>: the two project stores. The in-memory one is an insertion-ordered dictionary of
  shared objects, so writing a project back is an update in place; the SQL one is the rows of its
  table. Time, fresh ids and fresh workspaces are arguments, the workspaces a call removes are part
  of its result. A JSON column is the value it encodes. The interface is the locale \<open>project_store\<close>.
\<close>

definition RUN_LEASE_SECONDS :: rat where
  "RUN_LEASE_SECONDS = 900"

datatype json = JNull | JBool bool | JNum rat | JStr string | JList "json list" | JObj "(string \<times> json) list"

record project =
  pj_id :: string
  pj_name :: string
  pj_target :: string
  pj_source :: string
  pj_column_map :: "(string, string) dict option"
  pj_region :: "string option"
  pj_policy :: "(string, json) dict option"
  pj_provider :: string
  pj_renderer :: string
  pj_run_started_at :: "rat option"
  pj_owner_id :: "string option"
  pj_status :: string
  pj_workspace :: string
  pj_upload_path :: "string option"
  pj_project_dir :: "string option"
  pj_zip_path :: "string option"
  pj_error :: "string option"
  pj_summary :: "(string, json) dict option"

text \<open>The arguments of \<open>create\<close>.\<close>

record project_args =
  pa_name :: string
  pa_target :: string
  pa_source :: string
  pa_column_map :: "(string, string) dict option"
  pa_region :: "string option"
  pa_policy :: "(string, json) dict option"
  pa_provider :: string
  pa_owner_id :: "string option"
  pa_renderer :: string

definition new_project :: "string \<Rightarrow> string \<Rightarrow> project_args \<Rightarrow> project" where
  "new_project pid ws a =
     \<lparr>pj_id = pid, pj_name = pa_name a, pj_target = pa_target a, pj_source = pa_source a,
      pj_column_map = pa_column_map a, pj_region = pa_region a, pj_policy = pa_policy a,
      pj_provider = pa_provider a, pj_renderer = pa_renderer a, pj_run_started_at = None,
      pj_owner_id = pa_owner_id a, pj_status = ''created'', pj_workspace = ws, pj_upload_path = None,
      pj_project_dir = None, pj_zip_path = None, pj_error = None, pj_summary = None\<rparr>"

subsection \<open>In memory\<close>

record mem_store =
  ms_max :: nat
  ms_projects :: "(string, project) dict"

text \<open>\<open>_evict_locked\<close>: \<open>popitem(last=False)\<close> while over capacity; also the workspaces removed.\<close>

definition mem_evict :: "mem_store \<Rightarrow> string list \<times> mem_store" where
  "mem_evict s =
     (let n = length (ms_projects s) - ms_max s
      in (map (pj_workspace \<circ> snd) (take n (ms_projects s)), s\<lparr>ms_projects := drop n (ms_projects s)\<rparr>))"

definition mem_create :: "rat \<Rightarrow> string \<Rightarrow> string \<Rightarrow> project_args \<Rightarrow> mem_store \<Rightarrow> (project \<times> string list) option \<times> mem_store" where
  "mem_create now pid ws a s =
     (let p = new_project pid ws a;
          (gone, s) = mem_evict (s\<lparr>ms_projects := AList.update pid p (ms_projects s)\<rparr>)
      in (Some (p, gone), s))"

definition mem_get :: "mem_store \<Rightarrow> string \<Rightarrow> project option" where
  "mem_get s pid = map_of (ms_projects s) pid"

definition mem_begin_run :: "rat \<Rightarrow> string \<Rightarrow> mem_store \<Rightarrow> bool \<times> mem_store" where
  "mem_begin_run now pid s =
     (case map_of (ms_projects s) pid of
        None \<Rightarrow> (False, s)
      | Some p \<Rightarrow>
          let stale = (case pj_run_started_at p of Some t \<Rightarrow> t | None \<Rightarrow> 0) < now - RUN_LEASE_SECONDS
          in if pj_status p = ''running'' \<and> \<not> stale then (False, s)
             else (True, s\<lparr>ms_projects := AList.update pid
                      (p\<lparr>pj_status := ''running'', pj_run_started_at := Some now\<rparr>) (ms_projects s)\<rparr>))"

definition mem_end_run :: "string \<Rightarrow> mem_store \<Rightarrow> mem_store" where
  "mem_end_run pid s =
     (case map_of (ms_projects s) pid of
        None \<Rightarrow> s
      | Some p \<Rightarrow> s\<lparr>ms_projects := AList.update pid (p\<lparr>pj_run_started_at := None\<rparr>) (ms_projects s)\<rparr>)"

definition mem_list_for_owner :: "string option \<Rightarrow> mem_store \<Rightarrow> project list" where
  "mem_list_for_owner owner s = filter (\<lambda>p. pj_owner_id p = owner) (rev (map snd (ms_projects s)))"

text \<open>
  A handler's assignments to the shared object, followed by \<open>save\<close> (which does nothing here): the
  six fields that handlers assign.
\<close>

definition write_fields :: "project \<Rightarrow> project \<Rightarrow> project" where
  "write_fields p q =
     q\<lparr>pj_status := pj_status p, pj_upload_path := pj_upload_path p, pj_project_dir := pj_project_dir p,
       pj_zip_path := pj_zip_path p, pj_error := pj_error p, pj_summary := pj_summary p\<rparr>"

definition mem_save :: "project \<Rightarrow> mem_store \<Rightarrow> mem_store" where
  "mem_save p s =
     (case map_of (ms_projects s) (pj_id p) of
        None \<Rightarrow> s
      | Some q \<Rightarrow> s\<lparr>ms_projects := AList.update (pj_id p) (write_fields p q) (ms_projects s)\<rparr>)"

definition mem_delete :: "string \<Rightarrow> mem_store \<Rightarrow> (bool \<times> string list) \<times> mem_store" where
  "mem_delete pid s =
     (case map_of (ms_projects s) pid of
        None \<Rightarrow> ((False, []), s)
      | Some p \<Rightarrow> ((True, [pj_workspace p]), s\<lparr>ms_projects := AList.delete pid (ms_projects s)\<rparr>))"

subsection \<open>In SQL\<close>

record project_row =
  pr_project :: project
  pr_renderer :: "string option"
  pr_created_at :: rat

record sql_store =
  ss_max :: nat
  ss_rows :: "(string, project_row) dict"

text \<open>An empty dictionary is stored as \<open>NULL\<close> and reads back as \<open>None\<close>.\<close>

definition nullify :: "('k, 'v) dict option \<Rightarrow> ('k, 'v) dict option" where
  "nullify d = (if d = Some [] then None else d)"

definition row_to_project :: "project_row \<Rightarrow> project" where
  "row_to_project r =
     (pr_project r)\<lparr>pj_renderer := (case pr_renderer r of Some x \<Rightarrow> if x = [] then ''terraform'' else x | None \<Rightarrow> ''terraform'')\<rparr>"

definition insert_row :: "rat \<Rightarrow> string \<Rightarrow> string \<Rightarrow> project_args \<Rightarrow> project_row" where
  "insert_row now pid ws a =
     \<lparr>pr_project = (new_project pid ws a)\<lparr>pj_column_map := nullify (pa_column_map a), pj_policy := nullify (pa_policy a)\<rparr>,
      pr_renderer = Some (pa_renderer a), pr_created_at = now\<rparr>"

definition sql_evict :: "sql_store \<Rightarrow> string list \<times> sql_store" where
  "sql_evict s =
     (let victims = take (length (ss_rows s) - ss_max s) (sort_key (\<lambda>(pid, r). (pr_created_at r, pid)) (ss_rows s))
      in (map (\<lambda>(pid, r). pj_workspace (pr_project r)) victims,
          s\<lparr>ss_rows := filter (\<lambda>(pid, r). pid \<notin> set (keys victims)) (ss_rows s)\<rparr>))"

text \<open>An insert whose primary key is taken raises: no result, nothing changed.\<close>

definition sql_create ::
  "rat \<Rightarrow> string \<Rightarrow> string \<Rightarrow> project_args \<Rightarrow> sql_store \<Rightarrow> (project \<times> string list) option \<times> sql_store" where
  "sql_create now pid ws a s =
     (if map_of (ss_rows s) pid \<noteq> None then (None, s)
      else let (gone, s) = sql_evict (s\<lparr>ss_rows := ss_rows s @ [(pid, insert_row now pid ws a)]\<rparr>)
           in (Some (new_project pid ws a, gone), s))"

definition sql_get :: "sql_store \<Rightarrow> string \<Rightarrow> project option" where
  "sql_get s pid = map_option row_to_project (map_of (ss_rows s) pid)"

definition sql_list_for_owner :: "string option \<Rightarrow> sql_store \<Rightarrow> project list" where
  "sql_list_for_owner owner s =
     map (row_to_project \<circ> snd) (rev (sort_key (\<lambda>(pid, r). (pr_created_at r, pid))
       (filter (\<lambda>(pid, r). pj_owner_id (pr_project r) = owner) (ss_rows s))))"

text \<open>\<open>UPDATE ... WHERE id = ? AND cond\<close>: the new table, and whether a row was changed.\<close>

definition update_row ::
  "string \<Rightarrow> (project \<Rightarrow> bool) \<Rightarrow> (project \<Rightarrow> project) \<Rightarrow> sql_store \<Rightarrow> bool \<times> sql_store" where
  "update_row pid cond f s =
     (case map_of (ss_rows s) pid of
        None \<Rightarrow> (False, s)
      | Some r \<Rightarrow>
          if cond (pr_project r)
          then (True, s\<lparr>ss_rows := AList.update pid (r\<lparr>pr_project := f (pr_project r)\<rparr>) (ss_rows s)\<rparr>)
          else (False, s))"

definition sql_begin_run :: "rat \<Rightarrow> string \<Rightarrow> sql_store \<Rightarrow> bool \<times> sql_store" where
  "sql_begin_run now pid =
     update_row pid
       (\<lambda>p. pj_status p \<noteq> ''running'' \<or> pj_run_started_at p = None
          \<or> (case pj_run_started_at p of Some t \<Rightarrow> t < now - RUN_LEASE_SECONDS | None \<Rightarrow> False))
       (\<lambda>p. p\<lparr>pj_status := ''running'', pj_run_started_at := Some now\<rparr>)"

definition sql_end_run :: "string \<Rightarrow> sql_store \<Rightarrow> sql_store" where
  "sql_end_run pid s = snd (update_row pid (\<lambda>p. True) (\<lambda>p. p\<lparr>pj_run_started_at := None\<rparr>) s)"

definition sql_save :: "project \<Rightarrow> sql_store \<Rightarrow> sql_store" where
  "sql_save p s =
     snd (update_row (pj_id p) (\<lambda>q. True) (write_fields (p\<lparr>pj_summary := nullify (pj_summary p)\<rparr>)) s)"

definition sql_delete :: "string \<Rightarrow> sql_store \<Rightarrow> (bool \<times> string list) \<times> sql_store" where
  "sql_delete pid s =
     (case map_of (ss_rows s) pid of
        None \<Rightarrow> ((False, []), s)
      | Some r \<Rightarrow> ((True, [pj_workspace (pr_project r)]), s\<lparr>ss_rows := AList.delete pid (ss_rows s)\<rparr>))"

subsection \<open>The interface\<close>

text \<open>May a run begin now? Also the state a begun run leaves, for a project's run columns.\<close>

definition claimable :: "rat \<Rightarrow> project \<Rightarrow> bool" where
  "claimable now p \<longleftrightarrow> pj_status p \<noteq> ''running''
     \<or> (case pj_run_started_at p of None \<Rightarrow> True | Some t \<Rightarrow> t < now - RUN_LEASE_SECONDS)"

definition claimed :: "rat \<Rightarrow> project \<Rightarrow> project" where
  "claimed now p = p\<lparr>pj_status := ''running'', pj_run_started_at := Some now\<rparr>"

definition run_view :: "project \<Rightarrow> string \<times> rat option" where
  "run_view p = (pj_status p, pj_run_started_at p)"

datatype run_op =
  RBegin rat string | REnd string | RSave project | RDelete string
| RCreate rat string string project_args

locale project_store =
  fixes ok :: "'s \<Rightarrow> bool"
    and get :: "'s \<Rightarrow> string \<Rightarrow> project option"
    and begin_run :: "rat \<Rightarrow> string \<Rightarrow> 's \<Rightarrow> bool \<times> 's"
    and end_run :: "string \<Rightarrow> 's \<Rightarrow> 's"
    and save :: "project \<Rightarrow> 's \<Rightarrow> 's"
    and delete :: "string \<Rightarrow> 's \<Rightarrow> (bool \<times> string list) \<times> 's"
    and create :: "rat \<Rightarrow> string \<Rightarrow> string \<Rightarrow> project_args \<Rightarrow> 's \<Rightarrow> (project \<times> string list) option \<times> 's"
  assumes begin_iff: "ok s \<Longrightarrow> RUN_LEASE_SECONDS < now \<Longrightarrow>
      fst (begin_run now pid s) \<longleftrightarrow> (case get s pid of Some p \<Rightarrow> claimable now p | None \<Rightarrow> False)"
    and get_begin: "ok s \<Longrightarrow> get (snd (begin_run now pid s)) q =
      (if q = pid \<and> fst (begin_run now pid s) then map_option (claimed now) (get s q) else get s q)"
    and get_end: "ok s \<Longrightarrow> get (end_run pid s) q =
      (if q = pid then map_option (\<lambda>p. p\<lparr>pj_run_started_at := None\<rparr>) (get s q) else get s q)"
    and view_save: "ok s \<Longrightarrow> map_option run_view (get (save p s) q) =
      map_option (\<lambda>x. (if q = pj_id p then pj_status p else pj_status x, pj_run_started_at x)) (get s q)"
    and get_delete: "ok s \<Longrightarrow> get (snd (delete pid s)) q = (if q = pid then None else get s q)"
    and get_create: "ok s \<Longrightarrow> q \<noteq> pid \<Longrightarrow>
      get (snd (create now pid ws a s)) q = None \<or> get (snd (create now pid ws a s)) q = get s q"
    and get_id: "ok s \<Longrightarrow> get s pid = Some p \<Longrightarrow> pj_id p = pid"
    and ok_begin: "ok s \<Longrightarrow> ok (snd (begin_run now pid s))"
    and ok_end: "ok s \<Longrightarrow> ok (end_run pid s)"
    and ok_save: "ok s \<Longrightarrow> ok (save p s)"
    and ok_delete: "ok s \<Longrightarrow> ok (snd (delete pid s))"
    and ok_create: "ok s \<Longrightarrow> ok (snd (create now pid ws a s))"

text \<open>A step of any store, and the claims a run of steps grants on one project.\<close>

fun store_step ::
  "(rat \<Rightarrow> string \<Rightarrow> 's \<Rightarrow> bool \<times> 's) \<Rightarrow> (string \<Rightarrow> 's \<Rightarrow> 's) \<Rightarrow> (project \<Rightarrow> 's \<Rightarrow> 's)
    \<Rightarrow> (string \<Rightarrow> 's \<Rightarrow> (bool \<times> string list) \<times> 's)
    \<Rightarrow> (rat \<Rightarrow> string \<Rightarrow> string \<Rightarrow> project_args \<Rightarrow> 's \<Rightarrow> (project \<times> string list) option \<times> 's)
    \<Rightarrow> run_op \<Rightarrow> 's \<Rightarrow> bool \<times> 's" where
  "store_step b e sv d c (RBegin now pid) s = b now pid s"
| "store_step b e sv d c (REnd pid) s = (False, e pid s)"
| "store_step b e sv d c (RSave p) s = (False, sv p s)"
| "store_step b e sv d c (RDelete pid) s = (False, snd (d pid s))"
| "store_step b e sv d c (RCreate now pid ws a) s = (False, snd (c now pid ws a s))"

fun grants_to :: "(run_op \<Rightarrow> 's \<Rightarrow> bool \<times> 's) \<Rightarrow> string \<Rightarrow> run_op list \<Rightarrow> 's \<Rightarrow> nat" where
  "grants_to step pid [] s = 0"
| "grants_to step pid (x # xs) s =
     (let (granted, s') = step x s
      in (case x of RBegin now q \<Rightarrow> if q = pid \<and> granted then 1 else 0 | _ \<Rightarrow> 0) + grants_to step pid xs s')"

text \<open>Steps that leave a run of \<open>pid\<close> begun at \<open>limit - RUN_LEASE_SECONDS\<close> alone.\<close>

fun quiet :: "string \<Rightarrow> rat \<Rightarrow> run_op \<Rightarrow> bool" where
  "quiet pid limit (RBegin now q) = (RUN_LEASE_SECONDS < now \<and> now \<le> limit)"
| "quiet pid limit (REnd q) = (q \<noteq> pid)"
| "quiet pid limit (RSave p) = (pj_id p \<noteq> pid \<or> pj_status p = ''running'')"
| "quiet pid limit (RDelete q) = True"
| "quiet pid limit (RCreate now q ws a) = (q \<noteq> pid)"

definition run_held :: "rat \<Rightarrow> project option \<Rightarrow> bool" where
  "run_held limit v = (case v of
       None \<Rightarrow> True
     | Some p \<Rightarrow> pj_status p = ''running'' \<and>
         (case pj_run_started_at p of None \<Rightarrow> False | Some t \<Rightarrow> limit \<le> t + RUN_LEASE_SECONDS))"

lemma run_held_not_claimable: "run_held limit (Some p) \<Longrightarrow> now \<le> limit \<Longrightarrow> \<not> claimable now p"
  by (auto simp: run_held_def claimable_def split: option.splits)

lemma run_held_view:
  "run_held limit v = (case map_option run_view v of None \<Rightarrow> True
     | Some (st, started) \<Rightarrow> st = ''running'' \<and>
         (case started of None \<Rightarrow> False | Some t \<Rightarrow> limit \<le> t + RUN_LEASE_SECONDS))"
  by (cases v) (simp_all add: run_held_def run_view_def)

context project_store
begin

abbreviation step where
  "step \<equiv> store_step begin_run end_run save delete create"

lemma step_ok: "ok s \<Longrightarrow> ok (snd (step x s))"
  by (cases x) (simp_all add: ok_begin ok_end ok_save ok_delete ok_create)

lemma no_begin:
  assumes "ok s" and "run_held limit (get s pid)" and "RUN_LEASE_SECONDS < now" and "now \<le> limit"
  shows "\<not> fst (begin_run now pid s)"
  using assms run_held_not_claimable by (auto simp: begin_iff split: option.splits)

lemma step_held:
  assumes "ok s" and "run_held limit (get s pid)" and "quiet pid limit x"
  shows "run_held limit (get (snd (step x s)) pid)"
proof (cases x)
  case (RBegin now q)
  then show ?thesis using assms no_begin [OF assms(1,2)] by (auto simp: get_begin)
next
  case (REnd q)
  then show ?thesis using assms by (simp add: get_end)
next
  case (RSave p)
  then show ?thesis using assms(2,3) view_save [OF assms(1), of p pid]
    by (cases "get s pid") (auto simp: run_held_view run_view_def)
next
  case (RDelete q)
  then show ?thesis using assms by (simp add: get_delete run_held_def)
next
  case (RCreate now q ws a)
  then show ?thesis using assms get_create [OF assms(1), of pid q now ws a] by (auto simp: run_held_def)
qed

lemma exclusive:
  assumes "ok s" and "run_held limit (get s pid)" and "list_all (quiet pid limit) xs"
  shows "grants_to step pid xs s = 0"
  using assms
proof (induction xs arbitrary: s)
  case (Cons x xs)
  obtain g s' where st: "step x s = (g, s')" by (metis surj_pair)
  have "ok s'" "run_held limit (get s' pid)"
    using step_ok [OF Cons.prems(1), of x] step_held [OF Cons.prems(1,2), of x] Cons.prems(3) st by auto
  then have "grants_to step pid xs s' = 0" using Cons.IH Cons.prems(3) by simp
  moreover have "\<not> (q = pid \<and> g)" if "x = RBegin now q" for now q
    using no_begin [OF Cons.prems(1,2), of now] Cons.prems(3) st that by auto
  ultimately show ?case using st by (auto split: run_op.splits)
qed simp

lemma begun_held:
  assumes "ok s" and "fst (begin_run now pid s)"
  shows "run_held (now + RUN_LEASE_SECONDS) (get (snd (begin_run now pid s)) pid)"
  using assms by (auto simp: get_begin run_held_def claimed_def split: option.splits)

end

subsection \<open>Both stores provide it\<close>

definition mem_ok :: "mem_store \<Rightarrow> bool" where
  "mem_ok s \<longleftrightarrow> dict_ok (ms_projects s) \<and> length (ms_projects s) \<le> ms_max s
     \<and> (\<forall>(k, p) \<in> set (ms_projects s). pj_id p = k)"

definition rows_ok :: "sql_store \<Rightarrow> bool" where
  "rows_ok s \<longleftrightarrow> dict_ok (ss_rows s) \<and> length (ss_rows s) \<le> ss_max s
     \<and> (\<forall>(k, r) \<in> set (ss_rows s). pj_id (pr_project r) = k)"

lemma mem_ok_id: "mem_ok s \<Longrightarrow> map_of (ms_projects s) k = Some p \<Longrightarrow> pj_id p = k"
  by (auto simp: mem_ok_def dest: map_of_SomeD)

lemma rows_ok_id: "rows_ok s \<Longrightarrow> map_of (ss_rows s) k = Some r \<Longrightarrow> pj_id (pr_project r) = k"
  by (auto simp: rows_ok_def dest: map_of_SomeD)

lemma map_of_drop:
  assumes "dict_ok d"
  shows "map_of (drop n d) k = None \<or> map_of (drop n d) k = map_of d k"
proof (cases "map_of (drop n d) k")
  case (Some v)
  then have "(k, v) \<in> set d" by (meson in_set_dropD map_of_SomeD)
  then show ?thesis using assms Some by simp
qed simp

lemma map_of_filter_key: "map_of (filter (\<lambda>(k, v). P k) d) k = (if P k then map_of d k else None)"
  by (induction d) auto

lemma length_update_mem: "map_of d k = Some v \<Longrightarrow> length (AList.update k w d) = length d"
  by (simp only: length_dict_update map_of_Some_keys if_True)

lemma drop_dict_ok: "dict_ok d \<Longrightarrow> dict_ok (drop n d)"
  by (simp add: drop_map [symmetric] distinct_drop del: drop_map)

lemma mem_ok_create: "mem_ok s \<Longrightarrow> mem_ok (snd (mem_create now pid ws a s))"
  by (auto simp: mem_ok_def mem_create_def mem_evict_def Let_def drop_dict_ok new_project_def
      dest!: in_set_dropD AList_update_mem)

lemma mem_ok_update:
  assumes "mem_ok s" and "map_of (ms_projects s) k = Some p" and "pj_id q = k"
  shows "mem_ok (s\<lparr>ms_projects := AList.update k q (ms_projects s)\<rparr>)"
  using assms by (auto simp: mem_ok_def length_update_mem dest!: AList_update_mem)

lemma mem_get_create:
  assumes "mem_ok s" and "q \<noteq> pid"
  shows "mem_get (snd (mem_create now pid ws a s)) q = None \<or> mem_get (snd (mem_create now pid ws a s)) q = mem_get s q"
proof -
  let ?d = "AList.update pid (new_project pid ws a) (ms_projects s)"
  have "dict_ok ?d" using assms(1) unfolding mem_ok_def by (blast intro: dict_ok_update)
  from map_of_drop [OF this, of "length ?d - ms_max s" q] assms(2)
  show ?thesis by (simp add: mem_get_def mem_create_def mem_evict_def Let_def)
qed

interpretation mem_store: project_store mem_ok mem_get mem_begin_run mem_end_run mem_save mem_delete mem_create
proof unfold_locales
  fix s :: mem_store and p :: project and a :: project_args and now :: rat and pid q ws :: string
  assume ok: "mem_ok s"
  show "fst (mem_begin_run now pid s) \<longleftrightarrow> (case mem_get s pid of Some p \<Rightarrow> claimable now p | None \<Rightarrow> False)"
    if "RUN_LEASE_SECONDS < now"
    using that by (auto simp: mem_begin_run_def mem_get_def claimable_def Let_def split: option.splits)
  show "mem_get (snd (mem_begin_run now pid s)) q =
      (if q = pid \<and> fst (mem_begin_run now pid s) then map_option (claimed now) (mem_get s q) else mem_get s q)"
    by (auto simp: mem_begin_run_def mem_get_def claimed_def Let_def split: option.splits)
  show "mem_get (mem_end_run pid s) q =
      (if q = pid then map_option (\<lambda>p. p\<lparr>pj_run_started_at := None\<rparr>) (mem_get s q) else mem_get s q)"
    by (auto simp: mem_end_run_def mem_get_def split: option.splits)
  show "map_option run_view (mem_get (mem_save p s) q) =
      map_option (\<lambda>x. (if q = pj_id p then pj_status p else pj_status x, pj_run_started_at x)) (mem_get s q)"
    by (cases "map_of (ms_projects s) q")
      (auto simp: mem_save_def mem_get_def run_view_def write_fields_def split: option.splits)
  show "mem_get (snd (mem_delete pid s)) q = (if q = pid then None else mem_get s q)"
    by (auto simp: mem_delete_def mem_get_def split: option.splits)
  show "mem_get (snd (mem_create now pid ws a s)) q = None
      \<or> mem_get (snd (mem_create now pid ws a s)) q = mem_get s q" if "q \<noteq> pid"
    using ok that by (rule mem_get_create)
  show "pj_id p = pid" if "mem_get s pid = Some p" using ok that unfolding mem_get_def by (rule mem_ok_id)
  show "mem_ok (snd (mem_begin_run now pid s))"
    using ok mem_ok_id [OF ok] by (auto simp: mem_begin_run_def Let_def intro: mem_ok_update split: option.splits)
  show "mem_ok (mem_end_run pid s)"
    using ok mem_ok_id [OF ok] by (auto simp: mem_end_run_def intro: mem_ok_update split: option.splits)
  show "mem_ok (mem_save p s)"
    using ok mem_ok_id [OF ok] by (auto simp: mem_save_def write_fields_def intro: mem_ok_update split: option.splits)
  show "mem_ok (snd (mem_delete pid s))"
    using ok length_delete_le [of pid "ms_projects s"]
    by (auto simp: mem_ok_def mem_delete_def dest!: AList_delete_mem split: option.splits)
  show "mem_ok (snd (mem_create now pid ws a s))" using ok by (rule mem_ok_create)
qed

lemma filter_take_keys: "dict_ok d \<Longrightarrow> filter (\<lambda>(k, v). k \<notin> set (keys (take n d))) d = drop n d"
proof (induction d arbitrary: n)
  case (Cons x d)
  show ?case
  proof (cases n)
    case 0
    then show ?thesis by (simp add: split_beta)
  next
    case (Suc m)
    have "filter (\<lambda>(k, v). k \<notin> set (keys (take n (x # d)))) (x # d)
        = filter (\<lambda>(k, v). k \<notin> set (keys (x # take m d))) d"
      by (simp add: Suc split_beta)
    also have "\<dots> = filter (\<lambda>(k, v). k \<notin> set (keys (take m d))) d"
      using Cons.prems by (intro filter_cong) (auto simp: rev_image_eqI)
    also have "\<dots> = drop m d" using Cons.prems by (intro Cons.IH) simp
    finally show ?thesis by (simp add: Suc)
  qed
qed simp

lemma dict_ok_sort: "dict_ok (sort_key f d) = dict_ok d"
proof -
  have "mset (keys (sort_key f d)) = mset (keys d)" by simp
  then show ?thesis by (rule mset_eq_imp_distinct_iff)
qed

lemma length_filter_sort: "length (filter P (sort_key f d)) = length (filter P d)"
  by (metis mset_filter mset_sort size_mset)

lemma length_drop_first:
  assumes "dict_ok d"
  shows "length (filter (\<lambda>(k, v). k \<notin> set (keys (take n (sort_key f d)))) d) = length d - n"
proof -
  have "length (filter (\<lambda>(k, v). k \<notin> set (keys (take n (sort_key f d)))) (sort_key f d)) = length d - n"
    using assms by (simp only: filter_take_keys dict_ok_sort length_drop length_sort)
  then show ?thesis by (simp only: length_filter_sort)
qed

lemma rows_ok_create:
  assumes "rows_ok s"
  shows "rows_ok (snd (sql_create now pid ws a s))"
proof (cases "map_of (ss_rows s) pid")
  case None
  let ?d = "ss_rows s @ [(pid, insert_row now pid ws a)]"
  have d: "dict_ok ?d" using assms None by (auto simp: rows_ok_def map_of_eq_None_iff)
  have "dict_ok (filter (\<lambda>(k, v). P k) ?d)" for P using d by (rule distinct_map_filter)
  moreover have "length (filter (\<lambda>(k, v). k \<notin> set (keys (take (length ?d - ss_max s) (sort_key f ?d)))) ?d) \<le> ss_max s"
    for f :: "string \<times> project_row \<Rightarrow> rat \<times> string"
    unfolding length_drop_first [OF d] by simp
  ultimately show ?thesis
    using None assms by (auto simp: rows_ok_def sql_create_def sql_evict_def Let_def insert_row_def new_project_def
        simp del: length_append filter_append map_append)
qed (use assms in \<open>simp add: sql_create_def\<close>)

lemma sql_get_create:
  assumes "q \<noteq> pid"
  shows "sql_get (snd (sql_create now pid ws a s)) q = None \<or> sql_get (snd (sql_create now pid ws a s)) q = sql_get s q"
proof -
  have "map_of (filter (\<lambda>(k, v). P k) (ss_rows s @ [(pid, r)])) q = (if P q then map_of (ss_rows s) q else None)" for P r
    unfolding map_of_filter_key using assms by (simp add: map_add_def split: option.split)
  then show ?thesis
    by (simp add: sql_get_def sql_create_def sql_evict_def Let_def del: filter_append)
qed

lemma sql_get_update:
  "sql_get (snd (update_row pid cond f s)) q =
     (if q = pid \<and> fst (update_row pid cond f s)
      then map_option (\<lambda>r. row_to_project (r\<lparr>pr_project := f (pr_project r)\<rparr>)) (map_of (ss_rows s) q)
      else sql_get s q)"
  by (auto simp: update_row_def sql_get_def split: option.splits)

lemma rows_ok_update:
  assumes "rows_ok s" and "\<And>p. pj_id (f p) = pj_id p"
  shows "rows_ok (snd (update_row pid cond f s))"
proof (cases "map_of (ss_rows s) pid")
  case (Some r)
  then show ?thesis using assms rows_ok_id [OF assms(1) Some]
    by (auto simp: rows_ok_def update_row_def length_update_mem dest!: AList_update_mem)
qed (use assms(1) in \<open>simp add: update_row_def\<close>)

lemma fst_update_row:
  "fst (update_row pid cond f s) \<longleftrightarrow> (case map_of (ss_rows s) pid of Some r \<Rightarrow> cond (pr_project r) | None \<Rightarrow> False)"
  by (auto simp: update_row_def split: option.splits)

interpretation sql_store: project_store rows_ok sql_get sql_begin_run sql_end_run sql_save sql_delete sql_create
proof unfold_locales
  fix s :: sql_store and p :: project and a :: project_args and now :: rat and pid q ws :: string
  assume ok: "rows_ok s"
  show "fst (sql_begin_run now pid s) \<longleftrightarrow> (case sql_get s pid of Some p \<Rightarrow> claimable now p | None \<Rightarrow> False)"
    by (auto simp: sql_begin_run_def fst_update_row sql_get_def claimable_def row_to_project_def split: option.splits)
  show "sql_get (snd (sql_begin_run now pid s)) q =
      (if q = pid \<and> fst (sql_begin_run now pid s) then map_option (claimed now) (sql_get s q) else sql_get s q)"
    unfolding sql_begin_run_def sql_get_update
    by (cases "map_of (ss_rows s) q") (auto simp: sql_get_def claimed_def row_to_project_def)
  show "sql_get (sql_end_run pid s) q =
      (if q = pid then map_option (\<lambda>p. p\<lparr>pj_run_started_at := None\<rparr>) (sql_get s q) else sql_get s q)"
    unfolding sql_end_run_def sql_get_update
    by (cases "map_of (ss_rows s) q") (auto simp: sql_get_def fst_update_row row_to_project_def)
  show "map_option run_view (sql_get (sql_save p s) q) =
      map_option (\<lambda>x. (if q = pj_id p then pj_status p else pj_status x, pj_run_started_at x)) (sql_get s q)"
    unfolding sql_save_def sql_get_update
    by (cases "map_of (ss_rows s) q") (auto simp: sql_get_def fst_update_row row_to_project_def run_view_def write_fields_def)
  show "sql_get (snd (sql_delete pid s)) q = (if q = pid then None else sql_get s q)"
    by (auto simp: sql_delete_def sql_get_def split: option.splits)
  show "sql_get (snd (sql_create now pid ws a s)) q = None
      \<or> sql_get (snd (sql_create now pid ws a s)) q = sql_get s q" if "q \<noteq> pid"
    using that by (rule sql_get_create)
  show "rows_ok (snd (sql_begin_run now pid s))" using ok unfolding sql_begin_run_def by (rule rows_ok_update) simp
  show "rows_ok (sql_end_run pid s)" using ok unfolding sql_end_run_def by (rule rows_ok_update) simp
  show "rows_ok (sql_save p s)" using ok unfolding sql_save_def by (rule rows_ok_update) (simp add: write_fields_def)
  show "rows_ok (snd (sql_delete pid s))"
    using ok length_delete_le [of pid "ss_rows s"] by (auto simp: rows_ok_def sql_delete_def dest!: AList_delete_mem split: option.splits)
  show "pj_id p = pid" if "sql_get s pid = Some p"
    using that rows_ok_id [OF ok, of pid] by (auto simp: sql_get_def row_to_project_def)
  show "rows_ok (snd (sql_create now pid ws a s))" using ok by (rule rows_ok_create)
qed

text \<open>Writing a status other than \<open>running\<close> back makes the project claimable, whatever run is in progress.\<close>

lemma sql_claim_after_save:
  assumes "rows_ok s" and "sql_get s pid = Some p" and "pj_id q = pj_id p" and "pj_status q \<noteq> ''running''"
  shows "fst (sql_begin_run now pid (sql_save q s))"
proof -
  have i: "pj_id q = pid" using sql_store.get_id [OF assms(1,2)] assms(3) by simp
  have "map_option run_view (sql_get (sql_save q s) pid) = Some (pj_status q, pj_run_started_at p)"
    using sql_store.view_save [OF assms(1), of q pid] assms(2) i by simp
  then obtain r where r: "map_of (ss_rows (sql_save q s)) pid = Some r" "pj_status (pr_project r) = pj_status q"
    by (auto simp: sql_get_def run_view_def row_to_project_def)
  then show ?thesis using assms(4) by (simp add: sql_begin_run_def fst_update_row)
qed

end
