(* ===== verification/Access.thy ===== *)
theory Access
  imports Roles Store
begin

text \<open>
  The project handlers of \<open>api/main.py\<close>: access control, sharing, deletion, and the run of a project
  with its claim. The store and the membership object are records of their methods, so every handler
  is written once for both implementations of each. Events and logging are left out, responses are
  reduced to what the handler decides; an HTTP error is its status.
\<close>

datatype http_error = Http nat

record 's store_api =
  so_get :: "'s \<Rightarrow> string \<Rightarrow> project option"
  so_begin_run :: "rat \<Rightarrow> string \<Rightarrow> 's \<Rightarrow> bool \<times> 's"
  so_end_run :: "string \<Rightarrow> 's \<Rightarrow> 's"
  so_save :: "project \<Rightarrow> 's \<Rightarrow> 's"
  so_delete :: "string \<Rightarrow> 's \<Rightarrow> (bool \<times> string list) \<times> 's"
  so_list_for_owner :: "string option \<Rightarrow> 's \<Rightarrow> project list"

record 'm member_api =
  mo_grant :: "rat \<Rightarrow> string \<Rightarrow> string \<Rightarrow> role \<Rightarrow> 'm \<Rightarrow> 'm"
  mo_revoke :: "string \<Rightarrow> string \<Rightarrow> 'm \<Rightarrow> bool \<times> 'm"
  mo_drop_project :: "string \<Rightarrow> 'm \<Rightarrow> 'm"
  mo_grants :: "'m \<Rightarrow> grants"

definition MEM_STORE :: "mem_store store_api" where
  "MEM_STORE = \<lparr>so_get = mem_get, so_begin_run = mem_begin_run, so_end_run = mem_end_run,
     so_save = mem_save, so_delete = mem_delete, so_list_for_owner = mem_list_for_owner\<rparr>"

definition SQL_STORE :: "sql_store store_api" where
  "SQL_STORE = \<lparr>so_get = sql_get, so_begin_run = sql_begin_run, so_end_run = sql_end_run,
     so_save = sql_save, so_delete = sql_delete, so_list_for_owner = sql_list_for_owner\<rparr>"

definition MEM_MEMBERS :: "grants member_api" where
  "MEM_MEMBERS = \<lparr>mo_grant = (\<lambda>t. mem_grant), mo_revoke = mem_revoke,
     mo_drop_project = mem_drop_project, mo_grants = (\<lambda>g. g)\<rparr>"

definition SQL_MEMBERS :: "sql_membership member_api" where
  "SQL_MEMBERS = \<lparr>mo_grant = sql_grant, mo_revoke = sql_revoke,
     mo_drop_project = sql_drop_project, mo_grants = sm_grants\<rparr>"

lemmas api_defs = MEM_STORE_def SQL_STORE_def MEM_MEMBERS_def SQL_MEMBERS_def

text \<open>\<open>user\<close> is the id of the signed-in user, \<open>None\<close> in single-tenant mode.\<close>

definition require_project ::
  "'s store_api \<Rightarrow> 'm member_api \<Rightarrow> string \<Rightarrow> string option \<Rightarrow> role \<Rightarrow> 's \<Rightarrow> 'm \<Rightarrow> http_error + project" where
  "require_project so mo pid user required s m =
     (case so_get so s pid of
        None \<Rightarrow> Inl (Http 404)
      | Some p \<Rightarrow>
          (case user of
             None \<Rightarrow> if pj_owner_id p \<noteq> None then Inl (Http 404) else Inr p
           | Some u \<Rightarrow>
               (case role_for pid u (pj_owner_id p) (mo_grants mo m) of
                  None \<Rightarrow> Inl (Http 404)
                | Some held \<Rightarrow> if \<not> at_least held required then Inl (Http 403) else Inr p)))"

text \<open>\<open>accounts\<close> maps an email to a user id; \<open>None\<close> stands for no account store (single-tenant).\<close>

definition grant_access ::
  "'s store_api \<Rightarrow> 'm member_api \<Rightarrow> (string \<Rightarrow> string option) option \<Rightarrow> rat \<Rightarrow> string \<Rightarrow> string \<Rightarrow> string
    \<Rightarrow> string option \<Rightarrow> 's \<Rightarrow> 'm \<Rightarrow> (http_error + member) \<times> 'm" where
  "grant_access so mo accounts now pid email role_text user s m =
     (case require_project so mo pid user ADMIN s m of
        Inl e \<Rightarrow> (Inl e, m)
      | Inr p \<Rightarrow>
          (case accounts of
             None \<Rightarrow> (Inl (Http 400), m)
           | Some by_email \<Rightarrow>
               (case parse_role role_text of
                  Inl e \<Rightarrow> (Inl (Http 400), m)
                | Inr r \<Rightarrow>
                    (case by_email email of
                       None \<Rightarrow> (Inl (Http 404), m)
                     | Some w \<Rightarrow>
                         if Some w = pj_owner_id p then (Inl (Http 400), m)
                         else (Inr \<lparr>mb_user_id = w, mb_role = role_value r, mb_owner = False\<rparr>,
                               mo_grant mo now pid w r m)))))"

definition revoke_access ::
  "'s store_api \<Rightarrow> 'm member_api \<Rightarrow> string \<Rightarrow> string \<Rightarrow> string option \<Rightarrow> 's \<Rightarrow> 'm \<Rightarrow> (http_error + string) \<times> 'm" where
  "revoke_access so mo pid w user s m =
     (case require_project so mo pid user ADMIN s m of
        Inl e \<Rightarrow> (Inl e, m)
      | Inr p \<Rightarrow>
          if Some w = pj_owner_id p then (Inl (Http 400), m)
          else let (removed, m) = mo_revoke mo pid w m
               in if removed then (Inr w, m) else (Inl (Http 404), m))"

definition list_members ::
  "'s store_api \<Rightarrow> 'm member_api \<Rightarrow> string \<Rightarrow> string option \<Rightarrow> 's \<Rightarrow> 'm \<Rightarrow> http_error + member list" where
  "list_members so mo pid user s m =
     (case require_project so mo pid user VIEWER s m of
        Inl e \<Rightarrow> Inl e
      | Inr p \<Rightarrow> Inr (members pid (pj_owner_id p) (mo_grants mo m)))"

definition delete_project ::
  "'s store_api \<Rightarrow> 'm member_api \<Rightarrow> string \<Rightarrow> string option \<Rightarrow> 's \<Rightarrow> 'm \<Rightarrow> (http_error + unit) \<times> 's \<times> 'm" where
  "delete_project so mo pid user s m =
     (case require_project so mo pid user ADMIN s m of
        Inl e \<Rightarrow> (Inl e, s, m)
      | Inr p \<Rightarrow>
          let ((found, gone), s) = so_delete so pid s
          in if \<not> found then (Inl (Http 404), s, m) else (Inr (), s, mo_drop_project mo pid m))"

text \<open>The projects and grants part of \<open>delete_account\<close>, after the password has been checked.\<close>

fun delete_owned ::
  "'s store_api \<Rightarrow> 'm member_api \<Rightarrow> project list \<Rightarrow> 's \<Rightarrow> 'm \<Rightarrow> 's \<times> 'm" where
  "delete_owned so mo [] s m = (s, m)"
| "delete_owned so mo (p # ps) s m =
     delete_owned so mo ps (snd (so_delete so (pj_id p) s)) (mo_drop_project mo (pj_id p) m)"

fun revoke_all :: "'m member_api \<Rightarrow> string \<Rightarrow> string list \<Rightarrow> 'm \<Rightarrow> 'm" where
  "revoke_all mo u [] m = m"
| "revoke_all mo u (pid # pids) m = revoke_all mo u pids (snd (mo_revoke mo pid u m))"

definition erase_user :: "'s store_api \<Rightarrow> 'm member_api \<Rightarrow> string \<Rightarrow> 's \<Rightarrow> 'm \<Rightarrow> 's \<times> 'm" where
  "erase_user so mo u s m =
     (let (s, m) = delete_owned so mo (so_list_for_owner so (Some u) s) s m
      in (s, revoke_all mo u (projects_for u (mo_grants mo m)) m))"

subsection \<open>Runs\<close>

text \<open>
  How the pipeline inside \<open>_execute_run_locked\<close> ends: it rejects the input (with the status the
  endpoint answers and the error text), fails otherwise, or generates the project. The summary is an
  argument: it is built from the result by code that does not touch the store.
\<close>

datatype run_outcome =
  Rejected nat string | Crashed | Generated string "string option" "(string, json) dict"

datatype run_error = RunInProgress string | PipelineRejected nat | PipelineCrashed

definition CRASH_TEXT :: string where
  "CRASH_TEXT = ''the run stopped unexpectedly; retry, and report it if it recurs''"

definition run_locked ::
  "'s store_api \<Rightarrow> run_outcome \<Rightarrow> project \<Rightarrow> 's \<Rightarrow> (run_error + project) \<times> 's" where
  "run_locked so res p s =
     (case res of
        Rejected st e \<Rightarrow>
          (Inl (PipelineRejected st), so_save so (p\<lparr>pj_status := ''failed'', pj_error := Some e\<rparr>) s)
      | Crashed \<Rightarrow>
          (Inl PipelineCrashed, so_save so (p\<lparr>pj_status := ''failed'', pj_error := Some CRASH_TEXT\<rparr>) s)
      | Generated dir archive summary \<Rightarrow>
          let p = p\<lparr>pj_project_dir := Some dir, pj_zip_path := archive, pj_status := ''completed'',
                    pj_summary := Some summary\<rparr>
          in (Inr p, so_save so p s))"

definition execute_run ::
  "'s store_api \<Rightarrow> run_outcome \<Rightarrow> rat \<Rightarrow> project \<Rightarrow> 's \<Rightarrow> (run_error + project) \<times> 's" where
  "execute_run so res now p s =
     (let (begun, s) = so_begin_run so now (pj_id p) s
      in if \<not> begun then (Inl (RunInProgress (pj_id p)), s)
         else let (r, s) = run_locked so res p s in (r, so_end_run so (pj_id p) s))"

definition run_endpoint ::
  "'s store_api \<Rightarrow> 'm member_api \<Rightarrow> run_outcome \<Rightarrow> rat \<Rightarrow> string \<Rightarrow> string option \<Rightarrow> 's \<Rightarrow> 'm
    \<Rightarrow> (http_error + project) \<times> 's" where
  "run_endpoint so mo res now pid user s m =
     (case require_project so mo pid user EDITOR s m of
        Inl e \<Rightarrow> (Inl e, s)
      | Inr p \<Rightarrow>
          if pj_upload_path p = None then (Inl (Http 400), s)
          else case execute_run so res now p s of
                 (Inl (RunInProgress i), s) \<Rightarrow> (Inl (Http 409), s)
               | (Inl (PipelineRejected st), s) \<Rightarrow> (Inl (Http st), s)
               | (Inl PipelineCrashed, s) \<Rightarrow> (Inl (Http 500), s)
               | (Inr p, s) \<Rightarrow> (Inr p, s))"

text \<open>\<open>submit\<close> is the job queue's \<open>submit\<close> on its state.\<close>

definition create_job ::
  "'s store_api \<Rightarrow> 'm member_api \<Rightarrow> (string \<Rightarrow> 'q \<Rightarrow> 'j \<times> 'q) \<Rightarrow> string \<Rightarrow> string option \<Rightarrow> 's \<Rightarrow> 'm \<Rightarrow> 'q
    \<Rightarrow> (http_error + 'j) \<times> 's \<times> 'q" where
  "create_job so mo submit pid user s m q =
     (case require_project so mo pid user EDITOR s m of
        Inl e \<Rightarrow> (Inl e, s, q)
      | Inr p \<Rightarrow>
          if pj_upload_path p = None then (Inl (Http 400), s, q)
          else let s = so_save so (p\<lparr>pj_status := ''queued''\<rparr>) s;
                   (j, q) = submit (pj_id p) q
               in (Inr j, s, q))"

subsection \<open>Access control\<close>

lemma require_projectD:
  assumes "require_project so mo pid (Some u) required s m = Inr p"
  obtains held where "so_get so s pid = Some p"
    and "role_for pid u (pj_owner_id p) (mo_grants mo m) = Some held" and "required \<le> held"
  using assms by (auto simp: require_project_def split: option.splits if_splits intro: that)

lemma require_project_cases:
  "require_project so mo pid (Some u) required s m =
     (case so_get so s pid of
        None \<Rightarrow> Inl (Http 404)
      | Some p \<Rightarrow>
          (case role_for pid u (pj_owner_id p) (mo_grants mo m) of
             None \<Rightarrow> Inl (Http 404)
           | Some held \<Rightarrow> if required \<le> held then Inr p else Inl (Http 403)))"
  by (auto simp: require_project_def split: option.splits)

text \<open>A caller without any role cannot tell a project from a missing one.\<close>

lemma no_role_hidden:
  assumes "case so_get so s pid of None \<Rightarrow> True | Some p \<Rightarrow> role_for pid u (pj_owner_id p) (mo_grants mo m) = None"
  shows "require_project so mo pid (Some u) required s m = Inl (Http 404)"
  using assms by (auto simp: require_project_cases split: option.splits)

text \<open>Sharing needs the admin role: anyone else leaves every grant as it is.\<close>

definition is_admin :: "'s store_api \<Rightarrow> 'm member_api \<Rightarrow> string \<Rightarrow> string \<Rightarrow> 's \<Rightarrow> 'm \<Rightarrow> bool" where
  "is_admin so mo pid u s m \<longleftrightarrow>
     (case so_get so s pid of None \<Rightarrow> False
      | Some p \<Rightarrow> role_for pid u (pj_owner_id p) (mo_grants mo m) = Some ADMIN)"

lemma ADMIN_le [simp]: "ADMIN \<le> r \<longleftrightarrow> r = ADMIN"
  by (cases r) (simp_all add: less_eq_role_def)

lemma not_admin_refused:
  "\<not> is_admin so mo pid u s m \<Longrightarrow> \<exists>e. require_project so mo pid (Some u) ADMIN s m = Inl e"
  by (auto simp: require_project_cases is_admin_def split: option.splits)

lemma grant_access_admin:
  assumes "\<not> is_admin so mo pid u s m"
  shows "snd (grant_access so mo accounts now pid email r (Some u) s m) = m"
  using not_admin_refused [OF assms] by (auto simp: grant_access_def)

lemma revoke_access_admin:
  assumes "\<not> is_admin so mo pid u s m"
  shows "snd (revoke_access so mo pid w (Some u) s m) = m"
  using not_admin_refused [OF assms] by (auto simp: revoke_access_def)

lemma delete_project_admin:
  assumes "\<not> is_admin so mo pid u s m"
  shows "snd (delete_project so mo pid (Some u) s m) = (s, m)"
  using not_admin_refused [OF assms] by (auto simp: delete_project_def)

subsection \<open>The application on any store and any membership\<close>

text \<open>The requests a user can make that touch grants or projects of others.\<close>

datatype user_request =
  AskGrant rat string string string | AskRevoke string string | AskDelete string

fun user_step ::
  "'s store_api \<Rightarrow> 'm member_api \<Rightarrow> (string \<Rightarrow> string option) option \<Rightarrow> string
    \<Rightarrow> 's \<times> 'm \<Rightarrow> user_request \<Rightarrow> 's \<times> 'm" where
  "user_step so mo accounts u (s, m) (AskGrant now pid email r) =
     (s, snd (grant_access so mo accounts now pid email r (Some u) s m))"
| "user_step so mo accounts u (s, m) (AskRevoke pid w) =
     (s, snd (revoke_access so mo pid w (Some u) s m))"
| "user_step so mo accounts u (s, m) (AskDelete pid) =
     snd (delete_project so mo pid (Some u) s m)"

abbreviation role_of :: "'m member_api \<Rightarrow> 'm \<Rightarrow> string \<Rightarrow> string \<Rightarrow> role option" where
  "role_of mo m \<equiv> held_role (mo_grants mo m)"

locale app =
  st: project_store sok "so_get so" "so_begin_run so" "so_end_run so" "so_save so" "so_delete so" create
  + mb: membership mok "mo_grant mo" "mo_revoke mo" "mo_drop_project mo" "role_of mo"
  for sok :: "'s \<Rightarrow> bool" and so :: "'s store_api"
    and create :: "rat \<Rightarrow> string \<Rightarrow> string \<Rightarrow> project_args \<Rightarrow> 's \<Rightarrow> (project \<times> string list) option \<times> 's"
    and mok :: "'m \<Rightarrow> bool" and mo :: "'m member_api" +
  assumes list_owner: "sok s \<Longrightarrow>
      set (so_list_for_owner so w s) = {p. so_get so s (pj_id p) = Some p \<and> pj_owner_id p = w}"
    and members_ok: "mok m \<Longrightarrow> grants_ok (mo_grants mo m)"

context app
begin

lemma grant_access_other:
  assumes "mok m" and "q \<noteq> pid"
  shows "role_of mo (snd (grant_access so mo accounts now pid email r user s m)) q w = role_of mo m q w"
  using assms by (auto simp: grant_access_def mb.held_grant split: sum.splits option.splits)

lemma revoke_access_other:
  assumes "mok m" and "q \<noteq> pid"
  shows "role_of mo (snd (revoke_access so mo pid v user s m)) q w = role_of mo m q w"
proof -
  obtain b m' where "mo_revoke mo pid v m = (b, m')" by (metis surj_pair)
  then show ?thesis using assms mb.held_revoke [of m pid v q w]
    by (auto simp: revoke_access_def split: sum.splits)
qed

lemma grant_access_ok: "mok m \<Longrightarrow> mok (snd (grant_access so mo accounts now pid email r user s m))"
  by (auto simp: grant_access_def mb.ok_grant split: sum.splits option.splits)

lemma revoke_access_ok: "mok m \<Longrightarrow> mok (snd (revoke_access so mo pid v user s m))"
  using mb.ok_revoke [of m pid v] by (auto simp: revoke_access_def split: sum.splits prod.splits)

lemma delete_project_ok:
  assumes "sok s" and "mok m"
  shows "sok (fst (snd (delete_project so mo pid user s m)))" and "mok (snd (snd (delete_project so mo pid user s m)))"
  using st.ok_delete [OF assms(1), of pid] mb.ok_drop [OF assms(2), of pid] assms
  by (auto simp: delete_project_def split: sum.splits prod.splits)

lemma delete_project_other:
  assumes "sok s" and "mok m" and "q \<noteq> pid"
  shows "so_get so (fst (snd (delete_project so mo pid user s m))) q = so_get so s q"
    and "role_of mo (snd (snd (delete_project so mo pid user s m))) q w = role_of mo m q w"
  using st.get_delete [OF assms(1), of pid q] mb.held_drop [OF assms(2), of pid q w] assms(3)
  by (auto simp: delete_project_def split: sum.splits prod.splits)

text \<open>A user who does not administer a project changes neither it nor any of its grants.\<close>

lemma user_step_frame:
  assumes "sok s" and "mok m" and "\<not> is_admin so mo pid u s m" and "user_step so mo accounts u (s, m) x = (s', m')"
  shows "sok s'" and "mok m'" and "so_get so s' pid = so_get so s pid" and "role_of mo m' pid = role_of mo m pid"
proof -
  have "sok s' \<and> mok m' \<and> so_get so s' pid = so_get so s pid \<and> role_of mo m' pid = role_of mo m pid"
  proof (cases x)
    case (AskGrant now q email r)
    then show ?thesis using assms grant_access_ok grant_access_admin [OF assms(3)]
      by (cases "q = pid") (auto simp: grant_access_other fun_eq_iff)
  next
    case (AskRevoke q w)
    then show ?thesis using assms revoke_access_ok revoke_access_admin [OF assms(3)]
      by (cases "q = pid") (auto simp: revoke_access_other fun_eq_iff)
  next
    case (AskDelete q)
    then have d: "(s', m') = snd (delete_project so mo q (Some u) s m)" using assms(4) by simp
    then have e: "s' = fst (snd (delete_project so mo q (Some u) s m))"
      "m' = snd (snd (delete_project so mo q (Some u) s m))" by (metis fst_conv, metis snd_conv)
    show ?thesis
    proof (cases "q = pid")
      case True
      then show ?thesis using d delete_project_admin [OF assms(3)] assms(1,2) by simp
    next
      case False
      then have "pid \<noteq> q" by simp
      then show ?thesis unfolding e
        using delete_project_other [OF assms(1,2)] delete_project_ok [OF assms(1,2)] by (simp add: fun_eq_iff)
    qed
  qed
  then show "sok s'" "mok m'" "so_get so s' pid = so_get so s pid" "role_of mo m' pid = role_of mo m pid" by blast+
qed

lemma is_admin_cong:
  "so_get so s' pid = so_get so s pid \<Longrightarrow> role_of mo m' pid = role_of mo m pid
    \<Longrightarrow> is_admin so mo pid u s' m' = is_admin so mo pid u s m"
  by (simp add: is_admin_def role_for_def split: option.split)

lemma no_escalation:
  assumes "sok s" and "mok m" and "\<not> is_admin so mo pid u s m"
  shows "so_get so (fst (foldl (user_step so mo accounts u) (s, m) xs)) pid = so_get so s pid
    \<and> role_of mo (snd (foldl (user_step so mo accounts u) (s, m) xs)) pid = role_of mo m pid"
  using assms
proof (induction xs arbitrary: s m)
  case (Cons x xs)
  obtain s' m' where st: "user_step so mo accounts u (s, m) x = (s', m')" by (metis surj_pair)
  note f = user_step_frame [OF Cons.prems st]
  have "\<not> is_admin so mo pid u s' m'" using is_admin_cong [OF f(3,4)] Cons.prems(3) by simp
  from Cons.IH [OF f(1,2) this] show ?case using f(3,4) by (simp add: st)
qed simp

text \<open>Deleting a project leaves no grant behind.\<close>

lemma delete_project_clears:
  assumes "sok s" and "mok m" and "delete_project so mo pid user s m = (Inr (), s', m')"
  shows "so_get so s' pid = None" and "role_of mo m' pid w = None"
  using assms(3) st.get_delete [OF assms(1), of pid pid] mb.held_drop [OF assms(2), of pid pid w]
  by (auto simp: delete_project_def Let_def split: sum.splits prod.splits if_splits)

text \<open>Queueing a job while a run is in progress gives its claim away.\<close>

lemma create_job_releases:
  assumes "sok s" and "RUN_LEASE_SECONDS < now"
    and "create_job so mo submit pid user s m q = (Inr j, s', q')"
  shows "fst (so_begin_run so now pid s')"
proof -
  obtain p where p: "require_project so mo pid user EDITOR s m = Inr p"
      and s': "s' = so_save so (p\<lparr>pj_status := ''queued''\<rparr>) s"
    using assms(3) by (auto simp: create_job_def split: sum.splits if_splits prod.splits)
  have g: "so_get so s pid = Some p"
    using p by (auto simp: require_project_def split: option.splits if_splits)
  have i: "pj_id p = pid" by (rule st.get_id [OF assms(1) g])
  have "map_option run_view (so_get so s' pid) = Some (''queued'', pj_run_started_at p)"
    using st.view_save [OF assms(1), of "p\<lparr>pj_status := ''queued''\<rparr>" pid] g i s' by simp
  then obtain p' where "so_get so s' pid = Some p'" "pj_status p' = ''queued''" by (auto simp: run_view_def)
  moreover have "sok s'" unfolding s' by (rule st.ok_save [OF assms(1)])
  ultimately show ?thesis using st.begin_iff [OF _ assms(2)] by (simp add: claimable_def)
qed

subsection \<open>Erasing a user\<close>

lemma delete_owned_spec:
  assumes "sok s" and "mok m" and "delete_owned so mo ps s m = (s', m')"
  shows "sok s' \<and> mok m' \<and> (\<forall>q. so_get so s' q = (if q \<in> pj_id ` set ps then None else so_get so s q))
    \<and> (\<forall>q w. role_of mo m' q w = (if q \<in> pj_id ` set ps then None else role_of mo m q w))"
  using assms
proof (induction ps arbitrary: s m)
  case (Cons p ps)
  let ?s = "snd (so_delete so (pj_id p) s)" and ?m = "mo_drop_project mo (pj_id p) m"
  note ih = Cons.IH [of ?s ?m, OF st.ok_delete [OF Cons.prems(1)] mb.ok_drop [OF Cons.prems(2)]]
  show ?case
    using ih Cons.prems(3) by (simp add: st.get_delete [OF Cons.prems(1)] mb.held_drop [OF Cons.prems(2)])
qed simp

lemma revoke_all_spec:
  assumes "mok m"
  shows "mok (revoke_all mo u pids m)
    \<and> (\<forall>q w. role_of mo (revoke_all mo u pids m) q w = (if q \<in> set pids \<and> w = u then None else role_of mo m q w))"
  using assms
proof (induction pids arbitrary: m)
  case (Cons pid pids)
  show ?case
    using Cons.IH [OF mb.ok_revoke [OF Cons.prems, of pid u]]
    by (simp add: mb.held_revoke [OF Cons.prems])
qed simp

lemma erase_user_spec:
  assumes "sok s" and "mok m" and "erase_user so mo u s m = (s', m')"
  shows "(\<forall>q p. so_get so s' q = Some p \<longrightarrow> pj_owner_id p \<noteq> Some u) \<and> (\<forall>q. role_of mo m' q u = None)
    \<and> (\<forall>q. (case so_get so s q of None \<Rightarrow> True | Some p \<Rightarrow> pj_owner_id p \<noteq> Some u)
        \<longrightarrow> so_get so s' q = so_get so s q \<and> (\<forall>w. w \<noteq> u \<longrightarrow> role_of mo m' q w = role_of mo m q w))"
proof -
  let ?ps = "so_list_for_owner so (Some u) s"
  obtain s1 m1 where d: "delete_owned so mo ?ps s m = (s1, m1)" by (metis surj_pair)
  note ds = delete_owned_spec [OF assms(1,2) d]
  note ok1 = ds [THEN conjunct2, THEN conjunct1]
  have r: "s' = s1" "m' = revoke_all mo u (projects_for u (mo_grants mo m1)) m1"
    using assms(3) by (simp_all add: erase_user_def d Let_def)
  have rs: "role_of mo m' q w = (if q \<in> set (projects_for u (mo_grants mo m1)) \<and> w = u then None else role_of mo m1 q w)" for q w
    unfolding r(2) by (rule revoke_all_spec [OF ok1, THEN conjunct2, rule_format])
  have pf: "q \<in> set (projects_for u (mo_grants mo m1)) \<longleftrightarrow> role_of mo m1 q u \<noteq> None" for q
    by (rule projects_for_spec [OF members_ok [OF ok1]])
  have m: "x \<in> set ?ps \<longleftrightarrow> so_get so s (pj_id x) = Some x \<and> pj_owner_id x = Some u" for x
    unfolding list_owner [OF assms(1)] by (rule mem_Collect_eq)
  have owned: "q \<in> pj_id ` set ?ps \<longleftrightarrow> (case so_get so s q of None \<Rightarrow> False | Some p \<Rightarrow> pj_owner_id p = Some u)" for q
  proof
    assume "q \<in> pj_id ` set ?ps"
    then obtain x where "q = pj_id x" "x \<in> set ?ps" by (rule imageE)
    then show "case so_get so s q of None \<Rightarrow> False | Some p \<Rightarrow> pj_owner_id p = Some u" by (simp add: m)
  next
    assume a: "case so_get so s q of None \<Rightarrow> False | Some p \<Rightarrow> pj_owner_id p = Some u"
    then obtain p where p: "so_get so s q = Some p" "pj_owner_id p = Some u" by (cases "so_get so s q") simp_all
    then have id: "pj_id p = q" using st.get_id [OF assms(1)] by blast
    have "p \<in> set ?ps" unfolding m id using p by (rule conjI)
    then show "q \<in> pj_id ` set ?ps" by (rule rev_image_eqI) (rule id [symmetric])
  qed
  have g: "so_get so s' q = (if q \<in> pj_id ` set ?ps then None else so_get so s q)" for q
    unfolding r(1) by (rule ds [THEN conjunct2, THEN conjunct2, THEN conjunct1, rule_format])
  have h1: "role_of mo m1 q w = (if q \<in> pj_id ` set ?ps then None else role_of mo m q w)" for q w
    by (rule ds [THEN conjunct2, THEN conjunct2, THEN conjunct2, rule_format])
  have h: "role_of mo m' q w = (if w = u \<or> q \<in> pj_id ` set ?ps then None else role_of mo m q w)" for q w
    unfolding rs pf by (cases "w = u") (simp_all only: h1 refl simp_thms if_True if_False split: if_split)
  have own: "pj_owner_id p \<noteq> Some u" if "so_get so s' q = Some p" for q p
  proof -
    have "q \<notin> pj_id ` set ?ps" and "so_get so s q = Some p"
      using that by (simp_all only: g split: if_split_asm) blast+
    then show ?thesis using owned [of q] by simp
  qed
  have kept: "so_get so s' q = so_get so s q \<and> (\<forall>w. w \<noteq> u \<longrightarrow> role_of mo m' q w = role_of mo m q w)"
    if "case so_get so s q of None \<Rightarrow> True | Some p \<Rightarrow> pj_owner_id p \<noteq> Some u" for q
  proof -
    have "q \<notin> pj_id ` set ?ps" using that owned [of q] by (simp split: option.split_asm)
    then show ?thesis by (simp only: g h if_False simp_thms) simp
  qed
  have gone: "role_of mo m' q u = None" for q by (simp only: h simp_thms if_True)
  show ?thesis using own gone kept by (intro conjI allI impI) simp_all
qed

end

lemma mem_list_owner:
  assumes "mem_ok s"
  shows "set (mem_list_for_owner w s) = {p. mem_get s (pj_id p) = Some p \<and> pj_owner_id p = w}"
proof -
  have ok: "dict_ok (ms_projects s)" "\<And>k p. (k, p) \<in> set (ms_projects s) \<Longrightarrow> pj_id p = k"
    using assms by (auto simp: mem_ok_def)
  have "p \<in> snd ` set (ms_projects s) \<longleftrightarrow> mem_get s (pj_id p) = Some p" for p
  proof
    assume "p \<in> snd ` set (ms_projects s)"
    then obtain k where "(k, p) \<in> set (ms_projects s)" by auto
    then have "(pj_id p, p) \<in> set (ms_projects s)" using ok(2) by simp
    then show "mem_get s (pj_id p) = Some p" using ok(1) by (simp add: mem_get_def)
  next
    assume "mem_get s (pj_id p) = Some p"
    then have "(pj_id p, p) \<in> set (ms_projects s)" unfolding mem_get_def by (rule map_of_SomeD)
    then show "p \<in> snd ` set (ms_projects s)" by (rule rev_image_eqI) simp
  qed
  then have "p \<in> set (mem_list_for_owner w s) \<longleftrightarrow> mem_get s (pj_id p) = Some p \<and> pj_owner_id p = w" for p
    unfolding mem_list_for_owner_def set_filter set_rev set_map by simp
  then show ?thesis by blast
qed

lemma sql_list_owner:
  assumes "rows_ok s"
  shows "set (sql_list_for_owner w s) = {p. sql_get s (pj_id p) = Some p \<and> pj_owner_id p = w}"
proof -
  have id: "pj_id (row_to_project r) = pj_id (pr_project r)" "pj_owner_id (row_to_project r) = pj_owner_id (pr_project r)" for r
    by (simp_all add: row_to_project_def)
  have ok: "dict_ok (ss_rows s)" using assms by (simp add: rows_ok_def)
  have "p \<in> (row_to_project \<circ> snd) ` {x \<in> set (ss_rows s). pj_owner_id (pr_project (snd x)) = w}
      \<longleftrightarrow> sql_get s (pj_id p) = Some p \<and> pj_owner_id p = w" for p
  proof
    assume "p \<in> (row_to_project \<circ> snd) ` {x \<in> set (ss_rows s). pj_owner_id (pr_project (snd x)) = w}"
    then obtain k r where r: "(k, r) \<in> set (ss_rows s)" "p = row_to_project r" "pj_owner_id (pr_project r) = w" by auto
    then have m: "map_of (ss_rows s) k = Some r" using ok by simp
    then have "pj_id (pr_project r) = k" by (rule rows_ok_id [OF assms])
    then show "sql_get s (pj_id p) = Some p \<and> pj_owner_id p = w" using m r(2,3) by (simp add: id sql_get_def)
  next
    assume a: "sql_get s (pj_id p) = Some p \<and> pj_owner_id p = w"
    then obtain r where r: "map_of (ss_rows s) (pj_id p) = Some r" "p = row_to_project r" by (auto simp: sql_get_def)
    then have "(pj_id p, r) \<in> {x \<in> set (ss_rows s). pj_owner_id (pr_project (snd x)) = w}"
      using a id by (auto dest: map_of_SomeD)
    then show "p \<in> (row_to_project \<circ> snd) ` {x \<in> set (ss_rows s). pj_owner_id (pr_project (snd x)) = w}"
      using r(2) by force
  qed
  then show ?thesis by (auto simp: sql_list_for_owner_def case_prod_unfold)
qed

interpretation mem_app: app mem_ok MEM_STORE mem_create grants_ok MEM_MEMBERS
  by unfold_locales
    (simp_all add: api_defs mem_list_owner mem_store.begin_iff mem_store.get_begin mem_store.get_end
       mem_store.view_save mem_store.get_delete mem_store.get_create mem_store.get_id mem_store.ok_begin
       mem_store.ok_end mem_store.ok_save mem_store.ok_delete mem_store.ok_create
       held_mem_grant held_mem_revoke mem_revoke_result held_mem_drop grants_ok_grant grants_ok_revoke grants_ok_drop)

interpretation sql_app: app rows_ok SQL_STORE sql_create sql_ok SQL_MEMBERS
proof -
  have "app_axioms rows_ok SQL_STORE sql_ok SQL_MEMBERS"
    by unfold_locales (simp_all add: api_defs sql_list_owner sql_ok_def)
  then show "app rows_ok SQL_STORE sql_create sql_ok SQL_MEMBERS"
    using sql_store.project_store_axioms sql.membership_axioms
    by (simp add: app_def api_defs)
qed

end
