(* ===== verification/Jobs.thy ===== *)
theory Jobs
  imports PyStr Prelude
begin

text \<open>
  The job queues: \<open>api/jobs.py\<close> (in memory) and \<open>api/jobs_sqlite.py\<close> (durable, with retry, leases
  and a dead-letter state), and the events of \<open>api/events.py\<close> they publish. The handler of a job is an
  argument that answers the error text of the exception it raises, if any. Clocks and the generated
  job ids are arguments.
\<close>

subsection \<open>Events\<close>

datatype event_type =
    PROJECT_CREATED | PROJECT_UPLOADED | PROJECT_DELETED | ACCOUNT_DELETED
  | JOB_QUEUED | JOB_STARTED | JOB_COMPLETED | JOB_FAILED

record event =
  ev_type :: event_type
  ev_project_id :: "string option"
  ev_job_id :: "string option"
  ev_detail :: "(string, string) dict"
  ev_timestamp :: rat

definition job_event :: "event_type \<Rightarrow> rat \<Rightarrow> string \<Rightarrow> string \<Rightarrow> (string, string) dict \<Rightarrow> event" where
  "job_event ty now pid jid d =
     \<lparr>ev_type = ty, ev_project_id = Some pid, ev_job_id = Some jid, ev_detail = d, ev_timestamp = now\<rparr>"

subsection \<open>Jobs\<close>

datatype job_status = QUEUED | RUNNING | COMPLETED | FAILED

fun status_value :: "job_status \<Rightarrow> string" where
  "status_value QUEUED = ''queued''"
| "status_value RUNNING = ''running''"
| "status_value COMPLETED = ''completed''"
| "status_value FAILED = ''failed''"

definition parse_status :: "string \<Rightarrow> job_status option" where
  "parse_status s = find (\<lambda>x. status_value x = s) [QUEUED, RUNNING, COMPLETED, FAILED]"

record job =
  jb_id :: string
  jb_project_id :: string
  jb_status :: job_status
  jb_created_at :: rat
  jb_started_at :: "rat option"
  jb_finished_at :: "rat option"
  jb_error :: "string option"

text \<open>A time of zero is falsy, like a missing one.\<close>

definition duration_ms :: "job \<Rightarrow> rat option" where
  "duration_ms j =
     (case (jb_started_at j, jb_finished_at j) of
        (Some s, Some f) \<Rightarrow> if s \<noteq> 0 \<and> f \<noteq> 0 then Some (round_dp 1 ((f - s) * 1000)) else None
      | _ \<Rightarrow> None)"

subsection \<open>The queue in memory\<close>

record mem_queue =
  mq_jobs :: "(string, job) dict"
  mq_order :: "string list"
  mq_capacity :: nat
  mq_events :: "event list"

definition mk_mem_queue :: mem_queue where
  "mk_mem_queue = \<lparr>mq_jobs = [], mq_order = [], mq_capacity = 500, mq_events = []\<rparr>"

fun mq_evict :: "nat \<Rightarrow> string list \<Rightarrow> (string, job) dict \<Rightarrow> string list \<times> (string, job) dict" where
  "mq_evict cap [] jobs = ([], jobs)"
| "mq_evict cap (i # order) jobs =
     (if cap < length (i # order) then mq_evict cap order (AList.delete i jobs) else (i # order, jobs))"

definition mem_submit :: "rat \<Rightarrow> string \<Rightarrow> string \<Rightarrow> mem_queue \<Rightarrow> job \<times> mem_queue" where
  "mem_submit now jid pid q =
     (let j = \<lparr>jb_id = jid, jb_project_id = pid, jb_status = QUEUED, jb_created_at = now, jb_started_at = None,
            jb_finished_at = None, jb_error = None\<rparr>;
          (order, jobs) = mq_evict (mq_capacity q) (mq_order q @ [jid]) (AList.update jid j (mq_jobs q))
      in (j, q\<lparr>mq_jobs := jobs, mq_order := order, mq_events := mq_events q @ [job_event JOB_QUEUED now pid jid []]\<rparr>))"

definition mem_job :: "mem_queue \<Rightarrow> string \<Rightarrow> job option" where
  "mem_job q jid = map_of (mq_jobs q) jid"

definition mem_in_flight :: "mem_queue \<Rightarrow> nat" where
  "mem_in_flight q = length (filter (\<lambda>(i, j). jb_status j \<in> {QUEUED, RUNNING}) (mq_jobs q))"

text \<open>
  A worker changes the job object itself, so the dictionary sees the change as long as it still holds the
  job. The start and the end of the run are two steps; \<open>outcome\<close> is the error text of the work.
\<close>

definition mq_set :: "job \<Rightarrow> mem_queue \<Rightarrow> mem_queue" where
  "mq_set j q = (case map_of (mq_jobs q) (jb_id j) of
     None \<Rightarrow> q | Some _ \<Rightarrow> q\<lparr>mq_jobs := AList.update (jb_id j) j (mq_jobs q)\<rparr>)"

definition mem_start_job :: "rat \<Rightarrow> job \<Rightarrow> mem_queue \<Rightarrow> job \<times> mem_queue" where
  "mem_start_job now j q =
     (let j = j\<lparr>jb_status := RUNNING, jb_started_at := Some now\<rparr>
      in (j, mq_set j (q\<lparr>mq_events := mq_events q @ [job_event JOB_STARTED now (jb_project_id j) (jb_id j) []]\<rparr>)))"

definition mem_finish_job :: "rat \<Rightarrow> string option \<Rightarrow> job \<Rightarrow> mem_queue \<Rightarrow> job \<times> mem_queue" where
  "mem_finish_job now outcome j q =
     (let (j, e) = (case outcome of
            None \<Rightarrow> (j\<lparr>jb_status := COMPLETED\<rparr>, job_event JOB_COMPLETED now (jb_project_id j) (jb_id j) [])
          | Some err \<Rightarrow> (j\<lparr>jb_status := FAILED, jb_error := Some err\<rparr>,
               job_event JOB_FAILED now (jb_project_id j) (jb_id j) [(''error'', err)]));
          j = j\<lparr>jb_finished_at := Some now\<rparr>
      in (j, mq_set j (q\<lparr>mq_events := mq_events q @ [e]\<rparr>)))"

subsection \<open>The durable queue\<close>

definition DEFAULT_MAX_ATTEMPTS :: nat where "DEFAULT_MAX_ATTEMPTS = 3"
definition BACKOFF_BASE_SECONDS :: rat where "BACKOFF_BASE_SECONDS = 5"
definition LEASE_SECONDS :: rat where "LEASE_SECONDS = 900"

record job_row =
  jr_id :: string
  jr_project_id :: string
  jr_kind :: string
  jr_status :: string
  jr_attempts :: nat
  jr_max_attempts :: nat
  jr_created_at :: rat
  jr_started_at :: "rat option"
  jr_finished_at :: "rat option"
  jr_visible_at :: rat
  jr_lease_until :: "rat option"
  jr_error :: "string option"

text \<open>The table in insertion order by its primary key, and the events published so far.\<close>

record job_queue =
  jq_rows :: "(string, job_row) dict"
  jq_max_attempts :: nat
  jq_events :: "event list"

definition update_where :: "(job_row \<Rightarrow> bool) \<Rightarrow> (job_row \<Rightarrow> job_row) \<Rightarrow> (string, job_row) dict \<Rightarrow> (string, job_row) dict" where
  "update_where p f rows = map (\<lambda>(i, r). (i, if p r then f r else r)) rows"

definition job_of_row :: "job_row \<Rightarrow> job option" where
  "job_of_row r =
     map_option (\<lambda>st. \<lparr>jb_id = jr_id r, jb_project_id = jr_project_id r, jb_status = st, jb_created_at = jr_created_at r,
         jb_started_at = jr_started_at r, jb_finished_at = jr_finished_at r, jb_error = jr_error r\<rparr>)
       (if jr_status r = ''dead'' then Some FAILED else parse_status (jr_status r))"

text \<open>\<open>None\<close> stands for the insert of an id that is already taken.\<close>

definition sql_submit :: "rat \<Rightarrow> string \<Rightarrow> string \<Rightarrow> string \<Rightarrow> job_queue \<Rightarrow> job option \<times> job_queue" where
  "sql_submit now jid pid kind q =
     (if map_of (jq_rows q) jid \<noteq> None then (None, q)
      else let r = \<lparr>jr_id = jid, jr_project_id = pid, jr_kind = kind, jr_status = status_value QUEUED, jr_attempts = 0,
                 jr_max_attempts = jq_max_attempts q, jr_created_at = now, jr_started_at = None, jr_finished_at = None,
                 jr_visible_at = now, jr_lease_until = None, jr_error = None\<rparr>
           in (job_of_row r, q\<lparr>jq_rows := jq_rows q @ [(jid, r)],
                 jq_events := jq_events q @ [job_event JOB_QUEUED now pid jid []]\<rparr>))"

definition sql_job :: "job_queue \<Rightarrow> string \<Rightarrow> job option" where
  "sql_job q jid = (case map_of (jq_rows q) jid of None \<Rightarrow> None | Some r \<Rightarrow> job_of_row r)"

definition sql_in_flight :: "job_queue \<Rightarrow> nat" where
  "sql_in_flight q =
     length (filter (\<lambda>(i, r). jr_status r \<in> {status_value QUEUED, status_value RUNNING}) (jq_rows q))"

text \<open>\<open>ORDER BY finished_at DESC\<close>; a dead row always has the time.\<close>

definition dead_letters :: "nat \<Rightarrow> job_queue \<Rightarrow> job list" where
  "dead_letters n q =
     List.map_filter job_of_row
       (take n (sort_key (\<lambda>r. case jr_finished_at r of Some t \<Rightarrow> - t | None \<Rightarrow> 0)
          (filter (\<lambda>r. jr_status r = ''dead'') (map snd (jq_rows q)))))"

definition expired :: "rat \<Rightarrow> job_row \<Rightarrow> bool" where
  "expired now r \<longleftrightarrow> jr_status r = status_value RUNNING
     \<and> (case jr_lease_until r of None \<Rightarrow> True | Some l \<Rightarrow> l < now)"

definition reclaim_expired :: "rat \<Rightarrow> job_queue \<Rightarrow> nat \<times> job_queue" where
  "reclaim_expired now q =
     (length (filter (\<lambda>(i, r). expired now r) (jq_rows q)),
      q\<lparr>jq_rows := update_where (expired now)
          (\<lambda>r. r\<lparr>jr_status := status_value QUEUED, jr_lease_until := None, jr_visible_at := now\<rparr>) (jq_rows q)\<rparr>)"

definition open_queue :: "rat \<Rightarrow> nat \<Rightarrow> (string, job_row) dict \<Rightarrow> job_queue" where
  "open_queue now mx rows = snd (reclaim_expired now \<lparr>jq_rows = rows, jq_max_attempts = mx, jq_events = []\<rparr>)"

text \<open>
  The claim is one transaction. The statement orders by \<open>created_at\<close>; which of two rows of the same time
  comes first is left open by SQL, here it is the one inserted first.
\<close>

definition due :: "rat \<Rightarrow> job_row \<Rightarrow> bool" where
  "due now r \<longleftrightarrow> jr_status r = ''queued'' \<and> jr_visible_at r \<le> now"

definition next_due :: "rat \<Rightarrow> (string, job_row) dict \<Rightarrow> string option" where
  "next_due now rows =
     (case sort_key jr_created_at (filter (due now) (map snd rows)) of [] \<Rightarrow> None | r # _ \<Rightarrow> Some (jr_id r))"

definition take_row :: "rat \<Rightarrow> job_row \<Rightarrow> job_row" where
  "take_row now r = r\<lparr>jr_status := status_value RUNNING, jr_attempts := jr_attempts r + 1, jr_started_at := Some now,
     jr_lease_until := Some (now + LEASE_SECONDS)\<rparr>"

definition claim_job :: "rat \<Rightarrow> job_queue \<Rightarrow> job_row option \<times> job_queue" where
  "claim_job now q =
     (case next_due now (jq_rows q) of
        None \<Rightarrow> (None, q)
      | Some i \<Rightarrow>
          let rows = update_where (\<lambda>r. jr_id r = i \<and> jr_status r = status_value QUEUED) (take_row now) (jq_rows q)
          in (map_of rows i, q\<lparr>jq_rows := rows\<rparr>))"

definition write_row :: "string \<Rightarrow> (job_row \<Rightarrow> job_row) \<Rightarrow> job_queue \<Rightarrow> job_queue" where
  "write_row i f q = q\<lparr>jq_rows := update_where (\<lambda>r. jr_id r = i) f (jq_rows q)\<rparr>"

definition publish :: "event \<Rightarrow> job_queue \<Rightarrow> job_queue" where
  "publish e q = q\<lparr>jq_events := jq_events q @ [e]\<rparr>"

definition finish_dead :: "rat \<Rightarrow> string \<Rightarrow> string \<Rightarrow> string \<Rightarrow> job_queue \<Rightarrow> job_queue" where
  "finish_dead now jid pid err q =
     publish (job_event JOB_FAILED now pid jid [(''error'', err)])
       (write_row jid (\<lambda>r. r\<lparr>jr_status := ''dead'', jr_finished_at := Some now, jr_lease_until := None,
          jr_error := Some err\<rparr>) q)"

definition on_failure :: "rat \<Rightarrow> job_row \<Rightarrow> string \<Rightarrow> job_queue \<Rightarrow> job_queue" where
  "on_failure now row err q =
     (if jr_max_attempts row \<le> jr_attempts row then finish_dead now (jr_id row) (jr_project_id row) err q
      else write_row (jr_id row)
             (\<lambda>r. r\<lparr>jr_status := status_value QUEUED, jr_visible_at := now + BACKOFF_BASE_SECONDS ^ jr_attempts row,
                jr_lease_until := None, jr_error := Some err\<rparr>) q)"

definition no_handler :: "string \<Rightarrow> string" where
  "no_handler kind = ''no handler registered for job kind '' @ [CHR 0x27] @ kind @ [CHR 0x27]"

type_synonym handlers = "(string, string \<Rightarrow> string option) dict"

definition run_job :: "handlers \<Rightarrow> rat \<Rightarrow> job_row \<Rightarrow> job_queue \<Rightarrow> job_queue" where
  "run_job hs now row q =
     (let q = publish (job_event JOB_STARTED now (jr_project_id row) (jr_id row) []) q
      in case map_of hs (jr_kind row) of
           None \<Rightarrow> on_failure now row (no_handler (jr_kind row)) q
         | Some h \<Rightarrow>
             (case h (jr_project_id row) of
                Some err \<Rightarrow> on_failure now row err q
              | None \<Rightarrow>
                  publish (job_event JOB_COMPLETED now (jr_project_id row) (jr_id row) [])
                    (write_row (jr_id row)
                       (\<lambda>r. r\<lparr>jr_status := status_value COMPLETED, jr_finished_at := Some now, jr_lease_until := None\<rparr>) q)))"

text \<open>One turn of \<open>_worker_loop\<close>: a claim, then the run of what was claimed.\<close>

definition worker_turn :: "handlers \<Rightarrow> rat \<Rightarrow> rat \<Rightarrow> job_queue \<Rightarrow> job_queue" where
  "worker_turn hs now fin q =
     (case claim_job now q of (None, q) \<Rightarrow> q | (Some row, q) \<Rightarrow> run_job hs fin row q)"

end
