(* ===== verification/JobRuns.thy ===== *)
theory JobRuns
  imports Jobs
begin

text \<open>
  Runs of the durable queue with any number of workers: a step relation over the table, the rows the
  workers hold and the clock, and what holds of every run. A worker's claim, the end of its handler and a
  reclaim of expired leases are the atomic steps. \<open>LFinish\<close> is the end of a handler within its lease,
  \<open>LLate\<close> one after it, \<open>LCrash\<close> a worker that never comes back.
\<close>

datatype job_label = LSubmit | LTick | LClaim | LFinish | LLate | LCrash | LReclaim

record jobs_world =
  jw_queue :: job_queue
  jw_held :: "job_row list"
  jw_clock :: rat

definition in_lease :: "rat \<Rightarrow> job_row \<Rightarrow> bool" where
  "in_lease now r \<longleftrightarrow> (case jr_lease_until r of None \<Rightarrow> False | Some l \<Rightarrow> now \<le> l)"

inductive job_step :: "jobs_world \<Rightarrow> job_label \<Rightarrow> jobs_world \<Rightarrow> bool" where
  submit: "job_step w LSubmit (w\<lparr>jw_queue := snd (sql_submit (jw_clock w) jid pid kind (jw_queue w))\<rparr>)"
| tick: "jw_clock w \<le> t \<Longrightarrow> job_step w LTick (w\<lparr>jw_clock := t\<rparr>)"
| claim: "claim_job (jw_clock w) (jw_queue w) = (Some r, q) \<Longrightarrow>
    job_step w LClaim (w\<lparr>jw_queue := q, jw_held := r # jw_held w\<rparr>)"
| finish: "jw_held w = xs @ r # ys \<Longrightarrow> in_lease (jw_clock w) r \<Longrightarrow>
    job_step w LFinish (w\<lparr>jw_queue := run_job hs (jw_clock w) r (jw_queue w), jw_held := xs @ ys\<rparr>)"
| late: "jw_held w = xs @ r # ys \<Longrightarrow> \<not> in_lease (jw_clock w) r \<Longrightarrow>
    job_step w LLate (w\<lparr>jw_queue := run_job hs (jw_clock w) r (jw_queue w), jw_held := xs @ ys\<rparr>)"
| crash: "jw_held w = xs @ r # ys \<Longrightarrow> job_step w LCrash (w\<lparr>jw_held := xs @ ys\<rparr>)"
| reclaim: "job_step w LReclaim (w\<lparr>jw_queue := snd (reclaim_expired (jw_clock w) (jw_queue w))\<rparr>)"

inductive job_run :: "jobs_world \<Rightarrow> job_label list \<Rightarrow> jobs_world \<Rightarrow> bool" where
  none: "job_run w [] w"
| more: "job_run w ls w' \<Longrightarrow> job_step w' l w'' \<Longrightarrow> job_run w (ls @ [l]) w''"

inductive_cases job_stepE: "job_step w l w'"

subsection \<open>The table\<close>

definition rows_keyed :: "job_queue \<Rightarrow> bool" where
  "rows_keyed q \<longleftrightarrow> dict_ok (jq_rows q) \<and> (\<forall>(i, r) \<in> set (jq_rows q). jr_id r = i)"

lemma rows_keyed_id: "rows_keyed q \<Longrightarrow> map_of (jq_rows q) i = Some r \<Longrightarrow> jr_id r = i"
  by (auto simp: rows_keyed_def dest: map_of_SomeD)

lemma map_of_update_where:
  "map_of (update_where p f rows) i = map_option (\<lambda>r. if p r then f r else r) (map_of rows i)"
  by (induction rows) (auto simp: update_where_def)

lemma update_where_simps [simp]:
  "update_where p f [] = []"
  "update_where p f ((i, r) # rows) = (i, if p r then f r else r) # update_where p f rows"
  by (simp_all add: update_where_def)

lemma keys_update_where [simp]: "keys (update_where p f rows) = keys rows"
  by (induction rows) (auto simp: update_where_def)

lemma update_where_mem:
  "(i, r') \<in> set (update_where p f rows) \<Longrightarrow> \<exists>r. (i, r) \<in> set rows \<and> r' = (if p r then f r else r)"
  by (auto simp: update_where_def)

lemma rows_keyed_update:
  assumes "rows_keyed q" and "\<And>r. jr_id (f r) = jr_id r"
  shows "rows_keyed (q\<lparr>jq_rows := update_where p f (jq_rows q)\<rparr>)"
  using assms unfolding rows_keyed_def by (auto dest!: update_where_mem)

lemma rows_keyed_publish [simp]: "rows_keyed (publish e q) = rows_keyed q"
  by (simp add: rows_keyed_def publish_def)

lemma rows_publish [simp]: "jq_rows (publish e q) = jq_rows q" "jq_max_attempts (publish e q) = jq_max_attempts q"
  by (simp_all add: publish_def)

lemma rows_write: "jq_rows (write_row i f q) = update_where (\<lambda>r. jr_id r = i) f (jq_rows q)"
  "jq_max_attempts (write_row i f q) = jq_max_attempts q"
  by (simp_all add: write_row_def)

text \<open>What the end of a handler writes: only the row of the job, and in one of three ways.\<close>

datatype ending = Done | Retry string | Dead string

fun end_row :: "rat \<Rightarrow> nat \<Rightarrow> ending \<Rightarrow> job_row \<Rightarrow> job_row" where
  "end_row now n Done r = r\<lparr>jr_status := status_value COMPLETED, jr_finished_at := Some now, jr_lease_until := None\<rparr>"
| "end_row now n (Retry err) r = r\<lparr>jr_status := status_value QUEUED, jr_visible_at := now + BACKOFF_BASE_SECONDS ^ n,
     jr_lease_until := None, jr_error := Some err\<rparr>"
| "end_row now n (Dead err) r = r\<lparr>jr_status := ''dead'', jr_finished_at := Some now, jr_lease_until := None,
     jr_error := Some err\<rparr>"

definition ending_of :: "handlers \<Rightarrow> job_row \<Rightarrow> ending" where
  "ending_of hs r =
     (let failed = (\<lambda>err. if jr_max_attempts r \<le> jr_attempts r then Dead err else Retry err)
      in case map_of hs (jr_kind r) of
           None \<Rightarrow> failed (no_handler (jr_kind r))
         | Some h \<Rightarrow> (case h (jr_project_id r) of None \<Rightarrow> Done | Some err \<Rightarrow> failed err))"

lemma end_row_fun:
  "end_row now n Done = (\<lambda>r. r\<lparr>jr_status := status_value COMPLETED, jr_finished_at := Some now, jr_lease_until := None\<rparr>)"
  "end_row now n (Retry err) = (\<lambda>r. r\<lparr>jr_status := status_value QUEUED, jr_visible_at := now + BACKOFF_BASE_SECONDS ^ n,
     jr_lease_until := None, jr_error := Some err\<rparr>)"
  "end_row now n (Dead err) = (\<lambda>r. r\<lparr>jr_status := ''dead'', jr_finished_at := Some now, jr_lease_until := None,
     jr_error := Some err\<rparr>)"
  by (rule ext, simp)+

lemma run_job_rows:
  "jq_rows (run_job hs now r q) =
     update_where (\<lambda>x. jr_id x = jr_id r) (end_row now (jr_attempts r) (ending_of hs r)) (jq_rows q)"
  by (simp add: run_job_def ending_of_def on_failure_def finish_dead_def rows_write Let_def end_row_fun split: option.split)

lemma end_row_keeps [simp]:
  "jr_id (end_row now n e r) = jr_id r" "jr_attempts (end_row now n e r) = jr_attempts r"
  "jr_max_attempts (end_row now n e r) = jr_max_attempts r"
  "jr_kind (end_row now n e r) = jr_kind r" "jr_project_id (end_row now n e r) = jr_project_id r"
  by (cases e; simp)+

lemma end_row_status [simp]: "jr_status (end_row now n e r) \<noteq> ''running''"
  by (cases e) simp_all

lemma rows_keyed_run: "rows_keyed q \<Longrightarrow> rows_keyed (run_job hs now r q)"
  using rows_keyed_update [of q "end_row now (jr_attempts r) (ending_of hs r)" "\<lambda>x. jr_id x = jr_id r"]
  by (simp add: rows_keyed_def run_job_rows)

subsection \<open>Claims\<close>

lemma next_due_SomeD:
  assumes "rows_keyed q" and "next_due now (jq_rows q) = Some i"
  obtains r where "map_of (jq_rows q) i = Some r" and "due now r"
proof -
  obtain r rs where s: "sort_key jr_created_at (filter (due now) (map snd (jq_rows q))) = r # rs" and i: "jr_id r = i"
    using assms(2) by (auto simp: next_due_def split: list.splits)
  have "r \<in> set (filter (due now) (map snd (jq_rows q)))" using s by (metis list.set_intros(1) set_sort)
  then obtain k where k: "(k, r) \<in> set (jq_rows q)" "due now r" by auto
  then have "k = i" using assms(1) i by (auto simp: rows_keyed_def)
  then show thesis using that k assms(1) by (simp add: rows_keyed_def)
qed

lemma claim_SomeD:
  assumes "rows_keyed q" and "claim_job now q = (Some r, q')"
  obtains r0 where "map_of (jq_rows q) (jr_id r0) = Some r0" and "due now r0" and "r = take_row now r0"
    and "\<And>i. map_of (jq_rows q') i = (if i = jr_id r0 then Some r else map_of (jq_rows q) i)"
    and "rows_keyed q'" and "jq_max_attempts q' = jq_max_attempts q" and "keys (jq_rows q') = keys (jq_rows q)"
proof -
  obtain i where i: "next_due now (jq_rows q) = Some i"
    using assms(2) by (auto simp: claim_job_def split: option.splits)
  obtain r0 where r0: "map_of (jq_rows q) i = Some r0" "due now r0" using next_due_SomeD [OF assms(1) i] .
  have id: "jr_id r0 = i" by (rule rows_keyed_id [OF assms(1) r0(1)])
  let ?rows = "update_where (\<lambda>r. jr_id r = i \<and> jr_status r = status_value QUEUED) (take_row now) (jq_rows q)"
  have c: "map_of ?rows i = Some r" "q' = q\<lparr>jq_rows := ?rows\<rparr>"
    using assms(2) i by (simp_all add: claim_job_def Let_def)
  have r: "r = take_row now r0" using c(1) r0 id by (simp add: map_of_update_where due_def)
  show thesis
  proof (rule that [OF _ r0(2) r])
    show "map_of (jq_rows q) (jr_id r0) = Some r0" using r0(1) id by simp
    show "map_of (jq_rows q') j = (if j = jr_id r0 then Some r else map_of (jq_rows q) j)" for j
      using c rows_keyed_id [OF assms(1), of j] by (cases "map_of (jq_rows q) j") (auto simp: map_of_update_where id)
    show "rows_keyed q'" unfolding c(2) by (rule rows_keyed_update [OF assms(1)]) (simp add: take_row_def)
  qed (simp_all add: c(2))
qed

subsection \<open>One unexpired holder per job\<close>

text \<open>
  The invariant: a row that a worker holds within its lease is the row of the table, and no job has two
  such holders.
\<close>

definition leases_ok :: "jobs_world \<Rightarrow> bool" where
  "leases_ok w \<longleftrightarrow> rows_keyed (jw_queue w)
     \<and> (\<forall>h \<in> set (jw_held w). in_lease (jw_clock w) h \<longrightarrow>
          map_of (jq_rows (jw_queue w)) (jr_id h) = Some h \<and> jr_status h = ''running'')
     \<and> distinct (map jr_id (filter (in_lease (jw_clock w)) (jw_held w)))"

lemma in_lease_mono: "in_lease t r \<Longrightarrow> now \<le> t \<Longrightarrow> in_lease now r"
  by (auto simp: in_lease_def split: option.splits)

lemma distinct_filter_mono:
  "distinct (map f (filter P xs)) \<Longrightarrow> (\<And>x. Q x \<Longrightarrow> P x) \<Longrightarrow> distinct (map f (filter Q xs))"
  by (induction xs) (auto split: if_splits)

lemma leases_ok_heldD:
  "leases_ok w \<Longrightarrow> h \<in> set (jw_held w) \<Longrightarrow> in_lease (jw_clock w) h \<Longrightarrow>
     map_of (jq_rows (jw_queue w)) (jr_id h) = Some h \<and> jr_status h = ''running''"
  by (simp add: leases_ok_def)

text \<open>A change of the table that leaves the held rows alone keeps the invariant.\<close>

lemma leases_ok_table:
  assumes "leases_ok w" and "rows_keyed q"
    and "\<And>h. h \<in> set (jw_held w) \<Longrightarrow> in_lease (jw_clock w) h \<Longrightarrow> map_of (jq_rows (jw_queue w)) (jr_id h) = Some h \<Longrightarrow>
        jr_status h = ''running'' \<Longrightarrow> map_of (jq_rows q) (jr_id h) = Some h"
  shows "leases_ok (w\<lparr>jw_queue := q\<rparr>)"
  using assms by (simp add: leases_ok_def)

lemma leases_ok_submit: "leases_ok w \<Longrightarrow> leases_ok (w\<lparr>jw_queue := snd (sql_submit now jid pid kind (jw_queue w))\<rparr>)"
proof (rule leases_ok_table)
  assume w: "leases_ok w"
  then show "rows_keyed (snd (sql_submit now jid pid kind (jw_queue w)))"
    by (auto simp: leases_ok_def rows_keyed_def sql_submit_def Let_def map_of_None_keys simp del: set_map)
  show "map_of (jq_rows (snd (sql_submit now jid pid kind (jw_queue w)))) (jr_id h) = Some h"
    if "map_of (jq_rows (jw_queue w)) (jr_id h) = Some h" for h
    using that by (simp add: sql_submit_def Let_def)
qed

lemma leases_ok_reclaim: "leases_ok w \<Longrightarrow> leases_ok (w\<lparr>jw_queue := snd (reclaim_expired (jw_clock w) (jw_queue w))\<rparr>)"
proof (rule leases_ok_table)
  assume w: "leases_ok w"
  then show "rows_keyed (snd (reclaim_expired (jw_clock w) (jw_queue w)))"
    unfolding reclaim_expired_def snd_conv by (intro rows_keyed_update) (simp_all add: leases_ok_def)
  show "map_of (jq_rows (snd (reclaim_expired (jw_clock w) (jw_queue w)))) (jr_id h) = Some h"
    if "in_lease (jw_clock w) h" "map_of (jq_rows (jw_queue w)) (jr_id h) = Some h" for h
    using that by (auto simp: reclaim_expired_def map_of_update_where expired_def in_lease_def split: option.splits)
qed

lemma leases_ok_claim:
  assumes w: "leases_ok w" and c: "claim_job (jw_clock w) (jw_queue w) = (Some r, q)"
  shows "leases_ok (w\<lparr>jw_queue := q, jw_held := r # jw_held w\<rparr>)"
proof -
  have keyed: "rows_keyed (jw_queue w)" using w by (simp add: leases_ok_def)
  obtain r0 where r0: "map_of (jq_rows (jw_queue w)) (jr_id r0) = Some r0" "due (jw_clock w) r0"
    and r: "r = take_row (jw_clock w) r0"
    and m: "\<And>i. map_of (jq_rows q) i = (if i = jr_id r0 then Some r else map_of (jq_rows (jw_queue w)) i)"
    and k: "rows_keyed q"
    using claim_SomeD [OF keyed c] by metis
  have other: "jr_id h \<noteq> jr_id r0" if "h \<in> set (jw_held w)" "in_lease (jw_clock w) h" for h
    using leases_ok_heldD [OF w that] r0 by (auto simp: due_def)
  have "jr_id r = jr_id r0" "in_lease (jw_clock w) r" "jr_status r = ''running''"
    by (simp_all add: r take_row_def in_lease_def LEASE_SECONDS_def)
  then show ?thesis using w k m by (auto simp: leases_ok_def dest: other)
qed

lemma leases_ok_drop:
  assumes "leases_ok w" and "jw_held w = xs @ r # ys"
  shows "leases_ok (w\<lparr>jw_held := xs @ ys\<rparr>)"
  using assms by (auto simp: leases_ok_def split: if_splits)

lemma leases_ok_finish:
  assumes w: "leases_ok w" and h: "jw_held w = xs @ r # ys" and l: "in_lease (jw_clock w) r"
  shows "leases_ok (w\<lparr>jw_queue := run_job hs (jw_clock w) r (jw_queue w), jw_held := xs @ ys\<rparr>)"
proof -
  have other: "jr_id x \<noteq> jr_id r" if "x \<in> set (xs @ ys)" "in_lease (jw_clock w) x" for x
    using w h l that by (force simp: leases_ok_def)
  let ?w = "w\<lparr>jw_held := xs @ ys\<rparr>"
  have "leases_ok (?w\<lparr>jw_queue := run_job hs (jw_clock w) r (jw_queue w)\<rparr>)"
  proof (rule leases_ok_table [OF leases_ok_drop [OF w h]])
    show "rows_keyed (run_job hs (jw_clock w) r (jw_queue w))"
      using w by (intro rows_keyed_run) (simp add: leases_ok_def)
  qed (use other in \<open>auto simp: run_job_rows map_of_update_where\<close>)
  then show ?thesis by (simp add: leases_ok_def)
qed

lemma leases_ok_tick:
  assumes w: "leases_ok w" and t: "jw_clock w \<le> t"
  shows "leases_ok (w\<lparr>jw_clock := t\<rparr>)"
proof -
  note mono = in_lease_mono [OF _ t]
  have "distinct (map jr_id (filter (in_lease (jw_clock w)) (jw_held w)))" using w by (simp add: leases_ok_def)
  then have "distinct (map jr_id (filter (in_lease t) (jw_held w)))" by (rule distinct_filter_mono) (rule mono)
  moreover have "map_of (jq_rows (jw_queue w)) (jr_id h) = Some h \<and> jr_status h = ''running''"
    if "h \<in> set (jw_held w)" "in_lease t h" for h
    by (rule leases_ok_heldD [OF w that(1) mono [OF that(2)]])
  moreover have "rows_keyed (jw_queue w)" using w by (simp add: leases_ok_def)
  ultimately show ?thesis by (simp add: leases_ok_def)
qed

lemma leases_ok_step: "job_step w l w' \<Longrightarrow> leases_ok w \<Longrightarrow> l \<noteq> LLate \<Longrightarrow> leases_ok w'"
  by (induction rule: job_step.induct)
    (simp_all only: leases_ok_submit leases_ok_reclaim leases_ok_claim leases_ok_drop leases_ok_finish leases_ok_tick simp_thms)

lemma leases_ok_run: "job_run w ls w' \<Longrightarrow> leases_ok w \<Longrightarrow> LLate \<notin> set ls \<Longrightarrow> leases_ok w'"
  by (induction rule: job_run.induct) (auto intro: leases_ok_step)

text \<open>An empty table with no workers holding anything satisfies the invariant.\<close>

definition idle_world :: "nat \<Rightarrow> jobs_world" where
  "idle_world n = \<lparr>jw_queue = open_queue 0 n [], jw_held = [], jw_clock = 0\<rparr>"

lemma idle_rows: "jq_rows (jw_queue (idle_world n)) = []" "jq_max_attempts (jw_queue (idle_world n)) = n"
  by (simp_all add: idle_world_def open_queue_def reclaim_expired_def update_where_def)

lemma leases_ok_idle: "leases_ok (idle_world n)"
  unfolding leases_ok_def rows_keyed_def idle_rows by (simp add: idle_world_def)

subsection \<open>How often a job is run\<close>

text \<open>
  Without a reclaim no job is claimed more often than its attempts allow. The counts: claims in a run of
  labels, and the attempts recorded in the table.
\<close>

definition row_ok :: "nat \<Rightarrow> job_row \<Rightarrow> bool" where
  "row_ok n r \<longleftrightarrow> jr_max_attempts r = n \<and> jr_attempts r \<le> n \<and> (jr_status r = ''queued'' \<longrightarrow> jr_attempts r < n)"

definition attempts_ok :: "nat \<Rightarrow> jobs_world \<Rightarrow> bool" where
  "attempts_ok n w \<longleftrightarrow> rows_keyed (jw_queue w) \<and> jq_max_attempts (jw_queue w) = n
     \<and> (\<forall>i r. map_of (jq_rows (jw_queue w)) i = Some r \<longrightarrow> row_ok n r)
     \<and> (\<forall>h \<in> set (jw_held w). map_of (jq_rows (jw_queue w)) (jr_id h) = Some h \<and> jr_status h = ''running'')
     \<and> distinct (map jr_id (jw_held w))"

definition total_attempts :: "job_queue \<Rightarrow> nat" where
  "total_attempts q = (\<Sum>x\<leftarrow>jq_rows q. jr_attempts (snd x))"

lemma take_row_keeps: "jr_id (take_row now r) = jr_id r" "jr_attempts (take_row now r) = Suc (jr_attempts r)"
  "jr_max_attempts (take_row now r) = jr_max_attempts r" "jr_status (take_row now r) = ''running''"
  by (simp_all add: take_row_def)

lemma attempts_okD:
  assumes "attempts_ok n w"
  shows "rows_keyed (jw_queue w)" "jq_max_attempts (jw_queue w) = n" "distinct (map jr_id (jw_held w))"
    and "map_of (jq_rows (jw_queue w)) i = Some r \<Longrightarrow> row_ok n r"
    and "h \<in> set (jw_held w) \<Longrightarrow> map_of (jq_rows (jw_queue w)) (jr_id h) = Some h"
    and "h \<in> set (jw_held w) \<Longrightarrow> jr_status h = ''running''"
  using assms by (simp_all add: attempts_ok_def)

lemma attempts_okI:
  assumes "rows_keyed (jw_queue w)" "jq_max_attempts (jw_queue w) = n" "distinct (map jr_id (jw_held w))"
    and "\<And>i r. map_of (jq_rows (jw_queue w)) i = Some r \<Longrightarrow> row_ok n r"
    and "\<And>h. h \<in> set (jw_held w) \<Longrightarrow> map_of (jq_rows (jw_queue w)) (jr_id h) = Some h \<and> jr_status h = ''running''"
  shows "attempts_ok n w"
  using assms by (simp add: attempts_ok_def)

lemma total_update:
  assumes "\<And>r. jr_attempts (f r) = jr_attempts r"
  shows "(\<Sum>x\<leftarrow>update_where p f rows. jr_attempts (snd x)) = (\<Sum>x\<leftarrow>rows. jr_attempts (snd x))"
  using assms by (induction rows) (auto simp: update_where_def)

lemma total_take:
  assumes "dict_ok rows" and "\<forall>(i, r) \<in> set rows. jr_id r = i" and "map_of rows i = Some r0" and "jr_status r0 = ''queued''"
  shows "(\<Sum>x\<leftarrow>update_where (\<lambda>r. jr_id r = i \<and> jr_status r = ''queued'') (take_row now) rows. jr_attempts (snd x))
    = Suc (\<Sum>x\<leftarrow>rows. jr_attempts (snd x))"
  using assms
proof (induction rows)
  case (Cons x rows)
  obtain k r where x: "x = (k, r)" by (cases x)
  show ?case
  proof (cases "k = i")
    case True
    have "update_where (\<lambda>r. jr_id r = i \<and> jr_status r = ''queued'') (take_row now) rows = rows"
      using Cons.prems(1,2) True x by (force simp: update_where_def intro!: map_idI)
    then show ?thesis using Cons.prems True x by (simp add: take_row_keeps)
  next
    case False
    have "(\<Sum>x\<leftarrow>update_where (\<lambda>r. jr_id r = i \<and> jr_status r = ''queued'') (take_row now) rows. jr_attempts (snd x))
        = Suc (\<Sum>x\<leftarrow>rows. jr_attempts (snd x))"
      using Cons.prems False x by (intro Cons.IH) auto
    then show ?thesis using Cons.prems(2) False x by simp
  qed
qed simp

lemma total_claim:
  assumes "rows_keyed q" and "claim_job now q = (Some r, q')"
  shows "total_attempts q' = Suc (total_attempts q)"
proof -
  obtain i where i: "next_due now (jq_rows q) = Some i"
    using assms(2) by (auto simp: claim_job_def split: option.splits)
  obtain r0 where r0: "map_of (jq_rows q) i = Some r0" "due now r0" using next_due_SomeD [OF assms(1) i] .
  have "q' = q\<lparr>jq_rows := update_where (\<lambda>r. jr_id r = i \<and> jr_status r = status_value QUEUED) (take_row now) (jq_rows q)\<rparr>"
    using assms(2) i by (simp add: claim_job_def Let_def)
  then show ?thesis
    using total_take [OF _ _ r0(1)] r0(2) assms(1) by (simp add: total_attempts_def rows_keyed_def due_def)
qed

lemma attempts_ok_submit:
  assumes "attempts_ok n w" and "0 < n"
  shows "attempts_ok n (w\<lparr>jw_queue := snd (sql_submit now jid pid kind (jw_queue w))\<rparr>)"
    and "total_attempts (snd (sql_submit now jid pid kind (jw_queue w))) = total_attempts (jw_queue w)"
proof -
  show "total_attempts (snd (sql_submit now jid pid kind (jw_queue w))) = total_attempts (jw_queue w)"
    by (simp add: sql_submit_def total_attempts_def Let_def)
  have "rows_keyed (snd (sql_submit now jid pid kind (jw_queue w)))"
    using assms(1)
    by (auto simp: attempts_ok_def rows_keyed_def sql_submit_def Let_def map_of_None_keys simp del: set_map)
  moreover have "row_ok n r" if "map_of (jq_rows (snd (sql_submit now jid pid kind (jw_queue w)))) i = Some r" for i r
    using that assms by (auto simp: attempts_ok_def sql_submit_def Let_def map_add_def row_ok_def split: option.splits if_splits)
  moreover have "map_of (jq_rows (snd (sql_submit now jid pid kind (jw_queue w)))) i = Some r"
    if "map_of (jq_rows (jw_queue w)) i = Some r" for i r
    using that by (simp add: sql_submit_def Let_def)
  moreover have "jq_max_attempts (snd (sql_submit now jid pid kind (jw_queue w))) = jq_max_attempts (jw_queue w)"
    by (simp add: sql_submit_def Let_def)
  ultimately show "attempts_ok n (w\<lparr>jw_queue := snd (sql_submit now jid pid kind (jw_queue w))\<rparr>)"
    using assms(1) by (simp add: attempts_ok_def)
qed

lemma attempts_ok_claim:
  assumes w: "attempts_ok n w" and c: "claim_job now (jw_queue w) = (Some r, q)"
  shows "attempts_ok n (w\<lparr>jw_queue := q, jw_held := r # jw_held w\<rparr>)"
proof -
  note W = attempts_okD [OF w]
  obtain r0 where r0: "map_of (jq_rows (jw_queue w)) (jr_id r0) = Some r0" "due now r0"
    and r: "r = take_row now r0"
    and m: "\<And>i. map_of (jq_rows q) i = (if i = jr_id r0 then Some r else map_of (jq_rows (jw_queue w)) i)"
    and k: "rows_keyed q" "jq_max_attempts q = jq_max_attempts (jw_queue w)"
    using claim_SomeD [OF W(1) c] by metis
  have row: "row_ok n r" using W(4) [OF r0(1)] r0(2) by (simp add: r take_row_keeps row_ok_def due_def)
  have other: "jr_id h \<noteq> jr_id r0" if h: "h \<in> set (jw_held w)" for h
  proof
    assume e: "jr_id h = jr_id r0"
    have "h = r0" using W(5) [OF h] r0(1) unfolding e by simp
    then show False using W(6) [OF h] r0(2) by (simp add: due_def)
  qed
  have id: "jr_id r = jr_id r0" by (simp add: r take_row_keeps)
  show ?thesis
  proof (rule attempts_okI)
    show "distinct (map jr_id (jw_held (w\<lparr>jw_queue := q, jw_held := r # jw_held w\<rparr>)))"
    proof -
      have "jr_id r0 \<notin> jr_id ` set (jw_held w)" using other by (metis imageE)
      then show ?thesis using W(3) by (simp add: id)
    qed
    show "row_ok n x" if "map_of (jq_rows (jw_queue (w\<lparr>jw_queue := q, jw_held := r # jw_held w\<rparr>))) i = Some x" for i x
      using that row W(4) [of i x] by (simp add: m split: if_splits)
    show "map_of (jq_rows (jw_queue (w\<lparr>jw_queue := q, jw_held := r # jw_held w\<rparr>))) (jr_id h) = Some h \<and> jr_status h = ''running''"
      if "h \<in> set (jw_held (w\<lparr>jw_queue := q, jw_held := r # jw_held w\<rparr>))" for h
    proof (cases "h = r")
      case True
      then show ?thesis by (simp add: m id r take_row_keeps)
    next
      case False
      then have h: "h \<in> set (jw_held w)" using that by simp
      show ?thesis using W(5) [OF h] W(6) [OF h] other [OF h] by (simp add: m)
    qed
  qed (use k W(2) in simp_all)
qed

lemma attempts_ok_drop:
  "attempts_ok n w \<Longrightarrow> jw_held w = xs @ r # ys \<Longrightarrow> attempts_ok n (w\<lparr>jw_held := xs @ ys\<rparr>)"
  by (auto simp: attempts_ok_def)

lemma end_row_ok:
  "row_ok n x \<Longrightarrow> row_ok n r \<Longrightarrow> jr_attempts x = jr_attempts r \<Longrightarrow> row_ok n (end_row now k (ending_of hs r) x)"
  by (auto simp: row_ok_def ending_of_def Let_def split: option.split)

lemma run_job_max: "jq_max_attempts (run_job hs now r q) = jq_max_attempts q"
  by (simp add: run_job_def on_failure_def finish_dead_def rows_write Let_def split: option.split)

lemma attempts_ok_end:
  assumes w: "attempts_ok n w" and h: "jw_held w = xs @ r # ys"
  shows "attempts_ok n (w\<lparr>jw_queue := run_job hs now r (jw_queue w), jw_held := xs @ ys\<rparr>)"
    and "total_attempts (run_job hs now r (jw_queue w)) = total_attempts (jw_queue w)"
proof -
  show "total_attempts (run_job hs now r (jw_queue w)) = total_attempts (jw_queue w)"
    by (simp add: total_attempts_def run_job_rows total_update)
  have r: "map_of (jq_rows (jw_queue w)) (jr_id r) = Some r" using w h by (simp add: attempts_ok_def)
  have rr: "row_ok n r" using w r by (simp add: attempts_ok_def)
  have keyed: "rows_keyed (jw_queue w)" using w by (simp add: attempts_ok_def)
  have rows: "map_of (jq_rows (run_job hs now r (jw_queue w))) i =
      (if i = jr_id r then Some (end_row now (jr_attempts r) (ending_of hs r) r) else map_of (jq_rows (jw_queue w)) i)" for i
  proof (cases "map_of (jq_rows (jw_queue w)) i")
    case None
    then have "i \<noteq> jr_id r" using r by auto
    then show ?thesis using None by (simp add: run_job_rows map_of_update_where)
  next
    case (Some x)
    have id: "jr_id x = i" by (rule rows_keyed_id [OF keyed Some])
    show ?thesis
    proof (cases "i = jr_id r")
      case True
      then have "x = r" using Some r by simp
      then show ?thesis using Some True by (simp add: run_job_rows map_of_update_where)
    next
      case False
      then show ?thesis using Some id by (simp add: run_job_rows map_of_update_where)
    qed
  qed
  have other: "jr_id x \<noteq> jr_id r" if "x \<in> set (xs @ ys)" for x
  proof -
    have "jr_id r \<notin> jr_id ` set (xs @ ys)" using attempts_okD(3) [OF w] unfolding h by auto
    then show ?thesis using that by (metis image_eqI)
  qed
  let ?w = "w\<lparr>jw_queue := run_job hs now r (jw_queue w), jw_held := xs @ ys\<rparr>"
  show "attempts_ok n ?w"
  proof (rule attempts_okI)
    show "distinct (map jr_id (jw_held ?w))" using attempts_okD(3) [OF w] unfolding h by simp
    show "row_ok n x" if "map_of (jq_rows (jw_queue ?w)) i = Some x" for i x
      using that attempts_okD(4) [OF w, of i x] by (auto simp: rows split: if_splits intro!: end_row_ok [OF rr rr refl])
    show "map_of (jq_rows (jw_queue ?w)) (jr_id x) = Some x \<and> jr_status x = ''running''" if "x \<in> set (jw_held ?w)" for x
    proof -
      have x: "x \<in> set (xs @ ys)" "x \<in> set (jw_held w)" using that h by auto
      show ?thesis using attempts_okD(5,6) [OF w x(2)] other [OF x(1)] by (simp add: rows)
    qed
  qed (use rows_keyed_run [OF keyed] attempts_okD(2) [OF w] in \<open>simp_all add: run_job_max\<close>)
qed

lemma attempts_step:
  assumes "job_step w l w'" and "attempts_ok n w" and "l \<noteq> LReclaim" and "0 < n"
  shows "attempts_ok n w' \<and> total_attempts (jw_queue w') = total_attempts (jw_queue w) + (if l = LClaim then 1 else 0)"
  using assms
proof (induction rule: job_step.induct)
  case (claim w r q)
  then show ?case
    using attempts_ok_claim [of n w] total_claim [of "jw_queue w"] by (simp add: attempts_ok_def)
qed (simp_all add: attempts_ok_submit attempts_ok_end attempts_ok_drop, simp_all add: attempts_ok_def)

lemma attempts_run:
  assumes "job_run w ls w'" and "attempts_ok n w" and "LReclaim \<notin> set ls" and "0 < n"
  shows "attempts_ok n w' \<and> total_attempts (jw_queue w') = total_attempts (jw_queue w) + length (filter (\<lambda>l. l = LClaim) ls)"
  using assms
proof (induction rule: job_run.induct)
  case (more w ls w' l w'')
  then show ?case using attempts_step [OF more.hyps(2), of n] by auto
qed simp

lemma attempts_ok_idle: "attempts_ok n (idle_world n)"
  unfolding attempts_ok_def rows_keyed_def idle_rows by (simp add: idle_world_def)

lemma total_bound: "attempts_ok n w \<Longrightarrow> total_attempts (jw_queue w) \<le> n * length (jq_rows (jw_queue w))"
proof -
  assume w: "attempts_ok n w"
  have "jr_attempts (snd x) \<le> n" if "x \<in> set (jq_rows (jw_queue w))" for x
    using w that by (cases x) (auto simp: attempts_ok_def rows_keyed_def row_ok_def)
  then have "(\<Sum>x\<leftarrow>jq_rows (jw_queue w). jr_attempts (snd x)) \<le> (\<Sum>x\<leftarrow>jq_rows (jw_queue w). n)"
    by (rule sum_list_mono)
  then show ?thesis by (simp add: total_attempts_def sum_list_triv mult.commute)
qed

lemma claims_bounded:
  assumes "job_run (idle_world n) ls w" and "LReclaim \<notin> set ls" and "0 < n"
  shows "length (filter (\<lambda>l. l = LClaim) ls) \<le> n * length (jq_rows (jw_queue w))"
proof -
  have "attempts_ok n w \<and> total_attempts (jw_queue w) = total_attempts (jw_queue (idle_world n)) + length (filter (\<lambda>l. l = LClaim) ls)"
    by (rule attempts_run [OF assms(1) attempts_ok_idle assms(2,3)])
  then show ?thesis using total_bound [of n w] by (simp add: total_attempts_def idle_rows)
qed

subsection \<open>A job whose worker dies is retried for ever\<close>

text \<open>
  The lease brings a job back whatever its attempts say, so a job that kills its worker is claimed again
  after every reclaim. One round: reclaim, claim at once, and the worker is gone.
\<close>

definition killer_round :: "rat \<Rightarrow> job_queue \<Rightarrow> job_queue" where
  "killer_round now q = snd (claim_job now (snd (reclaim_expired now q)))"

fun killer_rounds :: "nat \<Rightarrow> rat \<Rightarrow> job_queue \<Rightarrow> job_queue" where
  "killer_rounds 0 now q = q"
| "killer_rounds (Suc k) now q = killer_rounds k (now + 1000) (killer_round (now + 1000) q)"

definition held_at :: "rat \<Rightarrow> job_row \<Rightarrow> bool" where
  "held_at now r \<longleftrightarrow> jr_status r = ''running'' \<and> jr_lease_until r = Some (now + LEASE_SECONDS)"

lemma killer_round_single:
  assumes "jq_rows q = [(jr_id r, r)]" and "held_at now r"
  shows "\<exists>r'. jq_rows (killer_round (now + 1000) q) = [(jr_id r', r')] \<and> held_at (now + 1000) r'
    \<and> jr_attempts r' = Suc (jr_attempts r) \<and> jr_max_attempts r' = jr_max_attempts r"
  using assms
  by (simp add: killer_round_def reclaim_expired_def update_where_def expired_def held_at_def LEASE_SECONDS_def claim_job_def
      next_due_def due_def take_row_def Let_def)

lemma killer_rounds_single:
  "jq_rows q = [(jr_id r, r)] \<Longrightarrow> held_at now r \<Longrightarrow>
    \<exists>r'. jq_rows (killer_rounds k now q) = [(jr_id r', r')] \<and> jr_attempts r' = jr_attempts r + k
      \<and> jr_status r' = ''running'' \<and> jr_max_attempts r' = jr_max_attempts r"
proof (induction k arbitrary: now q r)
  case 0
  then show ?case by (intro exI [of _ r]) (simp add: held_at_def)
next
  case (Suc k)
  obtain r1 where r1: "jq_rows (killer_round (now + 1000) q) = [(jr_id r1, r1)]" "held_at (now + 1000) r1"
      "jr_attempts r1 = Suc (jr_attempts r)" "jr_max_attempts r1 = jr_max_attempts r"
    using killer_round_single [OF Suc.prems] by blast
  from Suc.IH [OF r1(1,2)] show ?case by (auto simp: r1(3,4))
qed

subsection \<open>A job that keeps failing\<close>

text \<open>
  The life of one job alone in the table, whose handler always fails: it is retried with growing delays
  and dead after exactly \<open>max_attempts\<close> runs, with its last error kept.
\<close>

fun failing_turns :: "handlers \<Rightarrow> rat list \<Rightarrow> job_queue \<Rightarrow> job_queue" where
  "failing_turns hs [] q = q"
| "failing_turns hs (t # ts) q = failing_turns hs ts (worker_turn hs t t q)"

definition fails_with :: "handlers \<Rightarrow> job_row \<Rightarrow> string \<Rightarrow> bool" where
  "fails_with hs r err \<longleftrightarrow> (case map_of hs (jr_kind r) of
     None \<Rightarrow> err = no_handler (jr_kind r) | Some h \<Rightarrow> h (jr_project_id r) = Some err)"

lemma failing_turn:
  assumes "jq_rows q = [(jr_id r, r)]" and "jr_status r = ''queued''" and "jr_visible_at r \<le> t" and "fails_with hs r err"
  shows "\<exists>r'. jq_rows (worker_turn hs t t q) = [(jr_id r', r')] \<and> jr_id r' = jr_id r \<and> fails_with hs r' err
    \<and> jr_attempts r' = Suc (jr_attempts r) \<and> jr_max_attempts r' = jr_max_attempts r \<and> jr_error r' = Some err
    \<and> (if jr_max_attempts r \<le> Suc (jr_attempts r) then jr_status r' = ''dead'' \<and> jr_finished_at r' = Some t
       else jr_status r' = ''queued'' \<and> jr_visible_at r' = t + BACKOFF_BASE_SECONDS ^ Suc (jr_attempts r))"
proof -
  let ?r = "take_row t r"
  have c: "claim_job t q = (Some ?r, q\<lparr>jq_rows := [(jr_id r, ?r)]\<rparr>)"
    using assms(1-3) by (simp add: claim_job_def next_due_def due_def update_where_def Let_def)
  have e: "ending_of hs ?r = (if jr_max_attempts r \<le> Suc (jr_attempts r) then Dead err else Retry err)"
    using assms(4) by (auto simp: ending_of_def fails_with_def take_row_def Let_def split: option.splits)
  have "jq_rows (worker_turn hs t t q) = [(jr_id r, end_row t (Suc (jr_attempts r))
      (if jr_max_attempts r \<le> Suc (jr_attempts r) then Dead err else Retry err) ?r)]"
    unfolding e [symmetric] by (simp add: worker_turn_def c run_job_rows) (simp add: take_row_def)
  then show ?thesis
    using assms(4)
    by (intro exI [of _ "end_row t (Suc (jr_attempts r)) (if jr_max_attempts r \<le> Suc (jr_attempts r) then Dead err else Retry err) ?r"])
      (auto simp: take_row_def fails_with_def split: option.splits)
qed

text \<open>Each turn comes once the backoff of the previous failure has passed.\<close>

fun spaced :: "rat \<Rightarrow> nat \<Rightarrow> rat list \<Rightarrow> bool" where
  "spaced v n [] = True"
| "spaced v n (t # ts) = (v \<le> t \<and> spaced (t + BACKOFF_BASE_SECONDS ^ Suc n) (Suc n) ts)"

lemma failing_job_dies:
  assumes "jq_rows q = [(jr_id r, r)]" and "jr_status r = ''queued''" and "fails_with hs r err"
    and "length ts = jr_max_attempts r - jr_attempts r" and "jr_attempts r < jr_max_attempts r"
    and "spaced (jr_visible_at r) (jr_attempts r) ts"
  shows "\<exists>r'. jq_rows (failing_turns hs ts q) = [(jr_id r, r')] \<and> jr_status r' = ''dead''
    \<and> jr_attempts r' = jr_max_attempts r \<and> jr_error r' = Some err"
  using assms
proof (induction hs ts q arbitrary: r rule: failing_turns.induct)
  case (2 hs t ts q)
  obtain r1 where r1: "jq_rows (worker_turn hs t t q) = [(jr_id r1, r1)]" "jr_id r1 = jr_id r" "fails_with hs r1 err"
      "jr_attempts r1 = Suc (jr_attempts r)" "jr_max_attempts r1 = jr_max_attempts r" "jr_error r1 = Some err"
    and st: "if jr_max_attempts r \<le> Suc (jr_attempts r) then jr_status r1 = ''dead'' \<and> jr_finished_at r1 = Some t
       else jr_status r1 = ''queued'' \<and> jr_visible_at r1 = t + BACKOFF_BASE_SECONDS ^ Suc (jr_attempts r)"
    using failing_turn [OF 2(2,3) _ 2(4), of t] 2(7) by auto
  show ?case
  proof (cases "jr_max_attempts r \<le> Suc (jr_attempts r)")
    case True
    then have m: "jr_max_attempts r = Suc (jr_attempts r)" using 2(6) by simp
    then have "ts = []" using 2(5) by simp
    with m show ?thesis using r1 st by auto
  next
    case False
    then have "\<exists>r'. jq_rows (failing_turns hs ts (worker_turn hs t t q)) = [(jr_id r1, r')] \<and> jr_status r' = ''dead''
        \<and> jr_attempts r' = jr_max_attempts r1 \<and> jr_error r' = Some err"
      using st r1 2(5,7) by (intro "2.IH") auto
    then show ?thesis using r1 by simp
  qed
qed simp

end
