(* ===== verification/JobBoard.thy ===== *)
theory JobBoard
  imports Access JobRuns
begin

text \<open>
  The job endpoints of \<open>api/main.py\<close> over either queue: \<open>POST /projects/{id}/jobs\<close> (\<open>Access.create_job\<close>)
  answers a handle, \<open>GET /jobs/{id}\<close> reads it. The locale \<open>job_board\<close> is what the endpoints rely on of a
  queue; it is interpreted on the queue in memory and on the durable one.
\<close>

definition get_job ::
  "'s store_api \<Rightarrow> 'm member_api \<Rightarrow> (string \<Rightarrow> job option) \<Rightarrow> string \<Rightarrow> string option \<Rightarrow> 's \<Rightarrow> 'm
    \<Rightarrow> http_error + job \<times> project option" where
  "get_job so mo lookup jid user s m =
     (case lookup jid of
        None \<Rightarrow> Inl (Http 404)
      | Some j \<Rightarrow>
          (case require_project so mo (jb_project_id j) user VIEWER s m of
             Inl e \<Rightarrow> Inl e
           | Inr _ \<Rightarrow> Inr (j, so_get so s (jb_project_id j))))"

locale job_board =
  fixes jok :: "'q \<Rightarrow> bool"
    and lookup :: "'q \<Rightarrow> string \<Rightarrow> job option"
    and submit :: "rat \<Rightarrow> string \<Rightarrow> string \<Rightarrow> 'q \<Rightarrow> job option \<times> 'q"
  assumes submit_new: "jok q \<Longrightarrow> lookup q jid = None \<Longrightarrow> \<exists>j. fst (submit now jid pid q) = Some j
      \<and> jb_id j = jid \<and> jb_project_id j = pid \<and> jb_status j = QUEUED \<and> lookup (snd (submit now jid pid q)) jid = Some j"
    and submit_ok: "jok q \<Longrightarrow> lookup q jid = None \<Longrightarrow> jok (snd (submit now jid pid q))"

locale job_api =
  app sok so create mok mo + jb: job_board jok lookup submit
  for sok :: "'s \<Rightarrow> bool" and so :: "'s store_api"
    and create :: "rat \<Rightarrow> string \<Rightarrow> string \<Rightarrow> project_args \<Rightarrow> 's \<Rightarrow> (project \<times> string list) option \<times> 's"
    and mok :: "'m \<Rightarrow> bool" and mo :: "'m member_api"
    and jok :: "'q \<Rightarrow> bool" and lookup :: "'q \<Rightarrow> string \<Rightarrow> job option"
    and submit :: "rat \<Rightarrow> string \<Rightarrow> string \<Rightarrow> 'q \<Rightarrow> job option \<times> 'q" +
  assumes owner_save: "sok s \<Longrightarrow> map_option pj_owner_id (so_get so (so_save so p s) q) = map_option pj_owner_id (so_get so s q)"

context job_api
begin

lemma viewer_after_save:
  assumes "sok s" and "require_project so mo pid user EDITOR s m = Inr p"
  shows "\<exists>p'. require_project so mo pid user VIEWER (so_save so x s) m = Inr p' \<and> so_get so (so_save so x s) pid = Some p'"
proof -
  have g: "so_get so s pid = Some p" using assms(2)
    by (auto simp: require_project_def split: option.splits if_splits)
  obtain p' where p': "so_get so (so_save so x s) pid = Some p'" "pj_owner_id p' = pj_owner_id p"
    using owner_save [OF assms(1), of x pid] g by auto
  have "VIEWER \<le> held" for held :: role by (cases held) (simp_all add: less_eq_role_def)
  note viewer = this
  show ?thesis
  proof (cases user)
    case None
    then show ?thesis using assms(2) g p' by (simp add: require_project_def split: if_splits)
  next
    case (Some u)
    obtain held where "role_for pid u (pj_owner_id p) (mo_grants mo m) = Some held"
      using require_projectD [OF assms(2) [unfolded Some]] g by (metis option.inject)
    then show ?thesis using Some p' viewer by (simp add: require_project_def at_least_iff)
  qed
qed

text \<open>The handle of an accepted job can be polled by the caller who got it.\<close>

lemma handle_polls:
  assumes "sok s" and "jok q" and "lookup q jid = None"
    and "create_job so mo (submit now jid) pid user s m q = (Inr r, s', q')"
  shows "\<exists>j p. r = Some j \<and> get_job so mo (lookup q') jid user s' m = Inr (j, Some p) \<and> jb_status j = QUEUED
    \<and> jok q' \<and> pj_status p = ''queued''"
proof -
  obtain p where p: "require_project so mo pid user EDITOR s m = Inr p"
    using assms(4) by (auto simp: create_job_def split: sum.splits)
  have g: "so_get so s pid = Some p" using p
    by (auto simp: require_project_def split: option.splits if_splits)
  have id: "pj_id p = pid" by (rule st.get_id [OF assms(1) g])
  let ?x = "p\<lparr>pj_status := ''queued''\<rparr>"
  obtain j where j: "fst (submit now jid pid q) = Some j" "jb_project_id j = pid" "jb_status j = QUEUED"
      "lookup (snd (submit now jid pid q)) jid = Some j"
    using jb.submit_new [OF assms(2,3)] by blast
  have res: "r = Some j" "q' = snd (submit now jid pid q)" "s' = so_save so ?x s"
    using assms(4) p j(1) by (auto simp: create_job_def id Let_def split_beta split: if_splits)
  obtain p' where p': "require_project so mo pid user VIEWER s' m = Inr p'" "so_get so s' pid = Some p'"
    using viewer_after_save [OF assms(1) p, of ?x] unfolding res(3) by blast
  have "map_option run_view (so_get so s' pid) = map_option (\<lambda>x. (''queued'', pj_run_started_at x)) (so_get so s pid)"
    unfolding res(3) by (subst st.view_save [OF assms(1)]) (simp add: id)
  then have "pj_status p' = ''queued''" using p'(2) g by (simp add: run_view_def)
  then show ?thesis
    using j res p' jb.submit_ok [OF assms(2,3)] by (simp add: get_job_def)
qed

end

subsection \<open>The queue in memory\<close>

definition mq_ok :: "mem_queue \<Rightarrow> bool" where
  "mq_ok q \<longleftrightarrow> 0 < mq_capacity q \<and> length (mq_order q) \<le> mq_capacity q \<and> distinct (mq_order q)
     \<and> set (keys (mq_jobs q)) = set (mq_order q)"

lemma mq_evict_once:
  assumes "length order \<le> Suc cap"
  shows "mq_evict cap order jobs = (if cap < length order then (tl order, AList.delete (hd order) jobs) else (order, jobs))"
proof (cases order)
  case (Cons i rest)
  then show ?thesis using assms by (cases rest) auto
qed simp

definition mem_submit_opt :: "rat \<Rightarrow> string \<Rightarrow> string \<Rightarrow> mem_queue \<Rightarrow> job option \<times> mem_queue" where
  "mem_submit_opt now jid pid q = (let (j, q) = mem_submit now jid pid q in (Some j, q))"

lemma mem_submit_cases:
  assumes ok: "mq_ok q" and new: "mem_job q jid = None"
  obtains j order jobs where "mem_submit now jid pid q = (j, q\<lparr>mq_jobs := jobs, mq_order := order,
        mq_events := mq_events q @ [job_event JOB_QUEUED now pid jid []]\<rparr>)"
    and "jb_id j = jid" "jb_project_id j = pid" "jb_status j = QUEUED" "map_of jobs jid = Some j"
    and "distinct order" "set (keys jobs) = set order" "length order \<le> mq_capacity q"
proof -
  let ?j = "\<lparr>jb_id = jid, jb_project_id = pid, jb_status = QUEUED, jb_created_at = now, jb_started_at = None,
            jb_finished_at = None, jb_error = None\<rparr>"
  let ?up = "AList.update jid ?j (mq_jobs q)"
  have fresh: "jid \<notin> set (mq_order q)"
    using new ok unfolding mem_job_def mq_ok_def by (metis map_of_None_keys)
  have ku: "set (keys ?up) = insert jid (set (mq_order q))"
    using ok unfolding keys_dict_update mq_ok_def by blast
  have len: "length (mq_order q @ [jid]) \<le> Suc (mq_capacity q)" using ok by (simp add: mq_ok_def)
  note ev = mq_evict_once [OF len, of ?up]
  show thesis
  proof (cases "mq_capacity q < length (mq_order q @ [jid])")
    case False
    show thesis
    proof (rule that)
      show "mem_submit now jid pid q = (?j, q\<lparr>mq_jobs := ?up, mq_order := mq_order q @ [jid],
          mq_events := mq_events q @ [job_event JOB_QUEUED now pid jid []]\<rparr>)"
        using ev False by (simp add: mem_submit_def Let_def)
      show "set (keys ?up) = set (mq_order q @ [jid])" unfolding ku by simp
    qed (use ok fresh False in \<open>simp_all add: mq_ok_def\<close>)
  next
    case True
    then have "mq_order q \<noteq> []" using ok by (auto simp: mq_ok_def)
    then obtain i rest where o': "mq_order q = i # rest" by (cases "mq_order q") auto
    have ne: "i \<noteq> jid" using fresh o' by auto
    show thesis
    proof (rule that)
      show "mem_submit now jid pid q = (?j, q\<lparr>mq_jobs := AList.delete i ?up, mq_order := rest @ [jid],
          mq_events := mq_events q @ [job_event JOB_QUEUED now pid jid []]\<rparr>)"
        using ev True by (simp add: mem_submit_def Let_def o')
      have "set (keys (AList.delete i ?up)) = insert jid (set (mq_order q)) - {i}"
        unfolding keys_dict_delete ku by blast
      also have "\<dots> = set (rest @ [jid])" using ok ne unfolding o' mq_ok_def by auto
      finally show "set (keys (AList.delete i ?up)) = set (rest @ [jid])" .
    qed (use ok fresh o' ne in \<open>auto simp: mq_ok_def\<close>)
  qed
qed

interpretation mem_jobs: job_board mq_ok mem_job mem_submit_opt
proof unfold_locales
  fix q :: mem_queue and now :: rat and jid pid :: string
  assume ok: "mq_ok q" and new: "mem_job q jid = None"
  obtain j order jobs where c: "mem_submit now jid pid q = (j, q\<lparr>mq_jobs := jobs, mq_order := order,
        mq_events := mq_events q @ [job_event JOB_QUEUED now pid jid []]\<rparr>)"
    and j: "jb_id j = jid" "jb_project_id j = pid" "jb_status j = QUEUED" "map_of jobs jid = Some j"
    and o': "distinct order" "set (keys jobs) = set order" "length order \<le> mq_capacity q"
    by (rule mem_submit_cases [OF ok new])
  show "\<exists>j. fst (mem_submit_opt now jid pid q) = Some j \<and> jb_id j = jid \<and> jb_project_id j = pid \<and> jb_status j = QUEUED
      \<and> mem_job (snd (mem_submit_opt now jid pid q)) jid = Some j"
    using j by (simp add: mem_submit_opt_def c mem_job_def)
  show "mq_ok (snd (mem_submit_opt now jid pid q))"
    using o' ok unfolding mem_submit_opt_def c by (simp add: mq_ok_def)
qed

subsection \<open>The durable queue\<close>

definition submit_run :: "rat \<Rightarrow> string \<Rightarrow> string \<Rightarrow> job_queue \<Rightarrow> job option \<times> job_queue" where
  "submit_run now jid pid q = sql_submit now jid pid ''run'' q"

text \<open>Every status in the table is one the code writes, so every row reads as a job.\<close>

definition statuses_ok :: "job_queue \<Rightarrow> bool" where
  "statuses_ok q \<longleftrightarrow> rows_keyed q
     \<and> list_all (\<lambda>(i, r). jr_status r \<in> {''queued'', ''running'', ''completed'', ''dead''}) (jq_rows q)"

lemma parse_status_value [simp]: "parse_status (status_value s) = Some s"
  by (cases s) (simp_all add: parse_status_def)

lemma job_of_row_Some:
  "jr_status r \<in> {''queued'', ''running'', ''completed'', ''dead''} \<Longrightarrow> job_of_row r \<noteq> None"
  by (auto simp: job_of_row_def parse_status_def)

lemma statuses_ok_lookup: "statuses_ok q \<Longrightarrow> sql_job q jid = None \<Longrightarrow> map_of (jq_rows q) jid = None"
  using job_of_row_Some by (fastforce simp: sql_job_def statuses_ok_def list_all_iff dest: map_of_SomeD split: option.splits)

interpretation sql_jobs: job_board statuses_ok sql_job submit_run
proof unfold_locales
  fix q :: job_queue and now :: rat and jid pid :: string
  assume ok: "statuses_ok q" and new: "sql_job q jid = None"
  have n: "map_of (jq_rows q) jid = None" by (rule statuses_ok_lookup [OF ok new])
  show "\<exists>j. fst (submit_run now jid pid q) = Some j \<and> jb_id j = jid \<and> jb_project_id j = pid \<and> jb_status j = QUEUED
      \<and> sql_job (snd (submit_run now jid pid q)) jid = Some j"
    using n by (simp add: submit_run_def sql_submit_def sql_job_def job_of_row_def Let_def parse_status_def map_add_def)
  show "statuses_ok (snd (submit_run now jid pid q))"
    using ok n by (auto simp: submit_run_def sql_submit_def statuses_ok_def rows_keyed_def Let_def map_of_None_keys simp del: set_map)
qed

subsection \<open>The two deployments\<close>

interpretation mem_job_api: job_api mem_ok MEM_STORE mem_create grants_ok MEM_MEMBERS mq_ok mem_job mem_submit_opt
  by unfold_locales (auto simp: api_defs mem_get_def mem_save_def write_fields_def split: option.splits)

interpretation sql_job_api: job_api rows_ok SQL_STORE sql_create sql_ok SQL_MEMBERS statuses_ok sql_job submit_run
proof -
  have "map_option pj_owner_id (sql_get (sql_save p s) q) = map_option pj_owner_id (sql_get s q)" for p s q
    unfolding sql_save_def sql_get_update by (cases "map_of (ss_rows s) q") (auto simp: sql_get_def row_to_project_def write_fields_def)
  then have "job_api_axioms rows_ok SQL_STORE" by unfold_locales (simp add: api_defs)
  then show "job_api rows_ok SQL_STORE sql_create sql_ok SQL_MEMBERS statuses_ok sql_job submit_run"
    using sql_app.app_axioms sql_jobs.job_board_axioms by (simp add: job_api_def)
qed

end
