(* ===== verification/Accounts.thy ===== *)
theory Accounts
  imports PyStr Prelude
begin

text \<open>
  \<open>api/accounts.py\<close>: users, sessions and password resets. PBKDF2 and SHA-256 are arguments
  (\<open>auth_env\<close>), as are the random tokens, salts and ids and the clock. A stored hash is ASCII, so the
  constant-time comparison is equality. A statement the database rejects because a key is taken is
  \<open>None\<close> or \<open>EmailTaken\<close>.
\<close>

definition PBKDF2_ITERATIONS :: nat where "PBKDF2_ITERATIONS = 600000"
definition SESSION_TTL_SECONDS :: rat where "SESSION_TTL_SECONDS = 14 * 24 * 3600"
definition RESET_TTL_SECONDS :: rat where "RESET_TTL_SECONDS = 3600"
definition MIN_PASSWORD_LENGTH :: nat where "MIN_PASSWORD_LENGTH = 12"

text \<open>\<open>ae_kdf password salt iterations\<close> is the digest in hexadecimal.\<close>

record auth_env =
  ae_kdf :: "string \<Rightarrow> nat list \<Rightarrow> nat \<Rightarrow> string"
  ae_sha256 :: "string \<Rightarrow> string"

subsection \<open>Passwords\<close>

definition hex_digit :: "nat \<Rightarrow> char" where
  "hex_digit n = (if n < 10 then char_of (48 + n) else char_of (87 + n))"

definition to_hex :: "nat list \<Rightarrow> string" where
  "to_hex bs = concat (map (\<lambda>b. [hex_digit (b div 16), hex_digit (b mod 16)]) bs)"

definition hex_val :: "char \<Rightarrow> nat option" where
  "hex_val c =
     (if is_digit c then Some (code c - 48)
      else if 97 \<le> code c \<and> code c \<le> 102 then Some (code c - 87)
      else if 65 \<le> code c \<and> code c \<le> 70 then Some (code c - 55) else None)"

text \<open>\<open>bytes.fromhex\<close> skips ASCII white space between bytes.\<close>

definition hex_space :: "char \<Rightarrow> bool" where
  "hex_space c \<longleftrightarrow> (9 \<le> code c \<and> code c \<le> 13) \<or> code c = 32"

fun from_hex :: "string \<Rightarrow> nat list option" where
  "from_hex [] = Some []"
| "from_hex [c] = (if hex_space c then Some [] else None)"
| "from_hex (c # d # cs) =
     (if hex_space c then from_hex (d # cs)
      else case (hex_val c, hex_val d) of
             (Some a, Some b) \<Rightarrow> map_option (\<lambda>bs. (16 * a + b) # bs) (from_hex cs)
           | _ \<Rightarrow> None)"

text \<open>\<open>int(s)\<close> in base ten: blanks around, one sign, underscores between digits.\<close>

definition py_int :: "string \<Rightarrow> int option" where
  "py_int s =
     (let s = strip s;
          (neg, body) = (case s of c # cs \<Rightarrow> if c = CHR ''-'' then (True, cs) else if c = CHR ''+'' then (False, cs) else (False, s)
                         | [] \<Rightarrow> (False, s));
          parts = split_on CHR ''_'' body
      in if list_all all_digits parts
         then Some ((if neg then - 1 else 1) * int (nat_of_str (concat parts))) else None)"

definition hash_password :: "auth_env \<Rightarrow> nat list \<Rightarrow> string \<Rightarrow> string" where
  "hash_password env salt pw =
     ''pbkdf2_sha256'' @ CHR ''$'' # str_of_nat PBKDF2_ITERATIONS @ CHR ''$'' # to_hex salt @ CHR ''$'' #
       ae_kdf env pw salt PBKDF2_ITERATIONS"

text \<open>Fewer than one iteration is a \<open>ValueError\<close> of \<open>pbkdf2_hmac\<close>.\<close>

definition verify_password :: "auth_env \<Rightarrow> string \<Rightarrow> string \<Rightarrow> bool" where
  "verify_password env pw encoded =
     (case split_on CHR ''$'' encoded of
        [algorithm, iterations, salt_hex, hash_hex] \<Rightarrow>
          algorithm = ''pbkdf2_sha256'' \<and>
          (case (from_hex salt_hex, py_int iterations) of
             (Some salt, Some n) \<Rightarrow> 1 \<le> n \<and> ae_kdf env pw salt (nat n) = hash_hex
           | _ \<Rightarrow> False)
      | _ \<Rightarrow> False)"

subsection \<open>Input checks\<close>

datatype account_error = BadEmail | ShortPassword | LongPassword | EmailTaken | InvalidCredentials

text \<open>\<open>^[^@\s]+@[^@\s]+\.[^@\s]+$\<close>; a trailing newline has been stripped.\<close>

definition email_re :: "string \<Rightarrow> bool" where
  "email_re s =
     (list_all (\<lambda>c. \<not> is_space c) s \<and>
      (case split_on CHR ''@'' s of
         [l, d] \<Rightarrow> l \<noteq> [] \<and> CHR ''.'' \<in> set (butlast (tl d))
       | _ \<Rightarrow> False))"

definition validate_email :: "string \<Rightarrow> account_error + string" where
  "validate_email email =
     (let e = lower (strip email) in if \<not> email_re e \<or> 254 < length e then Inl BadEmail else Inr e)"

definition validate_password :: "string \<Rightarrow> account_error + string" where
  "validate_password pw =
     (if length pw < MIN_PASSWORD_LENGTH then Inl ShortPassword
      else if 1024 < length pw then Inl LongPassword else Inr pw)"

subsection \<open>The store\<close>

record user =
  us_id :: string
  us_email :: string
  us_created_at :: rat

record user_row =
  ur_email :: string
  ur_password_hash :: string
  ur_created_at :: rat

record token_row =
  tk_user_id :: string
  tk_created_at :: rat
  tk_expires_at :: rat

record account_db =
  ad_users :: "(string, user_row) dict"
  ad_sessions :: "(string, token_row) dict"
  ad_resets :: "(string, token_row) dict"

definition user_of :: "string \<Rightarrow> user_row \<Rightarrow> user" where
  "user_of i r = \<lparr>us_id = i, us_email = ur_email r, us_created_at = ur_created_at r\<rparr>"

definition find_email :: "string \<Rightarrow> account_db \<Rightarrow> (string \<times> user_row) option" where
  "find_email e db = find (\<lambda>(i, r). ur_email r = e) (ad_users db)"

definition create_user ::
  "auth_env \<Rightarrow> rat \<Rightarrow> string \<Rightarrow> nat list \<Rightarrow> string \<Rightarrow> string \<Rightarrow> account_db \<Rightarrow> (account_error + user) \<times> account_db" where
  "create_user env now uid salt email pw db =
     (case validate_email email of
        Inl e \<Rightarrow> (Inl e, db)
      | Inr email \<Rightarrow>
          (case validate_password pw of
             Inl e \<Rightarrow> (Inl e, db)
           | Inr _ \<Rightarrow>
               if map_of (ad_users db) uid \<noteq> None \<or> find_email email db \<noteq> None then (Inl EmailTaken, db)
               else let r = \<lparr>ur_email = email, ur_password_hash = hash_password env salt pw, ur_created_at = now\<rparr>
                    in (Inr (user_of uid r), db\<lparr>ad_users := ad_users db @ [(uid, r)]\<rparr>)))"

definition authenticate :: "auth_env \<Rightarrow> string \<Rightarrow> string \<Rightarrow> account_db \<Rightarrow> account_error + user" where
  "authenticate env email pw db =
     (let email = (case validate_email email of Inl _ \<Rightarrow> [] | Inr e \<Rightarrow> e)
      in case find_email email db of
           None \<Rightarrow> Inl InvalidCredentials
         | Some (i, r) \<Rightarrow>
             if \<not> verify_password env pw (ur_password_hash r) then Inl InvalidCredentials else Inr (user_of i r))"

definition get_user :: "string \<Rightarrow> account_db \<Rightarrow> user option" where
  "get_user uid db = map_option (user_of uid) (map_of (ad_users db) uid)"

definition get_user_by_email :: "string \<Rightarrow> account_db \<Rightarrow> user option" where
  "get_user_by_email email db =
     (case validate_email email of
        Inl _ \<Rightarrow> None
      | Inr e \<Rightarrow> map_option (\<lambda>(i, r). user_of i r) (find_email e db))"

definition create_session ::
  "auth_env \<Rightarrow> rat \<Rightarrow> rat \<Rightarrow> string \<Rightarrow> string \<Rightarrow> account_db \<Rightarrow> string option \<times> account_db" where
  "create_session env now ttl token uid db =
     (let h = ae_sha256 env token
      in if map_of (ad_sessions db) h \<noteq> None then (None, db)
         else (Some token, db\<lparr>ad_sessions := ad_sessions db @
                 [(h, \<lparr>tk_user_id = uid, tk_created_at = now, tk_expires_at = now + ttl\<rparr>)]\<rparr>))"

definition delete_session :: "auth_env \<Rightarrow> string \<Rightarrow> account_db \<Rightarrow> account_db" where
  "delete_session env token db = db\<lparr>ad_sessions := filter (\<lambda>(h, r). h \<noteq> ae_sha256 env token) (ad_sessions db)\<rparr>"

definition user_for_session :: "auth_env \<Rightarrow> rat \<Rightarrow> string \<Rightarrow> account_db \<Rightarrow> user option \<times> account_db" where
  "user_for_session env now token db =
     (if token = [] then (None, db)
      else case map_of (ad_sessions db) (ae_sha256 env token) of
             None \<Rightarrow> (None, db)
           | Some r \<Rightarrow>
               if tk_expires_at r < now then (None, delete_session env token db)
               else (get_user (tk_user_id r) db, db))"

definition purge_expired_sessions :: "rat \<Rightarrow> account_db \<Rightarrow> nat \<times> account_db" where
  "purge_expired_sessions now db =
     (length (filter (\<lambda>(h, r). tk_expires_at r < now) (ad_sessions db)),
      db\<lparr>ad_sessions := filter (\<lambda>(h, r). \<not> tk_expires_at r < now) (ad_sessions db)\<rparr>)"

definition delete_sessions_for_user :: "string \<Rightarrow> account_db \<Rightarrow> nat \<times> account_db" where
  "delete_sessions_for_user uid db =
     (length (filter (\<lambda>(h, r). tk_user_id r = uid) (ad_sessions db)),
      db\<lparr>ad_sessions := filter (\<lambda>(h, r). tk_user_id r \<noteq> uid) (ad_sessions db)\<rparr>)"

definition delete_user :: "string \<Rightarrow> account_db \<Rightarrow> bool \<times> account_db" where
  "delete_user uid db =
     (map_of (ad_users db) uid \<noteq> None,
      \<lparr>ad_users = filter (\<lambda>(i, r). i \<noteq> uid) (ad_users db),
       ad_sessions = filter (\<lambda>(h, r). tk_user_id r \<noteq> uid) (ad_sessions db),
       ad_resets = filter (\<lambda>(h, r). tk_user_id r \<noteq> uid) (ad_resets db)\<rparr>)"

definition set_password :: "auth_env \<Rightarrow> nat list \<Rightarrow> string \<Rightarrow> string \<Rightarrow> account_db \<Rightarrow> (account_error + unit) \<times> account_db" where
  "set_password env salt uid pw db =
     (case validate_password pw of
        Inl e \<Rightarrow> (Inl e, db)
      | Inr _ \<Rightarrow> (Inr (), db\<lparr>ad_users := map (\<lambda>(i, r). (i, if i = uid then r\<lparr>ur_password_hash := hash_password env salt pw\<rparr> else r))
                      (ad_users db)\<rparr>))"

text \<open>Delete and insert in one transaction: a rejected insert rolls the delete back.\<close>

definition create_reset_token ::
  "auth_env \<Rightarrow> rat \<Rightarrow> rat \<Rightarrow> string \<Rightarrow> string \<Rightarrow> account_db \<Rightarrow> string option \<times> account_db" where
  "create_reset_token env now ttl token uid db =
     (let rs = filter (\<lambda>(h, r). tk_user_id r \<noteq> uid) (ad_resets db); h = ae_sha256 env token
      in if map_of rs h \<noteq> None then (None, db)
         else (Some token, db\<lparr>ad_resets := rs @ [(h, \<lparr>tk_user_id = uid, tk_created_at = now, tk_expires_at = now + ttl\<rparr>)]\<rparr>))"

definition consume_reset_token :: "auth_env \<Rightarrow> rat \<Rightarrow> string \<Rightarrow> account_db \<Rightarrow> string option \<times> account_db" where
  "consume_reset_token env now token db =
     (if token = [] then (None, db)
      else let h = ae_sha256 env token in
        case map_of (ad_resets db) h of
          None \<Rightarrow> (None, db)
        | Some r \<Rightarrow>
            (if tk_expires_at r < now then None else Some (tk_user_id r),
             db\<lparr>ad_resets := filter (\<lambda>(k, r). k \<noteq> h) (ad_resets db)\<rparr>))"

text \<open>\<open>auth_enabled\<close>: the environment variable, \<open>none\<close> when unset.\<close>

definition auth_enabled :: "string option \<Rightarrow> bool" where
  "auth_enabled v \<longleftrightarrow> lower (strip (case v of None \<Rightarrow> ''none'' | Some s \<Rightarrow> s)) = ''session''"

subsection \<open>The hash of a password verifies exactly that password\<close>

lemma hex_val_digit [simp]: "n < 16 \<Longrightarrow> hex_val (hex_digit n) = Some n"
  by (auto simp: hex_val_def hex_digit_def is_digit_def of_char_of)

lemma hex_digit_plain: "n < 16 \<Longrightarrow> \<not> hex_space (hex_digit n)" "n < 16 \<Longrightarrow> hex_digit n \<noteq> CHR ''$''"
proof -
  assume "n < 16"
  then have "code (hex_digit n) = (if n < 10 then 48 + n else 87 + n)" by (simp add: hex_digit_def of_char_of)
  then show "\<not> hex_space (hex_digit n)" and "hex_digit n \<noteq> CHR ''$''"
    by (auto simp: hex_space_def split: if_splits)
qed

lemma from_to_hex: "list_all (\<lambda>b. b < 256) bs \<Longrightarrow> from_hex (to_hex bs) = Some bs"
proof (induction bs)
  case (Cons b bs)
  have b: "b div 16 < 16" "b mod 16 < 16" using Cons.prems by auto
  have "to_hex (b # bs) = hex_digit (b div 16) # hex_digit (b mod 16) # to_hex bs" by (simp add: to_hex_def)
  then show ?case using Cons b by (simp add: hex_digit_plain)
qed (simp add: to_hex_def)

lemma to_hex_no_dollar: "list_all (\<lambda>b. b < 256) bs \<Longrightarrow> CHR ''$'' \<notin> set (to_hex bs)"
proof -
  assume "list_all (\<lambda>b. b < 256) bs"
  then have "\<forall>b \<in> set bs. b div 16 < 16 \<and> b mod 16 < 16" by (auto simp: list_all_iff)
  then show ?thesis using hex_digit_plain(2) [THEN not_sym] by (auto simp: to_hex_def)
qed

lemma strip_digits: "all_digits s \<Longrightarrow> strip s = s"
proof -
  assume a: "all_digits s"
  then have "s \<noteq> []" "\<forall>c \<in> set s. \<not> is_space c"
    by (auto simp: all_digits_def list_all_iff is_digit_def is_space_def)
  then show ?thesis by (intro strip_by_id) auto
qed

lemma py_int_str: "py_int (str_of_nat n) = Some (int n)"
proof -
  have d: "all_digits (str_of_nat n)" by simp
  have u: "CHR ''_'' \<notin> set (str_of_nat n)" using digits_str_of_nat [of "CHR ''_''" n] by (auto simp: is_digit_def)
  obtain c cs where c: "str_of_nat n = c # cs" by (cases "str_of_nat n") simp_all
  have "is_digit c" using digits_str_of_nat [of c n] c by simp
  then have "c \<noteq> CHR ''-''" "c \<noteq> CHR ''+''" by (auto simp: is_digit_def)
  then have sign: "(case str_of_nat n of c # cs \<Rightarrow> if c = CHR ''-'' then (True, cs) else if c = CHR ''+'' then (False, cs)
      else (False, str_of_nat n) | [] \<Rightarrow> (False, str_of_nat n)) = (False, str_of_nat n)" by (simp add: c)
  show ?thesis
    unfolding py_int_def strip_digits [OF d] Let_def sign prod.case split_on_plain [OF u] by simp
qed

definition digest_ok :: "auth_env \<Rightarrow> bool" where
  "digest_ok env \<longleftrightarrow> (\<forall>pw salt n. CHR ''$'' \<notin> set (ae_kdf env pw salt n))"

lemma verify_hash:
  assumes "digest_ok env" and "list_all (\<lambda>b. b < 256) salt"
  shows "verify_password env pw' (hash_password env salt pw) \<longleftrightarrow>
    ae_kdf env pw' salt PBKDF2_ITERATIONS = ae_kdf env pw salt PBKDF2_ITERATIONS"
proof -
  have dig: "CHR ''$'' \<notin> set (str_of_nat PBKDF2_ITERATIONS)"
    using digits_str_of_nat [of "CHR ''$''"] by (auto simp: is_digit_def)
  have "CHR ''$'' \<notin> set (ae_kdf env pw salt PBKDF2_ITERATIONS)" using assms(1) by (simp add: digest_ok_def)
  then have s: "split_on CHR ''$'' (hash_password env salt pw) =
      [''pbkdf2_sha256'', str_of_nat PBKDF2_ITERATIONS, to_hex salt, ae_kdf env pw salt PBKDF2_ITERATIONS]"
    unfolding hash_password_def
    by (simp add: split_on_append dig to_hex_no_dollar [OF assms(2)] split_on_plain
        split_on_append [of _ "''pbkdf2_sha256''", simplified])
  show ?thesis
    by (simp add: verify_password_def s from_to_hex [OF assms(2)] py_int_str) (simp add: PBKDF2_ITERATIONS_def)
qed

subsection \<open>Who a token stands for\<close>

text \<open>The rows whose owner is a given user.\<close>

definition tokens_of :: "string \<Rightarrow> (string, token_row) dict \<Rightarrow> string list" where
  "tokens_of uid rows = map fst (filter (\<lambda>(h, r). tk_user_id r = uid) rows)"

lemma tokens_of_Nil: "tokens_of uid rows = [] \<longleftrightarrow> (\<forall>(h, r) \<in> set rows. tk_user_id r \<noteq> uid)"
  by (auto simp: tokens_of_def filter_empty_conv)

lemma tokens_of_mem: "(h, r) \<in> set rows \<Longrightarrow> tokens_of (tk_user_id r) rows \<noteq> []"
  by (auto simp: tokens_of_def filter_empty_conv)

lemma session_user:
  assumes "fst (user_for_session env now token db) = Some u"
  shows "tokens_of (us_id u) (ad_sessions db) \<noteq> []" and "map_of (ad_users db) (us_id u) \<noteq> None"
proof -
  obtain r z where r: "map_of (ad_sessions db) (ae_sha256 env token) = Some r"
    and z: "map_of (ad_users db) (tk_user_id r) = Some z" "us_id u = tk_user_id r"
    using assms by (auto simp: user_for_session_def get_user_def user_of_def split: if_splits option.splits)
  show "tokens_of (us_id u) (ad_sessions db) \<noteq> []" using tokens_of_mem [OF map_of_SomeD [OF r]] z(2) by simp
  show "map_of (ad_users db) (us_id u) \<noteq> None" using z by simp
qed

text \<open>Every change of the three tables, as one step.\<close>

datatype account_op =
    CreateUser rat string "nat list" string string
  | CreateSession rat rat string string
  | ResolveSession rat string
  | DeleteSession string
  | PurgeSessions rat
  | SignOutUser string
  | DeleteUser string
  | SetPassword "nat list" string string
  | CreateReset rat rat string string
  | ConsumeReset rat string

fun account_step :: "auth_env \<Rightarrow> account_op \<Rightarrow> account_db \<Rightarrow> account_db" where
  "account_step env (CreateUser now uid salt email pw) db = snd (create_user env now uid salt email pw db)"
| "account_step env (CreateSession now ttl token uid) db = snd (create_session env now ttl token uid db)"
| "account_step env (ResolveSession now token) db = snd (user_for_session env now token db)"
| "account_step env (DeleteSession token) db = delete_session env token db"
| "account_step env (PurgeSessions now) db = snd (purge_expired_sessions now db)"
| "account_step env (SignOutUser uid) db = snd (delete_sessions_for_user uid db)"
| "account_step env (DeleteUser uid) db = snd (delete_user uid db)"
| "account_step env (SetPassword salt uid pw) db = snd (set_password env salt uid pw db)"
| "account_step env (CreateReset now ttl token uid) db = snd (create_reset_token env now ttl token uid db)"
| "account_step env (ConsumeReset now token) db = snd (consume_reset_token env now token db)"

definition account_run :: "auth_env \<Rightarrow> account_op list \<Rightarrow> account_db \<Rightarrow> account_db" where
  "account_run env ops db = foldl (\<lambda>db x. account_step env x db) db ops"

definition signs_in :: "string \<Rightarrow> account_op \<Rightarrow> bool" where
  "signs_in uid x \<longleftrightarrow> (case x of CreateSession now ttl token u \<Rightarrow> u = uid | _ \<Rightarrow> False)"

lemma step_no_session:
  assumes "tokens_of uid (ad_sessions db) = []" and "\<not> signs_in uid x"
  shows "tokens_of uid (ad_sessions (account_step env x db)) = []"
  using assms unfolding tokens_of_Nil
  by (cases x)
    (auto simp: signs_in_def create_user_def create_session_def user_for_session_def delete_session_def
      purge_expired_sessions_def delete_sessions_for_user_def delete_user_def set_password_def create_reset_token_def
      consume_reset_token_def Let_def split: sum.splits option.splits)

lemma run_no_session:
  "tokens_of uid (ad_sessions db) = [] \<Longrightarrow> list_all (\<lambda>x. \<not> signs_in uid x) ops \<Longrightarrow>
     tokens_of uid (ad_sessions (account_run env ops db)) = []"
  unfolding account_run_def by (induction ops arbitrary: db) (simp_all add: step_no_session)

lemma signed_out: "tokens_of uid (ad_sessions (snd (delete_sessions_for_user uid db))) = []"
  by (auto simp: tokens_of_Nil delete_sessions_for_user_def)

text \<open>A reset row, once gone, comes back only by issuing a token with the same hash.\<close>

definition issues :: "auth_env \<Rightarrow> string \<Rightarrow> account_op \<Rightarrow> bool" where
  "issues env token x \<longleftrightarrow> (case x of CreateReset now ttl t u \<Rightarrow> ae_sha256 env t = ae_sha256 env token | _ \<Rightarrow> False)"

lemma map_of_filter_None: "map_of d k = None \<Longrightarrow> map_of (filter P d) k = None"
  by (induction d) (auto split: if_splits)

lemma map_of_filter_out: "map_of (filter (\<lambda>(k, r). k \<noteq> h) d) h = None"
  by (induction d) auto

lemma step_no_reset:
  assumes "map_of (ad_resets db) (ae_sha256 env token) = None" and "\<not> issues env token x"
  shows "map_of (ad_resets (account_step env x db)) (ae_sha256 env token) = None"
  using assms
  by (cases x)
    (auto simp: issues_def create_user_def create_session_def user_for_session_def delete_session_def
      purge_expired_sessions_def delete_sessions_for_user_def delete_user_def set_password_def create_reset_token_def
      consume_reset_token_def Let_def map_add_def map_of_filter_None simp del: map_of_eq_None_iff split: sum.splits option.splits)

lemma run_no_reset:
  "map_of (ad_resets db) (ae_sha256 env token) = None \<Longrightarrow> list_all (\<lambda>x. \<not> issues env token x) ops \<Longrightarrow>
     map_of (ad_resets (account_run env ops db)) (ae_sha256 env token) = None"
  unfolding account_run_def by (induction ops arbitrary: db) (simp_all add: step_no_reset del: map_of_eq_None_iff)

lemma consumed_gone:
  "token \<noteq> [] \<Longrightarrow> map_of (ad_resets (snd (consume_reset_token env now token db))) (ae_sha256 env token) = None"
  by (simp add: consume_reset_token_def Let_def map_of_filter_out del: map_of_eq_None_iff split: option.split)

lemma consume_absent:
  "map_of (ad_resets db) (ae_sha256 env token) = None \<Longrightarrow> fst (consume_reset_token env now token db) = None"
  by (simp add: consume_reset_token_def Let_def)

lemma reset_replay_refused:
  assumes "list_all (\<lambda>x. \<not> issues env token x) ops"
  shows "fst (consume_reset_token env later token (account_run env ops (snd (consume_reset_token env now token db)))) = None"
proof (cases "token = []")
  case True
  then show ?thesis by (simp add: consume_reset_token_def)
next
  case False
  show ?thesis
    by (rule consume_absent [OF run_no_reset [OF consumed_gone [OF False] assms]])
qed

subsection \<open>The invariant of the tables\<close>

definition accounts_ok :: "account_db \<Rightarrow> bool" where
  "accounts_ok db \<longleftrightarrow> dict_ok (ad_users db) \<and> dict_ok (ad_sessions db) \<and> dict_ok (ad_resets db)
     \<and> distinct (map (\<lambda>(i, r). ur_email r) (ad_users db)) \<and> distinct (map (\<lambda>(h, r). tk_user_id r) (ad_resets db))"

lemma find_email_Some: "find_email e db = Some (i, r) \<Longrightarrow> (i, r) \<in> set (ad_users db) \<and> ur_email r = e"
  by (auto simp: find_email_def find_Some_iff in_set_conv_nth)

lemma find_email_None: "find_email e db = None \<longleftrightarrow> e \<notin> set (map (\<lambda>(i, r). ur_email r) (ad_users db))"
  by (auto simp: find_email_def find_None_iff)

lemma keys_filter_ok: "dict_ok d \<Longrightarrow> dict_ok (filter P d)"
  by (simp add: distinct_map_filter)

lemma distinct_map_filter_id: "distinct (map f xs) \<Longrightarrow> distinct (map f (filter P xs))"
  by (simp add: distinct_map_filter)

lemma map_keep_fst: "map fst (map (\<lambda>(i, r). (i, g i r)) d) = map fst d"
  by (simp add: case_prod_unfold o_def)

lemma accounts_ok_step:
  assumes ok: "accounts_ok db"
  shows "accounts_ok (account_step env x db)"
proof (cases x)
  case (CreateUser now uid salt email pw)
  show ?thesis
    using ok unfolding CreateUser
    by (auto simp: accounts_ok_def create_user_def Let_def find_email_None map_of_None_keys simp del: set_map
        split: sum.splits)
next
  case (CreateSession now ttl token uid)
  show ?thesis
    using ok unfolding CreateSession
    by (auto simp: accounts_ok_def create_session_def Let_def map_of_None_keys simp del: set_map)
next
  case (ResolveSession now token)
  show ?thesis
    using ok unfolding ResolveSession
    by (auto simp: accounts_ok_def user_for_session_def delete_session_def distinct_map_filter_id split: option.splits)
next
  case (SetPassword salt uid pw)
  have e: "map (\<lambda>(i, r). ur_email r) (map (\<lambda>(i, r). (i, if i = uid then r\<lparr>ur_password_hash := h\<rparr> else r)) d)
      = map (\<lambda>(i, r). ur_email r) d" for h and d :: "(string, user_row) dict"
    by (induction d) auto
  show ?thesis
    using ok unfolding SetPassword
    by (auto simp: accounts_ok_def set_password_def map_keep_fst e simp del: map_map split: sum.splits)
next
  case (CreateReset now ttl token uid)
  let ?rs = "filter (\<lambda>(h, r). tk_user_id r \<noteq> uid) (ad_resets db)"
  have "uid \<notin> set (map (\<lambda>(h, r). tk_user_id r) ?rs)" by auto
  then show ?thesis
    using ok distinct_map_filter_id [of "\<lambda>(h, r). tk_user_id r" "ad_resets db" "\<lambda>(h, r). tk_user_id r \<noteq> uid"]
      keys_filter_ok [of "ad_resets db" "\<lambda>(h, r). tk_user_id r \<noteq> uid"]
    unfolding CreateReset
    by (auto simp: accounts_ok_def create_reset_token_def Let_def map_of_None_keys simp del: set_map)
qed (use ok in \<open>auto simp: accounts_ok_def delete_session_def purge_expired_sessions_def delete_sessions_for_user_def
      delete_user_def consume_reset_token_def distinct_map_filter_id Let_def split: option.splits\<close>)

lemma accounts_ok_run: "accounts_ok db \<Longrightarrow> accounts_ok (account_run env ops db)"
  unfolding account_run_def by (induction ops arbitrary: db) (simp_all add: accounts_ok_step)

lemma accounts_ok_empty: "accounts_ok \<lparr>ad_users = [], ad_sessions = [], ad_resets = []\<rparr>"
  by (simp add: accounts_ok_def)

text \<open>With unique emails, \<open>authenticate\<close> accepts exactly the password of the one account of that address.\<close>

lemma find_email_unique:
  assumes "accounts_ok db" and "(i, r) \<in> set (ad_users db)"
  shows "find_email (ur_email r) db = Some (i, r)"
proof -
  have "find_email (ur_email r) db \<noteq> None" unfolding find_email_None using assms(2) by force
  then obtain j q where q: "find_email (ur_email r) db = Some (j, q)" by auto
  have "(j, q) \<in> set (ad_users db)" "ur_email q = ur_email r" using find_email_Some [OF q] by auto
  moreover have "inj_on (\<lambda>(i, r). ur_email r) (set (ad_users db))"
    using assms(1) unfolding accounts_ok_def distinct_map by (elim conjE)
  ultimately have "(j, q) = (i, r)" using inj_onD [of _ _ "(j, q)" "(i, r)"] assms(2) by fastforce
  then show ?thesis using q by simp
qed

end
