(* ===== verification/SignIn.thy ===== *)
theory SignIn
  imports Accounts Access
begin

text \<open>
  The sign-in endpoints of \<open>api/main.py\<close> over the account store. \<open>accts\<close> is the store, \<open>None\<close> when
  accounts are off; \<open>blocked\<close> is the answer of \<open>limit_auth\<close> (\<open>RateLimit\<close>); the token argument is the one
  the store draws. A response is its decision and, where it sets one, the session cookie.
\<close>

type_synonym accts = "account_db option"

definition current_user :: "auth_env \<Rightarrow> rat \<Rightarrow> string \<Rightarrow> accts \<Rightarrow> (http_error + user option) \<times> accts" where
  "current_user env now cookie accts =
     (case accts of
        None \<Rightarrow> (Inr None, None)
      | Some db \<Rightarrow>
          (case user_for_session env now cookie db of
             (None, db) \<Rightarrow> (Inl (Http 401), Some db)
           | (Some u, db) \<Rightarrow> (Inr (Some u), Some db)))"

text \<open>A token that clashes is an unhandled database error.\<close>

definition sign_in :: "auth_env \<Rightarrow> rat \<Rightarrow> string \<Rightarrow> user \<Rightarrow> account_db \<Rightarrow> (http_error + user \<times> string) \<times> accts" where
  "sign_in env now token u db =
     (case create_session env now SESSION_TTL_SECONDS token (us_id u) db of
        (None, db) \<Rightarrow> (Inl (Http 500), Some db)
      | (Some t, db) \<Rightarrow> (Inr (u, t), Some db))"

definition register ::
  "auth_env \<Rightarrow> rat \<Rightarrow> bool \<Rightarrow> string \<Rightarrow> nat list \<Rightarrow> string \<Rightarrow> string \<Rightarrow> string \<Rightarrow> accts
    \<Rightarrow> (http_error + user \<times> string) \<times> accts" where
  "register env now blocked uid salt token email pw accts =
     (if blocked then (Inl (Http 429), accts)
      else case accts of
             None \<Rightarrow> (Inl (Http 404), None)
           | Some db \<Rightarrow>
               (case create_user env now uid salt email pw db of
                  (Inl e, db) \<Rightarrow> (Inl (Http 400), Some db)
                | (Inr u, db) \<Rightarrow> sign_in env now token u db))"

definition login ::
  "auth_env \<Rightarrow> rat \<Rightarrow> bool \<Rightarrow> string \<Rightarrow> string \<Rightarrow> string \<Rightarrow> accts \<Rightarrow> (http_error + user \<times> string) \<times> accts" where
  "login env now blocked token email pw accts =
     (if blocked then (Inl (Http 429), accts)
      else case accts of
             None \<Rightarrow> (Inl (Http 404), None)
           | Some db \<Rightarrow>
               (case authenticate env email pw db of
                  Inl e \<Rightarrow> (Inl (Http 401), Some db)
                | Inr u \<Rightarrow> sign_in env now token u db))"

definition logout :: "auth_env \<Rightarrow> string \<Rightarrow> accts \<Rightarrow> accts" where
  "logout env cookie accts = map_option (delete_session env cookie) accts"

text \<open>The link that is delivered, if any; the answer to the caller is always the same.\<close>

definition forgot_password ::
  "auth_env \<Rightarrow> rat \<Rightarrow> bool \<Rightarrow> string \<Rightarrow> string \<Rightarrow> accts \<Rightarrow> (http_error + unit) \<times> (string \<times> string) option \<times> accts" where
  "forgot_password env now blocked token email accts =
     (if blocked then (Inl (Http 429), None, accts)
      else case accts of
             None \<Rightarrow> (Inl (Http 404), None, None)
           | Some db \<Rightarrow>
               (case get_user_by_email email db of
                  None \<Rightarrow> (Inr (), None, Some db)
                | Some u \<Rightarrow>
                    (case create_reset_token env now RESET_TTL_SECONDS token (us_id u) db of
                       (None, db) \<Rightarrow> (Inl (Http 500), None, Some db)
                     | (Some t, db) \<Rightarrow> (Inr (), Some (us_email u, t), Some db))))"

definition reset_password ::
  "auth_env \<Rightarrow> rat \<Rightarrow> bool \<Rightarrow> nat list \<Rightarrow> string \<Rightarrow> string \<Rightarrow> accts \<Rightarrow> (http_error + unit) \<times> accts" where
  "reset_password env now blocked salt token pw accts =
     (if blocked then (Inl (Http 429), accts)
      else case accts of
             None \<Rightarrow> (Inl (Http 404), None)
           | Some db \<Rightarrow>
               (case consume_reset_token env now token db of
                  (None, db) \<Rightarrow> (Inl (Http 400), Some db)
                | (Some uid, db) \<Rightarrow>
                    (case set_password env salt uid pw db of
                       (Inl e, db) \<Rightarrow> (Inl (Http 400), Some db)
                     | (Inr _, db) \<Rightarrow> (Inr (), Some (snd (delete_sessions_for_user uid db))))))"

definition change_password ::
  "auth_env \<Rightarrow> rat \<Rightarrow> bool \<Rightarrow> nat list \<Rightarrow> string \<Rightarrow> user option \<Rightarrow> string \<Rightarrow> string \<Rightarrow> accts
    \<Rightarrow> (http_error + string) \<times> accts" where
  "change_password env now blocked salt token user old new accts =
     (if blocked then (Inl (Http 429), accts)
      else case accts of
             None \<Rightarrow> (Inl (Http 404), None)
           | Some db \<Rightarrow>
               (case user of
                  None \<Rightarrow> (Inl (Http 401), Some db)
                | Some u \<Rightarrow>
                    (case authenticate env (us_email u) old db of
                       Inl e \<Rightarrow> (Inl (Http 403), Some db)
                     | Inr _ \<Rightarrow>
                         (case set_password env salt (us_id u) new db of
                            (Inl e, db) \<Rightarrow> (Inl (Http 400), Some db)
                          | (Inr _, db) \<Rightarrow>
                              (case sign_in env now token u (snd (delete_sessions_for_user (us_id u) db)) of
                                 (Inl e, a) \<Rightarrow> (Inl e, a)
                               | (Inr (u, t), a) \<Rightarrow> (Inr t, a))))))"

definition delete_account ::
  "auth_env \<Rightarrow> 's store_api \<Rightarrow> 'm member_api \<Rightarrow> bool \<Rightarrow> user option \<Rightarrow> string \<Rightarrow> 's \<Rightarrow> 'm \<Rightarrow> accts
    \<Rightarrow> (http_error + unit) \<times> 's \<times> 'm \<times> accts" where
  "delete_account env so mo blocked user pw s m accts =
     (if blocked then (Inl (Http 429), s, m, accts)
      else case accts of
             None \<Rightarrow> (Inl (Http 404), s, m, None)
           | Some db \<Rightarrow>
               (case user of
                  None \<Rightarrow> (Inl (Http 401), s, m, Some db)
                | Some u \<Rightarrow>
                    (case authenticate env (us_email u) pw db of
                       Inl e \<Rightarrow> (Inl (Http 403), s, m, Some db)
                     | Inr _ \<Rightarrow>
                         let (s, m) = erase_user so mo (us_id u) s m
                         in (Inr (), s, m, Some (snd (delete_user (us_id u) db))))))"

subsection \<open>Sessions after a reset or a change\<close>

lemma reset_password_okD:
  assumes "reset_password env now blocked salt token pw (Some db) = (Inr (), a)"
  obtains uid db1 where "fst (consume_reset_token env now token db) = Some uid"
    and "a = Some (snd (delete_sessions_for_user uid db1))"
  using assms
  by (auto simp: reset_password_def split: if_splits prod.splits option.splits sum.splits intro: that)

text \<open>No session of the user is left, and none appears without a new sign-in.\<close>

lemma reset_signs_out:
  assumes "reset_password env now blocked salt token pw (Some db) = (Inr (), Some db')"
    and "fst (consume_reset_token env now token db) = Some uid" and "list_all (\<lambda>x. \<not> signs_in uid x) ops"
    and "fst (user_for_session env later cookie (account_run env ops db')) = Some u"
  shows "us_id u \<noteq> uid"
proof
  assume u: "us_id u = uid"
  obtain uid' db1 where "fst (consume_reset_token env now token db) = Some uid'"
      "Some db' = Some (snd (delete_sessions_for_user uid' db1))"
    by (rule reset_password_okD [OF assms(1)])
  then have "db' = snd (delete_sessions_for_user uid db1)" using assms(2) by simp
  then have "tokens_of uid (ad_sessions db') = []" by (simp only: signed_out)
  then have "tokens_of uid (ad_sessions (account_run env ops db')) = []" by (rule run_no_session) (rule assms(3))
  then show False using session_user(1) [OF assms(4)] u by simp
qed

text \<open>After a change of password only the new cookie resolves to the user.\<close>

lemma change_keeps_one:
  assumes "change_password env now blocked salt token (Some u) old new (Some db) = (Inr t, Some db')"
    and "fst (user_for_session env later cookie db') = Some v" and "us_id v = us_id u"
  shows "t = token \<and> ae_sha256 env cookie = ae_sha256 env t"
proof -
  obtain db1 where c: "create_session env now SESSION_TTL_SECONDS token (us_id u) (snd (delete_sessions_for_user (us_id u) db1))
      = (Some t, db')"
    using assms(1)
    by (auto simp: change_password_def sign_in_def split: if_splits prod.splits option.splits sum.splits)
  let ?db2 = "snd (delete_sessions_for_user (us_id u) db1)"
  have t: "t = token" and db': "ad_sessions db' = ad_sessions ?db2 @
      [(ae_sha256 env token, \<lparr>tk_user_id = us_id u, tk_created_at = now, tk_expires_at = now + SESSION_TTL_SECONDS\<rparr>)]"
    using c by (auto simp: create_session_def Let_def split: if_splits)
  have none: "tokens_of (us_id u) (ad_sessions ?db2) = []" by (rule signed_out)
  obtain r where r: "map_of (ad_sessions db') (ae_sha256 env cookie) = Some r" "tk_user_id r = us_id u"
    using assms(2,3) by (auto simp: user_for_session_def get_user_def user_of_def split: if_splits option.splits)
  have "(ae_sha256 env cookie, r) \<notin> set (ad_sessions ?db2)" using none r(2) by (auto simp: tokens_of_Nil)
  then have "ae_sha256 env cookie = ae_sha256 env token" using map_of_SomeD [OF r(1)] unfolding db' by auto
  then show ?thesis using t by simp
qed

text \<open>A reset link issued before a change of password is still accepted after it.\<close>

lemma change_keeps_resets:
  assumes "change_password env now blocked salt token user old new (Some db) = (Inr t, Some db')"
  shows "ad_resets db' = ad_resets db"
  using assms
  by (auto simp: change_password_def sign_in_def create_session_def delete_sessions_for_user_def set_password_def Let_def
      split: if_splits prod.splits option.splits sum.splits)

text \<open>A new password that is refused uses the link up.\<close>

lemma refused_reset_burns:
  assumes "fst (consume_reset_token env now token db) = Some uid" and "length pw < MIN_PASSWORD_LENGTH"
    and "\<not> blocked"
  shows "\<exists>db'. reset_password env now blocked salt token pw (Some db) = (Inl (Http 400), Some db')
    \<and> fst (consume_reset_token env later token db') = None"
proof -
  obtain db1 where c: "consume_reset_token env now token db = (Some uid, db1)" using assms(1) by (metis prod.collapse)
  have ne: "token \<noteq> []" using assms(1) by (auto simp: consume_reset_token_def)
  have "map_of (ad_resets db1) (ae_sha256 env token) = None" using consumed_gone [OF ne, of env now db] c by simp
  then have "fst (consume_reset_token env later token db1) = None" by (rule consume_absent)
  then show ?thesis using assms(2,3) c by (simp add: reset_password_def set_password_def validate_password_def)
qed

text \<open>The answer to a well-formed registration tells whether the address has an account.\<close>

lemma register_reveals:
  assumes "validate_email email = Inr e" and "validate_password pw = Inr pw" and "map_of (ad_users db) uid = None"
    and "map_of (ad_sessions db) (ae_sha256 env token) = None"
  shows "fst (register env now False uid salt token email pw (Some db)) = Inl (Http 400) \<longleftrightarrow> find_email e db \<noteq> None"
  using assms
  by (auto simp: register_def create_user_def sign_in_def create_session_def Let_def split: option.splits)

text \<open>Signing in works with the password of the account and no other.\<close>

lemma login_iff:
  assumes "accounts_ok db" and "(i, r) \<in> set (ad_users db)" and "validate_email email = Inr (ur_email r)"
    and "map_of (ad_sessions db) (ae_sha256 env token) = None"
  shows "(\<exists>a. login env now False token email pw (Some db) = (Inr (user_of i r, token), a)) \<longleftrightarrow>
    verify_password env pw (ur_password_hash r)"
  using find_email_unique [OF assms(1,2)] assms(3,4)
  by (auto simp: login_def authenticate_def sign_in_def create_session_def Let_def)

text \<open>A deleted account cannot sign in, has no session and no reset link.\<close>

lemma deleted_account:
  assumes "accounts_ok db" and "delete_account env so mo False (Some u) pw s m (Some db) = (Inr (), s', m', Some db')"
  shows "map_of (ad_users db') (us_id u) = None \<and> tokens_of (us_id u) (ad_sessions db') = []
    \<and> tokens_of (us_id u) (ad_resets db') = [] \<and> accounts_ok db' \<and> (s', m') = erase_user so mo (us_id u) s m"
proof -
  have e: "db' = snd (delete_user (us_id u) db)" "(s', m') = erase_user so mo (us_id u) s m"
    using assms(2) by (auto simp: delete_account_def Let_def split: sum.splits prod.splits)
  have "accounts_ok db'" using accounts_ok_step [OF assms(1), of env "DeleteUser (us_id u)"] e(1) by simp
  then show ?thesis using e by (auto simp: delete_user_def tokens_of_Nil map_of_filter_out simp del: map_of_eq_None_iff)
qed

end
