(* ===== verification/PyFloat.thy ===== *)
theory PyFloat
  imports PyStr Prelude
begin

text \<open>
  Python's floats where a source can hand over infinity or NaN, and the values of a raw inventory row.
  \<open>float(s)\<close> and \<open>str(x)\<close> of a number are the record \<open>py_env\<close>: a function of the text that may fail, and
  the text of a value that is not a string.
\<close>

datatype pyfloat = Fin rat | Infinite | NaN

datatype raw_value = RNone | RText string | RNum pyfloat | RItems "raw_value list"

record py_env =
  py_float :: "string \<Rightarrow> pyfloat option"
  py_str :: "raw_value \<Rightarrow> string"

text \<open>\<open>float(v)\<close>: \<open>None\<close> is a \<open>TypeError\<close> or \<open>ValueError\<close>.\<close>

definition float_of :: "py_env \<Rightarrow> raw_value \<Rightarrow> pyfloat option" where
  "float_of env v = (case v of RText s \<Rightarrow> py_float env s | RNum x \<Rightarrow> Some x | _ \<Rightarrow> None)"

text \<open>\<open>str(v)\<close>\<close>

definition str_value :: "py_env \<Rightarrow> raw_value \<Rightarrow> string" where
  "str_value env v = (case v of RText s \<Rightarrow> s | RNone \<Rightarrow> ''None'' | _ \<Rightarrow> py_str env v)"

type_synonym raw_record = "(string, raw_value) dict"

text \<open>\<open>rec.get(k)\<close>\<close>

definition field :: "raw_record \<Rightarrow> string \<Rightarrow> raw_value" where
  "field rec k = (case map_of rec k of None \<Rightarrow> RNone | Some v \<Rightarrow> v)"

end
