(* ===== verification/Dependencies.thy ===== *)
theory Dependencies
  imports Waves PyFloat
begin

text \<open>
  \<open>dependencies.py\<close>: dependencies between workloads from observed network flows, the groups that must
  move together, and the violations of a wave order. Reading the CSV file is left out: a row is the
  dictionary \<open>csv.DictReader\<close> yields. The parser of floats and the table of private address ranges are
  arguments. The prose of the notes is left out.
\<close>

definition INFRASTRUCTURE_PORTS :: "int list" where
  "INFRASTRUCTURE_PORTS = [53, 123, 67, 68, 161, 162, 514, 389, 636, 88, 464, 5353]"

definition MIN_CONNECTIONS :: int where "MIN_CONNECTIONS = 2"

definition COLUMNS :: "(string, string list) dict" where
  "COLUMNS =
     [(''src_ip'', [''src_ip'', ''source_ip'', ''src'', ''source'', ''source address'', ''src address'', ''client_ip'',
         ''sourceipaddress'']),
      (''dst_ip'', [''dst_ip'', ''dest_ip'', ''destination_ip'', ''dst'', ''destination'', ''destination address'',
         ''server_ip'', ''destinationipaddress'']),
      (''dst_port'', [''dst_port'', ''dest_port'', ''destination_port'', ''port'', ''server_port'', ''destinationport'',
         ''service_port'']),
      (''connections'', [''connections'', ''flows'', ''sessions'', ''count'', ''hits'', ''packets'']),
      (''bytes'', [''bytes'', ''total_bytes'', ''octets'', ''volume''])]"

record flow =
  fl_src :: string
  fl_dst :: string
  fl_port :: int
  fl_connections :: int
  fl_bytes :: int

record dependency =
  dp_source :: string
  dp_target :: string
  dp_ports :: "int list"
  dp_connections :: int

record external_dependency =
  ex_source :: string
  ex_address :: string
  ex_ports :: "int list"
  ex_connections :: int
  ex_private :: bool

record wave_violation =
  vi_source :: string
  vi_source_wave :: nat
  vi_target :: string
  vi_target_wave :: nat
  vi_ports :: "int list"

record dependency_report =
  dr_dependencies :: "dependency list"
  dr_external :: "external_dependency list"
  dr_violations :: "wave_violation list"
  dr_together :: "string list list"
  dr_mapped :: nat
  dr_unmapped :: nat
  dr_filtered :: nat

definition coverage_pct :: "dependency_report \<Rightarrow> rat" where
  "coverage_pct r =
     (let total = dr_mapped r + dr_unmapped r
      in if total \<noteq> 0 then round_dp 1 (of_nat (dr_mapped r) / of_nat total * 100) else 0)"

subsection \<open>Reading rows\<close>

datatype flow_error = NoHeader | MissingColumn string | OverflowError

definition replace_char :: "char \<Rightarrow> char \<Rightarrow> string \<Rightarrow> string" where
  "replace_char a b s = map (\<lambda>c. if c = a then b else c) s"

definition normalize_header :: "string \<Rightarrow> string" where
  "normalize_header name =
     replace_char CHR '' '' CHR ''_'' (replace_char CHR ''-'' CHR ''_'' (lower (strip name)))"

definition pick :: "string list \<Rightarrow> string \<Rightarrow> string option" where
  "pick header key =
     (let normalized = foldl (\<lambda>d h. AList.update (normalize_header h) h d) [] header
      in case List.map_filter (\<lambda>c. map_of normalized (normalize_header c)) (the (map_of COLUMNS key)) of
           [] \<Rightarrow> None | m # _ \<Rightarrow> Some m)"

text \<open>\<open>int(float(str(v)))\<close>: \<open>None\<close> is a caught error, infinity the overflow that is not.\<close>

definition int_of_float :: "(string \<Rightarrow> pyfloat option) \<Rightarrow> string option \<Rightarrow> flow_error + int option" where
  "int_of_float flt v =
     (case v of
        None \<Rightarrow> Inr None
      | Some s \<Rightarrow>
          (case flt s of
             None \<Rightarrow> Inr None
           | Some NaN \<Rightarrow> Inr None
           | Some Infinite \<Rightarrow> Inl OverflowError
           | Some (Fin x) \<Rightarrow> Inr (Some (if 0 \<le> x then \<lfloor>x\<rfloor> else \<lceil>x\<rceil>))))"

type_synonym csv_row = "(string, string option) dict"

definition cell :: "csv_row \<Rightarrow> string \<Rightarrow> string option" where
  "cell row col = (case map_of row col of None \<Rightarrow> None | Some v \<Rightarrow> v)"

definition as_int :: "(string \<Rightarrow> pyfloat option) \<Rightarrow> csv_row \<Rightarrow> string option \<Rightarrow> int \<Rightarrow> flow_error + int" where
  "as_int flt row col dflt =
     (case int_of_float flt (case col of None \<Rightarrow> None | Some c \<Rightarrow> cell row c) of
        Inl e \<Rightarrow> Inl e | Inr None \<Rightarrow> Inr dflt | Inr (Some i) \<Rightarrow> Inr i)"

text \<open>One row: \<open>Inr None\<close> when it is skipped.\<close>

definition parse_flow ::
  "(string \<Rightarrow> pyfloat option) \<Rightarrow> string \<Rightarrow> string \<Rightarrow> string \<Rightarrow> string option \<Rightarrow> string option \<Rightarrow> csv_row
    \<Rightarrow> flow_error + flow option" where
  "parse_flow flt src dst port conns bytes row =
     (case int_of_float flt (map_option strip (cell row port)) of
        Inl e \<Rightarrow> Inl e
      | Inr None \<Rightarrow> Inr None
      | Inr (Some p) \<Rightarrow>
          let s = strip (case cell row src of None \<Rightarrow> [] | Some x \<Rightarrow> x);
              d = strip (case cell row dst of None \<Rightarrow> [] | Some x \<Rightarrow> x)
          in if s = [] \<or> d = [] then Inr None
             else case (as_int flt row conns 1, as_int flt row bytes 0) of
                    (Inr c, Inr b) \<Rightarrow>
                      Inr (Some \<lparr>fl_src = s, fl_dst = d, fl_port = p, fl_connections = c, fl_bytes = b\<rparr>)
                  | _ \<Rightarrow> Inl OverflowError)"

fun parse_rows :: "(csv_row \<Rightarrow> flow_error + flow option) \<Rightarrow> csv_row list \<Rightarrow> flow_error + flow list" where
  "parse_rows f [] = Inr []"
| "parse_rows f (r # rs) =
     (case f r of
        Inl e \<Rightarrow> Inl e
      | Inr x \<Rightarrow>
          (case parse_rows f rs of
             Inl e \<Rightarrow> Inl e
           | Inr fs \<Rightarrow> Inr (case x of None \<Rightarrow> fs | Some fl \<Rightarrow> fl # fs)))"

definition parse_flows :: "(string \<Rightarrow> pyfloat option) \<Rightarrow> string list \<Rightarrow> csv_row list \<Rightarrow> flow_error + flow list" where
  "parse_flows flt header rows =
     (if header = [] then Inl NoHeader
      else case filter (\<lambda>k. pick header k = None \<or> pick header k = Some []) [''src_ip'', ''dst_ip'', ''dst_port''] of
             k # _ \<Rightarrow> Inl (MissingColumn k)
           | [] \<Rightarrow> parse_rows (parse_flow flt (the (pick header ''src_ip'')) (the (pick header ''dst_ip''))
                      (the (pick header ''dst_port''))
                      (if pick header ''connections'' = Some [] then None else pick header ''connections'')
                      (if pick header ''bytes'' = Some [] then None else pick header ''bytes'')) rows)"

subsection \<open>Flows to dependencies\<close>

definition set_default :: "(string, string) dict \<Rightarrow> string \<Rightarrow> string \<Rightarrow> (string, string) dict" where
  "set_default d k v = (if map_of d k = None then d @ [(k, v)] else d)"

definition index_by_ip :: "vm list \<Rightarrow> (string, string) dict" where
  "index_by_ip vms = foldl (\<lambda>d vm. foldl (\<lambda>d ip. set_default d (strip ip) (vm_name vm)) d (vm_ips vm)) [] vms"

type_synonym pair_acc = "(string \<times> string, int list \<times> int) dict"

definition add_flow :: "string \<times> string \<Rightarrow> flow \<Rightarrow> pair_acc \<Rightarrow> pair_acc" where
  "add_flow k fl acc =
     (let (ports, n) = (case map_of acc k of None \<Rightarrow> ([], 0) | Some e \<Rightarrow> e)
      in AList.update k (ports @ [fl_port fl], n + fl_connections fl) acc)"

record flow_tally =
  ft_pairs :: pair_acc
  ft_externals :: pair_acc
  ft_mapped :: nat
  ft_unmapped :: nat
  ft_filtered :: nat

definition no_tally :: flow_tally where
  "no_tally = \<lparr>ft_pairs = [], ft_externals = [], ft_mapped = 0, ft_unmapped = 0, ft_filtered = 0\<rparr>"

definition ignored :: "int list \<Rightarrow> int \<Rightarrow> flow \<Rightarrow> bool" where
  "ignored ignore min_conns fl \<longleftrightarrow> fl_port fl \<in> set ignore \<or> fl_connections fl < min_conns"

definition tally_flow :: "int list \<Rightarrow> int \<Rightarrow> (string, string) dict \<Rightarrow> flow_tally \<Rightarrow> flow \<Rightarrow> flow_tally" where
  "tally_flow ignore min_conns by_ip t fl =
     (if ignored ignore min_conns fl then t\<lparr>ft_filtered := ft_filtered t + 1\<rparr>
      else case map_of by_ip (fl_src fl) of
             None \<Rightarrow> t\<lparr>ft_unmapped := ft_unmapped t + 1\<rparr>
           | Some source \<Rightarrow>
               (case map_of by_ip (fl_dst fl) of
                  None \<Rightarrow> t\<lparr>ft_externals := add_flow (source, fl_dst fl) fl (ft_externals t), ft_mapped := ft_mapped t + 1\<rparr>
                | Some tgt \<Rightarrow>
                    if tgt = source then t\<lparr>ft_filtered := ft_filtered t + 1\<rparr>
                    else t\<lparr>ft_pairs := add_flow (source, tgt) fl (ft_pairs t), ft_mapped := ft_mapped t + 1\<rparr>))"

definition dependencies_of :: "pair_acc \<Rightarrow> dependency list" where
  "dependencies_of acc =
     map (\<lambda>((s, t), (ports, n)). \<lparr>dp_source = s, dp_target = t, dp_ports = sorted_set ports, dp_connections = n\<rparr>)
       (sort_key fst acc)"

definition externals_of :: "(string \<Rightarrow> bool) \<Rightarrow> pair_acc \<Rightarrow> external_dependency list" where
  "externals_of is_private acc =
     map (\<lambda>((s, a), (ports, n)). \<lparr>ex_source = s, ex_address = a, ex_ports = sorted_set ports, ex_connections = n,
            ex_private = is_private a\<rparr>)
       (sort_key fst acc)"

subsection \<open>Groups that call each other\<close>

definition mutual_pairs :: "dependency list \<Rightarrow> (string \<times> string) list" where
  "mutual_pairs deps =
     (let edges = map (\<lambda>d. (dp_source d, dp_target d)) deps
      in filter (\<lambda>(s, t). (t, s) \<in> set edges) edges)"

definition add_neighbour :: "(string, string list) dict \<Rightarrow> string \<Rightarrow> string \<Rightarrow> (string, string list) dict" where
  "add_neighbour d a b = dict_push a b d"

definition mutual_graph :: "dependency list \<Rightarrow> (string, string list) dict" where
  "mutual_graph deps = foldl (\<lambda>d (s, t). add_neighbour (add_neighbour d s t) t s) [] (mutual_pairs deps)"

definition neighbours :: "(string, string list) dict \<Rightarrow> string \<Rightarrow> string list" where
  "neighbours g n = (case map_of g n of None \<Rightarrow> [] | Some ms \<Rightarrow> ms)"

text \<open>
  The \<open>while stack\<close> loop. The component grows with nodes of the graph, and a node outside it only shortens
  the stack.
\<close>

function collect :: "(string, string list) dict \<Rightarrow> string list \<Rightarrow> string list \<Rightarrow> string list" where
  "collect g [] found = found"
| "collect g (c # stack) found =
     (if c \<in> set found then collect g stack found
      else collect g (filter (\<lambda>m. m \<notin> set (c # found)) (neighbours g c) @ stack) (c # found))"
  by pat_completeness auto
termination
proof (relation "inv_image (less_than <*lex*> less_than) (\<lambda>(g, stack, found). (card (set (keys g) - set found), length stack))",
    goal_cases)
  case (3 g c stack found)
  show ?case
  proof (cases "c \<in> set (keys g)")
    case True
    then have "set (keys g) - set (c # found) \<subset> set (keys g) - set found" using 3 by auto
    then have "card (set (keys g) - set (c # found)) < card (set (keys g) - set found)"
      by (intro psubset_card_mono) simp_all
    then show ?thesis by (simp del: set_map)
  next
    case False
    then have "neighbours g c = []" by (simp add: neighbours_def map_of_None_keys split: option.split del: set_map) (metis map_of_None_keys option.distinct(1))
    moreover have "set (keys g) - set (c # found) = set (keys g) - set found" using False by auto
    ultimately show ?thesis by (simp del: set_map)
  qed
qed auto

fun find_groups :: "(string, string list) dict \<Rightarrow> string list \<Rightarrow> string list \<Rightarrow> string list list" where
  "find_groups g seen [] = []"
| "find_groups g seen (n # ns) =
     (if n \<in> set seen then find_groups g seen ns
      else let found = collect g [n] []
           in (if 1 < length found then [sort found] else []) @ find_groups g (found @ seen) ns)"

definition mutual_groups :: "dependency list \<Rightarrow> string list list" where
  "mutual_groups deps = (let g = mutual_graph deps in find_groups g [] (sort (keys g)))"

subsection \<open>Violations of the wave order\<close>

definition wave_of :: "wave list \<Rightarrow> (string, nat) dict" where
  "wave_of ws = foldl (\<lambda>d w. foldl (\<lambda>d n. AList.update n (wv_sequence w) d) d (wv_workloads w)) [] ws"

definition violation_of :: "(string, nat) dict \<Rightarrow> dependency \<Rightarrow> wave_violation option" where
  "violation_of waves d =
     (case (map_of waves (dp_source d), map_of waves (dp_target d)) of
        (Some a, Some b) \<Rightarrow>
          if a < b then Some \<lparr>vi_source = dp_source d, vi_source_wave = a, vi_target = dp_target d, vi_target_wave = b,
             vi_ports = dp_ports d\<rparr>
          else None
      | _ \<Rightarrow> None)"

definition wave_violations :: "dependency list \<Rightarrow> wave list \<Rightarrow> wave_violation list" where
  "wave_violations deps ws =
     sort_key (\<lambda>v. (vi_source_wave v, vi_source v)) (List.map_filter (violation_of (wave_of ws)) deps)"

definition analyze_dependencies ::
  "(string \<Rightarrow> bool) \<Rightarrow> flow list \<Rightarrow> vm list \<Rightarrow> wave list option \<Rightarrow> int \<Rightarrow> int list option \<Rightarrow> dependency_report" where
  "analyze_dependencies is_private flows vms waves min_conns ignore_ports =
     (let ignore = (case ignore_ports of None \<Rightarrow> INFRASTRUCTURE_PORTS | Some ps \<Rightarrow> ps);
          t = foldl (tally_flow ignore min_conns (index_by_ip vms)) no_tally flows;
          deps = dependencies_of (ft_pairs t)
      in \<lparr>dr_dependencies = deps, dr_external = externals_of is_private (ft_externals t),
          dr_violations = (case waves of None \<Rightarrow> [] | Some ws \<Rightarrow> wave_violations deps ws),
          dr_together = mutual_groups deps, dr_mapped = ft_mapped t, dr_unmapped = ft_unmapped t,
          dr_filtered = ft_filtered t\<rparr>)"

subsection \<open>Facts: what a flow counts for\<close>

text \<open>Every flow is counted exactly once.\<close>

lemma tally_step:
  "ft_mapped (tally_flow ig m ix t fl) + ft_unmapped (tally_flow ig m ix t fl) + ft_filtered (tally_flow ig m ix t fl)
     = Suc (ft_mapped t + ft_unmapped t + ft_filtered t)"
  by (simp add: tally_flow_def split: option.split)

lemma tally_total:
  "ft_mapped (foldl (tally_flow ig m ix) t fls) + ft_unmapped (foldl (tally_flow ig m ix) t fls)
     + ft_filtered (foldl (tally_flow ig m ix) t fls)
   = ft_mapped t + ft_unmapped t + ft_filtered t + length fls"
proof (induction fls arbitrary: t)
  case (Cons fl fls)
  show ?case using Cons [of "tally_flow ig m ix t fl"] tally_step [of ig m ix t fl] by simp
qed simp

lemma flows_accounted:
  "dr_mapped (analyze_dependencies pr fls vms ws m ig) + dr_unmapped (analyze_dependencies pr fls vms ws m ig)
     + dr_filtered (analyze_dependencies pr fls vms ws m ig) = length fls"
  using tally_total [of _ m "index_by_ip vms" no_tally fls] by (simp add: analyze_dependencies_def Let_def no_tally_def)

text \<open>A flow is evidence of a dependency when it is neither ignored nor within one workload.\<close>

definition evidence :: "int list \<Rightarrow> int \<Rightarrow> (string, string) dict \<Rightarrow> string \<Rightarrow> string \<Rightarrow> flow \<Rightarrow> bool" where
  "evidence ig m ix s t fl \<longleftrightarrow> \<not> ignored ig m fl \<and> map_of ix (fl_src fl) = Some s \<and> map_of ix (fl_dst fl) = Some t \<and> s \<noteq> t"

lemma keys_add_flow: "set (keys (add_flow k fl acc)) = insert k (set (keys acc))"
  unfolding add_flow_def Let_def
  by (cases "case map_of acc k of None \<Rightarrow> ([], 0) | Some e \<Rightarrow> e") (simp add: keys_dict_update del: set_map)

lemma pairs_step:
  "set (keys (ft_pairs (tally_flow ig m ix t fl))) = set (keys (ft_pairs t)) \<union> {(a, b). evidence ig m ix a b fl}"
  by (auto simp: tally_flow_def evidence_def keys_add_flow simp del: set_map split: option.split)

lemma pairs_keys:
  "set (keys (ft_pairs (foldl (tally_flow ig m ix) t fls))) =
     set (keys (ft_pairs t)) \<union> {(a, b). \<exists>fl \<in> set fls. evidence ig m ix a b fl}"
  by (induction fls arbitrary: t) (auto simp: pairs_step simp del: set_map)

lemma dependencies_of_pairs:
  "set (map (\<lambda>d. (dp_source d, dp_target d)) (dependencies_of acc)) = set (keys acc)"
  unfolding dependencies_of_def by (force simp: image_image split_beta)

definition depends :: "dependency list \<Rightarrow> string \<Rightarrow> string \<Rightarrow> bool" where
  "depends deps s t \<longleftrightarrow> (s, t) \<in> set (map (\<lambda>d. (dp_source d, dp_target d)) deps)"

definition calls :: "flow list \<Rightarrow> vm list \<Rightarrow> int \<Rightarrow> int list option \<Rightarrow> string \<Rightarrow> string \<Rightarrow> bool" where
  "calls flows vms m ig s t \<longleftrightarrow>
     (\<exists>fl \<in> set flows. evidence (case ig of None \<Rightarrow> INFRASTRUCTURE_PORTS | Some ps \<Rightarrow> ps) m (index_by_ip vms) s t fl)"

lemma depends_evidence:
  "depends (dr_dependencies (analyze_dependencies pr fls vms ws m ig)) s t \<longleftrightarrow> calls fls vms m ig s t"
  unfolding depends_def analyze_dependencies_def Let_def dependency_report.simps dependencies_of_pairs pairs_keys calls_def
  by (simp add: no_tally_def)

subsection \<open>Facts: groups\<close>

declare collect.simps(2) [simp del]

definition linked :: "(string, string list) dict \<Rightarrow> (string \<times> string) set" where
  "linked g = {(a, b). b \<in> set (neighbours g a)}"

lemma collect_distinct: "distinct found \<Longrightarrow> distinct (collect g stack found)"
  by (induction g stack found rule: collect.induct) (simp_all add: collect.simps(2))

lemma collect_mono: "set stack \<union> set found \<subseteq> set (collect g stack found)"
  by (induction g stack found rule: collect.induct) (auto simp: collect.simps(2) split: if_splits)

lemma collect_sound: "x \<in> set (collect g stack found) \<Longrightarrow> x \<in> set found \<or> (\<exists>y \<in> set stack. (y, x) \<in> (linked g)\<^sup>*)"
proof (induction g stack found rule: collect.induct)
  case (2 g c stack found)
  show ?case
  proof (cases "c \<in> set found")
    case True
    then show ?thesis using 2(1) 2(3) by (auto simp: collect.simps(2))
  next
    case False
    have step: "(c, m) \<in> linked g" if "m \<in> set (neighbours g c)" for m using that by (simp add: linked_def)
    from 2(2) [OF False] 2(3) False
    have "x \<in> set (c # found) \<or> (\<exists>y \<in> set (filter (\<lambda>m. m \<notin> set (c # found)) (neighbours g c) @ stack). (y, x) \<in> (linked g)\<^sup>*)"
      by (simp add: collect.simps(2))
    then show ?thesis using step by (auto intro: converse_rtrancl_into_rtrancl)
  qed
qed simp

lemma collect_closed:
  "linked g `` set found \<subseteq> set found \<union> set stack \<Longrightarrow>
     linked g `` set (collect g stack found) \<subseteq> set (collect g stack found)"
proof (induction g stack found rule: collect.induct)
  case (2 g c stack found)
  show ?case
  proof (cases "c \<in> set found")
    case True
    then have "linked g `` set found \<subseteq> set found \<union> set stack" using 2(3) by auto
    then show ?thesis using 2(1) True by (simp add: collect.simps(2))
  next
    case False
    have "linked g `` set (c # found) \<subseteq>
        set (c # found) \<union> set (filter (\<lambda>m. m \<notin> set (c # found)) (neighbours g c) @ stack)"
      using 2(3) by (auto simp: linked_def)
    then show ?thesis using 2(2) False by (simp add: collect.simps(2))
  qed
qed simp

text \<open>The loop collects what is reachable from its first node.\<close>

lemma collect_set: "set (collect g [n] []) = (linked g)\<^sup>* `` {n}"
proof
  show "set (collect g [n] []) \<subseteq> (linked g)\<^sup>* `` {n}" using collect_sound [of _ g "[n]" "[]"] by auto
  have n: "n \<in> set (collect g [n] [])" using collect_mono [of "[n]" "[]" g] by simp
  have cl: "linked g `` set (collect g [n] []) \<subseteq> set (collect g [n] [])" by (rule collect_closed) simp
  show "(linked g)\<^sup>* `` {n} \<subseteq> set (collect g [n] [])"
  proof
    fix x assume "x \<in> (linked g)\<^sup>* `` {n}"
    then have "(n, x) \<in> (linked g)\<^sup>*" by simp
    then show "x \<in> set (collect g [n] [])" by (induction rule: rtrancl_induct) (use n cl in auto)
  qed
qed

definition grouped :: "string list list \<Rightarrow> string \<Rightarrow> string \<Rightarrow> bool" where
  "grouped gs x y \<longleftrightarrow> (\<exists>grp \<in> set gs. x \<in> set grp \<and> y \<in> set grp)"

lemma grouped_append: "grouped (as @ bs) x y \<longleftrightarrow> grouped as x y \<or> grouped bs x y"
  by (auto simp: grouped_def)

lemma grouped_one:
  assumes "sym (linked g)" and "x \<noteq> y"
  shows "grouped (if 1 < length (collect g [n] []) then [sort (collect g [n] [])] else []) x y \<longleftrightarrow>
    (n, x) \<in> (linked g)\<^sup>* \<and> (x, y) \<in> (linked g)\<^sup>*"
proof -
  have d: "length (collect g [n] []) = card ((linked g)\<^sup>* `` {n})"
    using collect_set [of g n] collect_distinct [of "[]" g "[n]"] distinct_card by fastforce
  have sy: "sym ((linked g)\<^sup>*)" using assms(1) by (rule sym_rtrancl)
  have "1 < card ((linked g)\<^sup>* `` {n})" if "(n, x) \<in> (linked g)\<^sup>*" "(n, y) \<in> (linked g)\<^sup>*"
  proof -
    have "{x, y} \<subseteq> (linked g)\<^sup>* `` {n}" using that by auto
    moreover have "finite ((linked g)\<^sup>* `` {n})" unfolding collect_set [symmetric] by simp
    ultimately have "card {x, y} \<le> card ((linked g)\<^sup>* `` {n})" by (intro card_mono)
    then show ?thesis using assms(2) by simp
  qed
  moreover have "(n, x) \<in> (linked g)\<^sup>* \<Longrightarrow> (n, y) \<in> (linked g)\<^sup>* \<longleftrightarrow> (x, y) \<in> (linked g)\<^sup>*"
    using sy by (meson rtrancl_trans symD)
  ultimately show ?thesis unfolding d grouped_def by (auto simp: collect_set)
qed

lemma find_groups_iff:
  assumes "sym (linked g)" and "x \<noteq> y" and "linked g `` set seen \<subseteq> set seen"
  shows "grouped (find_groups g seen ns) x y \<longleftrightarrow>
    x \<notin> set seen \<and> (x, y) \<in> (linked g)\<^sup>* \<and> (\<exists>n \<in> set ns. (n, x) \<in> (linked g)\<^sup>*)"
  using assms(3)
proof (induction ns arbitrary: seen)
  case Nil
  then show ?case by (simp add: grouped_def)
next
  case (Cons n ns)
  have sy: "sym ((linked g)\<^sup>*)" using assms(1) by (rule sym_rtrancl)
  have reach: "b \<in> set seen" if "(a, b) \<in> (linked g)\<^sup>*" "a \<in> set seen" for a b
    using that Cons(2) by (induction rule: rtrancl_induct) auto
  show ?case
  proof (cases "n \<in> set seen")
    case True
    then show ?thesis using Cons reach by auto
  next
    case False
    let ?c = "collect g [n] []"
    have cl: "linked g `` set (?c @ seen) \<subseteq> set (?c @ seen)"
      using Cons(2) by (auto simp: collect_set intro: rtrancl_into_rtrancl)
    have "x \<notin> set seen" if "(n, x) \<in> (linked g)\<^sup>*" using that reach False sy by (meson symD)
    moreover have "grouped (find_groups g seen (n # ns)) x y \<longleftrightarrow>
        ((n, x) \<in> (linked g)\<^sup>* \<and> (x, y) \<in> (linked g)\<^sup>*) \<or> grouped (find_groups g (?c @ seen) ns) x y"
      using False grouped_one [OF assms(1,2)] by (simp only: find_groups.simps Let_def if_False grouped_append)
    ultimately show ?thesis using Cons(1) [OF cl] by (auto simp: collect_set)
  qed
qed

lemma sets_dict_push:
  "set (neighbours (dict_push k v d) n) = set (neighbours d n) \<union> (if n = k then {v} else {})"
  by (auto simp: neighbours_def dict_push_def split: option.split)

lemma linked_mutual_fold:
  "linked (foldl (\<lambda>d (s, t). add_neighbour (add_neighbour d s t) t s) g ps) = linked g \<union> set ps \<union> (set ps)\<inverse>"
proof (induction ps arbitrary: g)
  case (Cons p ps)
  obtain s t where p: "p = (s, t)" by fastforce
  have "linked (add_neighbour (add_neighbour g s t) t s) = linked g \<union> {(s, t), (t, s)}"
    by (auto simp: linked_def add_neighbour_def sets_dict_push split: if_splits)
  then show ?case using Cons p by auto
qed simp

lemma linked_mutual_graph:
  "linked (mutual_graph deps) = {(a, b). depends deps a b \<and> depends deps b a}"
  unfolding mutual_graph_def linked_mutual_fold
  by (auto simp: linked_def neighbours_def mutual_pairs_def depends_def Let_def)

text \<open>Two workloads are in one group exactly when a chain of mutual calls connects them.\<close>

lemma mutual_groups_iff:
  assumes "x \<noteq> y"
  shows "grouped (mutual_groups deps) x y \<longleftrightarrow> (x, y) \<in> {(a, b). depends deps a b \<and> depends deps b a}\<^sup>*"
proof -
  let ?g = "mutual_graph deps"
  have sy: "sym (linked ?g)" by (auto simp: linked_mutual_graph sym_def)
  have "x \<in> set (keys ?g)" if r: "(x, y) \<in> (linked ?g)\<^sup>*"
  proof -
    from r assms obtain z where "(x, z) \<in> linked ?g"
      by (metis converse_rtranclE)
    then have "map_of ?g x \<noteq> None" by (cases "map_of ?g x") (simp_all add: linked_def neighbours_def)
    then show ?thesis unfolding map_of_None_keys by blast
  qed
  moreover have "grouped (mutual_groups deps) x y \<longleftrightarrow>
      (x, y) \<in> (linked ?g)\<^sup>* \<and> (\<exists>n \<in> set (sort (keys ?g)). (n, x) \<in> (linked ?g)\<^sup>*)"
    unfolding mutual_groups_def Let_def by (subst find_groups_iff [OF sy assms]) auto
  ultimately show ?thesis unfolding linked_mutual_graph [symmetric] by (auto simp del: set_map)
qed

subsection \<open>Facts: violations\<close>

lemma wave_of_inner:
  "map_of (foldl (\<lambda>d n. AList.update n s d) d ns) x = (if x \<in> set ns then Some s else map_of d x)"
  by (induction ns arbitrary: d) auto

lemma wave_of_lookup:
  assumes "\<And>w. w \<in> set ws \<Longrightarrow> x \<in> set (wv_workloads w) \<Longrightarrow> wv_sequence w = i"
  shows "map_of (foldl (\<lambda>d w. foldl (\<lambda>d n. AList.update n (wv_sequence w) d) d (wv_workloads w)) d ws) x =
    (if \<exists>w \<in> set ws. x \<in> set (wv_workloads w) then Some i else map_of d x)"
  using assms by (induction ws arbitrary: d) (auto simp: wave_of_inner)

text \<open>A workload with a unique name is in the wave of its key, and waves compare as their keys do.\<close>

lemma wave_of_plan:
  assumes "distinct (map c_vm_name (plan_compute p))" and "c \<in> set (plan_compute p)"
  obtains i where "map_of (wave_of (plan_waves p)) (c_vm_name c) = Some i"
    and "i < length (plan_waves p)" and "wave_pos (plan_waves p ! i) = wave_key c"
proof -
  let ?cs = "plan_compute p"
  have "wave_key c \<in> set (wave_keys ?cs)" using assms(2) by (simp add: wave_keys)
  then obtain i where i: "i < length (plan_waves p)" "wave_keys ?cs ! i = wave_key c"
    unfolding length_plan_waves by (metis in_set_conv_nth)
  have mem: "c_vm_name c \<in> set (wv_workloads (plan_waves p ! j)) \<longleftrightarrow> j = i" if "j < length (plan_waves p)" for j
  proof -
    have "c_vm_name c \<in> set (wv_workloads (plan_waves p ! j)) \<longleftrightarrow> wave_key c = wave_keys ?cs ! j"
      unfolding plan_waves_fields(3) [OF that] group_of_def
      using assms by (auto simp: distinct_map dest: inj_onD)
    then show ?thesis using i that wave_keys(2) [of ?cs]
      by (metis length_plan_waves nth_eq_iff_index_eq)
  qed
  have "map_of (wave_of (plan_waves p)) (c_vm_name c) = Some i"
    unfolding wave_of_def
  proof (subst wave_of_lookup [of _ _ i])
    show "wv_sequence w = i" if "w \<in> set (plan_waves p)" "c_vm_name c \<in> set (wv_workloads w)" for w
      using that mem plan_waves_fields(2) by (metis in_set_conv_nth)
    show "(if \<exists>w \<in> set (plan_waves p). c_vm_name c \<in> set (wv_workloads w) then Some i else map_of [] (c_vm_name c)) = Some i"
      using i(1) mem nth_mem by auto
  qed
  moreover have "wave_pos (plan_waves p ! i) = wave_key c" using i plan_waves_fields(1) by metis
  ultimately show thesis using i(1) by (intro that)
qed

definition violated :: "dependency list \<Rightarrow> wave list \<Rightarrow> string \<Rightarrow> string \<Rightarrow> bool" where
  "violated deps ws s t \<longleftrightarrow> list_ex (\<lambda>v. vi_source v = s \<and> vi_target v = t) (wave_violations deps ws)"

lemma violated_plan:
  assumes "distinct (map c_vm_name (plan_compute p))"
    and "c \<in> set (plan_compute p)" and "c' \<in> set (plan_compute p)"
  shows "violated deps (plan_waves p) (c_vm_name c) (c_vm_name c') \<longleftrightarrow>
    depends deps (c_vm_name c) (c_vm_name c') \<and> wave_key c < wave_key c'"
proof -
  obtain i where i: "map_of (wave_of (plan_waves p)) (c_vm_name c) = Some i" "i < length (plan_waves p)"
      "wave_pos (plan_waves p ! i) = wave_key c" by (rule wave_of_plan [OF assms(1,2)])
  obtain j where j: "map_of (wave_of (plan_waves p)) (c_vm_name c') = Some j" "j < length (plan_waves p)"
      "wave_pos (plan_waves p ! j) = wave_key c'" by (rule wave_of_plan [OF assms(1,3)])
  have "i < j \<longleftrightarrow> wave_key c < wave_key c'"
    using plan_waves_order [of i j p] plan_waves_order [of j i p] i j by (metis less_asym linorder_neqE_nat)
  moreover have "violated deps (plan_waves p) (c_vm_name c) (c_vm_name c') \<longleftrightarrow>
      depends deps (c_vm_name c) (c_vm_name c') \<and> i < j"
    unfolding violated_def wave_violations_def depends_def list_ex_iff set_sort
    using i(1) j(1) by (force simp: map_filter_def violation_of_def split: option.splits if_splits)
  ultimately show ?thesis by simp
qed

end
