(* ===== verification/Recommend.thy ===== *)
theory Recommend
  imports AgentPlan Costing
begin

text \<open>
  \<open>recommend.py\<close>: a plan and a bill for every priced target, scored on cost, fit and operating-system
  affinity, and the ranking. The provider a target gets and the inventory limit are arguments; the
  reasons are constructors, the summary and the notes are left out.
\<close>

definition W_COST :: rat where "W_COST = 0.45"
definition W_FIT :: rat where "W_FIT = 0.30"
definition W_OS :: rat where "W_OS = 0.25"
definition AWS_OS_BASELINE :: rat where "AWS_OS_BASELINE = 0.6"

subsection \<open>Weights\<close>

record weights =
  w_cost :: rat
  w_fit :: rat
  w_os :: rat

datatype weight_error = NegativeWeight | NoWeight | BadWeightKey string | BadWeightNumber string

definition normalize_weights :: "weights \<Rightarrow> weight_error + weights" where
  "normalize_weights w =
     (let total = w_cost w + w_fit w + w_os w
      in if total \<le> 0 then Inl NoWeight
         else Inr \<lparr>w_cost = round_dp 4 (w_cost w / total), w_fit = round_dp 4 (w_fit w / total),
                   w_os = round_dp 4 (w_os w / total)\<rparr>)"

definition scoring_weights :: "rat \<Rightarrow> rat \<Rightarrow> rat \<Rightarrow> weight_error + weights" where
  "scoring_weights c f os =
     (if c < 0 \<or> f < 0 \<or> os < 0 then Inl NegativeWeight
      else normalize_weights \<lparr>w_cost = c, w_fit = f, w_os = os\<rparr>)"

definition default_weights :: weights where
  "default_weights = \<lparr>w_cost = W_COST, w_fit = W_FIT, w_os = W_OS\<rparr>"

text \<open>\<open>part.partition("=")\<close>: before, whether the separator was found, after.\<close>

definition partition_eq :: "string \<Rightarrow> string \<times> bool \<times> string" where
  "partition_eq s =
     (let k = takeWhile (\<lambda>c. c \<noteq> CHR ''='') s; rest = dropWhile (\<lambda>c. c \<noteq> CHR ''='') s
      in (k, rest \<noteq> [], tl rest))"

fun parse_parts ::
  "(string \<Rightarrow> rat option) \<Rightarrow> string list \<Rightarrow> (string, rat) dict \<Rightarrow> weight_error + (string, rat) dict" where
  "parse_parts flt [] vs = Inr vs"
| "parse_parts flt (part # parts) vs =
     (let (k, sep, raw) = partition_eq part; k = lower (strip k)
      in if \<not> sep \<or> k \<notin> {''cost'', ''fit'', ''os''} then Inl (BadWeightKey part)
         else case flt raw of
                None \<Rightarrow> Inl (BadWeightNumber (strip raw))
              | Some x \<Rightarrow> parse_parts flt parts (AList.update k x vs))"

definition weight_or :: "(string, rat) dict \<Rightarrow> string \<Rightarrow> rat \<Rightarrow> rat" where
  "weight_or vs k dflt = (case map_of vs k of None \<Rightarrow> dflt | Some x \<Rightarrow> x)"

definition parse_weights :: "(string \<Rightarrow> rat option) \<Rightarrow> string \<Rightarrow> weight_error + weights" where
  "parse_weights flt s =
     (case parse_parts flt (filter (\<lambda>p. p \<noteq> []) (map strip (split_on CHR '','' s))) [] of
        Inl e \<Rightarrow> Inl e
      | Inr vs \<Rightarrow> scoring_weights (weight_or vs ''cost'' W_COST) (weight_or vs ''fit'' W_FIT) (weight_or vs ''os'' W_OS))"

subsection \<open>Scores\<close>

datatype reason = NotEligible nat | LowestCost rat | MoreThanCheapest rat | TightestFit | PricedForReference nat
  | WindowsHeavy nat | LinuxHeavy nat | BroadestEcosystem

record cloud_score =
  cs_cloud :: string
  cs_total :: rat
  cs_compute :: rat
  cs_annual :: rat
  cs_windows :: nat
  cs_linux :: nat
  cs_cost_score :: rat
  cs_fit_score :: rat
  cs_os_score :: rat
  cs_weighted :: rat
  cs_unsupported :: nat
  cs_eligible :: bool
  cs_reasons :: "reason list"

datatype decisiveness = Clear | Moderate | Close

record recommendation =
  rc_recommended :: string
  rc_ranked :: "cloud_score list"
  rc_decisiveness :: decisiveness
  rc_margin :: rat
  rc_runner_up :: "string option"
  rc_not_ranked :: "string list"
  rc_weights :: weights
  rc_custom :: bool

definition is_windows_vm :: "vm \<Rightarrow> bool" where
  "is_windows_vm vm \<longleftrightarrow> (case vm_os vm of None \<Rightarrow> False | Some os \<Rightarrow> contains ''windows'' (lower os))"

definition or_else :: "rat \<Rightarrow> rat \<Rightarrow> rat" where
  "or_else x y = (if x \<noteq> 0 then x else y)"

definition fit_of :: "rat \<Rightarrow> vm list \<Rightarrow> compute_plan list \<Rightarrow> rat" where
  "fit_of tu vms compute =
     (let demands = map (effective_demand tu) vms;
          req_cpu = or_else (sum_list (map d_vcpu demands)) 1;
          req_mem = or_else (sum_list (map d_memory demands)) 1;
          got_cpu = or_else (sum_list (map (\<lambda>c. of_int (c_vcpu c)) compute)) req_cpu;
          got_mem = or_else (sum_list (map c_memory compute)) req_mem;
          cpu_fit = min 1 (req_cpu / got_cpu);
          mem_fit = min 1 (req_mem / got_mem)
      in round_dp 4 ((cpu_fit + mem_fit) / 2))"

definition os_affinity :: "string \<Rightarrow> rat \<Rightarrow> rat" where
  "os_affinity cloud windows_fraction =
     (let linux_fraction = 1 - windows_fraction
      in if cloud = ''azure'' then round_dp 4 (0.5 + 0.5 * windows_fraction)
         else if cloud = ''gcp'' then round_dp 4 (0.5 + 0.5 * linux_fraction)
         else AWS_OS_BASELINE)"

definition unsupported_vm :: "target \<Rightarrow> vm \<Rightarrow> bool" where
  "unsupported_vm t vm \<longleftrightarrow>
     (case vm_os vm of None \<Rightarrow> False
      | Some os \<Rightarrow> os \<noteq> [] \<and> os_family os \<noteq> os_family (t_image_key t (Some os)))"

definition unsupported_count :: "target \<Rightarrow> vm list \<Rightarrow> nat" where
  "unsupported_count t vms = length (filter (unsupported_vm t) vms)"

record raw_metrics =
  rm_cost :: rat
  rm_compute :: rat
  rm_fit :: rat
  rm_os :: rat
  rm_unsupported :: nat

datatype recommend_error =
  TooManyVms | BadTarget target_error | PlanRaised plan_error | NoPricedTarget

text \<open>The requested names with and without a published price; an unknown name ends the run.\<close>

fun split_priced :: "string list \<Rightarrow> target_error + string list \<times> string list" where
  "split_priced [] = Inr ([], [])"
| "split_priced (n # ns) =
     (case get_target n of
        Inl e \<Rightarrow> Inl e
      | Inr t \<Rightarrow>
          (case split_priced ns of
             Inl e \<Rightarrow> Inl e
           | Inr (ps, us) \<Rightarrow> Inr (if ''priced'' \<in> set (t_capabilities t) then (n # ps, us) else (ps, n # us))))"

definition metrics_of ::
  "rs_config \<Rightarrow> (target \<Rightarrow> provider) \<Rightarrow> vm list \<Rightarrow> rat \<Rightarrow> string \<Rightarrow> pricing_state
    \<Rightarrow> recommend_error + raw_metrics \<times> pricing_state" where
  "metrics_of cfg prov vms windows_fraction name st =
     (case get_target name of
        Inl e \<Rightarrow> Inl (BadTarget e)
      | Inr t \<Rightarrow>
          (case build_migration_plan cfg vms ''recommendation'' t None (prov t) ''vmware'' False None st of
             Inl e \<Rightarrow> Inl (PlanRaised e)
           | Inr (plan, st) \<Rightarrow>
               (case estimate_costs (rs_env cfg) plan st of
                  Inl e \<Rightarrow> Inl (BadTarget e)
                | Inr (costs, st) \<Rightarrow>
                    Inr (\<lparr>rm_cost = cb_total costs, rm_compute = cb_compute costs,
                          rm_fit = fit_of (rs_util cfg) vms (plan_compute plan),
                          rm_os = os_affinity name windows_fraction,
                          rm_unsupported = unsupported_count t vms\<rparr>, st))))"

fun all_metrics ::
  "(string \<Rightarrow> pricing_state \<Rightarrow> recommend_error + raw_metrics \<times> pricing_state) \<Rightarrow> string list
    \<Rightarrow> (string, raw_metrics) dict \<Rightarrow> pricing_state \<Rightarrow> recommend_error + (string, raw_metrics) dict \<times> pricing_state" where
  "all_metrics f [] raw st = Inr (raw, st)"
| "all_metrics f (n # ns) raw st =
     (case f n st of
        Inl e \<Rightarrow> Inl e
      | Inr (r, st) \<Rightarrow> all_metrics f ns (AList.update n r raw) st)"

text \<open>\<open>min\<close> and \<open>max\<close> of a non-empty list, the first of equals.\<close>

definition cost_baseline :: "(string, raw_metrics) dict \<Rightarrow> (string, raw_metrics) dict" where
  "cost_baseline raw =
     (let able = filter (\<lambda>(n, r). rm_unsupported r = 0) raw in if able \<noteq> [] then able else raw)"

definition cheapest :: "(string, raw_metrics) dict \<Rightarrow> rat" where
  "cheapest raw = or_else (Min (set (map (\<lambda>(n, r). rm_cost r) (cost_baseline raw)))) 1"

definition lowest_cost_cloud :: "(string, raw_metrics) dict \<Rightarrow> string" where
  "lowest_cost_cloud raw = fst (hd (sort_key (\<lambda>(n, r). rm_cost r) (cost_baseline raw)))"

definition tightest_fit :: "(string, raw_metrics) dict \<Rightarrow> string option" where
  "tightest_fit raw =
     (let best = Max (set (map (\<lambda>(n, r). rm_fit r) raw))
      in case filter (\<lambda>(n, r). rm_fit r = best) raw of [(n, r)] \<Rightarrow> Some n | _ \<Rightarrow> None)"

definition reasons_of ::
  "(string, raw_metrics) dict \<Rightarrow> nat \<Rightarrow> nat \<Rightarrow> string \<times> raw_metrics \<Rightarrow> reason list" where
  "reasons_of raw windows linux = (\<lambda>(n, r).
     (if rm_unsupported r \<noteq> 0 then [NotEligible (rm_unsupported r)] else []) @
     (if rm_unsupported r = 0 then
        [if n = lowest_cost_cloud raw then LowestCost (rm_cost r) else MoreThanCheapest (rm_cost r - cheapest raw)] @
        (if Some n = tightest_fit raw then [TightestFit] else [])
      else [PricedForReference (windows + linux - rm_unsupported r)]) @
     (if n = ''azure'' \<and> 0 < windows then [WindowsHeavy windows] else []) @
     (if n = ''gcp'' \<and> 0 < linux then [LinuxHeavy linux] else []) @
     (if n = ''aws'' then [BroadestEcosystem] else []))"

definition score_of ::
  "weights \<Rightarrow> (string, raw_metrics) dict \<Rightarrow> nat \<Rightarrow> nat \<Rightarrow> string \<times> raw_metrics \<Rightarrow> cloud_score" where
  "score_of w raw windows linux = (\<lambda>(n, r).
     let cost_score = (if rm_cost r \<noteq> 0 then round_dp 4 (min (cheapest raw / rm_cost r) 1) else 1);
         eligible = (rm_unsupported r = 0);
         weighted = round_dp 4 (w_cost w * cost_score + w_fit w * rm_fit r + w_os w * rm_os r)
     in \<lparr>cs_cloud = n, cs_total = rm_cost r, cs_compute = rm_compute r, cs_annual = round_dp 2 (rm_cost r * 12),
         cs_windows = windows, cs_linux = linux, cs_cost_score = cost_score, cs_fit_score = rm_fit r,
         cs_os_score = rm_os r, cs_weighted = (if eligible then weighted else 0),
         cs_unsupported = rm_unsupported r, cs_eligible = eligible,
         cs_reasons = reasons_of raw windows linux (n, r)\<rparr>)"

text \<open>The stable descending sort on \<open>(eligible, weighted_score)\<close>.\<close>

definition rank_scores :: "cloud_score list \<Rightarrow> cloud_score list" where
  "rank_scores = sort_key (\<lambda>s. (\<not> cs_eligible s, - cs_weighted s))"

definition decisiveness_of :: "rat \<Rightarrow> decisiveness" where
  "decisiveness_of margin = (if 0.10 \<le> margin then Clear else if 0.03 \<le> margin then Moderate else Close)"

definition rank_clouds ::
  "weights \<Rightarrow> string list \<Rightarrow> nat \<Rightarrow> nat \<Rightarrow> (string, raw_metrics) dict \<Rightarrow> recommendation" where
  "rank_clouds w not_ranked windows linux raw =
     (let scores = rank_scores (map (score_of w raw windows linux) raw);
          winner = hd scores;
          able = filter cs_eligible scores;
          contenders = (if able \<noteq> [] then able else scores);
          margin = (if 1 < length contenders then round_dp 4 (cs_weighted winner - cs_weighted (contenders ! 1))
                    else cs_weighted winner)
      in \<lparr>rc_recommended = cs_cloud winner, rc_ranked = scores, rc_decisiveness = decisiveness_of margin,
          rc_margin = margin, rc_runner_up = (if 1 < length contenders then Some (cs_cloud (contenders ! 1)) else None),
          rc_not_ranked = not_ranked, rc_weights = w, rc_custom = (w \<noteq> default_weights)\<rparr>)"

definition recommend ::
  "rs_config \<Rightarrow> nat \<Rightarrow> (target \<Rightarrow> provider) \<Rightarrow> vm list \<Rightarrow> string list option \<Rightarrow> weights option \<Rightarrow> pricing_state
    \<Rightarrow> recommend_error + recommendation \<times> pricing_state" where
  "recommend cfg max_vms prov vms targets weights st =
     (let w = (case weights of None \<Rightarrow> default_weights | Some w \<Rightarrow> w);
          requested = (case targets of None \<Rightarrow> list_targets | Some ts \<Rightarrow> if ts = [] then list_targets else ts);
          total = length vms; windows = length (filter is_windows_vm vms); linux = total - windows;
          windows_fraction = (if total \<noteq> 0 then of_nat windows / of_nat total else 0)
      in if max_vms < length vms then Inl TooManyVms
         else case split_priced requested of
                Inl e \<Rightarrow> Inl (BadTarget e)
              | Inr (names, not_ranked) \<Rightarrow>
                  (case all_metrics (metrics_of cfg prov vms windows_fraction) names [] st of
                     Inl e \<Rightarrow> Inl e
                   | Inr (raw, st) \<Rightarrow>
                       if raw = [] then Inl NoPricedTarget
                       else Inr (rank_clouds w not_ranked windows linux raw, st)))"

subsection \<open>Facts: the ranking\<close>

lemma set_rank_scores: "set (rank_scores xs) = set xs"
  by (simp add: rank_scores_def)

text \<open>The first of the ranking is eligible if any is, and has the best score of the eligible ones.\<close>

lemma rank_winner:
  assumes "s \<in> set xs" and "cs_eligible s"
  shows "cs_eligible (hd (rank_scores xs)) \<and> cs_weighted s \<le> cs_weighted (hd (rank_scores xs))"
  using hd_sort_key_le [OF assms(1), of "\<lambda>s. (\<not> cs_eligible s, - cs_weighted s)"] assms(2)
  by (auto simp: rank_scores_def less_eq_prod_def le_less)

lemma split_priced_sets:
  "split_priced ns = Inr (ps, us) \<Longrightarrow>
     set ns = set ps \<union> set us \<and>
     (\<forall>n \<in> set ps. \<exists>t. get_target n = Inr t \<and> ''priced'' \<in> set (t_capabilities t)) \<and>
     (\<forall>n \<in> set us. \<exists>t. get_target n = Inr t \<and> ''priced'' \<notin> set (t_capabilities t))"
  by (induction ns arbitrary: ps us) (auto split: sum.splits if_splits)

lemma all_metrics_keys:
  "all_metrics f ns raw st = Inr (raw', st') \<Longrightarrow> set (keys raw') = set (keys raw) \<union> set ns"
proof (induction f ns raw st rule: all_metrics.induct)
  case (2 f n ns raw st)
  then show ?case by (auto simp: keys_dict_update simp del: set_map split: sum.splits prod.splits)
qed simp

lemma all_metrics_mem:
  assumes "all_metrics f ns raw st = Inr (raw', st')" and "(n, r) \<in> set raw'"
  shows "(n, r) \<in> set raw \<or> (\<exists>st1 st2. f n st1 = Inr (r, st2))"
  using assms
proof (induction f ns raw st rule: all_metrics.induct)
  case (2 f m ns raw st)
  obtain q st1 where q: "f m st = Inr (q, st1)" using 2(2) by (auto split: sum.splits)
  show ?case using 2(1) [OF q refl] 2(2,3) q by (auto dest: AList_update_mem)
qed simp

lemma recommendD:
  assumes "recommend cfg mx prov vms ts ws st = Inr (r, st')"
  obtains names raw where "split_priced (case ts of None \<Rightarrow> list_targets | Some l \<Rightarrow> if l = [] then list_targets else l)
      = Inr (names, rc_not_ranked r)"
    and "all_metrics (metrics_of cfg prov vms (if vms \<noteq> [] then of_nat (length (filter is_windows_vm vms)) / of_nat (length vms) else 0))
      names [] st = Inr (raw, st')"
    and "raw \<noteq> []" and "length vms \<le> mx"
    and "r = rank_clouds (case ws of None \<Rightarrow> default_weights | Some w \<Rightarrow> w) (rc_not_ranked r)
      (length (filter is_windows_vm vms)) (length vms - length (filter is_windows_vm vms)) raw"
  using assms
  by (auto simp: recommend_def Let_def rank_clouds_def split: if_splits sum.splits prod.splits intro: that)

text \<open>What holds of every machine as it is planned holds of the plan, when the label does not matter.\<close>

lemma plan_vms_lift:
  assumes "\<And>vm c st st'. plan_vm cfg p te t region live vm st = Some (c, st') \<Longrightarrow> Q vm c"
  shows "plan_vms cfg p te t region live vms st = Some (cs, st') \<Longrightarrow> list_all2 Q vms cs"
proof (induction vms arbitrary: cs st st')
  case (Cons vm vms)
  then show ?case by (auto split: option.splits prod.splits intro: assms)
qed simp

lemma built_plan_lift:
  assumes "build_migration_plan cfg vms project t region p source live zone st = Inr (plan, st')"
    and "\<And>te region vm c st st'. plan_vm cfg p te t region live vm st = Some (c, st') \<Longrightarrow> Q vm c"
    and "\<And>vm c n. Q vm c \<Longrightarrow> Q vm (c\<lparr>c_resource_name := n\<rparr>)"
  shows "list_all2 Q vms (plan_compute plan)"
proof -
  obtain r where "build_compute_plans cfg vms p (tier_env_index (classify vms p)) t r live st = Some (plan_compute plan, st')"
    using assms(1) by (rule build_migration_planD)
  then obtain cs0 r' where cs0: "plan_vms cfg p (tier_env_index (classify vms p)) t r' live vms st = Some (cs0, st')"
      and cs: "plan_compute plan = ensure_unique [] cs0"
    by (auto simp: build_compute_plans_def)
  have a: "list_all2 Q vms cs0" by (rule plan_vms_lift [OF assms(2) cs0])
  have "Q vm c'" if "Q vm c" "named_like c c'" for vm c c'
    using assms(3) [OF that(1)] that(2) by (metis named_like_def)
  then show ?thesis unfolding cs by (rule list_all2_trans [OF _ a ensure_unique_like])
qed

lemma changed_compute_plan [simp]:
  "c_os_family_changed (compute_plan_for t vm tr env itype img price) = family_changed (vm_os vm) img"
  by (simp add: compute_plan_for_def Let_def)

lemma family_changed_key: "family_changed (vm_os vm) (t_image_key t (vm_os vm)) = unsupported_vm t vm"
  by (simp add: family_changed_def unsupported_vm_def split: option.split)

lemma rule_vm_image:
  assumes "plan_vm cfg (rule_engine tu t) te t region live vm st = Some (c, st')"
  shows "c_os_family_changed c = unsupported_vm t vm"
  using assms family_changed_key [of vm t]
  by (auto simp: plan_vm_def rule_engine_def rule_rightsize_def Let_def split: prod.splits option.splits if_splits)

lemma rule_plan_os:
  assumes "build_migration_plan cfg vms project t region (rule_engine tu t) source live zone st = Inr (plan, st')"
  shows "unsupported_count t vms = 0 \<longleftrightarrow> list_all (\<lambda>c. \<not> c_os_family_changed c) (plan_compute plan)"
proof -
  have "list_all2 (\<lambda>vm c. c_os_family_changed c = unsupported_vm t vm) vms (plan_compute plan)"
    by (rule built_plan_lift [OF assms rule_vm_image]) simp_all
  then have "map (unsupported_vm t) vms = map c_os_family_changed (plan_compute plan)"
    by (induction rule: list_all2_induct) simp_all
  then have "(\<forall>x \<in> set (map (unsupported_vm t) vms). \<not> x) \<longleftrightarrow> (\<forall>x \<in> set (map c_os_family_changed (plan_compute plan)). \<not> x)"
    by simp
  then show ?thesis by (simp add: unsupported_count_def list_all_iff filter_empty_conv)
qed

text \<open>A ranked cloud is eligible exactly when no machine of its plan changes its operating-system family.\<close>

lemma ranked_score:
  assumes "recommend cfg mx prov vms ts ws st = Inr (r, st')" and "s \<in> set (rc_ranked r)"
  shows "\<exists>t. get_target (cs_cloud s) = Inr t \<and> ''priced'' \<in> set (t_capabilities t)
    \<and> cs_eligible s = (unsupported_count t vms = 0)"
proof -
  obtain names raw where n: "split_priced (case ts of None \<Rightarrow> list_targets | Some l \<Rightarrow> if l = [] then list_targets else l)
        = Inr (names, rc_not_ranked r)"
    and m: "all_metrics (metrics_of cfg prov vms (if vms \<noteq> [] then of_nat (length (filter is_windows_vm vms)) / of_nat (length vms) else 0))
        names [] st = Inr (raw, st')"
    and r: "r = rank_clouds (case ws of None \<Rightarrow> default_weights | Some w \<Rightarrow> w) (rc_not_ranked r)
      (length (filter is_windows_vm vms)) (length vms - length (filter is_windows_vm vms)) raw"
    by (rule recommendD [OF assms(1)])
  have "rc_ranked r = rank_scores (map (score_of (case ws of None \<Rightarrow> default_weights | Some w \<Rightarrow> w) raw
      (length (filter is_windows_vm vms)) (length vms - length (filter is_windows_vm vms))) raw)"
    by (subst r) (simp add: rank_clouds_def Let_def)
  then obtain k q where k: "(k, q) \<in> set raw" and s: "cs_cloud s = k" "cs_eligible s = (rm_unsupported q = 0)"
    using assms(2) by (auto simp: set_rank_scores score_of_def Let_def)
  have "k \<in> set names" using all_metrics_keys [OF m] k by force
  then obtain t where t: "get_target k = Inr t" "''priced'' \<in> set (t_capabilities t)"
    using split_priced_sets [OF n] by blast
  obtain st1 st2 where f: "metrics_of cfg prov vms (if vms \<noteq> [] then of_nat (length (filter is_windows_vm vms)) / of_nat (length vms) else 0)
      k st1 = Inr (q, st2)"
    using all_metrics_mem [OF m k] by auto
  have "rm_unsupported q = unsupported_count t vms"
    using f t(1) by (auto simp: metrics_of_def split: sum.splits prod.splits)
  then show ?thesis using t s by simp
qed

definition requested :: "string list option \<Rightarrow> string list" where
  "requested ts = (case ts of None \<Rightarrow> list_targets | Some l \<Rightarrow> if l = [] then list_targets else l)"

lemma ranked_names:
  assumes "recommend cfg mx prov vms ts ws st = Inr (r, st')"
  shows "set (map cs_cloud (rc_ranked r)) \<union> set (rc_not_ranked r) = set (requested ts)"
    and "rc_ranked r \<noteq> []" and "rc_recommended r = cs_cloud (hd (rc_ranked r))"
    and "s \<in> set (rc_ranked r) \<Longrightarrow> cs_eligible s \<Longrightarrow>
      cs_eligible (hd (rc_ranked r)) \<and> cs_weighted s \<le> cs_weighted (hd (rc_ranked r))"
    and "n \<in> set (rc_not_ranked r) \<Longrightarrow> \<exists>t. get_target n = Inr t \<and> ''priced'' \<notin> set (t_capabilities t)"
proof -
  obtain names raw f where n: "split_priced (requested ts) = Inr (names, rc_not_ranked r)"
    and m: "all_metrics f names [] st = Inr (raw, st')" and ne: "raw \<noteq> []"
    and r: "r = rank_clouds (case ws of None \<Rightarrow> default_weights | Some w \<Rightarrow> w) (rc_not_ranked r)
      (length (filter is_windows_vm vms)) (length vms - length (filter is_windows_vm vms)) raw"
    by (rule recommendD [OF assms]) (auto simp: requested_def)
  define sc where "sc = score_of (case ws of None \<Rightarrow> default_weights | Some w \<Rightarrow> w) raw
      (length (filter is_windows_vm vms)) (length vms - length (filter is_windows_vm vms))"
  have rk: "rc_ranked r = rank_scores (map sc raw)"
    by (subst r) (simp add: rank_clouds_def Let_def sc_def)
  have c: "cs_cloud (sc x) = fst x" for x by (simp add: sc_def score_of_def Let_def split: prod.split)
  have "set (map cs_cloud (rc_ranked r)) = set (keys raw)"
    by (simp add: rk set_rank_scores image_image c)
  then show "set (map cs_cloud (rc_ranked r)) \<union> set (rc_not_ranked r) = set (requested ts)"
    using all_metrics_keys [OF m] split_priced_sets [OF n] by (simp del: set_map)
  show "rc_ranked r \<noteq> []" using ne unfolding rk by (metis set_rank_scores set_empty map_is_Nil_conv)
  show "rc_recommended r = cs_cloud (hd (rc_ranked r))" by (subst (1 2) r) (simp add: rank_clouds_def Let_def)
  show "s \<in> set (rc_ranked r) \<Longrightarrow> cs_eligible s \<Longrightarrow>
      cs_eligible (hd (rc_ranked r)) \<and> cs_weighted s \<le> cs_weighted (hd (rc_ranked r))"
    unfolding rk set_rank_scores by (rule rank_winner)
  show "n \<in> set (rc_not_ranked r) \<Longrightarrow> \<exists>t. get_target n = Inr t \<and> ''priced'' \<notin> set (t_capabilities t)"
    using split_priced_sets [OF n] by blast
qed

subsection \<open>Facts: when there is a recommendation\<close>

lemma rule_engine_total: "cloud_target t \<Longrightarrow> provider_total (rule_engine tu t)"
  by (auto simp: provider_total_def rule_engine_def rule_rightsize_def Let_def
      dest: cloud_target.fit_exists split: option.split)

lemma lower_registered: "get_target n = Inr t \<Longrightarrow> lower n = n"
  by (auto simp: get_target_def registry_targets REGISTRY_def AWS_def AZURE_def GCP_def OCI_def DIGITALOCEAN_def
      NUTANIX_def PROXMOX_def lower_char_def char_class_defs split: option.splits if_splits)

lemma metrics_total:
  assumes "get_target n = Inr t"
  shows "\<exists>m st'. metrics_of cfg (rule_engine tu) vms share n st = Inr (m, st')"
proof -
  have ct: "cloud_target t" using assms by (rule get_target_cloud)
  obtain plan st1 where b: "build_migration_plan cfg vms ''recommendation'' t None (rule_engine tu t) ''vmware'' False None st = Inr (plan, st1)"
    by (rule build_migration_plan_total [OF ct rule_engine_total [OF ct] zone_fits_default [OF assms]])
  have "plan_target plan = n" using b get_target_name [OF assms] by (auto elim: build_migration_planD)
  then have "get_target (lower (plan_target plan)) = Inr t" using lower_registered [OF assms] assms by simp
  then have "\<exists>c st2. estimate_costs (rs_env cfg) plan st1 = Inr (c, st2)"
    by (simp add: estimate_costs_def Let_def split: prod.split)
  then show ?thesis using assms b by (auto simp: metrics_of_def)
qed

lemma all_metrics_total:
  assumes "\<And>n st. n \<in> set ns \<Longrightarrow> \<exists>m st'. f n st = Inr (m, st')"
  shows "\<exists>raw' st'. all_metrics f ns raw st = Inr (raw', st')"
  using assms
proof (induction ns arbitrary: raw st)
  case (Cons n ns)
  obtain m st1 where m: "f n st = Inr (m, st1)" using Cons.prems [of n st] by auto
  have "\<exists>raw' st'. all_metrics f ns (AList.update n m raw) st1 = Inr (raw', st')" by (rule Cons.IH) (simp add: Cons.prems)
  then show ?case by (simp add: m)
qed simp

lemma split_priced_total:
  "(\<exists>ps us. split_priced ns = Inr (ps, us)) \<longleftrightarrow> (\<forall>n \<in> set ns. \<exists>t. get_target n = Inr t)"
  by (induction ns) (fastforce split: sum.splits prod.splits)+

lemma priced_names: "split_priced ns = Inr (ps, us) \<Longrightarrow> set ps = set ns - {''nutanix'', ''proxmox''}"
  using split_priced_sets [of ns ps us] capabilities_priced by blast

lemma recommend_Inr_iff:
  "(\<exists>r st'. recommend cfg mx (rule_engine tu) vms ts ws st = Inr (r, st')) \<longleftrightarrow>
     length vms \<le> mx \<and> (\<forall>n \<in> set (requested ts). \<exists>t. get_target n = Inr t)
     \<and> \<not> set (requested ts) \<subseteq> {''nutanix'', ''proxmox''}"
  (is "?L \<longleftrightarrow> ?R")
proof
  assume ?L
  then obtain r st' where r: "recommend cfg mx (rule_engine tu) vms ts ws st = Inr (r, st')" by blast
  obtain names raw f where n: "split_priced (requested ts) = Inr (names, rc_not_ranked r)"
    and m: "all_metrics f names [] st = Inr (raw, st')" and ne: "raw \<noteq> []" and l: "length vms \<le> mx"
    by (rule recommendD [OF r]) (auto simp: requested_def)
  have "names \<noteq> []" using m ne by auto
  then have "set names \<noteq> {}" by simp
  then have "\<not> set (requested ts) \<subseteq> {''nutanix'', ''proxmox''}" unfolding priced_names [OF n] by blast
  then show ?R using l split_priced_total n by blast
next
  assume R: ?R
  then obtain ps us where n: "split_priced (requested ts) = Inr (ps, us)" using split_priced_total by blast
  have p: "set ps \<noteq> {}" "\<And>k. k \<in> set ps \<Longrightarrow> \<exists>t. get_target k = Inr t"
    using priced_names [OF n] R by auto
  obtain raw st' where m: "all_metrics (metrics_of cfg (rule_engine tu) vms
      (if length vms \<noteq> 0 then of_nat (length (filter is_windows_vm vms)) / of_nat (length vms) else 0)) ps [] st = Inr (raw, st')"
    using all_metrics_total [of ps "metrics_of cfg (rule_engine tu) vms _" "[]" st] metrics_total p(2) by metis
  have "raw \<noteq> []" using all_metrics_keys [OF m] p(1) by auto
  then show ?L using R n m unfolding recommend_def requested_def [symmetric] Let_def by simp
qed

end
