(* ===== verification/Normalize.thy ===== *)
theory Normalize
  imports Models PyFloat
begin

text \<open>
  \<open>normalize.py\<close>: raw inventory rows to validated machines. Coercions of numbers and units, the sanitizer
  every free text goes through, de-duplication by identity, and distinct names for machines that share one.
  \<open>Inl\<close> is the validation error of the data model.
\<close>

definition MIB_PER_GIB :: rat where "MIB_PER_GIB = 1024"
definition MIN_MEMORY_GIB :: rat where "MIN_MEMORY_GIB = 1"

subsection \<open>Numbers\<close>

definition to_int :: "py_env \<Rightarrow> raw_value \<Rightarrow> int" where
  "to_int env v = (case float_of env v of Some (Fin x) \<Rightarrow> max 1 (round_even x) | _ \<Rightarrow> 1)"

definition to_float :: "py_env \<Rightarrow> raw_value \<Rightarrow> rat option" where
  "to_float env v = (case float_of env v of Some (Fin x) \<Rightarrow> Some x | _ \<Rightarrow> None)"

definition rstrip_by :: "(char \<Rightarrow> bool) \<Rightarrow> string \<Rightarrow> string" where
  "rstrip_by p s = rev (dropWhile p (rev s))"

definition util_pct :: "py_env \<Rightarrow> raw_value \<Rightarrow> rat option" where
  "util_pct env v =
     (if v = RNone then None
      else case py_float env (strip (rstrip_by (\<lambda>c. c = CHR ''%'') (strip (str_value env v)))) of
             Some (Fin x) \<Rightarrow>
               (let x = (if 0 < x \<and> x \<le> 1 then x * 100 else x)
                in if 0 \<le> x \<and> x \<le> 100 then Some (round_dp 2 x) else None)
           | _ \<Rightarrow> None)"

definition mib_to_gib :: "rat option \<Rightarrow> rat option" where
  "mib_to_gib mib = map_option (\<lambda>m. round_dp 2 (m / MIB_PER_GIB)) mib"

definition in_mib :: "py_env \<Rightarrow> raw_record \<Rightarrow> string \<Rightarrow> bool" where
  "in_mib env rec k \<longleftrightarrow> lower (case map_of rec k of None \<Rightarrow> ''gib'' | Some v \<Rightarrow> str_value env v) = ''mib''"

definition unit_gib :: "py_env \<Rightarrow> raw_record \<Rightarrow> string \<Rightarrow> rat \<Rightarrow> rat" where
  "unit_gib env rec k x = (if in_mib env rec k then round_dp 2 (x / MIB_PER_GIB) else round_dp 2 x)"

definition memory_gib :: "py_env \<Rightarrow> raw_record \<Rightarrow> rat" where
  "memory_gib env rec =
     (case mib_to_gib (to_float env (field rec ''memory_mib'')) of
        Some g \<Rightarrow> if g \<noteq> 0 then g else (case to_float env (field rec ''memory_value'') of
            None \<Rightarrow> MIN_MEMORY_GIB
          | Some x \<Rightarrow> let g = unit_gib env rec ''memory_unit'' x in if 0 < g then g else MIN_MEMORY_GIB)
      | None \<Rightarrow> (case to_float env (field rec ''memory_value'') of
            None \<Rightarrow> MIN_MEMORY_GIB
          | Some x \<Rightarrow> let g = unit_gib env rec ''memory_unit'' x in if 0 < g then g else MIN_MEMORY_GIB))"

text \<open>The parsers put a list under \<open>disks_mib\<close>.\<close>

definition disks_gib :: "py_env \<Rightarrow> raw_record \<Rightarrow> rat list" where
  "disks_gib env rec =
     (let items = (case field rec ''disks_mib'' of RItems vs \<Rightarrow> vs | _ \<Rightarrow> []);
          out = filter (\<lambda>g. 0 < g) (List.map_filter (\<lambda>v. mib_to_gib (to_float env v)) items)
      in if out \<noteq> [] then out
         else case to_float env (field rec ''disk_value'') of
                Some x \<Rightarrow> if 0 < x then [unit_gib env rec ''disk_unit'' x] else []
              | None \<Rightarrow> [])"

subsection \<open>Text\<close>

definition ip_like :: "string \<Rightarrow> bool" where
  "ip_like p \<longleftrightarrow> (let parts = split_on CHR ''.'' p in length parts = 4 \<and> list_all (\<lambda>w. all_digits w \<and> length w \<le> 3) parts)"

definition parse_ips :: "py_env \<Rightarrow> raw_value \<Rightarrow> string list" where
  "parse_ips env v =
     (if v = RNone then []
      else let text = strip (str_value env v)
           in filter ip_like (map strip (split_on CHR '' ''
                (sub_runs (\<lambda>c. c = CHR '','' \<or> c = CHR '';'' \<or> is_space c) '' '' text))))"

definition clean_str :: "py_env \<Rightarrow> raw_value \<Rightarrow> string option" where
  "clean_str env v = (if v = RNone then None else let s = strip (str_value env v) in if s = [] then None else Some s)"

text \<open>The class of \<open>_UNSAFE_IN_GENERATED_CODE\<close>; the pattern also matches \<open>$(\<close>.\<close>

definition unsafe_char :: "char \<Rightarrow> bool" where
  "unsafe_char c \<longleftrightarrow> code c < 32 \<or> code c = 127 \<or> c \<in> {CHR 0x22, CHR 0x27, CHR 0x5C, CHR 0x60, CHR ''<'', CHR ''>'', CHR ''{'', CHR ''}''}"

fun sub_unsafe :: "string \<Rightarrow> string" where
  "sub_unsafe [] = []"
| "sub_unsafe [c] = [if unsafe_char c then CHR ''-'' else c]"
| "sub_unsafe (c # d # cs) =
     (if unsafe_char c then CHR ''-'' # sub_unsafe (d # cs)
      else if c = CHR ''$'' \<and> d = CHR ''('' then CHR ''-'' # sub_unsafe cs
      else c # sub_unsafe (d # cs))"

definition dash :: "char \<Rightarrow> bool" where "dash c \<longleftrightarrow> c = CHR ''-''"
definition dash_or_blank :: "char \<Rightarrow> bool" where "dash_or_blank c \<longleftrightarrow> c = CHR ''-'' \<or> c = CHR '' ''"

definition sanitize_identifier :: "string \<Rightarrow> string" where
  "sanitize_identifier value =
     (let cleaned = strip (sub_runs is_space '' '' (sub_unsafe value));
          cleaned = strip_by dash_or_blank (sub_runs dash ''-'' cleaned)
      in if cleaned = [] then ''unnamed'' else cleaned)"

definition safe_str :: "py_env \<Rightarrow> raw_value \<Rightarrow> string option" where
  "safe_str env v = map_option sanitize_identifier (clean_str env v)"

subsection \<open>Identity and names\<close>

definition identity :: "vm \<Rightarrow> string" where
  "identity vm = (case vm_uuid vm of
     Some u \<Rightarrow> if u \<noteq> [] then ''uuid:'' @ lower u else ''name:'' @ vm_name vm
   | None \<Rightarrow> ''name:'' @ vm_name vm)"

definition uuid_digits :: "string \<Rightarrow> string" where
  "uuid_digits u = (let d = filter (\<lambda>c. is_digit c \<or> is_ascii_lower c) (lower u) in if d = [] then ''x'' else d)"

definition last_chars :: "nat \<Rightarrow> string \<Rightarrow> string" where
  "last_chars n s = drop (length s - n) s"

text \<open>The \<open>for width\<close> loop, and the \<open>while\<close> loop of its \<open>else\<close> branch.\<close>

definition suffixed :: "string \<Rightarrow> string \<Rightarrow> nat \<Rightarrow> string" where
  "suffixed name digits width = name @ CHR ''-'' # last_chars width digits"

definition numbered :: "string \<Rightarrow> nat \<Rightarrow> string" where
  "numbered base n = base @ CHR ''-'' # str_of_nat n"

lemma numbered_inject [simp]: "numbered b m = numbered b n \<longleftrightarrow> m = n"
  by (simp add: numbered_def)

function free_number :: "string list \<Rightarrow> string \<Rightarrow> nat \<Rightarrow> nat" where
  "free_number taken base n = (if numbered base n \<in> set taken then free_number taken base (n + 1) else n)"
  by pat_completeness auto
termination
proof (relation "measure (\<lambda>(taken, base, n). card {k. n \<le> k \<and> numbered base k \<in> set taken})", goal_cases)
  case (2 taken base n)
  have fin: "finite {k. n \<le> k \<and> numbered base k \<in> set taken}"
  proof (rule finite_imageD)
    show "finite (numbered base ` {k. n \<le> k \<and> numbered base k \<in> set taken})"
      by (rule finite_subset [of _ "set taken"]) auto
    show "inj_on (numbered base) {k. n \<le> k \<and> numbered base k \<in> set taken}" by (auto simp: inj_on_def)
  qed
  let ?later = "{k. n + 1 \<le> k \<and> numbered base k \<in> set taken}" and ?all = "{k. n \<le> k \<and> numbered base k \<in> set taken}"
  have "n \<in> ?all" "n \<notin> ?later" "?later \<subseteq> ?all" using 2 by auto
  then have "?later \<subset> ?all" by blast
  then show ?case using psubset_card_mono [OF fin] by simp
qed simp

declare free_number.simps [simp del]

definition unique_name :: "string list \<Rightarrow> string \<Rightarrow> string \<Rightarrow> string" where
  "unique_name taken name uuid =
     (let digits = uuid_digits uuid;
          widths = [min 8 (length digits)..<length digits + 1]
      in case filter (\<lambda>w. suffixed name digits w \<notin> set taken) widths of
           w # _ \<Rightarrow> suffixed name digits w
         | [] \<Rightarrow> let base = suffixed name digits (length digits) in numbered base (free_number taken base 2))"

text \<open>
  One machine of a shared name: the names taken, and the renamed list. The groups are visited in order of
  their first machine, a group in list order.
\<close>

definition rename_one :: "vm list \<Rightarrow> string list \<times> vm list \<Rightarrow> nat \<Rightarrow> string list \<times> vm list" where
  "rename_one vms = (\<lambda>(taken, out) i.
     case vm_uuid (vms ! i) of
       None \<Rightarrow> (taken, out)
     | Some u \<Rightarrow>
         if u = [] then (taken, out)
         else let n = unique_name taken (vm_name (vms ! i)) u in (n # taken, out[i := (vms ! i)\<lparr>vm_name := n\<rparr>]))"

definition name_groups :: "vm list \<Rightarrow> (string, nat list) dict" where
  "name_groups vms = group_by (\<lambda>i. vm_name (vms ! i)) [0..<length vms] []"

definition disambiguate :: "vm list \<Rightarrow> vm list" where
  "disambiguate vms =
     snd (foldl (rename_one vms) (map vm_name vms, vms)
       (concat (map snd (filter (\<lambda>(n, ix). 2 \<le> length ix) (name_groups vms)))))"

subsection \<open>Rows\<close>

datatype normalize_error = InvalidMemory

definition row_vm :: "py_env \<Rightarrow> raw_record \<Rightarrow> string \<Rightarrow> vm" where
  "row_vm env rec name =
     \<lparr>vm_name = strip name, vm_cpu = to_int env (field rec ''cpus''), vm_memory = memory_gib env rec,
      vm_disks = disks_gib env rec, vm_cpu_util = util_pct env (field rec ''cpu_util_pct''),
      vm_mem_util = util_pct env (field rec ''mem_util_pct''), vm_network = safe_str env (field rec ''network''),
      vm_os = safe_str env (field rec ''os''), vm_power = safe_str env (field rec ''powerstate''),
      vm_ips = parse_ips env (field rec ''ip''), vm_hostname = safe_str env (field rec ''dns_name''),
      vm_cluster = safe_str env (field rec ''cluster''), vm_datacenter = safe_str env (field rec ''datacenter''),
      vm_external_id = safe_str env (field rec ''external_id''), vm_uuid = safe_str env (field rec ''uuid''),
      vm_tags = []\<rparr>"

text \<open>The pydantic model refuses a memory that is not positive; the other constraints hold by construction.\<close>

definition keep_better :: "(string, vm) dict \<Rightarrow> vm \<Rightarrow> (string, vm) dict" where
  "keep_better seen vm =
     (case map_of seen (identity vm) of
        None \<Rightarrow> AList.update (identity vm) vm seen
      | Some e \<Rightarrow> if total_disk_gib e < total_disk_gib vm then AList.update (identity vm) vm seen else seen)"

fun read_rows :: "py_env \<Rightarrow> raw_record list \<Rightarrow> (string, vm) dict \<Rightarrow> normalize_error + (string, vm) dict" where
  "read_rows env [] seen = Inr seen"
| "read_rows env (rec # recs) seen =
     (case safe_str env (field rec ''name'') of
        None \<Rightarrow> read_rows env recs seen
      | Some name \<Rightarrow>
          let vm = row_vm env rec name
          in if vm_memory vm \<le> 0 then Inl InvalidMemory else read_rows env recs (keep_better seen vm))"

definition normalize :: "py_env \<Rightarrow> raw_record list \<Rightarrow> normalize_error + vm list" where
  "normalize env recs =
     (case read_rows env recs [] of Inl e \<Rightarrow> Inl e | Inr seen \<Rightarrow> Inr (disambiguate (map snd seen)))"

subsection \<open>Facts: the sanitizer\<close>

text \<open>What no template may receive: a character of the class, or \<open>$(\<close>.\<close>

definition no_call :: "char \<Rightarrow> char \<Rightarrow> bool" where
  "no_call c d \<longleftrightarrow> \<not> (c = CHR ''$'' \<and> d = CHR ''('')"

definition harmless :: "string \<Rightarrow> bool" where
  "harmless s \<longleftrightarrow> list_all (\<lambda>c. \<not> unsafe_char c) s \<and> successively no_call s"

lemma harmless_no_call: "harmless s \<Longrightarrow> \<not> contains ''$('' s"
  by (auto simp: harmless_def contains_iff successively_append_iff no_call_def)

lemma harmless_no_brace: "harmless s \<Longrightarrow> CHR ''{'' \<notin> set s \<and> CHR 0x22 \<notin> set s \<and> CHR 0x5C \<notin> set s"
  by (auto simp: harmless_def list_all_iff unsafe_char_def)

lemma unsafe_dash [simp]: "\<not> unsafe_char CHR ''-''" "\<not> unsafe_char CHR '' ''" "\<not> unsafe_char CHR ''$''"
  by (simp_all add: unsafe_char_def)

lemma no_call_dash [simp]: "no_call CHR ''-'' d" "no_call c CHR ''-''" "no_call CHR '' '' d" "no_call c CHR '' ''"
  by (simp_all add: no_call_def)

lemma sub_unsafe_hd: "sub_unsafe (c # s) \<noteq> [] \<and> hd (sub_unsafe (c # s)) \<in> {CHR ''-'', c}"
  by (cases s) auto

lemma sub_unsafe_harmless: "harmless (sub_unsafe s)"
proof (induction s rule: sub_unsafe.induct)
  case (3 c d cs)
  obtain e es where e: "sub_unsafe (d # cs) = e # es" and "e \<in> {CHR ''-'', d}"
    using sub_unsafe_hd [of d cs] by (cases "sub_unsafe (d # cs)") auto
  then have "no_call c e" if "\<not> (c = CHR ''$'' \<and> d = CHR ''('')" using that by (auto simp: no_call_def)
  then show ?case using 3 e by (auto simp: harmless_def successively_Cons)
qed (auto simp: harmless_def)

lemma sub_unsafe_id: "harmless s \<Longrightarrow> sub_unsafe s = s"
  by (induction s rule: sub_unsafe.induct) (auto simp: harmless_def no_call_def successively_Cons)

text \<open>Collapsing runs to one character leaves no two of the class side by side.\<close>

definition no_run :: "(char \<Rightarrow> bool) \<Rightarrow> char \<Rightarrow> char \<Rightarrow> bool" where
  "no_run p c d \<longleftrightarrow> \<not> (p c \<and> p d)"

lemma sub_runs_hd: "\<not> p c \<Longrightarrow> sub_runs p [r] (c # s) = c # sub_runs p [r] s"
  by simp

lemma sub_runs_successively:
  assumes "p r"
  shows "successively (no_run p) (sub_runs p [r] s)"
proof (induction p "[r]" s rule: sub_runs.induct)
  case (2 p c cs)
  show ?case
  proof (cases "p c")
    case True
    show ?thesis
    proof (cases "dropWhile p cs")
      case (Cons d ds)
      then have "\<not> p d" by (metis hd_dropWhile list.distinct(1) list.sel(1))
      then show ?thesis using 2(1) [OF True] True Cons by (simp add: successively_Cons no_run_def)
    next
      case Nil
      have "sub_runs p [r] (c # cs) = [r]" using True by (simp only: sub_runs.simps if_True Nil append.simps)
      then show ?thesis by simp
    qed
  next
    case False
    then show ?thesis using 2(2) by (auto simp: successively_Cons no_run_def)
  qed
qed simp

lemma sub_runs_single:
  assumes "successively (no_run p) s" and "\<forall>c \<in> set s. p c \<longrightarrow> c = r"
  shows "sub_runs p [r] s = s"
  using assms
proof (induction s)
  case (Cons c s)
  then show ?case by (cases s) (auto simp: successively_Cons no_run_def)
qed simp

lemma sub_runs_first: "sub_runs p [r] (c # s) \<noteq> [] \<and> hd (sub_runs p [r] (c # s)) \<in> {r, c}"
  by simp

lemma successively_dropWhile: "successively Q s \<Longrightarrow> successively Q (dropWhile p s)"
  by (metis takeWhile_dropWhile_id successively_append_iff)

lemma sub_runs_pairs:
  assumes "\<And>d. Q r d" and "\<And>d. Q d r"
  shows "successively Q s \<Longrightarrow> successively Q (sub_runs p [r] s)"
proof (induction p "[r]" s rule: sub_runs.induct)
  case (2 p c cs)
  have cs: "successively Q cs" using 2(3) by (cases cs) simp_all
  show ?case
  proof (cases "p c")
    case True
    have "successively Q (sub_runs p [r] (dropWhile p cs))" by (rule 2(1) [OF True successively_dropWhile [OF cs]])
    then show ?thesis using True assms(1) by (simp add: successively_Cons)
  next
    case False
    have t: "successively Q (sub_runs p [r] cs)" by (rule 2(2) [OF False cs])
    have "sub_runs p [r] cs = [] \<or> Q c (hd (sub_runs p [r] cs))"
    proof (cases cs)
      case (Cons d ds)
      then show ?thesis using sub_runs_first [of p r d ds] 2(3) assms(2) by auto
    qed simp
    then show ?thesis using t False by (simp add: successively_Cons)
  qed
qed simp

lemma strip_by_infix: "\<exists>a b. s = a @ strip_by p s @ b"
proof -
  let ?t = "dropWhile p s"
  have "?t = strip_by p s @ rev (takeWhile p (rev ?t))"
    unfolding strip_by_def by (metis rev_append rev_rev_ident takeWhile_dropWhile_id)
  then have "s = takeWhile p s @ strip_by p s @ rev (takeWhile p (rev ?t))"
    by (metis takeWhile_dropWhile_id)
  then show ?thesis by blast
qed

lemma successively_strip: "successively Q s \<Longrightarrow> successively Q (strip_by p s)"
  using strip_by_infix [of s p] by (metis successively_append_iff)

text \<open>The normal form: harmless, single blanks and dashes, none at the ends.\<close>

definition clean_name :: "string \<Rightarrow> bool" where
  "clean_name s \<longleftrightarrow> s \<noteq> [] \<and> harmless s \<and> successively (no_run is_space) s
     \<and> (\<forall>c \<in> set s. is_space c \<longrightarrow> c = CHR '' '') \<and> successively (no_run dash) s
     \<and> \<not> dash_or_blank (hd s) \<and> \<not> dash_or_blank (last s)"

lemma blank_chars [simp]: "is_space CHR '' ''" "\<not> is_space CHR ''-''" "dash CHR ''-''" "\<not> dash CHR '' ''"
  by (simp_all add: is_space_def dash_def)

lemma harmless_sub_runs: "harmless s \<Longrightarrow> \<not> unsafe_char r \<Longrightarrow> (\<And>d. no_call r d) \<Longrightarrow> (\<And>d. no_call d r) \<Longrightarrow> harmless (sub_runs p [r] s)"
  using set_sub_runs [of p "[r]" s] sub_runs_pairs [of no_call r s p] by (auto simp: harmless_def list_all_iff)

lemma harmless_strip: "harmless s \<Longrightarrow> harmless (strip_by p s)"
  using set_strip_by [of p s] by (auto simp: harmless_def list_all_iff successively_strip)

lemma sanitize_clean: "clean_name (sanitize_identifier v)"
proof -
  define a where "a = strip (sub_runs is_space '' '' (sub_unsafe v))"
  define b where "b = strip_by dash_or_blank (sub_runs dash ''-'' a)"
  have ha: "harmless a" unfolding a_def
    by (intro harmless_strip harmless_sub_runs sub_unsafe_harmless) simp_all
  have hb: "harmless b" unfolding b_def by (intro harmless_strip harmless_sub_runs ha) simp_all
  have sa: "successively (no_run is_space) a" unfolding a_def by (intro successively_strip sub_runs_successively) simp
  have sb: "successively (no_run is_space) b" unfolding b_def
    by (intro successively_strip sub_runs_pairs sa) (simp_all add: no_run_def)
  have db: "successively (no_run dash) b" unfolding b_def by (intro successively_strip sub_runs_successively) simp
  have "set a \<subseteq> {c \<in> set (sub_unsafe v). \<not> is_space c} \<union> {CHR '' ''}"
    unfolding a_def using set_strip_by set_sub_runs [of is_space "'' ''"] by fastforce
  then have "\<forall>c \<in> set a. is_space c \<longrightarrow> c = CHR '' ''" by auto
  moreover have "set b \<subseteq> set a \<union> {CHR ''-''}"
    unfolding b_def using set_strip_by set_sub_runs [of dash "''-''"] by fastforce
  ultimately have bb: "\<forall>c \<in> set b. is_space c \<longrightarrow> c = CHR '' ''" by auto
  have ends: "b \<noteq> [] \<Longrightarrow> \<not> dash_or_blank (hd b) \<and> \<not> dash_or_blank (last b)"
    using strip_by_hd [of dash_or_blank] strip_by_last [of dash_or_blank] by (auto simp: b_def)
  show ?thesis
  proof (cases "b = []")
    case True
    have "clean_name ''unnamed''"
      by (simp add: clean_name_def harmless_def unsafe_char_def no_call_def no_run_def dash_def dash_or_blank_def is_space_def)
    then show ?thesis using True by (simp add: sanitize_identifier_def Let_def a_def b_def)
  next
    case False
    then have "sanitize_identifier v = b" by (simp add: sanitize_identifier_def Let_def a_def b_def)
    then show ?thesis using False hb sb db bb ends by (simp add: clean_name_def)
  qed
qed

lemma sanitize_id:
  assumes "clean_name s"
  shows "sanitize_identifier s = s"
proof -
  have e: "\<not> is_space (hd s)" "\<not> is_space (last s)"
    using assms by (auto simp: clean_name_def dash_or_blank_def dest: hd_in_set last_in_set)
  have "sub_unsafe s = s" using assms by (simp add: clean_name_def sub_unsafe_id)
  moreover have "sub_runs is_space '' '' s = s" using assms by (intro sub_runs_single) (auto simp: clean_name_def)
  moreover have "strip s = s" using e by (simp add: strip_by_id)
  moreover have "sub_runs dash ''-'' s = s" using assms by (intro sub_runs_single) (auto simp: clean_name_def dash_def)
  moreover have "strip_by dash_or_blank s = s" using assms by (simp add: strip_by_id clean_name_def)
  ultimately show ?thesis using assms by (simp add: sanitize_identifier_def clean_name_def)
qed

subsection \<open>Facts: distinct names\<close>

lemma free_number_new: "numbered base (free_number taken base n) \<notin> set taken"
  by (induction taken base n rule: free_number.induct) (subst free_number.simps, simp)

lemma unique_name_new: "unique_name taken name uuid \<notin> set taken"
proof -
  let ?f = "filter (\<lambda>w. suffixed name (uuid_digits uuid) w \<notin> set taken) [min 8 (length (uuid_digits uuid))..<length (uuid_digits uuid) + 1]"
  show ?thesis
  proof (cases ?f)
    case Nil
    then show ?thesis by (simp add: unique_name_def Let_def free_number_new del: upt_Suc)
  next
    case (Cons w ws)
    then have "w \<in> set ?f" by (metis list.set_intros(1))
    then have "suffixed name (uuid_digits uuid) w \<notin> set taken" by (unfold set_filter) blast
    then show ?thesis using Cons by (simp add: unique_name_def Let_def del: upt_Suc)
  qed
qed

definition has_uuid :: "vm \<Rightarrow> bool" where
  "has_uuid vm \<longleftrightarrow> vm_uuid vm \<noteq> None \<and> vm_uuid vm \<noteq> Some []"

text \<open>
  What holds while the machines of shared names are renamed: \<open>ix\<close> are the positions visited. A machine is
  as it was, or has a name that no machine had and no other renamed machine has.
\<close>

definition renaming :: "vm list \<Rightarrow> nat set \<Rightarrow> string list \<times> vm list \<Rightarrow> bool" where
  "renaming vms ix st \<longleftrightarrow>
     length (snd st) = length vms \<and> set (map vm_name vms) \<subseteq> set (fst st) \<and>
     (\<forall>i < length vms. if i \<in> ix \<and> has_uuid (vms ! i)
        then \<exists>n. snd st ! i = (vms ! i)\<lparr>vm_name := n\<rparr> \<and> n \<in> set (fst st) \<and> n \<notin> set (map vm_name vms)
        else snd st ! i = vms ! i) \<and>
     (\<forall>i j. i \<in> ix \<longrightarrow> j \<in> ix \<longrightarrow> has_uuid (vms ! i) \<longrightarrow> has_uuid (vms ! j) \<longrightarrow> i \<noteq> j \<longrightarrow>
        vm_name (snd st ! i) \<noteq> vm_name (snd st ! j))"

lemma renaming_step:
  assumes "renaming vms ix st" and "i < length vms" and "i \<notin> ix" and "ix \<subseteq> {..<length vms}"
  shows "renaming vms (insert i ix) (rename_one vms st i)"
proof (cases "has_uuid (vms ! i)")
  case False
  obtain taken out where st: "st = (taken, out)" by fastforce
  have "rename_one vms st i = st"
    using False by (auto simp: st rename_one_def has_uuid_def split: option.split)
  then show ?thesis using assms(1) False unfolding renaming_def by auto
next
  case True
  obtain taken out where st: "st = (taken, out)" by fastforce
  obtain u where u: "vm_uuid (vms ! i) = Some u" "u \<noteq> []" using True by (auto simp: has_uuid_def)
  let ?n = "unique_name taken (vm_name (vms ! i)) u"
  have r: "rename_one vms st i = (?n # taken, out[i := (vms ! i)\<lparr>vm_name := ?n\<rparr>])"
    by (simp add: st rename_one_def u Let_def)
  have new: "?n \<notin> set taken" by (rule unique_name_new)
  have len: "length out = length vms" and sub: "set (map vm_name vms) \<subseteq> set taken"
    using assms(1) by (simp_all add: renaming_def st)
  have old: "if j \<in> ix \<and> has_uuid (vms ! j)
      then \<exists>n. out ! j = (vms ! j)\<lparr>vm_name := n\<rparr> \<and> n \<in> set taken \<and> n \<notin> set (map vm_name vms) else out ! j = vms ! j"
    if "j < length vms" for j
  proof -
    have "\<forall>j < length vms. if j \<in> ix \<and> has_uuid (vms ! j)
      then \<exists>n. out ! j = (vms ! j)\<lparr>vm_name := n\<rparr> \<and> n \<in> set taken \<and> n \<notin> set (map vm_name vms) else out ! j = vms ! j"
      using assms(1) unfolding renaming_def st prod.sel by (elim conjE)
    then show ?thesis using that by blast
  qed
  have other: "vm_name (out ! j) \<in> set taken" if ix: "j \<in> ix" and uu: "has_uuid (vms ! j)" for j
  proof -
    have "j < length vms" using ix assms(4) by auto
    then obtain n where "out ! j = (vms ! j)\<lparr>vm_name := n\<rparr>" "n \<in> set taken" using old [of j] unfolding if_P [OF conjI [OF ix uu]] by blast
    then show ?thesis by simp
  qed
  show ?thesis
    unfolding renaming_def r prod.sel
  proof (intro conjI allI impI)
    show "length (out[i := (vms ! i)\<lparr>vm_name := ?n\<rparr>]) = length vms" by (simp add: len)
    show "set (map vm_name vms) \<subseteq> set (?n # taken)" using sub by auto
    show "if j \<in> insert i ix \<and> has_uuid (vms ! j)
        then \<exists>n. out[i := (vms ! i)\<lparr>vm_name := ?n\<rparr>] ! j = (vms ! j)\<lparr>vm_name := n\<rparr> \<and> n \<in> set (?n # taken) \<and> n \<notin> set (map vm_name vms)
        else out[i := (vms ! i)\<lparr>vm_name := ?n\<rparr>] ! j = vms ! j" if "j < length vms" for j
    proof (cases "j = i")
      case True
      have "?n \<notin> set (map vm_name vms)" using new sub by blast
      then show ?thesis using True \<open>has_uuid (vms ! i)\<close> assms(2) len by (intro if_P [THEN iffD2]) auto
    next
      case False
      then show ?thesis using old [OF that] by (auto split: if_splits)
    qed
    show "vm_name (out[i := (vms ! i)\<lparr>vm_name := ?n\<rparr>] ! j) \<noteq> vm_name (out[i := (vms ! i)\<lparr>vm_name := ?n\<rparr>] ! k)"
      if jk: "j \<in> insert i ix" "k \<in> insert i ix" "has_uuid (vms ! j)" "has_uuid (vms ! k)" "j \<noteq> k" for j k
    proof -
      have both: "vm_name (out ! j) \<noteq> vm_name (out ! k)" if "j \<in> ix" "k \<in> ix"
        using assms(1) that jk(3-5) unfolding renaming_def st by simp
      consider "j = i" "k \<in> ix" "k \<noteq> i" | "k = i" "j \<in> ix" "j \<noteq> i" | "j \<in> ix" "k \<in> ix" "j \<noteq> i" "k \<noteq> i"
        using jk assms(3) by blast
      then show ?thesis
      proof cases
        case 1
        then show ?thesis using other [of k] new jk assms(2) len by auto
      next
        case 2
        then show ?thesis using other [of j] new jk assms(2) len by auto
      next
        case 3
        then show ?thesis using both by simp
      qed
    qed
  qed
qed

lemma renaming_run:
  assumes "renaming vms ix st" and "distinct ixs" and "set ixs \<subseteq> {..<length vms}" and "ix \<inter> set ixs = {}" and "ix \<subseteq> {..<length vms}"
  shows "renaming vms (ix \<union> set ixs) (foldl (rename_one vms) st ixs)"
  using assms
proof (induction ixs arbitrary: ix st)
  case (Cons i js)
  have "renaming vms (insert i ix) (rename_one vms st i)" by (rule renaming_step) (use Cons.prems in auto)
  then have "renaming vms (insert i ix \<union> set js) (foldl (rename_one vms) (rename_one vms st i) js)"
    using Cons.prems by (intro Cons.IH) auto
  then show ?case by simp
qed simp

text \<open>The positions visited: those of names that occur twice, each once.\<close>

lemma distinct_groups:
  assumes "distinct xs"
  shows "distinct (map fst gs) \<Longrightarrow> (\<And>k ms. (k, ms) \<in> set gs \<Longrightarrow> ms = filter (\<lambda>x. f x = k) xs) \<Longrightarrow>
    distinct (concat (map snd gs)) \<and> f ` set (concat (map snd gs)) \<subseteq> set (map fst gs)"
proof (induction gs)
  case (Cons g gs)
  obtain k ms where g: "g = (k, ms)" by fastforce
  have ms: "ms = filter (\<lambda>x. f x = k) xs" using Cons.prems(2) g by simp
  have "distinct (concat (map snd gs)) \<and> f ` set (concat (map snd gs)) \<subseteq> set (map fst gs)"
    using Cons.prems by (intro Cons.IH) auto
  then show ?case using Cons.prems(1) assms by (auto simp: g ms)
qed simp

definition visited :: "vm list \<Rightarrow> nat list" where
  "visited vms = concat (map snd (filter (\<lambda>(n, ix). 2 \<le> length ix) (name_groups vms)))"

lemma visited_distinct: "distinct (visited vms)"
  unfolding visited_def
proof (rule conjunct1 [OF distinct_groups [OF distinct_upt]])
  let ?gs = "filter (\<lambda>(n, ix). 2 \<le> length ix) (name_groups vms)"
  show "distinct (map fst ?gs)"
    unfolding name_groups_def by (rule distinct_map_filter) (rule dict_ok_group_by, simp)
  show "ms = filter (\<lambda>x. vm_name (vms ! x) = k) [0..<length vms]" if "(k, ms) \<in> set ?gs" for k ms
    using that group_by_entry(1) unfolding name_groups_def by fastforce
qed

lemma visited_mem:
  "i \<in> set (visited vms) \<longleftrightarrow> i < length vms \<and> 2 \<le> length (filter (\<lambda>j. vm_name (vms ! j) = vm_name (vms ! i)) [0..<length vms])"
proof
  assume "i \<in> set (visited vms)"
  then obtain k ms where k: "(k, ms) \<in> set (name_groups vms)" "2 \<le> length ms" "i \<in> set ms" by (auto simp: visited_def)
  then have "ms = filter (\<lambda>x. vm_name (vms ! x) = k) [0..<length vms]" unfolding name_groups_def by (intro group_by_entry(1))
  then show "i < length vms \<and> 2 \<le> length (filter (\<lambda>j. vm_name (vms ! j) = vm_name (vms ! i)) [0..<length vms])" using k by auto
next
  assume a: "i < length vms \<and> 2 \<le> length (filter (\<lambda>j. vm_name (vms ! j) = vm_name (vms ! i)) [0..<length vms])"
  let ?ms = "filter (\<lambda>j. vm_name (vms ! j) = vm_name (vms ! i)) [0..<length vms]"
  have "map_of (name_groups vms) (vm_name (vms ! i)) = Some ?ms"
    using a unfolding name_groups_def map_of_group_by_empty by auto
  then have "(vm_name (vms ! i), ?ms) \<in> set (name_groups vms)" by (rule map_of_SomeD)
  moreover have "i \<in> set ?ms" using a by simp
  ultimately show "i \<in> set (visited vms)" using a unfolding visited_def by force
qed

lemma two_in_filter:
  assumes "i < n" and "j < n" and "i \<noteq> j" and "P i" and "P j"
  shows "2 \<le> length (filter P [0..<n])"
proof -
  have "card {i, j} \<le> card (set (filter P [0..<n]))" using assms by (intro card_mono) auto
  then show ?thesis using assms(3) distinct_card [of "filter P [0..<n]"] by simp
qed

lemma disambiguate_renaming: "renaming vms (set (visited vms)) (foldl (rename_one vms) (map vm_name vms, vms) (visited vms))"
proof -
  have "renaming vms {} (map vm_name vms, vms)" by (simp add: renaming_def)
  from renaming_run [OF this visited_distinct] show ?thesis using visited_mem by auto
qed

lemma identity_simps:
  "has_uuid vm \<Longrightarrow> identity (vm\<lparr>vm_name := n\<rparr>) = identity vm" "\<not> has_uuid vm \<Longrightarrow> identity vm = ''name:'' @ vm_name vm"
  by (auto simp: has_uuid_def identity_def split: option.split)

text \<open>Machines of distinct identity leave with distinct names, and keep their identity.\<close>

lemma disambiguate_names:
  assumes "distinct (map identity vms)"
  shows "distinct (map vm_name (disambiguate vms))" and "map identity (disambiguate vms) = map identity vms"
    and "i < length vms \<Longrightarrow> \<exists>n. disambiguate vms ! i = (vms ! i)\<lparr>vm_name := n\<rparr>"
proof -
  let ?st = "foldl (rename_one vms) (map vm_name vms, vms) (visited vms)"
  let ?X = "set (visited vms)"
  have out: "disambiguate vms = snd ?st" by (simp add: disambiguate_def visited_def)
  note R = disambiguate_renaming [of vms, unfolded renaming_def, folded out]
  have len: "length (disambiguate vms) = length vms" using R by simp
  have each: "if i \<in> ?X \<and> has_uuid (vms ! i)
      then \<exists>n. disambiguate vms ! i = (vms ! i)\<lparr>vm_name := n\<rparr> \<and> n \<notin> set (map vm_name vms)
      else disambiguate vms ! i = vms ! i" if "i < length vms" for i
    using R that by (auto split: if_splits)
  show "\<exists>n. disambiguate vms ! i = (vms ! i)\<lparr>vm_name := n\<rparr>" if "i < length vms" for i
  proof -
    have "disambiguate vms ! i = (vms ! i)\<lparr>vm_name := vm_name (vms ! i)\<rparr> \<or> (\<exists>n. disambiguate vms ! i = (vms ! i)\<lparr>vm_name := n\<rparr>)"
      using each [OF that] by (auto split: if_splits)
    then show ?thesis by blast
  qed
  have idn: "identity (disambiguate vms ! i) = identity (vms ! i)" if "i < length vms" for i
    using each [OF that] by (auto simp: identity_simps split: if_splits)
  then show "map identity (disambiguate vms) = map identity vms" by (intro nth_equalityI) (simp_all add: len)
  have "vm_name (disambiguate vms ! i) \<noteq> vm_name (disambiguate vms ! j)" if i: "i < length vms" and j: "j < length vms" and "i \<noteq> j" for i j
  proof (cases "i \<in> ?X \<and> has_uuid (vms ! i)")
    case True
    show ?thesis
    proof (cases "j \<in> ?X \<and> has_uuid (vms ! j)")
      case True
      then show ?thesis using R \<open>i \<in> ?X \<and> has_uuid (vms ! i)\<close> \<open>i \<noteq> j\<close> by blast
    next
      case False
      then have "disambiguate vms ! j = vms ! j" using each [OF j] by simp
      moreover obtain n where "disambiguate vms ! i = (vms ! i)\<lparr>vm_name := n\<rparr>" "n \<notin> set (map vm_name vms)"
        using each [OF i] True by auto
      ultimately show ?thesis using j by (metis nth_map nth_mem length_map vm.select_convs(1) vm.update_convs(1) vm.surjective)
    qed
  next
    case False
    then have oi: "disambiguate vms ! i = vms ! i" using each [OF i] by simp
    show ?thesis
    proof (cases "j \<in> ?X \<and> has_uuid (vms ! j)")
      case True
      then obtain n where "disambiguate vms ! j = (vms ! j)\<lparr>vm_name := n\<rparr>" "n \<notin> set (map vm_name vms)"
        using each [OF j] by auto
      then show ?thesis using oi i by (metis nth_map nth_mem length_map vm.select_convs(1) vm.update_convs(1) vm.surjective)
    next
      case nj: False
      then have oj: "disambiguate vms ! j = vms ! j" using each [OF j] by simp
      show ?thesis
      proof
        assume e: "vm_name (disambiguate vms ! i) = vm_name (disambiguate vms ! j)"
        then have n: "vm_name (vms ! i) = vm_name (vms ! j)" by (simp add: oi oj)
        have "i \<in> ?X" "j \<in> ?X" unfolding visited_mem using two_in_filter [OF i j \<open>i \<noteq> j\<close>] i j n by auto
        then have "\<not> has_uuid (vms ! i)" "\<not> has_uuid (vms ! j)" using False nj by auto
        then have "identity (vms ! i) = identity (vms ! j)" using n by (simp add: identity_simps)
        then show False using assms i j \<open>i \<noteq> j\<close> by (metis distinct_conv_nth length_map nth_map)
      qed
    qed
  qed
  then show "distinct (map vm_name (disambiguate vms))" by (auto simp: distinct_conv_nth len)
qed

subsection \<open>Facts: what a row becomes\<close>

lemma round_dp_range:
  assumes "0 \<le> x" and "x \<le> 100"
  shows "0 \<le> round_dp 2 x \<and> round_dp 2 x \<le> 100"
proof -
  have "of_int (round_even (x * 100)) - x * 100 \<le> (1/2 :: rat)" "- (of_int (round_even (x * 100)) - x * 100) \<le> (1/2 :: rat)"
    using round_even_near [of "x * 100"] unfolding abs_le_iff by blast+
  then have "- 1 < (of_int (round_even (x * 100)) :: rat)" "of_int (round_even (x * 100)) < (10001 :: rat)"
    using assms by linarith+
  then have "0 \<le> round_even (x * 100)" "round_even (x * 100) \<le> 10000" by simp_all
  then show ?thesis by (simp add: round_dp_def)
qed

lemma util_pct_ok: "pct_ok (util_pct env v)"
  by (auto simp: util_pct_def pct_ok_def Let_def round_dp_range split: option.splits pyfloat.splits)

lemma to_int_ge: "1 \<le> to_int env v"
  by (simp add: to_int_def split: option.split pyfloat.split)

lemma safe_str_clean: "safe_str env v = Some s \<Longrightarrow> clean_name s"
  by (auto simp: safe_str_def sanitize_clean)

lemma clean_strip: "clean_name s \<Longrightarrow> strip s = s"
  by (rule strip_by_id) (auto simp: clean_name_def dash_or_blank_def dest: hd_in_set last_in_set)

lemma safe_str_id: "clean_name s \<Longrightarrow> safe_str env (RText s) = Some s"
  using clean_strip [of s] by (auto simp: safe_str_def clean_str_def str_value_def sanitize_id clean_name_def)

lemma row_vm_ok:
  assumes "safe_str env (field rec ''name'') = Some name" and "0 < vm_memory (row_vm env rec name)"
  shows "vm_ok (row_vm env rec name) \<and> clean_name (vm_name (row_vm env rec name))"
proof -
  have c: "clean_name name" using assms(1) by (rule safe_str_clean)
  then have "strip name = name" "name \<noteq> []" using clean_strip by (auto simp: clean_name_def)
  then show ?thesis using c assms(2) by (simp add: vm_ok_def row_vm_def to_int_ge util_pct_ok)
qed

text \<open>The free texts of a machine that reach the generated code.\<close>

definition texts :: "vm \<Rightarrow> string list" where
  "texts v = vm_name v # List.map_filter (\<lambda>x. x) [vm_network v, vm_os v, vm_power v, vm_hostname v, vm_cluster v,
     vm_datacenter v, vm_external_id v, vm_uuid v]"

definition row_ok :: "vm \<Rightarrow> bool" where
  "row_ok v \<longleftrightarrow> vm_ok v \<and> list_all clean_name (texts v)"

lemma clean_row:
  assumes "safe_str env (field rec ''name'') = Some name" and "0 < vm_memory (row_vm env rec name)"
  shows "row_ok (row_vm env rec name)"
  using row_vm_ok [OF assms]
  by (auto simp: row_ok_def texts_def List.map_filter_def row_vm_def list_all_iff safe_str_clean split: if_splits)

definition named_rows :: "py_env \<Rightarrow> raw_record list \<Rightarrow> vm list" where
  "named_rows env recs = List.map_filter (\<lambda>rec. map_option (row_vm env rec) (safe_str env (field rec ''name''))) recs"

lemma keep_better_keys: "set (keys (keep_better d vm)) = insert (identity vm) (set (keys d))"
  using map_of_Some_keys [of d "identity vm"]
  by (auto simp: keep_better_def keys_dict_update simp del: set_map split: option.split)

lemma keep_better_mem: "x \<in> set (keep_better d vm) \<Longrightarrow> x = (identity vm, vm) \<or> x \<in> set d"
  by (auto simp: keep_better_def dest: AList_update_mem split: option.splits if_splits)

lemma keep_better_ok: "dict_ok d \<Longrightarrow> dict_ok (keep_better d vm)"
  by (auto simp: keep_better_def split: option.split)

definition read_ok :: "(string, vm) dict \<Rightarrow> bool" where
  "read_ok d \<longleftrightarrow> dict_ok d \<and> (\<forall>(k, v) \<in> set d. k = identity v \<and> row_ok v)"

lemma read_ok_keep: "read_ok d \<Longrightarrow> row_ok vm \<Longrightarrow> read_ok (keep_better d vm)"
  using keep_better_ok [of d vm] by (auto simp: read_ok_def dest: keep_better_mem)

lemma read_rows_facts:
  assumes "read_rows env recs d = Inr d'" and "read_ok d"
  shows "read_ok d' \<and> set (keys d') = set (keys d) \<union> identity ` set (named_rows env recs)"
  using assms
proof (induction env recs d rule: read_rows.induct)
  case (1 env seen)
  then show ?case by (simp add: named_rows_def List.map_filter_def)
next
  case (2 env rec recs seen)
  show ?case
  proof (cases "safe_str env (field rec ''name'')")
    case None
    then show ?thesis using 2 by (simp add: named_rows_def)
  next
    case (Some name)
    let ?vm = "row_vm env rec name"
    have m: "0 < vm_memory ?vm" using 2(3) Some by (auto simp: Let_def split: if_splits)
    have rest: "read_rows env recs (keep_better seen ?vm) = Inr d'" using 2(3) Some m by (simp add: Let_def)
    have "read_ok d' \<and> set (keys d') = set (keys (keep_better seen ?vm)) \<union> identity ` set (named_rows env recs)"
      using 2(2) [OF Some refl] m rest read_ok_keep [OF 2(4) clean_row [OF Some m]] by simp
    then show ?thesis using Some by (simp add: keep_better_keys named_rows_def del: set_map)
  qed
qed

text \<open>The only row that ends the run has a name and a memory that is not positive.\<close>

lemma read_rows_error:
  "read_rows env recs d = Inl InvalidMemory \<longleftrightarrow> (\<exists>v \<in> set (named_rows env recs). vm_memory v \<le> 0)"
proof (induction env recs d rule: read_rows.induct)
  case (2 env rec recs seen)
  then show ?case
    by (cases "safe_str env (field rec ''name'')") (auto simp: named_rows_def Let_def)
qed (simp add: named_rows_def List.map_filter_def)

lemma memory_positive_iff:
  "memory_gib env rec \<le> 0 \<longleftrightarrow> (case mib_to_gib (to_float env (field rec ''memory_mib'')) of Some g \<Rightarrow> g < 0 | None \<Rightarrow> False)"
  by (auto simp: memory_gib_def MIN_MEMORY_GIB_def Let_def split: option.split)

subsection \<open>Facts: the new names are clean\<close>

lemma hd_append_ne: "xs \<noteq> [] \<Longrightarrow> hd (xs @ ys) = hd xs"
  by simp

lemma successively_plain:
  assumes "successively (no_run p) s" and "s \<noteq> []" and "\<not> p (last s)" and "list_all (\<lambda>c. \<not> p c) t"
  shows "successively (no_run p) (s @ c # t)"
proof -
  have "successively (no_run p) (c # t)" using assms(4)
    by (induction t arbitrary: c) (auto simp: no_run_def)
  then show ?thesis using assms by (simp add: successively_append_iff no_run_def)
qed

lemma clean_append:
  assumes "clean_name s" and "t \<noteq> []" and "list_all (\<lambda>c. is_digit c \<or> is_ascii_lower c) t"
  shows "clean_name (s @ CHR ''-'' # t)"
proof -
  have plain: "\<not> unsafe_char c \<and> \<not> is_space c \<and> \<not> dash c \<and> \<not> dash_or_blank c \<and> c \<noteq> CHR ''('' \<and> c \<noteq> CHR ''$''" if "c \<in> set t" for c
    using that assms(3) by (auto simp: list_all_iff unsafe_char_def is_space_def dash_def dash_or_blank_def char_class_defs)
  have s: "s \<noteq> []" "harmless s" "\<not> dash (last s)" "\<not> is_space (last s)" "\<not> dash_or_blank (hd s)"
    using assms(1) by (auto simp: clean_name_def dash_or_blank_def dash_def dest: last_in_set)
  have "successively no_call (CHR ''-'' # t)" using plain
    by (induction t) (auto simp: successively_Cons no_call_def)
  then have "harmless (s @ CHR ''-'' # t)" using s plain
    by (auto simp: harmless_def successively_append_iff list_all_iff)
  moreover have "successively (no_run is_space) (s @ CHR ''-'' # t)"
    using assms(1) s plain by (intro successively_plain) (auto simp: clean_name_def list_all_iff)
  moreover have "successively (no_run dash) (s @ CHR ''-'' # t)"
    using assms(1) s plain by (intro successively_plain) (auto simp: clean_name_def list_all_iff)
  moreover have "\<not> dash_or_blank (last (s @ CHR ''-'' # t))" using plain assms(2) by simp
  ultimately show ?thesis using assms(1) s(1,5) plain by (auto simp: clean_name_def)
qed

lemma uuid_digits_plain: "uuid_digits u \<noteq> []" "list_all (\<lambda>c. is_digit c \<or> is_ascii_lower c) (uuid_digits u)"
  by (auto simp: uuid_digits_def Let_def list_all_iff char_class_defs)

lemma suffixed_clean:
  assumes "clean_name n" and "0 < w"
  shows "clean_name (suffixed n (uuid_digits u) w)"
proof -
  have "last_chars w (uuid_digits u) \<noteq> []"
    using uuid_digits_plain(1) [of u] assms(2) by (cases "uuid_digits u") (auto simp: last_chars_def)
  moreover have "list_all (\<lambda>c. is_digit c \<or> is_ascii_lower c) (last_chars w (uuid_digits u))"
    using uuid_digits_plain(2) [of u] by (auto simp: last_chars_def list_all_iff dest: in_set_dropD)
  ultimately show ?thesis using assms(1) by (simp add: suffixed_def clean_append)
qed

lemma unique_name_clean:
  assumes "clean_name n"
  shows "clean_name (unique_name taken n u)"
proof -
  let ?d = "uuid_digits u"
  let ?f = "filter (\<lambda>w. suffixed n ?d w \<notin> set taken) [min 8 (length ?d)..<length ?d + 1]"
  have pos: "0 < length ?d" using uuid_digits_plain(1) by simp
  show ?thesis
  proof (cases ?f)
    case Nil
    have "list_all (\<lambda>c. is_digit c \<or> is_ascii_lower c) (str_of_nat k)" for k
      using digits_str_of_nat by (auto simp: list_all_iff)
    then show ?thesis using Nil suffixed_clean [OF assms pos, of u] 
      by (simp add: unique_name_def Let_def numbered_def clean_append del: upt_Suc)
  next
    case (Cons w ws)
    then have "w \<in> set ?f" by (metis list.set_intros(1))
    then have "w \<in> set [min 8 (length ?d)..<length ?d + 1]" by (unfold set_filter) blast
    then have "0 < w" using pos by auto
    then show ?thesis using Cons suffixed_clean [OF assms] by (simp add: unique_name_def Let_def del: upt_Suc)
  qed
qed

lemma rename_clean:
  assumes "\<And>v. v \<in> set vms \<Longrightarrow> row_ok v"
  shows "set ixs \<subseteq> {..<length vms} \<Longrightarrow> \<forall>v \<in> set (snd st). row_ok v \<Longrightarrow>
    \<forall>v \<in> set (snd (foldl (rename_one vms) st ixs)). row_ok v"
proof (induction ixs arbitrary: st)
  case (Cons i ixs)
  obtain taken out where st: "st = (taken, out)" by fastforce
  have ri: "row_ok (vms ! i)" using Cons.prems(1) assms by simp
  have "row_ok ((vms ! i)\<lparr>vm_name := unique_name taken (vm_name (vms ! i)) u\<rparr>)" for u
  proof -
    have "clean_name (unique_name taken (vm_name (vms ! i)) u)"
      using ri by (intro unique_name_clean) (simp add: row_ok_def texts_def)
    moreover from this have "strip (unique_name taken (vm_name (vms ! i)) u) = unique_name taken (vm_name (vms ! i)) u"
        "unique_name taken (vm_name (vms ! i)) u \<noteq> []"
      by (auto simp: clean_strip clean_name_def)
    ultimately show ?thesis using ri by (simp add: row_ok_def texts_def vm_ok_def)
  qed
  then have "\<forall>v \<in> set (snd (rename_one vms st i)). row_ok v"
    using Cons.prems(2) set_update_subset_insert [of out i]
    by (auto simp: rename_one_def st Let_def split: option.split)
  then show ?case using Cons.IH [of "rename_one vms st i"] Cons.prems(1) by simp
qed simp

lemma disambiguate_row_ok:
  assumes "\<And>v. v \<in> set vms \<Longrightarrow> row_ok v" and "v \<in> set (disambiguate vms)"
  shows "row_ok v"
  using rename_clean [of vms "visited vms" "(map vm_name vms, vms)"] assms visited_mem
  by (auto simp: disambiguate_def visited_def [symmetric])

text \<open>The whole of \<open>normalize\<close>.\<close>

lemma normalize_facts:
  assumes "normalize env recs = Inr vms"
  shows "distinct (map vm_name vms)" and "distinct (map identity vms)"
    and "set (map identity vms) = identity ` set (named_rows env recs)"
    and "v \<in> set vms \<Longrightarrow> row_ok v"
proof -
  obtain seen where r: "read_rows env recs [] = Inr seen" and v: "vms = disambiguate (map snd seen)"
    using assms by (auto simp: normalize_def split: sum.splits)
  have ok: "read_ok seen" and k: "set (keys seen) = identity ` set (named_rows env recs)"
    using read_rows_facts [OF r] by (simp_all add: read_ok_def)
  have ids: "map identity (map snd seen) = keys seen"
    using ok by (auto simp: read_ok_def intro!: map_cong)
  have d: "distinct (map identity (map snd seen))" using ok unfolding ids by (simp add: read_ok_def)
  show "distinct (map vm_name vms)" unfolding v by (rule disambiguate_names(1) [OF d])
  have same: "map identity vms = keys seen" unfolding v disambiguate_names(2) [OF d] ids ..
  show "distinct (map identity vms)" unfolding same using ok by (simp add: read_ok_def)
  show "set (map identity vms) = identity ` set (named_rows env recs)" unfolding same k ..
  show "row_ok v" if "v \<in> set vms"
    using that unfolding v by (rule disambiguate_row_ok [rotated]) (use ok in \<open>auto simp: read_ok_def\<close>)
qed

lemma normalize_error: "normalize env recs = Inl e \<longleftrightarrow> e = InvalidMemory \<and> (\<exists>v \<in> set (named_rows env recs). vm_memory v \<le> 0)"
  using read_rows_error [of env recs "[]"] by (cases e) (auto simp: normalize_def split: sum.splits)

end
