(* ===== verification/Assessment.thy ===== *)
theory Assessment
  imports Models "HOL-Library.Multiset"
begin

text \<open>
  \<open>assessment/analyzer.py\<close> and \<open>assessment/models.py\<close>: the checks on a normalised inventory, their
  findings, and the readiness score. Titles, details and recommendations are prose and left out.
\<close>

datatype finding_severity = CRITICAL | HIGH | MEDIUM | LOW | INFO

fun severity_weight :: "finding_severity \<Rightarrow> rat" where
  "severity_weight CRITICAL = 25"
| "severity_weight HIGH = 12"
| "severity_weight MEDIUM = 5"
| "severity_weight LOW = 2"
| "severity_weight INFO = 0"

fun severity_order :: "finding_severity \<Rightarrow> nat" where
  "severity_order CRITICAL = 0"
| "severity_order HIGH = 1"
| "severity_order MEDIUM = 2"
| "severity_order LOW = 3"
| "severity_order INFO = 4"

record finding =
  fi_id :: string
  fi_category :: string
  fi_severity :: finding_severity
  fi_affected :: "string list"

datatype band = Ready | MinorGaps | NeedsWork | Blocked

record readiness_score =
  rd_score :: int
  rd_band :: band

record assessment =
  as_project :: string
  as_source :: string
  as_total :: nat
  as_powered_on :: nat
  as_powered_off :: nat
  as_vcpu :: int
  as_memory :: rat
  as_storage :: rat
  as_windows :: nat
  as_linux :: int
  as_unknown_os :: nat
  as_util_pct :: rat
  as_readiness :: readiness_score
  as_findings :: "finding list"

definition by_severity :: "finding_severity \<Rightarrow> assessment \<Rightarrow> finding list" where
  "by_severity s a = filter (\<lambda>f. fi_severity f = s) (as_findings a)"

definition IDLE_CPU_PCT :: rat where "IDLE_CPU_PCT = 5"
definition IDLE_MEM_PCT :: rat where "IDLE_MEM_PCT = 15"
definition LARGE_VCPU :: int where "LARGE_VCPU = 32"
definition LARGE_MEM_GIB :: rat where "LARGE_MEM_GIB = 128"
definition CATEGORY_PENALTY_CAP :: rat where "CATEGORY_PENALTY_CAP = 30"

definition LEGACY_OS :: "(string \<times> string) list" where
  "LEGACY_OS =
     [(''windows server 2003'', ''Windows Server 2003''), (''windows server 2008'', ''Windows Server 2008/R2''),
      (''2008 r2'', ''Windows Server 2008 R2''), (''windows server 2012'', ''Windows Server 2012/R2''),
      (''windows 7'', ''Windows 7''), (''centos'', ''CentOS (EOL)''), (''rhel 5'', ''RHEL 5''), (''rhel 6'', ''RHEL 6''),
      (''red hat enterprise linux 5'', ''RHEL 5''), (''red hat enterprise linux 6'', ''RHEL 6''),
      (''ubuntu 14'', ''Ubuntu 14.04''), (''ubuntu 16'', ''Ubuntu 16.04''), (''ubuntu 18'', ''Ubuntu 18.04''),
      (''sles 11'', ''SLES 11''), (''solaris'', ''Solaris''), (''aix'', ''AIX'')]"

definition DB_HINTS :: "(string \<times> string) list" where
  "DB_HINTS = [(''sql server'', ''SQL Server''), (''oracle'', ''Oracle Database'')]"

subsection \<open>The checks\<close>

definition is_powered_off :: "vm \<Rightarrow> bool" where
  "is_powered_off vm \<longleftrightarrow>
     (case vm_power vm of None \<Rightarrow> False
      | Some s \<Rightarrow> s \<noteq> [] \<and> lower (strip s) \<notin> {''poweredon'', ''on'', ''running'', ''up''})"

definition runs_windows :: "vm \<Rightarrow> bool" where
  "runs_windows vm \<longleftrightarrow> (case vm_os vm of None \<Rightarrow> False | Some os \<Rightarrow> os \<noteq> [] \<and> contains ''windows'' (lower os))"

definition os_or_blank :: "vm \<Rightarrow> string" where
  "os_or_blank vm = lower (strip (case vm_os vm of None \<Rightarrow> [] | Some os \<Rightarrow> os))"

definition storage_gib :: "vm \<Rightarrow> rat" where
  "storage_gib vm = sum_list (vm_disks vm)"

definition slug :: "string \<Rightarrow> string" where
  "slug label = strip_char CHR ''-'' (sub_runs (\<lambda>c. \<not> (is_ascii_lower c \<or> is_digit c)) ''-'' (lower label))"

text \<open>One finding over the names that a predicate selects, none if it selects no machine.\<close>

definition finding_on :: "string \<Rightarrow> string \<Rightarrow> finding_severity \<Rightarrow> (vm \<Rightarrow> bool) \<Rightarrow> vm list \<Rightarrow> finding list" where
  "finding_on i cat sev P vms =
     (let hit = map vm_name (filter P vms)
      in if hit = [] then [] else [\<lparr>fi_id = i, fi_category = cat, fi_severity = sev, fi_affected = hit\<rparr>])"

definition check_powered_off :: "vm list \<Rightarrow> finding list" where
  "check_powered_off = finding_on ''powered-off'' ''cost'' MEDIUM is_powered_off"

definition check_missing_os :: "vm list \<Rightarrow> finding list" where
  "check_missing_os = finding_on ''missing-os'' ''data-quality'' HIGH (\<lambda>v. os_or_blank v = [])"

definition check_legacy_os :: "vm list \<Rightarrow> finding list" where
  "check_legacy_os vms =
     concat (map (\<lambda>(m, label). finding_on (''legacy-os-'' @ slug label) ''risk'' HIGH (\<lambda>v. contains m (os_or_blank v)) vms)
       LEGACY_OS)"

definition is_idle :: "vm \<Rightarrow> bool" where
  "is_idle v \<longleftrightarrow> has_utilization v
     \<and> (case vm_cpu_util v of None \<Rightarrow> False | Some x \<Rightarrow> x \<le> IDLE_CPU_PCT)
     \<and> (case vm_mem_util v of None \<Rightarrow> False | Some x \<Rightarrow> x \<le> IDLE_MEM_PCT) \<and> \<not> is_powered_off v"

definition check_idle :: "vm list \<Rightarrow> finding list" where
  "check_idle = finding_on ''idle-oversized'' ''cost'' MEDIUM is_idle"

definition check_large :: "vm list \<Rightarrow> finding list" where
  "check_large = finding_on ''large-workloads'' ''capacity'' MEDIUM (\<lambda>v. LARGE_VCPU \<le> vm_cpu v \<or> LARGE_MEM_GIB \<le> vm_memory v)"

definition check_no_disks :: "vm list \<Rightarrow> finding list" where
  "check_no_disks = finding_on ''no-storage'' ''data-quality'' MEDIUM (\<lambda>v. vm_disks v = [] \<or> storage_gib v \<le> 0)"

definition check_licensing :: "vm list \<Rightarrow> finding list" where
  "check_licensing vms =
     finding_on ''windows-licensing'' ''risk'' LOW runs_windows vms @
     concat (map (\<lambda>(m, label). finding_on (''db-licensing-'' @ slug label) ''risk'' MEDIUM (\<lambda>v. contains m (os_or_blank v)) vms)
       DB_HINTS)"

definition check_utilization_coverage :: "vm list \<Rightarrow> finding list" where
  "check_utilization_coverage vms =
     (let with_util = length (filter has_utilization vms); coverage = (of_nat with_util / of_nat (length vms) :: rat)
      in if vms = [] then []
         else if 0.5 \<le> coverage then []
         else [\<lparr>fi_id = ''low-utilization-coverage'', fi_category = ''data-quality'',
                fi_severity = (if 0 < coverage then MEDIUM else HIGH), fi_affected = []\<rparr>])"

definition count_names :: "vm list \<Rightarrow> (string, nat) dict" where
  "count_names vms =
     foldl (\<lambda>seen v. let k = lower (strip (vm_name v))
       in AList.update k ((case map_of seen k of None \<Rightarrow> 0 | Some n \<Rightarrow> n) + 1) seen) [] vms"

definition check_duplicate_names :: "vm list \<Rightarrow> finding list" where
  "check_duplicate_names vms =
     (let dupes = sort (map fst (filter (\<lambda>(n, k). 1 < k) (count_names vms)))
      in if dupes = [] then []
         else [\<lparr>fi_id = ''duplicate-names'', fi_category = ''data-quality'', fi_severity = LOW, fi_affected = dupes\<rparr>])"

definition CHECKS :: "(vm list \<Rightarrow> finding list) list" where
  "CHECKS = [check_powered_off, check_missing_os, check_legacy_os, check_idle, check_large, check_no_disks,
     check_licensing, check_utilization_coverage, check_duplicate_names]"

subsection \<open>Readiness\<close>

definition add_penalty :: "(string, rat) dict \<Rightarrow> finding \<Rightarrow> (string, rat) dict" where
  "add_penalty d f =
     AList.update (fi_category f) ((case map_of d (fi_category f) of None \<Rightarrow> 0 | Some p \<Rightarrow> p) + severity_weight (fi_severity f)) d"

definition penalty :: "finding list \<Rightarrow> rat" where
  "penalty fs = sum_list (map (\<lambda>(c, p). min p CATEGORY_PENALTY_CAP) (foldl add_penalty [] fs))"

definition band_of :: "int \<Rightarrow> band" where
  "band_of score = (if 85 \<le> score then Ready else if 65 \<le> score then MinorGaps else if 40 \<le> score then NeedsWork else Blocked)"

definition readiness :: "finding list \<Rightarrow> readiness_score" where
  "readiness fs =
     (let score = \<lfloor>max 0 (min 100 (100 - penalty fs))\<rfloor> in \<lparr>rd_score = score, rd_band = band_of score\<rparr>)"

definition assess :: "vm list \<Rightarrow> string \<Rightarrow> string \<Rightarrow> assessment" where
  "assess vms project source =
     (let fs = sort_key (\<lambda>f. (severity_order (fi_severity f), fi_id f)) (concat (map (\<lambda>check. check vms) CHECKS));
          total = length vms;
          off = length (filter is_powered_off vms);
          windows = length (filter runs_windows vms);
          unknown = length (filter (\<lambda>v. os_or_blank v = []) vms);
          with_util = length (filter has_utilization vms)
      in \<lparr>as_project = project, as_source = source, as_total = total, as_powered_on = total - off, as_powered_off = off,
          as_vcpu = sum_list (map vm_cpu vms), as_memory = round_dp 2 (sum_list (map vm_memory vms)),
          as_storage = round_dp 2 (sum_list (map storage_gib vms)), as_windows = windows,
          as_linux = int total - int windows - int unknown, as_unknown_os = unknown,
          as_util_pct = round_dp 1 (if total \<noteq> 0 then of_nat with_util / of_nat total * 100 else 0),
          as_readiness = readiness fs, as_findings = fs\<rparr>)"

subsection \<open>Facts: the penalty\<close>

text \<open>What the findings of one category weigh together, before the cap.\<close>

definition category_weight :: "finding list \<Rightarrow> string \<Rightarrow> rat" where
  "category_weight fs c = sum_list (map (\<lambda>f. severity_weight (fi_severity f)) (filter (\<lambda>f. fi_category f = c) fs))"

lemma severity_weight_nonneg [simp]: "0 \<le> severity_weight s"
  by (cases s) simp_all

lemma category_weight_simps [simp]:
  "category_weight [] c = 0"
  "category_weight (f # fs) c = (if fi_category f = c then severity_weight (fi_severity f) else 0) + category_weight fs c"
  "category_weight (fs @ gs) c = category_weight fs c + category_weight gs c"
  by (simp_all add: category_weight_def)

lemma category_weight_nonneg: "0 \<le> category_weight fs c"
  by (induction fs) simp_all

lemma category_weight_none: "c \<notin> fi_category ` set fs \<Longrightarrow> category_weight fs c = 0"
  by (induction fs) auto

lemma add_penalty_fold:
  "dict_ok d \<Longrightarrow> dict_ok (foldl add_penalty d fs)"
  "set (keys (foldl add_penalty d fs)) = set (keys d) \<union> fi_category ` set fs"
  by (induction fs arbitrary: d) (auto simp: add_penalty_def keys_dict_update simp del: set_map)

lemma add_penalty_lookup:
  "map_of (foldl add_penalty d fs) c =
     (if c \<in> set (keys d) \<union> fi_category ` set fs
      then Some ((case map_of d c of None \<Rightarrow> 0 | Some p \<Rightarrow> p) + category_weight fs c) else None)"
proof (induction fs arbitrary: d)
  case Nil
  then show ?case using map_of_None_keys [of d c] by (auto split: option.split)
next
  case (Cons f fs)
  have "set (keys (add_penalty d f)) = insert (fi_category f) (set (keys d))"
    unfolding add_penalty_def by (rule keys_dict_update)
  moreover have "map_of (add_penalty d f) c = (if c = fi_category f
      then Some ((case map_of d c of None \<Rightarrow> 0 | Some p \<Rightarrow> p) + severity_weight (fi_severity f)) else map_of d c)"
    by (simp add: add_penalty_def)
  ultimately show ?case using Cons.IH [of "add_penalty d f"] by (auto simp del: set_map)
qed

lemma sum_list_dict:
  assumes "dict_ok d"
  shows "sum_list (map (\<lambda>(c, p). g p) d) = (\<Sum>c \<in> set (keys d). g (the (map_of d c)))"
proof -
  have "sum_list (map (\<lambda>(c, p). g p) d) = sum_list (map (\<lambda>c. g (the (map_of d c))) (keys d))"
    using assms by (auto simp: o_def intro!: arg_cong [where f = sum_list] map_cong)
  then show ?thesis using assms by (simp only: sum_list_distinct_conv_sum_set)
qed

text \<open>The penalty is the capped weight of each category, summed.\<close>

lemma penalty_sum: "penalty fs = (\<Sum>c \<in> fi_category ` set fs. min (category_weight fs c) CATEGORY_PENALTY_CAP)"
proof -
  let ?d = "foldl add_penalty [] fs"
  have k: "set (keys ?d) = fi_category ` set fs" using add_penalty_fold(2) [of "[]" fs] by simp
  have "penalty fs = (\<Sum>c \<in> set (keys ?d). min (the (map_of ?d c)) CATEGORY_PENALTY_CAP)"
    unfolding penalty_def by (rule sum_list_dict) (simp add: add_penalty_fold(1))
  also have "\<dots> = (\<Sum>c \<in> fi_category ` set fs. min (category_weight fs c) CATEGORY_PENALTY_CAP)"
    unfolding k by (rule sum.cong) (simp_all add: add_penalty_lookup)
  finally show ?thesis .
qed

lemma penalty_over:
  assumes "finite C" and "fi_category ` set fs \<subseteq> C"
  shows "penalty fs = (\<Sum>c \<in> C. min (category_weight fs c) CATEGORY_PENALTY_CAP)"
proof -
  have z: "category_weight fs c = 0" if "c \<notin> fi_category ` set fs" for c
    using that by (rule category_weight_none)
  have "min (category_weight fs c) CATEGORY_PENALTY_CAP = 0" if "c \<in> C - fi_category ` set fs" for c
    using z [of c] that by (simp add: CATEGORY_PENALTY_CAP_def)
  then show ?thesis unfolding penalty_sum using assms by (intro sum.mono_neutral_left) auto
qed

lemma penalty_mono: "penalty fs \<le> penalty (fs @ gs)"
proof -
  let ?C = "fi_category ` set (fs @ gs)"
  have "penalty fs = (\<Sum>c \<in> ?C. min (category_weight fs c) CATEGORY_PENALTY_CAP)" by (rule penalty_over) auto
  also have "\<dots> \<le> (\<Sum>c \<in> ?C. min (category_weight (fs @ gs) c) CATEGORY_PENALTY_CAP)"
    by (intro sum_mono min.mono) (simp_all add: category_weight_nonneg)
  finally show ?thesis by (simp add: penalty_sum)
qed

lemma readiness_mono: "rd_score (readiness (fs @ gs)) \<le> rd_score (readiness fs)"
  using penalty_mono [of fs gs] by (auto simp: readiness_def Let_def intro!: floor_mono max.mono min.mono)

lemma category_weight_mset: "mset fs = mset gs \<Longrightarrow> category_weight fs c = category_weight gs c"
  unfolding category_weight_def sum_mset_sum_list [symmetric] by simp

lemma penalty_mset: "mset fs = mset gs \<Longrightarrow> penalty fs = penalty gs"
proof -
  assume m: "mset fs = mset gs"
  then have "set fs = set gs" by (rule mset_eq_setD)
  then show ?thesis unfolding penalty_sum by (simp add: category_weight_mset [OF m])
qed

subsection \<open>Facts: the whole assessment\<close>

definition all_findings :: "vm list \<Rightarrow> finding list" where
  "all_findings vms = concat (map (\<lambda>check. check vms) CHECKS)"

lemma assess_findings:
  "mset (as_findings (assess vms p s)) = mset (all_findings vms)"
  "as_readiness (assess vms p s) = readiness (as_findings (assess vms p s))"
  by (simp_all add: assess_def Let_def all_findings_def)

lemma finding_on_facts:
  "category_weight (finding_on i c sev P vms) c \<le> severity_weight sev"
  "fi_category ` set (finding_on i c sev P vms) \<subseteq> {c}"
  "fi_severity ` set (finding_on i c sev P vms) \<subseteq> {sev}"
  by (auto simp: finding_on_def Let_def)

lemmas check_defs = check_powered_off_def check_missing_os_def check_idle_def check_large_def check_no_disks_def
  check_legacy_os_def check_licensing_def check_utilization_coverage_def check_duplicate_names_def

lemma check_categories:
  "fi_category ` set (check_powered_off vms) \<subseteq> {''cost''}" "fi_category ` set (check_idle vms) \<subseteq> {''cost''}"
  "fi_category ` set (check_large vms) \<subseteq> {''capacity''}" "fi_category ` set (check_legacy_os vms) \<subseteq> {''risk''}"
  "fi_category ` set (check_licensing vms) \<subseteq> {''risk''}" "fi_category ` set (check_missing_os vms) \<subseteq> {''data-quality''}"
  "fi_category ` set (check_no_disks vms) \<subseteq> {''data-quality''}"
  "fi_category ` set (check_utilization_coverage vms) \<subseteq> {''data-quality''}"
  "fi_category ` set (check_duplicate_names vms) \<subseteq> {''data-quality''}"
  by (auto simp: check_defs finding_on_def Let_def)

lemma check_severities:
  "check \<in> set CHECKS \<Longrightarrow> f \<in> set (check vms) \<Longrightarrow> fi_severity f \<in> {HIGH, MEDIUM, LOW}"
  by (auto simp: CHECKS_def check_defs finding_on_def Let_def split: if_splits)

lemma all_categories: "fi_category ` set (all_findings vms) \<subseteq> {''cost'', ''capacity'', ''risk'', ''data-quality''}"
  using check_categories [of vms] by (auto simp: all_findings_def CHECKS_def)

lemma weight_outside: "fi_category ` set fs \<subseteq> C \<Longrightarrow> c \<notin> C \<Longrightarrow> category_weight fs c = 0"
  using category_weight_none by blast

lemma cost_weight: "category_weight (all_findings vms) ''cost'' \<le> 10"
proof -
  have z: "category_weight fs ''cost'' = 0" if "fi_category ` set fs \<subseteq> {c}" "c \<noteq> ''cost''" for fs c
    using weight_outside [OF that(1)] that(2) by simp
  note o = check_categories [of vms, THEN z, simplified]
  have "category_weight (check_powered_off vms) ''cost'' \<le> 5" "category_weight (check_idle vms) ''cost'' \<le> 5"
    using finding_on_facts(1) [where sev = MEDIUM and c = "''cost''"] by (simp_all add: check_powered_off_def check_idle_def)
  then show ?thesis by (simp add: all_findings_def CHECKS_def o)
qed

lemma capacity_weight: "category_weight (all_findings vms) ''capacity'' \<le> 5"
proof -
  have z: "category_weight fs ''capacity'' = 0" if "fi_category ` set fs \<subseteq> {c}" "c \<noteq> ''capacity''" for fs c
    using weight_outside [OF that(1)] that(2) by simp
  note o = check_categories [of vms, THEN z, simplified]
  have "category_weight (check_large vms) ''capacity'' \<le> 5"
    using finding_on_facts(1) [where sev = MEDIUM and c = "''capacity''"] by (simp add: check_large_def)
  then show ?thesis by (simp add: all_findings_def CHECKS_def o)
qed

lemma penalty_bound: "penalty (all_findings vms) \<le> 75"
proof -
  let ?w = "category_weight (all_findings vms)"
  have "penalty (all_findings vms) = (\<Sum>c \<in> {''cost'', ''capacity'', ''risk'', ''data-quality''}. min (?w c) 30)"
    using penalty_over [OF _ all_categories] by (simp add: CATEGORY_PENALTY_CAP_def)
  also have "\<dots> = min (?w ''cost'') 30 + min (?w ''capacity'') 30 + min (?w ''risk'') 30 + min (?w ''data-quality'') 30"
    by simp
  also have "\<dots> \<le> 10 + 5 + 30 + 30"
    using cost_weight [of vms] capacity_weight [of vms] by (intro add_mono) auto
  finally show ?thesis by simp
qed

lemma penalty_positive:
  assumes "f \<in> set (all_findings vms)"
  shows "0 < penalty (all_findings vms)"
proof -
  let ?fs = "all_findings vms"
  obtain check where "check \<in> set CHECKS" "f \<in> set (check vms)" using assms by (auto simp: all_findings_def)
  then have "fi_severity f \<in> {HIGH, MEDIUM, LOW}" by (rule check_severities)
  then have w: "0 < severity_weight (fi_severity f)" by auto
  have "severity_weight (fi_severity f) \<le> category_weight fs (fi_category f)" if "f \<in> set fs" for fs
    using that by (induction fs) (auto simp: category_weight_nonneg add_increasing add_increasing2)
  then have "0 < category_weight ?fs (fi_category f)" using w assms by fastforce
  then have "0 < min (category_weight ?fs (fi_category f)) CATEGORY_PENALTY_CAP" by (simp add: CATEGORY_PENALTY_CAP_def)
  moreover have "min (category_weight ?fs (fi_category f)) CATEGORY_PENALTY_CAP \<le> penalty ?fs"
    unfolding penalty_sum using assms
    by (intro member_le_sum) (auto simp: category_weight_nonneg CATEGORY_PENALTY_CAP_def)
  ultimately show ?thesis by linarith
qed

text \<open>The score is between 25 and 100, and 100 only for an inventory without a finding.\<close>

lemma assess_score:
  "25 \<le> rd_score (as_readiness (assess vms p s)) \<and> rd_score (as_readiness (assess vms p s)) \<le> 100"
  "rd_score (as_readiness (assess vms p s)) = 100 \<longleftrightarrow> as_findings (assess vms p s) = []"
proof -
  let ?fs = "as_findings (assess vms p s)"
  have pen: "penalty ?fs = penalty (all_findings vms)" by (rule penalty_mset [OF assess_findings(1)])
  have sc: "rd_score (as_readiness (assess vms p s)) = \<lfloor>max 0 (min 100 (100 - penalty ?fs))\<rfloor>"
    unfolding assess_findings(2) by (simp add: readiness_def Let_def)
  have "25 \<le> max 0 (min 100 (100 - penalty ?fs))" "max 0 (min 100 (100 - penalty ?fs)) \<le> 100"
    using penalty_bound [of vms] unfolding pen by auto
  then have "25 \<le> \<lfloor>max 0 (min 100 (100 - penalty ?fs))\<rfloor>" "\<lfloor>max 0 (min 100 (100 - penalty ?fs))\<rfloor> \<le> 100" by linarith+
  then show "25 \<le> rd_score (as_readiness (assess vms p s)) \<and> rd_score (as_readiness (assess vms p s)) \<le> 100"
    unfolding sc by simp
  have e: "?fs = [] \<longleftrightarrow> all_findings vms = []" using assess_findings(1) [of vms p s] by (metis mset_zero_iff)
  show "rd_score (as_readiness (assess vms p s)) = 100 \<longleftrightarrow> ?fs = []"
  proof
    assume "rd_score (as_readiness (assess vms p s)) = 100"
    then have "100 \<le> max 0 (min 100 (100 - penalty ?fs))" unfolding sc by linarith
    then have "penalty (all_findings vms) \<le> 0" unfolding pen by auto
    then show "?fs = []" unfolding e using penalty_positive [of _ vms] by (cases "all_findings vms") force+
  next
    assume "?fs = []"
    then show "rd_score (as_readiness (assess vms p s)) = 100" unfolding sc by (simp add: penalty_def)
  qed
qed

lemma strip_blank: "strip_by p s = [] \<Longrightarrow> list_all p s"
proof -
  assume "strip_by p s = []"
  then have "list_all p (dropWhile p s)" by (simp add: strip_by_def dropWhile_eq_Nil_conv list_all_iff)
  then have "dropWhile p s = []" by (metis hd_dropWhile hd_in_set list_all_iff)
  then show "list_all p s" by (simp add: dropWhile_eq_Nil_conv list_all_iff)
qed

text \<open>The operating-system counts add up to the inventory.\<close>

lemma assess_counts:
  "int (as_windows (assess vms p s)) + as_linux (assess vms p s) + int (as_unknown_os (assess vms p s)) = int (length vms)"
  "0 \<le> as_linux (assess vms p s)"
  "as_powered_on (assess vms p s) + as_powered_off (assess vms p s) = length vms"
proof -
  let ?W = "filter runs_windows vms" and ?U = "filter (\<lambda>v. os_or_blank v = []) vms"
  have "\<not> (runs_windows v \<and> os_or_blank v = [])" for v
  proof
    assume a: "runs_windows v \<and> os_or_blank v = []"
    then obtain os where os: "vm_os v = Some os" "contains ''windows'' (lower os)"
      by (auto simp: runs_windows_def split: option.splits)
    have "strip os = []" using a os(1) by (simp add: os_or_blank_def)
    then have sp: "list_all is_space os" by (simp add: strip_blank)
    obtain a b where "lower os = a @ ''windows'' @ b" using os(2) unfolding contains_iff by blast
    then have "set (lower os) = set (a @ ''windows'' @ b)" by (rule arg_cong)
    then have "CHR ''w'' \<in> set (lower os)" by simp
    then obtain c where c: "c \<in> set os" "lower_char c = CHR ''w''" by auto
    then have "is_space c" using sp by (simp add: list_all_iff)
    then show False using c(2) by (auto simp: is_space_def lower_char_def char_class_defs split: if_splits)
  qed
  then have "length ?W + length ?U \<le> length vms"
    by (induction vms) auto
  then show "int (as_windows (assess vms p s)) + as_linux (assess vms p s) + int (as_unknown_os (assess vms p s)) = int (length vms)"
    "0 \<le> as_linux (assess vms p s)" "as_powered_on (assess vms p s) + as_powered_off (assess vms p s) = length vms"
    by (simp_all add: assess_def Let_def)
qed

end
