(* ===== verification/Deidentify.thy ===== *)
theory Deidentify
  imports Providers Rightsizing
begin

text \<open>
  \<open>agents/deidentify.py\<close>: identifiers are replaced by pseudonyms before an inventory goes to a remote
  provider, and restored in its answer. The mapping of one call is the record \<open>pseudo\<close>, threaded through.
\<close>

definition STRUCTURAL_TOKENS :: "string list" where
  "STRUCTURAL_TOKENS =
     [''prod'', ''production'', ''prd'', ''dev'', ''development'', ''stg'', ''stage'', ''staging'',
      ''test'', ''tst'', ''qa'', ''uat'', ''sit'', ''perf'', ''dr'', ''sandbox'', ''demo'', ''nonprod'',
      ''web'', ''www'', ''http'', ''https'', ''nginx'', ''apache'', ''iis'', ''front'', ''frontend'',
      ''app'', ''application'', ''api'', ''svc'', ''service'', ''mid'', ''middleware'', ''backend'',
      ''db'', ''database'', ''sql'', ''mysql'', ''postgres'', ''postgresql'', ''oracle'', ''mssql'',
      ''mongo'', ''mongodb'', ''maria'', ''cache'', ''redis'', ''memcache'', ''memcached'',
      ''mq'', ''queue'', ''kafka'', ''rabbit'', ''rabbitmq'', ''batch'', ''job'', ''worker'',
      ''lb'', ''proxy'', ''gateway'', ''gw'', ''bastion'', ''jump'', ''file'', ''nfs'', ''smb'',
      ''backup'', ''monitor'', ''log'', ''logging'', ''dns'', ''ntp'', ''ad'', ''ldap'',
      ''vm'', ''host'', ''node'', ''srv'', ''server'', ''cluster'', ''vlan'', ''net'', ''network'',
      ''dc'', ''datacenter'', ''site'', ''zone'', ''pool'', ''primary'', ''secondary'',
      ''master'', ''replica'', ''standby'', ''active'', ''passive'', ''a'', ''b'', ''x'', ''y'', ''z'']"

record pseudo =
  ps_forward :: "(string, string) dict"
  ps_back :: "(string, string) dict"
  ps_vm_back :: "(string, string) dict"
  ps_counter :: nat

definition fresh_pseudo :: pseudo where
  "fresh_pseudo = \<lparr>ps_forward = [], ps_back = [], ps_vm_back = [], ps_counter = 0\<rparr>"

subsection \<open>Tokens\<close>

definition pseudonym :: "nat \<Rightarrow> string" where
  "pseudonym n = CHR ''w'' # str_of_nat n"

text \<open>A token that is not letters followed by digits.\<close>

definition plain_token :: "string \<Rightarrow> pseudo \<Rightarrow> string \<times> pseudo" where
  "plain_token tok st =
     (if all_digits tok \<or> lower tok \<in> set STRUCTURAL_TOKENS then (tok, st)
      else let key = lower tok
           in case map_of (ps_forward st) key of
                Some w \<Rightarrow> (w, st)
              | None \<Rightarrow>
                  let n = ps_counter st + 1; w = pseudonym n
                  in (w, st\<lparr>ps_counter := n, ps_forward := AList.update key w (ps_forward st),
                            ps_back := AList.update w tok (ps_back st)\<rparr>))"

definition mask_token :: "string \<Rightarrow> pseudo \<Rightarrow> string \<times> pseudo" where
  "mask_token tok st =
     (let letters = takeWhile is_ascii_alpha tok; rest = dropWhile is_ascii_alpha tok
      in if letters \<noteq> [] \<and> all_digits rest
         then (let (t, st) = plain_token letters st in (t @ rest, st))
         else plain_token tok st)"

text \<open>\<open>_ALNUM_RUN.sub\<close> from left to right.\<close>

function mask :: "string \<Rightarrow> pseudo \<Rightarrow> string \<times> pseudo" where
  "mask [] st = ([], st)"
| "mask (c # cs) st =
     (if is_ascii_alnum c
      then (let (t, st) = mask_token (c # takeWhile is_ascii_alnum cs) st;
                (r, st) = mask (dropWhile is_ascii_alnum cs) st
            in (t @ r, st))
      else (let (r, st) = mask cs st in (c # r, st)))"
  by pat_completeness auto
termination
  by (relation "measure (\<lambda>(s, st). length s)") (auto simp: le_imp_less_Suc length_dropWhile_le)

definition mask_opt :: "string option \<Rightarrow> pseudo \<Rightarrow> string option \<times> pseudo" where
  "mask_opt v st = (case v of None \<Rightarrow> (None, st) | Some s \<Rightarrow> (let (t, st) = mask s st in (Some t, st)))"

text \<open>\<open>_PSEUDO.sub\<close>: \<open>\bw\d+\b\<close>, with \<open>w\<close> telling whether the character before is a word character.\<close>

function unmask_from :: "(string, string) dict \<Rightarrow> bool \<Rightarrow> string \<Rightarrow> string" where
  "unmask_from back w [] = []"
| "unmask_from back w (c # cs) =
     (let ds = takeWhile is_digit cs; rest = dropWhile is_digit cs
      in if \<not> w \<and> c = CHR ''w'' \<and> ds \<noteq> [] \<and> (rest = [] \<or> \<not> is_word (hd rest))
         then (case map_of back (c # ds) of None \<Rightarrow> c # ds | Some t \<Rightarrow> t) @ unmask_from back True rest
         else c # unmask_from back (is_word c) cs)"
  by pat_completeness auto
termination
  by (relation "measure (\<lambda>(back, w, s). length s)") (auto simp: le_imp_less_Suc length_dropWhile_le)

definition unmask :: "pseudo \<Rightarrow> string \<Rightarrow> string" where
  "unmask st s = unmask_from (ps_back st) False s"

subsection \<open>Records\<close>

definition deidentify :: "vm \<Rightarrow> pseudo \<Rightarrow> vm \<times> pseudo" where
  "deidentify vm st =
     (let (m, st) = mask (vm_name vm) st;
          name = (if m = [] then vm_name vm else m);
          st = st\<lparr>ps_vm_back := AList.update name (vm_name vm) (ps_vm_back st)\<rparr>;
          (host, st) = mask_opt (vm_hostname vm) st;
          (clu, st) = mask_opt (vm_cluster vm) st;
          (dc, st) = mask_opt (vm_datacenter vm) st;
          (nw, st) = mask_opt (vm_network vm) st
      in (vm\<lparr>vm_name := name, vm_hostname := host, vm_cluster := clu, vm_datacenter := dc, vm_network := nw,
            vm_ips := [], vm_tags := [], vm_external_id := None, vm_uuid := None\<rparr>, st))"

fun deidentify_all :: "vm list \<Rightarrow> pseudo \<Rightarrow> vm list \<times> pseudo" where
  "deidentify_all [] st = ([], st)"
| "deidentify_all (vm # vms) st =
     (let (v, st) = deidentify vm st; (vs, st) = deidentify_all vms st in (v # vs, st))"

definition restore :: "pseudo \<Rightarrow> string \<Rightarrow> string option" where
  "restore st n = map_of (ps_vm_back st) n"

definition restore_group :: "pseudo \<Rightarrow> app_group \<Rightarrow> app_group" where
  "restore_group st g =
     g\<lparr>ag_name := unmask st (ag_name g),
       ag_members := foldl (\<lambda>d (n, tr). case restore st n of None \<Rightarrow> d | Some orig \<Rightarrow> AList.update orig tr d) [] (ag_members g)\<rparr>"

definition deidentification_enabled :: "string option \<Rightarrow> bool" where
  "deidentification_enabled raw \<longleftrightarrow>
     lower (strip (case raw of None \<Rightarrow> [] | Some s \<Rightarrow> s)) \<notin> {''0'', ''false'', ''no'', ''off''}"

definition deidentifying_provider :: "provider \<Rightarrow> provider" where
  "deidentifying_provider inner =
     \<lparr>p_name = p_name inner,
      p_classify = (\<lambda>vms. let (masked, st) = deidentify_all vms fresh_pseudo
                     in map (restore_group st) (p_classify inner masked)),
      p_rightsize = (\<lambda>vm tr env. p_rightsize inner (fst (deidentify vm fresh_pseudo)) tr env)\<rparr>"

subsection \<open>Facts: what leaves the process\<close>

text \<open>The maximal runs of ASCII letters of a text.\<close>

function letter_runs :: "string \<Rightarrow> string list" where
  "letter_runs [] = []"
| "letter_runs (c # cs) =
     (if is_ascii_alpha c then (c # takeWhile is_ascii_alpha cs) # letter_runs (dropWhile is_ascii_alpha cs)
      else letter_runs cs)"
  by pat_completeness auto
termination
  by (relation "measure length") (auto simp: le_imp_less_Suc length_dropWhile_le)

text \<open>A run that tells nothing about its owner: role vocabulary, or the letter of a pseudonym.\<close>

definition anonymous :: "string \<Rightarrow> bool" where
  "anonymous r \<longleftrightarrow> lower r \<in> set STRUCTURAL_TOKENS \<or> r = ''w''"

definition anonymous_text :: "string \<Rightarrow> bool" where
  "anonymous_text s \<longleftrightarrow> list_all anonymous (letter_runs s)"

lemma letter_runs_skip: "\<not> is_ascii_alpha c \<Longrightarrow> letter_runs (c # s) = letter_runs s"
  by simp

lemma while_border:
  assumes "t = [] \<or> \<not> p (hd t)"
  shows "takeWhile p (s @ t) = takeWhile p s \<and> dropWhile p (s @ t) = dropWhile p s @ t"
proof (induction s)
  case Nil
  then show ?case using assms by (cases t) simp_all
qed simp

lemma letter_runs_append:
  assumes "t = [] \<or> \<not> is_ascii_alpha (hd t)"
  shows "letter_runs (s @ t) = letter_runs s @ letter_runs t"
proof (induction s rule: letter_runs.induct)
  case (2 c cs)
  show ?case
  proof (cases "is_ascii_alpha c")
    case True
    show ?thesis using True 2(1) while_border [of t is_ascii_alpha cs, OF assms] by simp
  qed (use 2(2) in simp)
qed simp

lemma letter_runs_letters: "r \<noteq> [] \<Longrightarrow> list_all is_ascii_alpha r \<Longrightarrow> letter_runs r = [r]"
  by (cases r) (auto simp: list_all_iff takeWhile_eq_all_conv [THEN iffD2] dropWhile_eq_Nil_conv [THEN iffD2])

lemma letter_runs_digits: "list_all is_digit d \<Longrightarrow> letter_runs d = []"
  by (induction d) (auto simp: char_class_defs)

lemma digit_not_alpha: "is_digit c \<Longrightarrow> \<not> is_ascii_alpha c"
  by (auto simp: char_class_defs)

lemma runs_with_digits: "all_digits d \<Longrightarrow> letter_runs (s @ d) = letter_runs s"
  using letter_runs_append [of d s] letter_runs_digits [of d] digit_not_alpha
  by (cases d) (auto simp: all_digits_def)

lemma anonymous_pseudonym: "anonymous_text (pseudonym n)"
proof -
  have "letter_runs (''w'' @ str_of_nat n) = letter_runs ''w''"
    by (rule runs_with_digits) simp
  moreover have "letter_runs ''w'' = [''w'']" by (simp add: char_class_defs)
  ultimately show ?thesis by (simp add: anonymous_text_def pseudonym_def anonymous_def)
qed

definition issued :: "pseudo \<Rightarrow> bool" where
  "issued st \<longleftrightarrow> (\<forall>w \<in> set (map snd (ps_forward st)). \<exists>n. w = pseudonym n)"

lemma structural_letters: "lower tok \<in> set STRUCTURAL_TOKENS \<Longrightarrow> tok \<noteq> [] \<and> list_all is_ascii_alnum tok \<Longrightarrow> list_all is_ascii_alpha tok"
proof -
  assume a: "lower tok \<in> set STRUCTURAL_TOKENS" "tok \<noteq> [] \<and> list_all is_ascii_alnum tok"
  have "list_all (list_all is_ascii_lower) STRUCTURAL_TOKENS"
    by (simp add: STRUCTURAL_TOKENS_def is_ascii_lower_def)
  then have "list_all is_ascii_lower (lower tok)" using a(1) by (simp add: list_all_iff)
  then show ?thesis using a(2) unfolding list_all_iff
    by (auto simp: is_ascii_alnum_def) (fastforce simp: lower_char_def char_class_defs)
qed

lemma plain_token_anonymous:
  assumes "issued st" and "tok \<noteq> []" and "list_all is_ascii_alnum tok"
  shows "anonymous_text (fst (plain_token tok st)) \<and> issued (snd (plain_token tok st))"
proof -
  consider "all_digits tok" | "lower tok \<in> set STRUCTURAL_TOKENS" | w where "map_of (ps_forward st) (lower tok) = Some w"
    "\<not> all_digits tok" "lower tok \<notin> set STRUCTURAL_TOKENS"
    | "map_of (ps_forward st) (lower tok) = None" "\<not> all_digits tok" "lower tok \<notin> set STRUCTURAL_TOKENS"
    by fastforce
  then show ?thesis
  proof cases
    case 1
    then show ?thesis using assms by (simp add: plain_token_def anonymous_text_def letter_runs_digits all_digits_def)
  next
    case 2
    then show ?thesis using assms structural_letters
      by (simp add: plain_token_def anonymous_text_def letter_runs_letters anonymous_def)
  next
    case (3 w)
    then have "w \<in> set (map snd (ps_forward st))" by (force dest: map_of_SomeD)
    then obtain n where "w = pseudonym n" using assms(1) by (auto simp: issued_def)
    then show ?thesis using 3 assms(1) anonymous_pseudonym by (simp add: plain_token_def)
  next
    case 4
    have "issued (st\<lparr>ps_counter := n, ps_forward := AList.update k (pseudonym m) (ps_forward st), ps_back := b\<rparr>)" for n k m b
      using assms(1) by (fastforce simp: issued_def dest: AList_update_mem)
    then show ?thesis using 4 anonymous_pseudonym by (simp add: plain_token_def Let_def)
  qed
qed

lemma token_anonymous:
  assumes "issued st" and "tok \<noteq> []" and "list_all is_ascii_alnum tok"
  shows "anonymous_text (fst (mask_token tok st)) \<and> issued (snd (mask_token tok st))"
proof (cases "takeWhile is_ascii_alpha tok \<noteq> [] \<and> all_digits (dropWhile is_ascii_alpha tok)")
  case True
  let ?l = "takeWhile is_ascii_alpha tok" and ?d = "dropWhile is_ascii_alpha tok"
  have l: "list_all is_ascii_alnum ?l" using assms(3) by (auto simp: list_all_iff dest: set_takeWhileD)
  obtain t st2 where p: "plain_token ?l st = (t, st2)" by fastforce
  have "mask_token tok st = (t @ ?d, st2)" using True p by (simp add: mask_token_def Let_def)
  moreover have "anonymous_text t \<and> issued st2" using plain_token_anonymous [OF assms(1) _ l] True p by simp
  ultimately show ?thesis using True by (simp add: anonymous_text_def runs_with_digits)
next
  case False
  then have "mask_token tok st = plain_token tok st" by (auto simp: mask_token_def Let_def)
  then show ?thesis using plain_token_anonymous [OF assms] by simp
qed

lemma mask_hd: "s = [] \<or> \<not> is_ascii_alnum (hd s) \<Longrightarrow> fst (mask s st) = [] \<or> \<not> is_ascii_alpha (hd (fst (mask s st)))"
  by (cases s) (auto simp: is_ascii_alnum_def split: prod.split)

lemma mask_anonymous:
  "issued st \<Longrightarrow> anonymous_text (fst (mask s st)) \<and> issued (snd (mask s st))"
proof (induction s st rule: mask.induct)
  case (2 c cs st)
  show ?case
  proof (cases "is_ascii_alnum c")
    case True
    let ?run = "c # takeWhile is_ascii_alnum cs" and ?rest = "dropWhile is_ascii_alnum cs"
    obtain t st1 where t: "mask_token ?run st = (t, st1)" by fastforce
    obtain r st2 where r: "mask ?rest st1 = (r, st2)" by fastforce
    have "list_all is_ascii_alnum ?run" using True by (auto simp: list_all_iff dest: set_takeWhileD)
    then have at: "anonymous_text t \<and> issued st1" using token_anonymous [OF 2(3), of ?run] t by simp
    then have ar: "anonymous_text r \<and> issued st2" using 2(1) [OF True t [symmetric]] r by simp
    have "?rest = [] \<or> \<not> is_ascii_alnum (hd ?rest)" using hd_dropWhile by blast
    then have "r = [] \<or> \<not> is_ascii_alpha (hd r)" using mask_hd [of ?rest st1] r by simp
    then have "letter_runs (t @ r) = letter_runs t @ letter_runs r" by (rule letter_runs_append)
    then show ?thesis using True t r at ar by (simp add: anonymous_text_def)
  next
    case False
    obtain r st2 where r: "mask cs st = (r, st2)" by fastforce
    have "\<not> is_ascii_alpha c" using False by (simp add: is_ascii_alnum_def)
    then show ?thesis using False 2(2) [OF False 2(3)] r by (simp add: anonymous_text_def)
  qed
qed (simp add: anonymous_text_def)

lemma mask_opt_anonymous:
  "issued st \<Longrightarrow> (case fst (mask_opt v st) of None \<Rightarrow> True | Some s \<Rightarrow> anonymous_text s) \<and> issued (snd (mask_opt v st))"
proof (cases v)
  case (Some s)
  assume "issued st"
  obtain t st1 where "mask s st = (t, st1)" by fastforce
  then show ?thesis using Some mask_anonymous [OF \<open>issued st\<close>, of s] by (simp add: mask_opt_def)
qed (simp add: mask_opt_def)

text \<open>The transmitted record: anonymous texts, and no address, tag, resource id or UUID.\<close>

definition masked_ok :: "vm \<Rightarrow> bool" where
  "masked_ok v \<longleftrightarrow> anonymous_text (vm_name v)
     \<and> list_all anonymous_text (List.map_filter (\<lambda>x. x) [vm_hostname v, vm_cluster v, vm_datacenter v, vm_network v])
     \<and> vm_ips v = [] \<and> vm_tags v = [] \<and> vm_external_id v = None \<and> vm_uuid v = None"

lemma plain_token_ne: "tok \<noteq> [] \<Longrightarrow> issued st \<Longrightarrow> fst (plain_token tok st) \<noteq> []"
  by (auto simp: plain_token_def pseudonym_def issued_def Let_def dest!: map_of_SomeD split: option.split)

lemma token_ne: "tok \<noteq> [] \<Longrightarrow> issued st \<Longrightarrow> fst (mask_token tok st) \<noteq> []"
  using plain_token_ne [of tok st] by (auto simp: mask_token_def Let_def all_digits_def split: prod.split)

lemma mask_ne: "s \<noteq> [] \<Longrightarrow> issued st \<Longrightarrow> fst (mask s st) \<noteq> []"
  using token_ne [of "hd s # takeWhile is_ascii_alnum (tl s)" st] by (cases s) (auto split: prod.split)

lemma issued_simps [simp]: "issued (st\<lparr>ps_vm_back := d\<rparr>) = issued st" "issued fresh_pseudo"
  by (simp_all add: issued_def fresh_pseudo_def)

text \<open>One record, step by step.\<close>

lemma deidentify_steps:
  obtains m st1 h st2 c st3 d st4 n st5 where
    "mask (vm_name vm) st = (m, st1)"
    and "mask_opt (vm_hostname vm) (st1\<lparr>ps_vm_back := AList.update (if m = [] then vm_name vm else m) (vm_name vm) (ps_vm_back st1)\<rparr>) = (h, st2)"
    and "mask_opt (vm_cluster vm) st2 = (c, st3)" and "mask_opt (vm_datacenter vm) st3 = (d, st4)"
    and "mask_opt (vm_network vm) st4 = (n, st5)"
    and "deidentify vm st = (vm\<lparr>vm_name := (if m = [] then vm_name vm else m), vm_hostname := h, vm_cluster := c,
      vm_datacenter := d, vm_network := n, vm_ips := [], vm_tags := [], vm_external_id := None, vm_uuid := None\<rparr>, st5)"
proof -
  obtain m st1 where 1: "mask (vm_name vm) st = (m, st1)" by fastforce
  let ?s = "st1\<lparr>ps_vm_back := AList.update (if m = [] then vm_name vm else m) (vm_name vm) (ps_vm_back st1)\<rparr>"
  obtain h st2 where 2: "mask_opt (vm_hostname vm) ?s = (h, st2)" by fastforce
  obtain c st3 where 3: "mask_opt (vm_cluster vm) st2 = (c, st3)" by fastforce
  obtain d st4 where 4: "mask_opt (vm_datacenter vm) st3 = (d, st4)" by fastforce
  obtain n st5 where 5: "mask_opt (vm_network vm) st4 = (n, st5)" by fastforce
  show thesis by (rule that [OF 1 2 3 4 5]) (simp add: deidentify_def 1 2 3 4 5 Let_def)
qed

lemma deidentify_ok:
  assumes "issued st" and "vm_name vm \<noteq> []"
  shows "masked_ok (fst (deidentify vm st)) \<and> issued (snd (deidentify vm st))"
proof -
  obtain m st1 h st2 c st3 d st4 n st5 where s: "mask (vm_name vm) st = (m, st1)"
    "mask_opt (vm_hostname vm) (st1\<lparr>ps_vm_back := AList.update (if m = [] then vm_name vm else m) (vm_name vm) (ps_vm_back st1)\<rparr>) = (h, st2)"
    "mask_opt (vm_cluster vm) st2 = (c, st3)" "mask_opt (vm_datacenter vm) st3 = (d, st4)" "mask_opt (vm_network vm) st4 = (n, st5)"
    and r: "deidentify vm st = (vm\<lparr>vm_name := (if m = [] then vm_name vm else m), vm_hostname := h, vm_cluster := c,
      vm_datacenter := d, vm_network := n, vm_ips := [], vm_tags := [], vm_external_id := None, vm_uuid := None\<rparr>, st5)"
    by (rule deidentify_steps)
  have m: "anonymous_text m" "issued st1" "m \<noteq> []"
    using mask_anonymous [OF assms(1), of "vm_name vm"] mask_ne [OF assms(2,1)] s(1) by simp_all
  have h: "case h of None \<Rightarrow> True | Some x \<Rightarrow> anonymous_text x" "issued st2"
    using mask_opt_anonymous [of "st1\<lparr>ps_vm_back := AList.update (if m = [] then vm_name vm else m) (vm_name vm) (ps_vm_back st1)\<rparr>" "vm_hostname vm"] s(2) m(2) by simp_all
  have c: "case c of None \<Rightarrow> True | Some x \<Rightarrow> anonymous_text x" "issued st3"
    using mask_opt_anonymous [OF h(2), of "vm_cluster vm"] s(3) by simp_all
  have d: "case d of None \<Rightarrow> True | Some x \<Rightarrow> anonymous_text x" "issued st4"
    using mask_opt_anonymous [OF c(2), of "vm_datacenter vm"] s(4) by simp_all
  have n: "case n of None \<Rightarrow> True | Some x \<Rightarrow> anonymous_text x" "issued st5"
    using mask_opt_anonymous [OF d(2), of "vm_network vm"] s(5) by simp_all
  show ?thesis using m h(1) c(1) d(1) n
    by (auto simp: r masked_ok_def List.map_filter_def split: option.splits)
qed

lemma deidentify_all_ok:
  "issued st \<Longrightarrow> \<forall>v \<in> set vms. vm_name v \<noteq> [] \<Longrightarrow>
     (\<forall>v \<in> set (fst (deidentify_all vms st)). masked_ok v) \<and> issued (snd (deidentify_all vms st))"
proof (induction vms arbitrary: st)
  case (Cons vm vms)
  obtain v st1 where v: "deidentify vm st = (v, st1)" by fastforce
  obtain vs st2 where vs: "deidentify_all vms st1 = (vs, st2)" by fastforce
  have "masked_ok v \<and> issued st1" using deidentify_ok [of st vm] Cons.prems v by simp
  then show ?case using Cons.IH [of st1] Cons.prems v vs by simp
qed simp


subsection \<open>Facts: the way back\<close>

lemma plain_token_vm_back [simp]: "ps_vm_back (snd (plain_token tok st)) = ps_vm_back st"
  by (simp add: plain_token_def Let_def split: option.split)

lemma token_vm_back [simp]: "ps_vm_back (snd (mask_token tok st)) = ps_vm_back st"
proof -
  obtain t st1 where p: "plain_token (takeWhile is_ascii_alpha tok) st = (t, st1)" by fastforce
  then have "ps_vm_back st1 = ps_vm_back st"
    using plain_token_vm_back [of "takeWhile is_ascii_alpha tok" st] by simp
  with p show ?thesis by (simp add: mask_token_def Let_def)
qed

lemma mask_vm_back [simp]: "ps_vm_back (snd (mask s st)) = ps_vm_back st"
proof (induction s st rule: mask.induct)
  case (2 c cs st)
  let ?run = "c # takeWhile is_ascii_alnum cs" and ?rest = "dropWhile is_ascii_alnum cs"
  obtain t st1 where t: "mask_token ?run st = (t, st1)" by fastforce
  obtain r st2 where r: "mask ?rest st1 = (r, st2)" by fastforce
  obtain r' st3 where r': "mask cs st = (r', st3)" by fastforce
  have "ps_vm_back st1 = ps_vm_back st" using token_vm_back [of ?run st] t by simp
  then show ?case using 2(1) [OF _ t [symmetric]] 2(2) t r r' by (cases "is_ascii_alnum c") simp_all
qed simp

lemma mask_opt_vm_back [simp]: "ps_vm_back (snd (mask_opt v st)) = ps_vm_back st"
  using mask_vm_back [of "the v" st] by (cases v) (auto simp: mask_opt_def simp del: mask_vm_back split: prod.splits)

lemma deidentify_vm_back:
  "ps_vm_back (snd (deidentify vm st)) = AList.update (vm_name (fst (deidentify vm st))) (vm_name vm) (ps_vm_back st)"
proof -
  obtain m st1 h st2 c st3 d st4 n st5 where s: "mask (vm_name vm) st = (m, st1)"
    "mask_opt (vm_hostname vm) (st1\<lparr>ps_vm_back := AList.update (if m = [] then vm_name vm else m) (vm_name vm) (ps_vm_back st1)\<rparr>) = (h, st2)"
    "mask_opt (vm_cluster vm) st2 = (c, st3)" "mask_opt (vm_datacenter vm) st3 = (d, st4)" "mask_opt (vm_network vm) st4 = (n, st5)"
    and r: "deidentify vm st = (vm\<lparr>vm_name := (if m = [] then vm_name vm else m), vm_hostname := h, vm_cluster := c,
      vm_datacenter := d, vm_network := n, vm_ips := [], vm_tags := [], vm_external_id := None, vm_uuid := None\<rparr>, st5)"
    by (rule deidentify_steps)
  have "ps_vm_back st1 = ps_vm_back st" using mask_vm_back [of "vm_name vm" st] s(1) by simp
  moreover have "ps_vm_back st2 = AList.update (if m = [] then vm_name vm else m) (vm_name vm) (ps_vm_back st1)"
    using mask_opt_vm_back [of "vm_hostname vm" "st1\<lparr>ps_vm_back := AList.update (if m = [] then vm_name vm else m) (vm_name vm) (ps_vm_back st1)\<rparr>"] s(2)
    by simp
  moreover have "ps_vm_back st5 = ps_vm_back st2"
    using mask_opt_vm_back [of "vm_cluster vm" st2] mask_opt_vm_back [of "vm_datacenter vm" st3]
      mask_opt_vm_back [of "vm_network vm" st4] s(3-5) by simp
  ultimately show ?thesis by (simp add: r)
qed

lemma length_deidentify_all [simp]: "length (fst (deidentify_all vms st)) = length vms"
proof (induction vms arbitrary: st)
  case (Cons vm vms)
  obtain v st1 where "deidentify vm st = (v, st1)" by fastforce
  moreover obtain vs st2 where "deidentify_all vms st1 = (vs, st2)" by fastforce
  ultimately show ?case using Cons.IH [of st1] by simp
qed simp

text \<open>The names sent, each with the machine it stands for: of two machines with one sent name the last is kept.\<close>

lemma deidentify_all_vm_back:
  "map_of (ps_vm_back (snd (deidentify_all vms st)))
     = map_of (ps_vm_back st) ++ map_of (rev (zip (map vm_name (fst (deidentify_all vms st))) (map vm_name vms)))"
proof (induction vms arbitrary: st)
  case (Cons vm vms)
  obtain v st1 where v: "deidentify vm st = (v, st1)" by fastforce
  obtain vs st2 where vs: "deidentify_all vms st1 = (vs, st2)" by fastforce
  have "ps_vm_back st1 = AList.update (vm_name v) (vm_name vm) (ps_vm_back st)"
    using deidentify_vm_back [of vm st] v by simp
  then show ?case using Cons.IH [of st1] v vs
    by (simp add: update_conv' map_add_def fun_eq_iff split: option.split)
qed simp

definition sent_names :: "vm list \<Rightarrow> string list" where
  "sent_names vms = map vm_name (fst (deidentify_all vms fresh_pseudo))"

definition sent_state :: "vm list \<Rightarrow> pseudo" where
  "sent_state vms = snd (deidentify_all vms fresh_pseudo)"

lemma length_sent_names [simp]: "length (sent_names vms) = length vms"
  by (simp add: sent_names_def)

lemma restore_sent: "restore (sent_state vms) n = map_of (rev (zip (sent_names vms) (map vm_name vms))) n"
  using deidentify_all_vm_back [of vms fresh_pseudo]
  by (simp add: restore_def sent_state_def sent_names_def fresh_pseudo_def)

text \<open>Whatever name comes back, it stands for a machine of the inventory or for none.\<close>

lemma restore_no_invention: "restore (sent_state vms) n = Some r \<Longrightarrow> r \<in> vm_name ` set vms \<and> n \<in> set (sent_names vms)"
  unfolding restore_sent by (auto dest!: map_of_SomeD simp: in_set_zip)

lemma restore_roundtrip:
  assumes "distinct (sent_names vms)" and "i < length vms"
  shows "restore (sent_state vms) (sent_names vms ! i) = Some (vm_name (vms ! i))"
proof -
  let ?z = "zip (sent_names vms) (map vm_name vms)"
  have "distinct (map fst (rev ?z))" using assms(1) by (simp add: rev_map [symmetric])
  moreover have "(sent_names vms ! i, map vm_name vms ! i) \<in> set (rev ?z)"
    using assms(2) by (auto simp: in_set_zip)
  ultimately show ?thesis using assms(2) by (simp add: restore_sent map_of_is_SomeI)
qed


lemma restored_members:
  assumes "distinct (sent_names vms)" and "distinct (map vm_name vms)"
    and "distinct (keys ms)" and "set (keys ms) \<subseteq> set (sent_names vms)"
  shows "keys (ag_members (restore_group (sent_state vms) \<lparr>ag_name = n, ag_environment = e, ag_members = ms\<rparr>))
    = map (\<lambda>x. the (restore (sent_state vms) x)) (keys ms)"
proof -
  let ?f = "\<lambda>x. the (restore (sent_state vms) x)"
  have inj: "inj_on ?f (set (sent_names vms))"
  proof (rule inj_onI)
    fix x y
    assume "x \<in> set (sent_names vms)" "y \<in> set (sent_names vms)" and eq: "?f x = ?f y"
    then obtain i j where "i < length vms" "x = sent_names vms ! i" "j < length vms" "y = sent_names vms ! j"
      by (metis in_set_conv_nth length_sent_names)
    then show "x = y" using eq restore_roundtrip [OF assms(1)] assms(2)
      by (metis length_map nth_eq_iff_index_eq nth_map option.sel)
  qed
  have some: "restore (sent_state vms) x = Some (?f x)" if "x \<in> set (sent_names vms)" for x
    using that restore_roundtrip [OF assms(1)] by (metis in_set_conv_nth length_sent_names option.sel)
  have "keys (foldl (\<lambda>d (n, tr). case restore (sent_state vms) n of None \<Rightarrow> d | Some orig \<Rightarrow> AList.update orig tr d) d ms)
      = keys d @ map ?f (keys ms)"
    if "distinct (keys ms)" "set (keys ms) \<subseteq> set (sent_names vms)" "set (keys d) \<inter> ?f ` set (keys ms) = {}" for d
    using that
  proof (induction ms arbitrary: d)
    case (Cons nt ms)
    obtain x tr where nt: "nt = (x, tr)" by (cases nt)
    have x: "x \<in> set (sent_names vms)" "x \<notin> set (keys ms)" "?f x \<notin> set (keys d)"
      using Cons.prems by (auto simp: nt)
    have "?f x \<notin> ?f ` set (keys ms)"
    proof
      assume "?f x \<in> ?f ` set (keys ms)"
      then obtain y where y: "y \<in> set (keys ms)" "?f x = ?f y" by (elim imageE)
      have "set (keys ms) \<subseteq> set (sent_names vms)" using Cons.prems(2) by (simp add: nt)
      then have "x = y" using inj_onD [OF inj y(2) x(1)] y(1) by blast
      then show False using x(2) y(1) by simp
    qed
    moreover have "keys (AList.update (?f x) tr d) = keys d @ [?f x]"
      using x(3) by (simp add: update_keys)
    ultimately have new: "set (keys (AList.update (?f x) tr d)) \<inter> ?f ` set (keys ms) = {}"
      "keys (AList.update (?f x) tr d) = keys d @ [?f x]"
      using Cons.prems(3) by (auto simp: nt simp del: set_map)
    have ms: "distinct (keys ms)" "set (keys ms) \<subseteq> set (sent_names vms)"
      using Cons.prems(1,2) by (simp_all add: nt)
    have "restore (sent_state vms) x \<noteq> None" using some [OF x(1)] by (rule ssubst) simp
    then have step: "(case restore (sent_state vms) x of None \<Rightarrow> d | Some orig \<Rightarrow> AList.update orig tr d) = AList.update (?f x) tr d"
      by auto
    show ?case using Cons.IH [OF ms new(1), unfolded new(2)]
      unfolding nt foldl.simps case_prod_conv step list.map fst_conv append_assoc append.simps .
  qed simp
  from this [of "[]"] show ?thesis using assms(3,4) by (simp add: restore_group_def)
qed


definition group_ok :: "vm list \<Rightarrow> app_group \<Rightarrow> bool" where
  "group_ok vms g \<longleftrightarrow> distinct (keys (ag_members g)) \<and> set (keys (ag_members g)) \<subseteq> set (sent_names vms)"

lemma restored_names:
  assumes "distinct (sent_names vms)" and "distinct (map vm_name vms)" and "list_all (group_ok vms) groups"
  shows "group_names (map (restore_group (sent_state vms)) groups)
    = map (\<lambda>x. the (restore (sent_state vms) x)) (group_names groups)"
  using assms(3)
proof (induction groups)
  case (Cons g groups)
  have "keys (ag_members (restore_group (sent_state vms) g)) = map (\<lambda>x. the (restore (sent_state vms) x)) (keys (ag_members g))"
    using restored_members [OF assms(1,2), of "ag_members g" "ag_name g" "ag_environment g"] Cons.prems
    by (simp add: group_ok_def restore_group_def)
  then show ?case using Cons.IH Cons.prems by (simp add: group_names_def)
qed (simp add: group_names_def)

lemma partitions_restored:
  assumes d: "distinct (sent_names vms)" "distinct (map vm_name vms)"
    and p: "partitions groups (set (sent_names vms))"
  shows "partitions (map (restore_group (sent_state vms)) groups) (vm_name ` set vms)"
proof -
  let ?f = "\<lambda>x. the (restore (sent_state vms) x)"
  have "list_all (group_ok vms) groups"
  proof -
    have "group_ok vms g" if "g \<in> set groups" for g
    proof -
      have k: "keys (ag_members g) \<in> set (map (\<lambda>g. keys (ag_members g)) groups)" using that by simp
      have "distinct (keys (ag_members g))"
        using p k unfolding partitions_def group_names_def distinct_concat_iff by blast
      moreover have "set (keys (ag_members g)) \<subseteq> set (sent_names vms)"
        using p k unfolding partitions_def group_names_def set_concat by blast
      ultimately show ?thesis by (simp add: group_ok_def)
    qed
    then show ?thesis by (simp add: list_all_iff)
  qed
  from restored_names [OF d this]
  have names: "group_names (map (restore_group (sent_state vms)) groups) = map ?f (group_names groups)" .
  have nth: "?f (sent_names vms ! i) = vm_name (vms ! i)" if "i < length vms" for i
    using restore_roundtrip [OF d(1) that] by simp
  then have "map ?f (sent_names vms) = map vm_name vms" by (intro nth_equalityI) simp_all
  then have "distinct (map ?f (sent_names vms)) \<and> ?f ` set (sent_names vms) = vm_name ` set vms"
    using d(2) by (metis list.set_map)
  moreover have "distinct (map ?f (group_names groups)) = (distinct (group_names groups) \<and> inj_on ?f (set (group_names groups)))"
    by (rule distinct_map)
  ultimately show ?thesis using p d(1) by (simp add: partitions_def names distinct_map)
qed

text \<open>The wrapped remote provider: the model sees the sent names, the caller gets the real ones, each once.\<close>

lemma wrapped_classify:
  "p_classify (deidentifying_provider inner) vms
     = map (restore_group (sent_state vms)) (p_classify inner (fst (deidentify_all vms fresh_pseudo)))"
  by (simp add: deidentifying_provider_def sent_state_def Let_def case_prod_unfold)

lemma wrapped_partitions:
  assumes "distinct (sent_names vms)" and "distinct (map vm_name vms)"
  shows "partitions (p_classify (deidentifying_provider (anthropic ca ra tu t)) vms) (vm_name ` set vms)"
proof -
  let ?m = "fst (deidentify_all vms fresh_pseudo)"
  have "partitions (llm_classify ca ?m) (vm_name ` set ?m)"
    using assms(1) by (intro llm_classify_partitions) (simp add: sent_names_def)
  then show ?thesis
    using partitions_restored [OF assms, of "llm_classify ca ?m"]
    by (simp add: wrapped_classify anthropic_def sent_names_def)
qed

text \<open>Every transmitted record is anonymous.\<close>

lemma sent_anonymous: "list_all (\<lambda>v. vm_name v \<noteq> []) vms \<Longrightarrow> list_all masked_ok (fst (deidentify_all vms fresh_pseudo))"
  using deidentify_all_ok [of fresh_pseudo vms] by (simp add: list_all_iff)

text \<open>No machine is invented, whatever the groups name.\<close>

lemma restored_members_real: "set (keys (ag_members (restore_group (sent_state vms) g))) \<subseteq> vm_name ` set vms"
proof -
  have "set (keys (foldl (\<lambda>d (n, tr). case restore (sent_state vms) n of None \<Rightarrow> d | Some orig \<Rightarrow> AList.update orig tr d) d ms))
      \<subseteq> set (keys d) \<union> vm_name ` set vms" for d and ms :: "(string, tier) dict"
  proof (induction ms arbitrary: d)
    case (Cons nt ms)
    obtain n tr where nt: "nt = (n, tr)" by (cases nt)
    show ?case
    proof (cases "restore (sent_state vms) n")
      case (Some r)
      have "r \<in> vm_name ` set vms" using restore_no_invention [OF Some] by simp
      then show ?thesis using Cons.IH [of "AList.update r tr d"] Some by (simp add: nt keys_dict_update del: set_map) blast
    qed (use Cons.IH [of d] in \<open>simp add: nt del: set_map\<close>)
  qed simp
  from this [of "[]"] show ?thesis by (simp add: restore_group_def)
qed

text \<open>
  Two machines whose names differ in case only are sent under one name: the first of them comes back in no
  group. And a group name that quotes a token with digits is not restored, or to another token.
\<close>

definition named :: "string \<Rightarrow> vm" where
  "named n =
     \<lparr>vm_name = n, vm_cpu = 1, vm_memory = 1, vm_disks = [], vm_cpu_util = None,
      vm_mem_util = None, vm_network = None, vm_os = None, vm_power = None, vm_ips = [], vm_hostname = None,
      vm_cluster = None, vm_datacenter = None, vm_external_id = None, vm_uuid = None, vm_tags = []\<rparr>"

lemmas deid_eval = sent_names_def sent_state_def deidentify_def mask_opt_def mask_token_def plain_token_def pseudonym_def
  fresh_pseudo_def named_def STRUCTURAL_TOKENS_def Let_def

lemma case_twins_collide:
  "sent_names [named ''Acme'', named ''acme''] = [''w1'', ''w1'']"
  "restore (sent_state [named ''Acme'', named ''acme'']) ''w1'' = Some ''acme''"
  by code_simp+

lemma group_name_not_restored: "unmask (sent_state [named ''acme1'']) (hd (sent_names [named ''acme1''])) = ''w11''"
  by code_simp

end
