(* ===== verification/Oidc.thy ===== *)
theory Oidc
  imports SignIn
begin

text \<open>
  \<open>api/oidc.py\<close> and the two endpoints over it: single sign-on by the authorization-code flow. What the network
  and PyJWT answer are the fields of \<open>oidc_env\<close>, \<open>None\<close> where they raise; random values and the clock are
  arguments. A document is a JSON object.
\<close>

type_synonym document = "(string, json) dict"

definition truthy :: "json \<Rightarrow> bool" where
  "truthy v \<longleftrightarrow> (case v of JNull \<Rightarrow> False | JBool b \<Rightarrow> b | JNum x \<Rightarrow> x \<noteq> 0 | JStr s \<Rightarrow> s \<noteq> []
                | JList xs \<Rightarrow> xs \<noteq> [] | JObj kvs \<Rightarrow> kvs \<noteq> [])"

definition get :: "document \<Rightarrow> string \<Rightarrow> json" where
  "get d k = (case map_of d k of None \<Rightarrow> JNull | Some v \<Rightarrow> v)"

text \<open>\<open>OidcError\<close>, which the endpoints handle, and any other exception.\<close>

datatype oidc_error = Refused | Unhandled

record oidc_env =
  oe_insecure :: bool
  oe_get :: "string \<Rightarrow> document option"
  oe_post :: "string \<Rightarrow> string \<Rightarrow> document option"
  oe_signing_key :: "json \<Rightarrow> json \<Rightarrow> string option"
  oe_decode :: "json \<Rightarrow> string \<Rightarrow> string list \<Rightarrow> string \<Rightarrow> string \<Rightarrow> rat \<Rightarrow> document option"
  oe_sha256 :: "string \<Rightarrow> nat list"
  oe_str :: "json \<Rightarrow> string"

definition py_text :: "oidc_env \<Rightarrow> json \<Rightarrow> string" where
  "py_text env v = (case v of JStr s \<Rightarrow> s | _ \<Rightarrow> oe_str env v)"

definition ALLOWED_ALGORITHMS :: "string list" where
  "ALLOWED_ALGORITHMS = [''RS256'', ''RS384'', ''RS512'', ''ES256'', ''ES384'', ''ES512'']"

definition LEEWAY_SECONDS :: rat where "LEEWAY_SECONDS = 60"
definition STATE_TTL_SECONDS :: rat where "STATE_TTL_SECONDS = 600"
definition MAX_PENDING :: nat where "MAX_PENDING = 5000"

record pending_login =
  pl_state :: string
  pl_nonce :: string
  pl_verifier :: string
  pl_created_at :: rat
  pl_redirect_to :: "string option"

record oidc_config =
  oc_issuer :: string
  oc_client_id :: string
  oc_client_secret :: string
  oc_redirect_uri :: string
  oc_scopes :: "string list"
  oc_trust_unverified_email :: bool

subsection \<open>Discovery\<close>

definition rstrip_slash :: "string \<Rightarrow> string" where
  "rstrip_slash s = rev (dropWhile (\<lambda>c. c = CHR ''/'') (rev s))"

definition get_json :: "oidc_env \<Rightarrow> string \<Rightarrow> oidc_error + document" where
  "get_json env url =
     (if \<not> starts_with ''https://'' (lower url) \<and> \<not> oe_insecure env then Inl Refused
      else case oe_get env url of None \<Rightarrow> Inl Unhandled | Some d \<Rightarrow> Inr d)"

text \<open>The second argument is the cache \<open>_metadata\<close>, which is set before the issuer is compared.\<close>

definition metadata :: "oidc_env \<Rightarrow> oidc_config \<Rightarrow> document \<Rightarrow> (oidc_error + document) \<times> document" where
  "metadata env cfg cache =
     (if cache \<noteq> [] then (Inr cache, cache)
      else case get_json env (rstrip_slash (oc_issuer cfg) @ ''/.well-known/openid-configuration'') of
             Inl e \<Rightarrow> (Inl e, cache)
           | Inr doc \<Rightarrow>
               (let declared = get doc ''issuer'' in
                if \<not> truthy declared then (Inr doc, doc)
                else case declared of
                       JStr d \<Rightarrow> if rstrip_slash d \<noteq> rstrip_slash (oc_issuer cfg) then (Inl Refused, doc) else (Inr doc, doc)
                     | _ \<Rightarrow> (Inl Unhandled, doc)))"

subsection \<open>PKCE\<close>

definition b64_char :: "nat \<Rightarrow> char" where
  "b64_char n = char_of (if n < 26 then 65 + n else if n < 52 then 71 + n else if n < 62 then n - 4 else if n = 62 then 45 else 95 :: nat)"

fun b64url :: "nat list \<Rightarrow> string" where
  "b64url [] = []"
| "b64url [a] = [b64_char (a div 4), b64_char (a mod 4 * 16)]"
| "b64url [a, b] = [b64_char (a div 4), b64_char (a mod 4 * 16 + b div 16), b64_char (b mod 16 * 4)]"
| "b64url (a # b # c # bs) =
     b64_char (a div 4) # b64_char (a mod 4 * 16 + b div 16) # b64_char (b mod 16 * 4 + c div 64) # b64_char (c mod 64) # b64url bs"

definition derive_challenge :: "oidc_env \<Rightarrow> string \<Rightarrow> string \<times> string" where
  "derive_challenge env verifier = (verifier, b64url (oe_sha256 env verifier))"

definition pkce_pair :: "oidc_env \<Rightarrow> nat list \<Rightarrow> string \<times> string" where
  "pkce_pair env bytes = (let verifier = b64url bytes in (verifier, b64url (oe_sha256 env verifier)))"

subsection \<open>The attempts in flight\<close>

type_synonym login_store = "(string, pending_login) dict"

definition evict_logins :: "rat \<Rightarrow> rat \<Rightarrow> login_store \<Rightarrow> login_store" where
  "evict_logins ttl now st =
     (let st = filter (\<lambda>(s, p). \<not> ttl < now - pl_created_at p) st
      in if MAX_PENDING \<le> length st then drop_quarter (\<lambda>(s, p). pl_created_at p) st else st)"

definition begin_login ::
  "oidc_env \<Rightarrow> rat \<Rightarrow> rat \<Rightarrow> string \<Rightarrow> string \<Rightarrow> nat list \<Rightarrow> string option \<Rightarrow> login_store \<Rightarrow> pending_login \<times> login_store" where
  "begin_login env ttl now state nonce bytes redirect st =
     (let st = evict_logins ttl now st;
          p = \<lparr>pl_state = state, pl_nonce = nonce, pl_verifier = fst (pkce_pair env bytes), pl_created_at = now, pl_redirect_to = redirect\<rparr>
      in (p, AList.update state p st))"

definition consume_login :: "rat \<Rightarrow> rat \<Rightarrow> string \<Rightarrow> login_store \<Rightarrow> (oidc_error + pending_login) \<times> login_store" where
  "consume_login ttl now state st =
     (case map_of st state of
        None \<Rightarrow> (Inl Refused, st)
      | Some p \<Rightarrow> (if ttl < now - pl_created_at p then Inl Refused else Inr p, AList.delete state st))"

subsection \<open>Requests to the provider\<close>

definition hex_upper :: "nat \<Rightarrow> char" where
  "hex_upper n = char_of (if n < 10 then 48 + n else 55 + n :: nat)"

definition utf8 :: "char \<Rightarrow> nat list" where
  "utf8 c = (if code c < 128 then [code c] else [192 + code c div 64, 128 + code c mod 64])"

definition quote_plus :: "string \<Rightarrow> string" where
  "quote_plus s = concat (map (\<lambda>c. if is_ascii_alnum c \<or> c \<in> set ''_.-~'' then [c]
                                  else if c = CHR '' '' then ''+''
                                  else concat (map (\<lambda>b. [CHR ''%'', hex_upper (b div 16), hex_upper (b mod 16)]) (utf8 c))) s)"

definition urlencode :: "(string \<times> string) list \<Rightarrow> string" where
  "urlencode kvs = join ''&'' (map (\<lambda>(k, v). quote_plus k @ ''='' @ quote_plus v) kvs)"

definition authorization_url ::
  "oidc_env \<Rightarrow> oidc_config \<Rightarrow> pending_login \<Rightarrow> document \<Rightarrow> (oidc_error + string) \<times> document" where
  "authorization_url env cfg p cache =
     (case metadata env cfg cache of
        (Inl e, cache) \<Rightarrow> (Inl e, cache)
      | (Inr md, cache) \<Rightarrow>
          (let endpoint = get md ''authorization_endpoint''; challenge = snd (derive_challenge env (pl_verifier p)) in
           if \<not> truthy endpoint then (Inl Refused, cache)
           else (Inr (py_text env endpoint @ ''?'' @ urlencode
                   [(''response_type'', ''code''), (''client_id'', oc_client_id cfg), (''redirect_uri'', oc_redirect_uri cfg),
                    (''scope'', join '' '' (oc_scopes cfg)), (''state'', pl_state p), (''nonce'', pl_nonce p),
                    (''code_challenge'', challenge), (''code_challenge_method'', ''S256'')]), cache)))"

definition exchange_code :: "oidc_env \<Rightarrow> oidc_config \<Rightarrow> string \<Rightarrow> string \<Rightarrow> document \<Rightarrow> (oidc_error + document) \<times> document" where
  "exchange_code env cfg auth_code verifier cache =
     (case metadata env cfg cache of
        (Inl e, cache) \<Rightarrow> (Inl e, cache)
      | (Inr md, cache) \<Rightarrow>
          (let endpoint = get md ''token_endpoint'' in
           if \<not> truthy endpoint then (Inl Refused, cache)
           else case endpoint of
                  JStr url \<Rightarrow>
                    (case oe_post env url (urlencode [(''grant_type'', ''authorization_code''), (''code'', auth_code),
                        (''redirect_uri'', oc_redirect_uri cfg), (''client_id'', oc_client_id cfg),
                        (''client_secret'', oc_client_secret cfg), (''code_verifier'', verifier)]) of
                       None \<Rightarrow> (Inl Unhandled, cache)
                     | Some d \<Rightarrow> (Inr d, cache))
                | _ \<Rightarrow> (Inl Unhandled, cache)))"

subsection \<open>The token\<close>

text \<open>\<open>compare_digest\<close> raises on a text that is not ASCII.\<close>

definition verify_id_token :: "oidc_env \<Rightarrow> oidc_config \<Rightarrow> json \<Rightarrow> string \<Rightarrow> document \<Rightarrow> (oidc_error + document) \<times> document" where
  "verify_id_token env cfg id_token nonce cache =
     (case metadata env cfg cache of
        (Inl e, cache) \<Rightarrow> (Inl e, cache)
      | (Inr md, cache) \<Rightarrow>
          (let uri = get md ''jwks_uri'' in
           if \<not> truthy uri then (Inl Refused, cache)
           else case oe_signing_key env uri id_token of
                  None \<Rightarrow> (Inl Refused, cache)
                | Some key \<Rightarrow>
                    (case oe_decode env id_token key ALLOWED_ALGORITHMS (oc_client_id cfg) (oc_issuer cfg) LEEWAY_SECONDS of
                       None \<Rightarrow> (Inl Refused, cache)
                     | Some claims \<Rightarrow>
                         (let n = get claims ''nonce'' in
                          if \<not> truthy n then (Inl Refused, cache)
                          else if list_ex (\<lambda>c. 128 \<le> code c) (py_text env n @ nonce) then (Inl Unhandled, cache)
                          else if py_text env n \<noteq> nonce then (Inl Refused, cache)
                          else (Inr claims, cache)))))"

definition identity_from_claims :: "oidc_env \<Rightarrow> oidc_config \<Rightarrow> document \<Rightarrow> oidc_error + string \<times> string" where
  "identity_from_claims env cfg claims =
     (let v = get claims ''email'' in
      case (if truthy v then v else JStr []) of
        JStr raw \<Rightarrow>
          (let email = lower (strip raw) in
           if email = [] then Inl Refused
           else if \<not> oc_trust_unverified_email cfg \<and> get claims ''email_verified'' \<noteq> JBool True then Inl Refused
           else let s = get claims ''sub''; subject = py_text env (if truthy s then s else JStr [])
                in if subject = [] then Inl Refused else Inr (subject, email))
      | _ \<Rightarrow> Inl Unhandled)"

subsection \<open>Configuration\<close>

text \<open>\<open>str.split()\<close>\<close>

function split_blank :: "string \<Rightarrow> string list" where
  "split_blank [] = []"
| "split_blank (c # cs) =
     (if is_space c then split_blank cs
      else (c # takeWhile (\<lambda>c. \<not> is_space c) cs) # split_blank (dropWhile (\<lambda>c. \<not> is_space c) cs))"
  by pat_completeness auto
termination
  by (relation "measure length") (auto simp: le_imp_less_Suc length_dropWhile_le)

definition getenv :: "(string \<Rightarrow> string option) \<Rightarrow> string \<Rightarrow> string \<Rightarrow> string" where
  "getenv os name d = (case os name of None \<Rightarrow> d | Some v \<Rightarrow> v)"

definition config_from_env :: "(string \<Rightarrow> string option) \<Rightarrow> bool \<Rightarrow> oidc_error + oidc_config option" where
  "config_from_env os has_jwt =
     (let issuer = strip (getenv os ''IACTRANSLATE_OIDC_ISSUER'' []) in
      if issuer = [] then Inr None
      else if list_ex (\<lambda>n. strip (getenv os n []) = [])
                [''IACTRANSLATE_OIDC_CLIENT_ID'', ''IACTRANSLATE_OIDC_CLIENT_SECRET'', ''IACTRANSLATE_OIDC_REDIRECT_URI'']
      then Inl Refused
      else if \<not> has_jwt then Inl Refused
      else Inr (Some
        \<lparr>oc_issuer = issuer, oc_client_id = getenv os ''IACTRANSLATE_OIDC_CLIENT_ID'' [],
         oc_client_secret = getenv os ''IACTRANSLATE_OIDC_CLIENT_SECRET'' [],
         oc_redirect_uri = getenv os ''IACTRANSLATE_OIDC_REDIRECT_URI'' [],
         oc_scopes = split_blank (getenv os ''IACTRANSLATE_OIDC_SCOPES'' ''openid email profile''),
         oc_trust_unverified_email = (strip (getenv os ''IACTRANSLATE_OIDC_TRUST_UNVERIFIED_EMAIL'' ''0'') = ''1'')\<rparr>))"

definition sso_enabled :: "(string \<Rightarrow> string option) \<Rightarrow> bool" where
  "sso_enabled os \<longleftrightarrow> strip (getenv os ''IACTRANSLATE_OIDC_ISSUER'' []) \<noteq> []"

subsection \<open>The endpoints\<close>

text \<open>\<open>sso_logins\<close> and the metadata cache of \<open>sso_config\<close>.\<close>

record sso =
  ss_logins :: login_store
  ss_metadata :: document

definition sso_login ::
  "oidc_env \<Rightarrow> oidc_config option \<Rightarrow> rat \<Rightarrow> bool \<Rightarrow> string \<Rightarrow> string \<Rightarrow> nat list \<Rightarrow> accts \<Rightarrow> sso \<Rightarrow> (http_error + string) \<times> sso" where
  "sso_login env cfg now blocked state nonce bytes accts s =
     (if blocked then (Inl (Http 429), s)
      else case cfg of
             None \<Rightarrow> (Inl (Http 404), s)
           | Some cfg \<Rightarrow>
               if accts = None then (Inl (Http 404), s)
               else let (p, logins) = begin_login env STATE_TTL_SECONDS now state nonce bytes None (ss_logins s);
                        (r, md) = authorization_url env cfg p (ss_metadata s);
                        s = \<lparr>ss_logins = logins, ss_metadata = md\<rparr>
                    in case r of Inl Refused \<Rightarrow> (Inl (Http 502), s)
                               | Inl Unhandled \<Rightarrow> (Inl (Http 500), s)
                               | Inr url \<Rightarrow> (Inr url, s))"

text \<open>The part of the callback inside the \<open>try\<close>.\<close>

definition sso_identity ::
  "oidc_env \<Rightarrow> oidc_config \<Rightarrow> rat \<Rightarrow> string \<Rightarrow> string \<Rightarrow> sso \<Rightarrow> (oidc_error + string \<times> string) \<times> sso" where
  "sso_identity env cfg now auth_code state s =
     (case consume_login STATE_TTL_SECONDS now state (ss_logins s) of
        (Inl e, logins) \<Rightarrow> (Inl e, s\<lparr>ss_logins := logins\<rparr>)
      | (Inr p, logins) \<Rightarrow>
          (case exchange_code env cfg auth_code (pl_verifier p) (ss_metadata s) of
             (Inl e, md) \<Rightarrow> (Inl e, \<lparr>ss_logins = logins, ss_metadata = md\<rparr>)
           | (Inr tokens, md) \<Rightarrow>
               (if \<not> truthy (get tokens ''id_token'') then (Inl Refused, \<lparr>ss_logins = logins, ss_metadata = md\<rparr>)
                else case verify_id_token env cfg (get tokens ''id_token'') (pl_nonce p) md of
                       (Inl e, md) \<Rightarrow> (Inl e, \<lparr>ss_logins = logins, ss_metadata = md\<rparr>)
                     | (Inr claims, md) \<Rightarrow> (identity_from_claims env cfg claims, \<lparr>ss_logins = logins, ss_metadata = md\<rparr>))))"

definition sso_callback ::
  "auth_env \<Rightarrow> oidc_env \<Rightarrow> oidc_config option \<Rightarrow> rat \<Rightarrow> bool \<Rightarrow> string \<Rightarrow> nat list \<Rightarrow> string \<Rightarrow> string
    \<Rightarrow> string \<Rightarrow> string \<Rightarrow> string \<Rightarrow> accts \<Rightarrow> sso \<Rightarrow> (http_error + user \<times> string) \<times> accts \<times> sso" where
  "sso_callback aenv env cfg now blocked uid salt pw token auth_code state err accts s =
     (if blocked then (Inl (Http 429), accts, s)
      else case cfg of
             None \<Rightarrow> (Inl (Http 404), accts, s)
           | Some cfg \<Rightarrow>
               (case accts of
                  None \<Rightarrow> (Inl (Http 404), None, s)
                | Some db \<Rightarrow>
                    if err \<noteq> [] then (Inl (Http 400), Some db, s)
                    else if auth_code = [] \<or> state = [] then (Inl (Http 400), Some db, s)
                    else case sso_identity env cfg now auth_code state s of
                           (Inl Refused, s) \<Rightarrow> (Inl (Http 401), Some db, s)
                         | (Inl Unhandled, s) \<Rightarrow> (Inl (Http 500), Some db, s)
                         | (Inr (subject, email), s) \<Rightarrow>
                             (case get_user_by_email email db of
                                Some u \<Rightarrow> (let (r, a) = sign_in aenv now token u db in (r, a, s))
                              | None \<Rightarrow>
                                  (case create_user aenv now uid salt email pw db of
                                     (Inl e, db) \<Rightarrow> (Inl (Http 500), Some db, s)
                                   | (Inr u, db) \<Rightarrow> (let (r, a) = sign_in aenv now token u db in (r, a, s))))))"


subsection \<open>Facts: attempts\<close>

lemma evict_logins_facts:
  "dict_ok st \<Longrightarrow> dict_ok (evict_logins ttl now st)" "x \<in> set (evict_logins ttl now st) \<Longrightarrow> x \<in> set st"
  "length st \<le> MAX_PENDING \<Longrightarrow> length (evict_logins ttl now st) < MAX_PENDING"
proof -
  let ?f = "filter (\<lambda>(s, p). \<not> ttl < now - pl_created_at p) st"
  show "dict_ok st \<Longrightarrow> dict_ok (evict_logins ttl now st)"
    by (simp add: evict_logins_def Let_def distinct_map_filter)
  show "x \<in> set (evict_logins ttl now st) \<Longrightarrow> x \<in> set st"
    by (auto simp: evict_logins_def Let_def split: if_splits dest!: drop_quarter_mem)
  assume "length st \<le> MAX_PENDING"
  then have le: "length ?f \<le> MAX_PENDING" using length_filter_le by (rule le_trans [rotated])
  show "length (evict_logins ttl now st) < MAX_PENDING"
  proof (cases "MAX_PENDING \<le> length ?f")
    case True
    then have "4 \<le> length ?f" by (simp add: MAX_PENDING_def)
    from drop_quarter_less [OF this] show ?thesis using True le by (simp add: evict_logins_def Let_def order_less_le_trans)
  qed (simp add: evict_logins_def Let_def)
qed

definition logins_ok :: "login_store \<Rightarrow> bool" where
  "logins_ok st \<longleftrightarrow> dict_ok st \<and> length st \<le> MAX_PENDING \<and> list_all (\<lambda>(s, p). pl_state p = s) st"

datatype login_op = BeginLogin rat string string "nat list" | ConsumeLogin rat string

fun login_step :: "oidc_env \<Rightarrow> login_store \<Rightarrow> login_op \<Rightarrow> login_store" where
  "login_step env st (BeginLogin now state nonce bytes) = snd (begin_login env STATE_TTL_SECONDS now state nonce bytes None st)"
| "login_step env st (ConsumeLogin now state) = snd (consume_login STATE_TTL_SECONDS now state st)"

definition login_run :: "oidc_env \<Rightarrow> login_op list \<Rightarrow> login_store \<Rightarrow> login_store" where
  "login_run env ops st = foldl (login_step env) st ops"

lemma logins_ok_step:
  assumes "logins_ok st"
  shows "logins_ok (login_step env st x)"
proof (cases x)
  case (BeginLogin now state nonce bytes)
  let ?e = "evict_logins STATE_TTL_SECONDS now st"
  let ?p = "\<lparr>pl_state = state, pl_nonce = nonce, pl_verifier = fst (pkce_pair env bytes), pl_created_at = now, pl_redirect_to = None\<rparr>"
  have e: "dict_ok ?e" "length ?e < MAX_PENDING" "list_all (\<lambda>(s, p). pl_state p = s) ?e"
    using assms evict_logins_facts(1,3) [of st STATE_TTL_SECONDS now] evict_logins_facts(2) [of _ STATE_TTL_SECONDS now st]
    by (auto simp: logins_ok_def list_all_iff)
  have "length (AList.update state ?p ?e) \<le> MAX_PENDING"
    using e(2) by (simp add: length_dict_update)
  moreover have "list_all (\<lambda>(s, p). pl_state p = s) (AList.update state ?p ?e)"
    using e(3) unfolding list_all_iff by (auto dest!: AList_update_mem)
  ultimately show ?thesis using BeginLogin e(1) by (simp add: begin_login_def Let_def logins_ok_def)
next
  case (ConsumeLogin now state)
  have "length (AList.delete state st) \<le> length st" by (simp add: AList.delete_eq)
  moreover have "set (AList.delete state st) \<subseteq> set st" by (auto simp: AList.delete_eq)
  ultimately have "logins_ok (AList.delete state st)"
    using assms by (auto simp: logins_ok_def list_all_iff)
  then show ?thesis using assms ConsumeLogin by (simp add: consume_login_def split: option.split)
qed

lemma logins_ok_run: "logins_ok st \<Longrightarrow> logins_ok (login_run env ops st)"
  unfolding login_run_def by (rule foldl_invariant [where P = logins_ok, OF _ logins_ok_step])

text \<open>A state that is not in the table comes back only by a new attempt that draws it.\<close>

definition draws :: "string \<Rightarrow> login_op \<Rightarrow> bool" where
  "draws state x \<longleftrightarrow> (case x of BeginLogin now s nonce bytes \<Rightarrow> s = state | _ \<Rightarrow> False)"

lemma step_no_state:
  assumes "state \<notin> set (keys st)" and "\<not> draws state x"
  shows "state \<notin> set (keys (login_step env st x))"
proof (cases x)
  case (BeginLogin now s nonce bytes)
  have "set (keys (evict_logins STATE_TTL_SECONDS now st)) \<subseteq> set (keys st)"
    using evict_logins_facts(2) [of _ STATE_TTL_SECONDS now st] by auto
  then show ?thesis using assms BeginLogin
    by (simp add: draws_def begin_login_def Let_def keys_dict_update del: set_map) blast
next
  case (ConsumeLogin now s)
  then show ?thesis using assms by (simp add: consume_login_def keys_dict_delete del: set_map split: option.split)
qed

lemma run_no_state:
  "state \<notin> set (keys st) \<Longrightarrow> list_all (\<lambda>x. \<not> draws state x) ops \<Longrightarrow> state \<notin> set (keys (login_run env ops st))"
  unfolding login_run_def by (induction ops arbitrary: st) (simp_all add: step_no_state del: set_map)

lemma consumed_state: "state \<notin> set (keys (snd (consume_login ttl now state st)))"
  by (simp add: consume_login_def keys_dict_delete map_of_None_keys [symmetric] del: set_map map_of_eq_None_iff split: option.split)

lemma consume_fresh: "state \<notin> set (keys st) \<Longrightarrow> fst (consume_login ttl now state st) = Inl Refused"
  by (simp add: consume_login_def map_of_None_keys [symmetric] del: set_map map_of_eq_None_iff)

subsection \<open>Facts: PKCE\<close>

lemma b64url_length: "length (b64url bs) = (4 * length bs + 2) div 3"
  by (induction bs rule: b64url.induct) simp_all

lemma b64_char_safe: "n < 64 \<Longrightarrow> is_ascii_alnum (b64_char n) \<or> b64_char n = CHR ''-'' \<or> b64_char n = CHR ''_''"
proof -
  assume n: "n < 64"
  consider "n < 26" | "26 \<le> n" "n < 52" | "52 \<le> n" "n < 62" | "n = 62" | "n = 63" using n by linarith
  then show ?thesis
  proof cases
    case 1
    then have "code (b64_char n) = 65 + n" by (simp add: b64_char_def of_char_of)
    then show ?thesis using 1 by (simp add: char_class_defs)
  next
    case 2
    then have "code (b64_char n) = 71 + n" by (simp add: b64_char_def of_char_of)
    then show ?thesis using 2 by (simp add: char_class_defs)
  next
    case 3
    then have "code (b64_char n) = n - 4" by (simp add: b64_char_def of_char_of)
    moreover have "48 \<le> n - 4 \<and> n - 4 \<le> 57" using 3 by arith
    ultimately show ?thesis by (simp add: char_class_defs)
  next
    case 4
    have "b64_char 62 = CHR ''-''" by code_simp
    then show ?thesis using 4 by simp
  next
    case 5
    have "b64_char 63 = CHR ''_''" by code_simp
    then show ?thesis using 5 by simp
  qed
qed

lemma b64url_safe:
  "list_all (\<lambda>b. b < 256) bs \<Longrightarrow> list_all (\<lambda>c. is_ascii_alnum c \<or> c = CHR ''-'' \<or> c = CHR ''_'') (b64url bs)"
  by (induction bs rule: b64url.induct) (auto intro!: b64_char_safe)

lemma quote_plus_safe:
  "list_all (\<lambda>c. is_ascii_alnum c \<or> c = CHR ''-'' \<or> c = CHR ''_'') s \<Longrightarrow> quote_plus s = s"
  by (induction s) (auto simp: quote_plus_def)


subsection \<open>Facts: who gets a session\<close>

lemma metadata_cached: "md \<noteq> [] \<Longrightarrow> metadata env cfg md = (Inr md, md)"
  by (simp add: metadata_def)

lemma consume_okD:
  assumes "consume_login ttl now state st = (Inr p, st')"
  shows "map_of st state = Some p \<and> now - pl_created_at p \<le> ttl"
  using assms by (auto simp: consume_login_def split: option.splits if_splits)

lemma verify_okD:
  assumes "verify_id_token env cfg tok nonce cache = (Inr claims, cache')"
  shows "\<exists>key. oe_decode env tok key ALLOWED_ALGORITHMS (oc_client_id cfg) (oc_issuer cfg) LEEWAY_SECONDS = Some claims
    \<and> py_text env (get claims ''nonce'') = nonce"
  using assms by (auto simp: verify_id_token_def Let_def split: sum.splits prod.splits option.splits if_splits)

lemma identity_okD:
  assumes "identity_from_claims env cfg claims = Inr (subject, email)"
  shows "(\<exists>raw. get claims ''email'' = JStr raw \<and> email = lower (strip raw)) \<and> email \<noteq> []
    \<and> (oc_trust_unverified_email cfg \<or> get claims ''email_verified'' = JBool True) \<and> subject \<noteq> []"
proof -
  have blank: "lower (strip []) = []" by (simp add: strip_by_def)
  have t: "truthy (get claims ''email'')"
    using assms blank by (cases "truthy (get claims ''email'')") (simp_all add: identity_from_claims_def)
  then obtain raw where r: "get claims ''email'' = JStr raw"
    using assms by (cases "get claims ''email''") (simp_all add: identity_from_claims_def)
  show ?thesis using assms t r by (auto simp: identity_from_claims_def Let_def split: if_splits)
qed

lemma sso_identity_okD:
  assumes "sso_identity env cfg now auth_code state s = (Inr (subject, email), s')"
  obtains p tok key claims where "map_of (ss_logins s) state = Some p" and "now - pl_created_at p \<le> STATE_TTL_SECONDS"
    and "oe_decode env tok key ALLOWED_ALGORITHMS (oc_client_id cfg) (oc_issuer cfg) LEEWAY_SECONDS = Some claims"
    and "py_text env (get claims ''nonce'') = pl_nonce p"
    and "identity_from_claims env cfg claims = Inr (subject, email)"
    and "ss_logins s' = snd (consume_login STATE_TTL_SECONDS now state (ss_logins s))"
proof -
  obtain c logins where c: "consume_login STATE_TTL_SECONDS now state (ss_logins s) = (c, logins)" by fastforce
  then obtain p where p: "c = Inr p" using assms by (cases c) (simp_all add: sso_identity_def)
  obtain x md where x: "exchange_code env cfg auth_code (pl_verifier p) (ss_metadata s) = (x, md)" by fastforce
  then obtain tokens where t: "x = Inr tokens" using assms c p by (cases x) (simp_all add: sso_identity_def)
  have tr: "truthy (get tokens ''id_token'')" using assms c p x t by (auto simp: sso_identity_def split: if_splits)
  obtain y md' where y: "verify_id_token env cfg (get tokens ''id_token'') (pl_nonce p) md = (y, md')" by fastforce
  then obtain claims where cl: "y = Inr claims" using assms c p x t tr by (cases y) (simp_all add: sso_identity_def)
  have i: "identity_from_claims env cfg claims = Inr (subject, email)" "s' = \<lparr>ss_logins = logins, ss_metadata = md'\<rparr>"
    using assms c p x t tr y cl by (simp_all add: sso_identity_def)
  from verify_okD [OF y [unfolded cl]] obtain key where
    "oe_decode env (get tokens ''id_token'') key ALLOWED_ALGORITHMS (oc_client_id cfg) (oc_issuer cfg) LEEWAY_SECONDS = Some claims"
    "py_text env (get claims ''nonce'') = pl_nonce p" by blast
  then show thesis using consume_okD [OF c [unfolded p]] i c that by simp
qed

lemma sso_identity_logins:
  "ss_logins (snd (sso_identity env cfg now auth_code state s)) = snd (consume_login STATE_TTL_SECONDS now state (ss_logins s))"
  by (simp add: sso_identity_def split: prod.split sum.split)

lemma sign_in_okD: "sign_in env now token u db = (Inr (v, t), a) \<Longrightarrow> v = u \<and> t = token"
  by (auto simp: sign_in_def create_session_def Let_def split: prod.splits option.splits if_splits)

lemma by_email: "get_user_by_email email db = Some u \<Longrightarrow> us_email u = lower (strip email)"
  by (auto simp: get_user_by_email_def find_email_def user_of_def validate_email_def Let_def
      dest!: find_Some_iff [THEN iffD1] split: sum.splits if_splits)

lemma created_email: "create_user env now uid salt email pw db = (Inr u, db') \<Longrightarrow> us_email u = lower (strip email)"
  by (auto simp: create_user_def user_of_def validate_email_def Let_def split: sum.splits if_splits)

lemma sso_callback_okD:
  assumes "sso_callback aenv env (Some cfg) now blocked uid salt pw token auth_code state err accts s = (Inr (u, cookie), accts', s')"
  shows "\<exists>subject email. sso_identity env cfg now auth_code state s = (Inr (subject, email), s')
     \<and> us_email u = lower (strip email) \<and> cookie = token \<and> state \<noteq> []"
proof -
  have nb: "\<not> blocked" and "err = []" and ne: "auth_code \<noteq> []" "state \<noteq> []" and ac: "accts \<noteq> None"
    using assms by (auto simp: sso_callback_def split: if_splits option.splits)
  obtain db where db: "accts = Some db" using ac by auto
  obtain r s1 where r: "sso_identity env cfg now auth_code state s = (r, s1)" by fastforce
  then obtain subject email where se: "r = Inr (subject, email)"
    using assms nb \<open>err = []\<close> ne db by (cases r) (auto simp: sso_callback_def split: oidc_error.splits)
  show ?thesis
  proof (cases "get_user_by_email email db")
    case (Some v)
    obtain q a where q: "sign_in aenv now token v db = (q, a)" by fastforce
    then have "q = Inr (u, cookie)" "s' = s1" using assms nb \<open>err = []\<close> ne db r se Some by (simp_all add: sso_callback_def)
    then show ?thesis using r se by_email [OF Some] sign_in_okD q ne by blast
  next
    case None
    obtain q db1 where q: "create_user aenv now uid salt email pw db = (q, db1)" by fastforce
    then obtain v where v: "q = Inr v" using assms nb \<open>err = []\<close> ne db r se None by (cases q) (simp_all add: sso_callback_def)
    obtain q' a where q': "sign_in aenv now token v db1 = (q', a)" by fastforce
    then have "q' = Inr (u, cookie)" "s' = s1"
      using assms nb \<open>err = []\<close> ne db r se None q v by (simp_all add: sso_callback_def)
    then show ?thesis using r se created_email [OF q [unfolded v]] sign_in_okD q' ne by blast
  qed
qed

text \<open>A callback with a state that is not in the table is refused, whatever the provider says.\<close>

lemma sso_callback_unknown_state:
  assumes "state \<notin> set (keys (ss_logins s))"
  shows "\<nexists>u cookie. fst (sso_callback aenv env cfg now blocked uid salt pw token auth_code state err accts s) = Inr (u, cookie)"
proof
  assume "\<exists>u cookie. fst (sso_callback aenv env cfg now blocked uid salt pw token auth_code state err accts s) = Inr (u, cookie)"
  then obtain u cookie a s' where c: "sso_callback aenv env cfg now blocked uid salt pw token auth_code state err accts s = (Inr (u, cookie), a, s')"
    by (metis prod.collapse)
  then obtain cf where "cfg = Some cf" by (cases cfg) (auto simp: sso_callback_def split: if_splits)
  with sso_callback_okD c obtain subject email where "sso_identity env cf now auth_code state s = (Inr (subject, email), s')" by metis
  then obtain p where "map_of (ss_logins s) state = Some p" by (rule sso_identity_okD)
  then show False using assms map_of_Some_keys by metis
qed

lemma lower_strip_idem: "lower (strip (lower (strip s))) = lower (strip s)"
proof -
  have sp: "is_space (lower_char c) = is_space c" for c
    by (auto simp: is_space_def lower_char_def is_ascii_upper_def of_char_of)
  have d: "dropWhile is_space (lower t) = lower (dropWhile is_space t)" for t
    by (induction t) (simp_all add: sp)
  have "strip (lower t) = lower (strip t)" for t
    unfolding strip_by_def by (simp only: rev_map d)
  then have "lower (strip (lower (strip s))) = lower (lower (strip (strip s)))" by metis
  then show ?thesis by simp
qed

subsection \<open>Facts: the issuer of the metadata\<close>

text \<open>The document is cached before its issuer is compared, so the comparison happens once.\<close>

lemma mismatch_then_accepted:
  assumes "oe_get env (rstrip_slash (oc_issuer cfg) @ ''/.well-known/openid-configuration'') = Some doc"
    and "starts_with ''https://'' (lower (rstrip_slash (oc_issuer cfg) @ ''/.well-known/openid-configuration''))"
    and "get doc ''issuer'' = JStr d" and "d \<noteq> []" and "rstrip_slash d \<noteq> rstrip_slash (oc_issuer cfg)"
  shows "metadata env cfg [] = (Inl Refused, doc) \<and> metadata env cfg doc = (Inr doc, doc)"
proof -
  have "doc \<noteq> []" using assms(3) by (auto simp: get_def)
  then show ?thesis using assms by (simp add: metadata_def get_json_def truthy_def Let_def)
qed

lemma sso_login_mismatch:
  assumes "oe_get env (rstrip_slash (oc_issuer cfg) @ ''/.well-known/openid-configuration'') = Some doc"
    and "starts_with ''https://'' (lower (rstrip_slash (oc_issuer cfg) @ ''/.well-known/openid-configuration''))"
    and "get doc ''issuer'' = JStr d" and "d \<noteq> []" and "rstrip_slash d \<noteq> rstrip_slash (oc_issuer cfg)"
    and "get doc ''authorization_endpoint'' = JStr e" and "e \<noteq> []" and "accts \<noteq> None"
  shows "\<exists>s1 url s2. sso_login env (Some cfg) now False st1 n1 b1 accts \<lparr>ss_logins = logins, ss_metadata = []\<rparr> = (Inl (Http 502), s1)
    \<and> sso_login env (Some cfg) later False st2 n2 b2 accts s1 = (Inr (e @ ''?'' @ url), s2)"
proof -
  note m = mismatch_then_accepted [OF assms(1-5)]
  have n: "authorization_url env cfg p [] = (Inl Refused, doc)" for p using m by (simp add: authorization_url_def)
  have "\<exists>url. authorization_url env cfg p doc = (Inr (e @ ''?'' @ url), doc)" for p
    using m assms(6,7) by (simp add: authorization_url_def truthy_def py_text_def Let_def)
  moreover obtain p1 l1 where b1: "begin_login env STATE_TTL_SECONDS now st1 n1 b1 None logins = (p1, l1)" by fastforce
  moreover obtain p2 l2 where b2: "begin_login env STATE_TTL_SECONDS later st2 n2 b2 None l1 = (p2, l2)" by fastforce
  ultimately obtain url where u: "authorization_url env cfg p2 doc = (Inr (e @ ''?'' @ url), doc)" by blast
  have "sso_login env (Some cfg) now False st1 n1 b1 accts \<lparr>ss_logins = logins, ss_metadata = []\<rparr>
      = (Inl (Http 502), \<lparr>ss_logins = l1, ss_metadata = doc\<rparr>)"
    using assms(8) b1 n [of p1] by (simp add: sso_login_def)
  moreover have "sso_login env (Some cfg) later False st2 n2 b2 accts \<lparr>ss_logins = l1, ss_metadata = doc\<rparr>
      = (Inr (e @ ''?'' @ url), \<lparr>ss_logins = l2, ss_metadata = doc\<rparr>)"
    using assms(8) b2 u by (simp add: sso_login_def)
  ultimately show ?thesis by blast
qed

end
