(* ===== verification/AuditTrail.thy ===== *)
theory AuditTrail
  imports JobBoard
begin

text \<open>
  The audit trail: \<open>api/audit.py\<close> (a bounded ring in memory, and a table trimmed to the same capacity) and
  \<open>GET /audit\<close> of \<open>api/main.py\<close>. The limit of a request is a Python integer of either sign; the table is
  SQLite's, where a negative \<open>LIMIT\<close> is none.
\<close>

subsection \<open>Events\<close>

definition event_value :: "event_type \<Rightarrow> string" where
  "event_value t = (case t of
       PROJECT_CREATED \<Rightarrow> ''project.created'' | PROJECT_UPLOADED \<Rightarrow> ''project.uploaded'' | PROJECT_DELETED \<Rightarrow> ''project.deleted''
     | ACCOUNT_DELETED \<Rightarrow> ''account.deleted'' | JOB_QUEUED \<Rightarrow> ''job.queued'' | JOB_STARTED \<Rightarrow> ''job.started''
     | JOB_COMPLETED \<Rightarrow> ''job.completed'' | JOB_FAILED \<Rightarrow> ''job.failed'')"

record audit_event =
  ae_timestamp :: rat
  ae_action :: string
  ae_project_id :: "string option"
  ae_job_id :: "string option"
  ae_detail :: "(string, string) dict"

definition audit_event_of :: "event \<Rightarrow> audit_event" where
  "audit_event_of e = \<lparr>ae_timestamp = ev_timestamp e, ae_action = event_value (ev_type e), ae_project_id = ev_project_id e,
     ae_job_id = ev_job_id e, ae_detail = ev_detail e\<rparr>"

text \<open>\<open>EventBus.publish\<close>: the subscribers in order, one that raises (\<open>None\<close>) changes nothing.\<close>

definition publish_to :: "(event \<Rightarrow> 's \<Rightarrow> 's option) list \<Rightarrow> event \<Rightarrow> 's \<Rightarrow> 's" where
  "publish_to subs e s = foldl (\<lambda>s f. case f e s of None \<Rightarrow> s | Some s' \<Rightarrow> s') s subs"

subsection \<open>In memory\<close>

record ring =
  rg_events :: "audit_event list"
  rg_capacity :: nat

definition new_ring :: "nat \<Rightarrow> ring" where
  "new_ring capacity = \<lparr>rg_events = [], rg_capacity = capacity\<rparr>"

definition ring_on_event :: "event \<Rightarrow> ring \<Rightarrow> ring" where
  "ring_on_event e r =
     (let es = rg_events r @ [audit_event_of e] in r\<lparr>rg_events := drop (length es - rg_capacity r) es\<rparr>)"

text \<open>\<open>events[-limit:]\<close>\<close>

definition py_last :: "int \<Rightarrow> 'a list \<Rightarrow> 'a list" where
  "py_last limit xs = (if 0 < limit then drop (length xs - nat limit) xs else drop (nat (- limit)) xs)"

definition of_project :: "string option \<Rightarrow> audit_event list \<Rightarrow> audit_event list" where
  "of_project pid es = (case pid of None \<Rightarrow> es | Some p \<Rightarrow> filter (\<lambda>e. ae_project_id e = Some p) es)"

definition ring_recent :: "string option \<Rightarrow> int \<Rightarrow> ring \<Rightarrow> audit_event list" where
  "ring_recent pid limit r = rev (py_last limit (of_project pid (rg_events r)))"

subsection \<open>In the database\<close>

text \<open>The table by its serial primary key, and the next key.\<close>

record audit_table =
  at_rows :: "(nat \<times> audit_event) list"
  at_next :: nat
  at_capacity :: nat

definition new_table :: "nat \<Rightarrow> audit_table" where
  "new_table capacity = \<lparr>at_rows = [], at_next = 1, at_capacity = capacity\<rparr>"

definition trim :: "audit_table \<Rightarrow> audit_table" where
  "trim t =
     (let overflow = int (length (at_rows t)) - int (at_capacity t)
      in if overflow \<le> 0 then t
         else let oldest = map fst (take (nat overflow) (sort_key fst (at_rows t)))
              in t\<lparr>at_rows := filter (\<lambda>(i, e). i \<notin> set oldest) (at_rows t)\<rparr>)"

definition table_on_event :: "event \<Rightarrow> audit_table \<Rightarrow> audit_table" where
  "table_on_event e t =
     trim (t\<lparr>at_rows := at_rows t @ [(at_next t, audit_event_of e)], at_next := at_next t + 1\<rparr>)"

definition sql_limit :: "int \<Rightarrow> 'a list \<Rightarrow> 'a list" where
  "sql_limit limit rows = (if limit < 0 then rows else take (nat limit) rows)"

definition table_recent :: "string option \<Rightarrow> int \<Rightarrow> audit_table \<Rightarrow> audit_event list" where
  "table_recent pid limit t =
     sql_limit limit (of_project pid (map snd (rev (sort_key fst (at_rows t)))))"

definition sql_backend :: "string option \<Rightarrow> bool" where
  "sql_backend raw \<longleftrightarrow>
     lower (strip (case raw of None \<Rightarrow> ''memory'' | Some s \<Rightarrow> if s = [] then ''memory'' else s)) \<in> {''sqlite'', ''postgres''}"

subsection \<open>The endpoint\<close>

text \<open>\<open>recent\<close> is the trail in force, as a function of project and limit.\<close>

definition get_audit ::
  "'s store_api \<Rightarrow> 'm member_api \<Rightarrow> (string option \<Rightarrow> int \<Rightarrow> audit_event list) \<Rightarrow> string option \<Rightarrow> int \<Rightarrow> string option
    \<Rightarrow> 's \<Rightarrow> 'm \<Rightarrow> http_error + audit_event list" where
  "get_audit so mo recent pid limit user s m =
     (case pid of
        Some p \<Rightarrow>
          (case require_project so mo p user VIEWER s m of
             Inl e \<Rightarrow> Inl e
           | Inr _ \<Rightarrow> Inr (recent (Some p) (min limit 1000)))
      | None \<Rightarrow>
          (let events = recent None (min limit 1000) in
           case user of
             None \<Rightarrow> Inr events
           | Some u \<Rightarrow>
               (let owned = map pj_id (so_list_for_owner so (Some u) s)
                in Inr (filter (\<lambda>e. case ae_project_id e of None \<Rightarrow> False | Some p \<Rightarrow> p \<in> set owned) events))))"

subsection \<open>The contract of a trail\<close>

definition last_n :: "nat \<Rightarrow> 'a list \<Rightarrow> 'a list" where
  "last_n n xs = drop (length xs - n) xs"

lemma last_n_snoc: "last_n n (last_n n xs @ [x]) = last_n n (xs @ [x])"
proof (cases "length xs \<le> n")
  case False
  then have "Suc (length xs) - n = Suc (length xs - n)" by simp
  then show ?thesis using False by (simp add: last_n_def)
qed (simp add: last_n_def)

lemma map_last_n: "map f (last_n n xs) = last_n n (map f xs)"
  by (simp add: last_n_def drop_map)

lemma set_last_n: "x \<in> set (last_n n xs) \<Longrightarrow> x \<in> set xs"
  by (auto simp: last_n_def dest: in_set_dropD)

locale audit_trail =
  fixes ok :: "nat \<Rightarrow> 'a \<Rightarrow> bool"
    and trail :: "'a \<Rightarrow> audit_event list"
    and on_event :: "event \<Rightarrow> 'a \<Rightarrow> 'a"
    and recent :: "string option \<Rightarrow> int \<Rightarrow> 'a \<Rightarrow> audit_event list"
  assumes on_event_ok: "ok n a \<Longrightarrow> ok n (on_event e a)"
    and on_event_trail: "ok n a \<Longrightarrow> trail (on_event e a) = last_n n (trail a @ [audit_event_of e])"
    and recent_trail: "ok n a \<Longrightarrow> 0 < limit \<Longrightarrow> recent pid limit a = take (nat limit) (of_project pid (rev (trail a)))"
    and recent_sub: "ok n a \<Longrightarrow> set (recent pid limit a) \<subseteq> set (of_project pid (trail a))"

context audit_trail
begin

lemma run_trail:
  assumes "ok n a" and "trail a = []"
  shows "ok n (foldl (\<lambda>a e. on_event e a) a es) \<and> trail (foldl (\<lambda>a e. on_event e a) a es) = last_n n (map audit_event_of es)"
proof (induction es rule: rev_induct)
  case Nil
  then show ?case using assms by (simp add: last_n_def)
next
  case (snoc e es)
  let ?a = "foldl (\<lambda>a e. on_event e a) a es"
  have "ok n ?a" and "trail ?a = last_n n (map audit_event_of es)" using snoc by auto
  then show ?case using on_event_ok [of n ?a e] on_event_trail [of n ?a e] by (simp add: last_n_snoc)
qed

text \<open>What is read, over every sequence of events: the last ones of the project, newest first.\<close>

lemma recent_of_run:
  assumes "ok n a" and "trail a = []" and "0 < limit"
  shows "recent pid limit (foldl (\<lambda>a e. on_event e a) a es)
    = take (nat limit) (of_project pid (rev (last_n n (map audit_event_of es))))"
  using run_trail [OF assms(1,2), of es] recent_trail [of n _ limit pid] assms(3) by simp

text \<open>Nobody reads an event of a project that is not theirs to read, whatever the limit.\<close>

lemma get_audit_scoped:
  assumes "ok n a" and "get_audit so mo (\<lambda>pid limit. recent pid limit a) pid limit (Some u) s m = Inr es" and "e \<in> set es"
  shows "\<exists>p. ae_project_id e = Some p \<and> e \<in> set (trail a)
    \<and> ((\<exists>x. require_project so mo p (Some u) VIEWER s m = Inr x) \<or> p \<in> pj_id ` set (so_list_for_owner so (Some u) s))"
proof (cases pid)
  case (Some p)
  then have es: "es = recent (Some p) (min limit 1000) a" "\<exists>x. require_project so mo p (Some u) VIEWER s m = Inr x"
    using assms(2) by (auto simp: get_audit_def split: sum.splits)
  then show ?thesis using recent_sub [OF assms(1), of "Some p"] assms(3) by (fastforce simp: of_project_def)
next
  case None
  then have "e \<in> set (recent None (min limit 1000) a)" "\<exists>p. ae_project_id e = Some p \<and> p \<in> pj_id ` set (so_list_for_owner so (Some u) s)"
    using assms(2,3) by (auto simp: get_audit_def Let_def split: option.splits)
  then show ?thesis using recent_sub [OF assms(1), of None] by (fastforce simp: of_project_def)
qed

end

subsection \<open>Both trails keep it\<close>

lemma of_project_rev: "of_project pid (rev es) = rev (of_project pid es)"
  by (simp add: of_project_def rev_filter split: option.split)

lemma py_last_rev: "0 < limit \<Longrightarrow> rev (py_last limit xs) = take (nat limit) (rev xs)"
  by (simp add: py_last_def take_rev)

definition ring_ok :: "nat \<Rightarrow> ring \<Rightarrow> bool" where
  "ring_ok n r \<longleftrightarrow> rg_capacity r = n"

interpretation ring: audit_trail ring_ok rg_events ring_on_event ring_recent
proof
  show "\<And>n a e. ring_ok n a \<Longrightarrow> ring_ok n (ring_on_event e a)" by (simp add: ring_ok_def ring_on_event_def Let_def)
  show "\<And>n a e. ring_ok n a \<Longrightarrow> rg_events (ring_on_event e a) = last_n n (rg_events a @ [audit_event_of e])"
    by (simp add: ring_ok_def ring_on_event_def Let_def last_n_def)
  show "\<And>n a limit pid. ring_ok n a \<Longrightarrow> 0 < limit \<Longrightarrow> ring_recent pid limit a = take (nat limit) (of_project pid (rev (rg_events a)))"
    by (simp add: ring_recent_def py_last_rev of_project_rev)
  show "\<And>n a pid limit. ring_ok n a \<Longrightarrow> set (ring_recent pid limit a) \<subseteq> set (of_project pid (rg_events a))"
    by (auto simp: ring_recent_def py_last_def dest: in_set_dropD)
qed

definition audit_rows_ok :: "nat \<Rightarrow> audit_table \<Rightarrow> bool" where
  "audit_rows_ok n t \<longleftrightarrow> at_capacity t = n \<and> sorted_wrt (<) (map fst (at_rows t)) \<and> list_all (\<lambda>(i, e). i < at_next t) (at_rows t)"

lemma sort_rows: "sorted_wrt (<) (map fst rows) \<Longrightarrow> sort_key fst rows = (rows :: (nat \<times> 'a) list)"
  by (rule sort_key_id_if_sorted) (simp add: strict_sorted_imp_sorted)

text \<open>The rows with the smallest keys are the first of the table.\<close>

lemma filter_not_first:
  assumes "distinct (map fst (xs @ ys))"
  shows "filter (\<lambda>(i, e). i \<notin> set (map fst xs)) (xs @ ys) = ys"
proof -
  have "filter (\<lambda>(i, e). i \<notin> set (map fst xs)) xs = []" by (force simp: filter_empty_conv)
  moreover have "filter (\<lambda>(i, e). i \<notin> set (map fst xs)) ys = ys"
    using assms by (force simp: filter_id_conv)
  ultimately show ?thesis by simp
qed

lemma trim_rows:
  assumes "sorted_wrt (<) (map fst (at_rows t))"
  shows "trim t = t\<lparr>at_rows := last_n (at_capacity t) (at_rows t)\<rparr>"
proof (cases "length (at_rows t) \<le> at_capacity t")
  case False
  let ?k = "length (at_rows t) - at_capacity t" and ?rows = "at_rows t"
  have k: "nat (int (length ?rows) - int (at_capacity t)) = ?k" by simp
  have d: "distinct (map fst (take ?k ?rows @ drop ?k ?rows))" using assms by (simp add: strict_sorted_iff)
  have "filter (\<lambda>(i, e). i \<notin> set (map fst (take ?k ?rows))) ?rows = drop ?k ?rows"
    using filter_not_first [OF d] by simp
  then show ?thesis using False by (simp add: trim_def Let_def k sort_rows [OF assms] last_n_def)
qed (simp add: trim_def Let_def last_n_def)

lemma table_on_event_rows:
  assumes "audit_rows_ok n t"
  shows "at_rows (table_on_event e t) = last_n n (at_rows t @ [(at_next t, audit_event_of e)]) \<and> audit_rows_ok n (table_on_event e t)"
proof -
  let ?t = "t\<lparr>at_rows := at_rows t @ [(at_next t, audit_event_of e)], at_next := at_next t + 1\<rparr>"
  have s: "sorted_wrt (<) (map fst (at_rows ?t))" and l: "list_all (\<lambda>(i, e). i < at_next ?t) (at_rows ?t)" and c: "at_capacity ?t = n"
    using assms by (auto simp: audit_rows_ok_def sorted_wrt_append list_all_iff)
  note tr = trim_rows [OF s]
  have "sorted_wrt (<) (map fst (last_n n (at_rows ?t)))"
    using s unfolding map_last_n by (simp only: last_n_def sorted_wrt_drop)
  moreover have "list_all (\<lambda>(i, e). i < at_next ?t) (last_n n (at_rows ?t))"
    using l unfolding list_all_iff by (blast dest: set_last_n)
  ultimately show ?thesis using tr c by (simp add: table_on_event_def audit_rows_ok_def)
qed

interpretation table: audit_trail audit_rows_ok "\<lambda>t. map snd (at_rows t)" table_on_event table_recent
proof
  show "\<And>n a e. audit_rows_ok n a \<Longrightarrow> audit_rows_ok n (table_on_event e a)" using table_on_event_rows by blast
  show "\<And>n a e. audit_rows_ok n a \<Longrightarrow> map snd (at_rows (table_on_event e a)) = last_n n (map snd (at_rows a) @ [audit_event_of e])"
    using table_on_event_rows by (simp add: map_last_n)
  show "table_recent pid limit a = take (nat limit) (of_project pid (rev (map snd (at_rows a))))"
    if "audit_rows_ok n a" "0 < limit" for n a limit pid
    using that by (simp add: table_recent_def sql_limit_def audit_rows_ok_def sort_rows rev_map)
  show "set (table_recent pid limit a) \<subseteq> set (of_project pid (map snd (at_rows a)))" if "audit_rows_ok n a" for n a pid limit
    using that by (auto simp: table_recent_def sql_limit_def audit_rows_ok_def sort_rows rev_map [symmetric] of_project_rev dest: in_set_takeD)
qed

lemma new_trails [simp]: "ring_ok n (new_ring n)" "rg_events (new_ring n) = []" "audit_rows_ok n (new_table n)" "at_rows (new_table n) = []"
  by (simp_all add: ring_ok_def new_ring_def audit_rows_ok_def new_table_def)

text \<open>The two trails answer alike for every positive limit, and differ at zero.\<close>

lemma trails_agree:
  assumes "0 < limit"
  shows "ring_recent pid limit (foldl (\<lambda>a e. ring_on_event e a) (new_ring n) es)
    = table_recent pid limit (foldl (\<lambda>a e. table_on_event e a) (new_table n) es)"
  using ring.recent_of_run [of n "new_ring n" limit pid es] table.recent_of_run [of n "new_table n" limit pid es] assms by simp

lemma zero_limit: "ring_recent pid 0 r = rev (of_project pid (rg_events r))" "table_recent pid 0 t = []"
  by (simp_all add: ring_recent_def py_last_def table_recent_def sql_limit_def)

lemma negative_limit: "limit < 0 \<Longrightarrow> audit_rows_ok n t \<Longrightarrow> table_recent pid limit t = rev (of_project pid (map snd (at_rows t)))"
  by (simp add: table_recent_def sql_limit_def audit_rows_ok_def sort_rows rev_map [symmetric] of_project_rev)

end
