(* ===== verification/Hybrid.thy ===== *)
theory Hybrid
  imports Dependencies Ipv4
begin

text \<open>
  \<open>hybrid.py\<close>: the networks outside the migration that migrated workloads still call, and which of them
  collide with the planned range. Addresses are IPv4; the prose notes are left out.
\<close>

definition SUMMARY_PREFIX :: nat where "SUMMARY_PREFIX = 24"

record onprem_network =
  on_cidr :: string
  on_addresses :: "string list"
  on_ports :: "int list"
  on_connections :: int
  on_workloads :: "string list"
  on_overlaps_vpc :: bool

record hybrid_plan =
  hy_vpc_cidr :: string
  hy_networks :: "onprem_network list"

definition required :: "hybrid_plan \<Rightarrow> bool" where
  "required h \<longleftrightarrow> hy_networks h \<noteq> []"

definition conflicts :: "hybrid_plan \<Rightarrow> onprem_network list" where
  "conflicts h = filter on_overlaps_vpc (hy_networks h)"

definition routable :: "hybrid_plan \<Rightarrow> onprem_network list" where
  "routable h = filter (\<lambda>n. \<not> on_overlaps_vpc n) (hy_networks h)"

definition all_ports :: "hybrid_plan \<Rightarrow> int list" where
  "all_ports h = sorted_set (concat (map on_ports (routable h)))"

definition summarize :: "string \<Rightarrow> string option" where
  "summarize address = map_option str_of_net (ip_network False (address @ ''/'' @ str_of_nat SUMMARY_PREFIX))"

definition cidrs_overlap :: "string \<Rightarrow> string \<Rightarrow> bool" where
  "cidrs_overlap cidr vpc =
     (case (ip_network True cidr, ip_network True vpc) of (Some a, Some b) \<Rightarrow> overlaps a b | _ \<Rightarrow> False)"

text \<open>One entry of \<open>net_groups\<close>; the sets are lists.\<close>

record net_acc =
  na_addresses :: "string list"
  na_ports :: "int list"
  na_connections :: int
  na_workloads :: "string list"

definition no_acc :: net_acc where
  "no_acc = \<lparr>na_addresses = [], na_ports = [], na_connections = 0, na_workloads = []\<rparr>"

definition add_external :: "(string, net_acc) dict \<Rightarrow> external_dependency \<Rightarrow> (string, net_acc) dict" where
  "add_external d ex =
     (if \<not> ex_private ex then d
      else case summarize (ex_address ex) of
             None \<Rightarrow> d
           | Some cidr \<Rightarrow>
               (let a = (case map_of d cidr of None \<Rightarrow> no_acc | Some a \<Rightarrow> a)
                in AList.update cidr
                     \<lparr>na_addresses = List.insert (ex_address ex) (na_addresses a),
                      na_ports = fold List.insert (ex_ports ex) (na_ports a),
                      na_connections = na_connections a + ex_connections ex,
                      na_workloads = List.insert (ex_source ex) (na_workloads a)\<rparr> d))"

definition add_declared :: "(string, net_acc) dict \<Rightarrow> string \<Rightarrow> (string, net_acc) dict" where
  "add_declared d declared =
     (case ip_network True declared of
        None \<Rightarrow> d
      | Some n \<Rightarrow> if map_of d (str_of_net n) \<noteq> None then d else AList.update (str_of_net n) no_acc d)"

definition net_groups :: "dependency_report \<Rightarrow> string list option \<Rightarrow> (string, net_acc) dict" where
  "net_groups report declared =
     foldl add_declared (foldl add_external [] (dr_external report)) (case declared of None \<Rightarrow> [] | Some ds \<Rightarrow> ds)"

definition network_of :: "string \<Rightarrow> string \<times> net_acc \<Rightarrow> onprem_network" where
  "network_of vpc = (\<lambda>(cidr, a).
     \<lparr>on_cidr = cidr, on_addresses = sorted_set (na_addresses a), on_ports = sorted_set (na_ports a),
      on_connections = na_connections a, on_workloads = sorted_set (na_workloads a), on_overlaps_vpc = cidrs_overlap cidr vpc\<rparr>)"

definition plan_hybrid :: "dependency_report \<Rightarrow> string \<Rightarrow> string list option \<Rightarrow> hybrid_plan" where
  "plan_hybrid report vpc declared =
     \<lparr>hy_vpc_cidr = vpc,
      hy_networks = map (network_of vpc) (sort_key (\<lambda>(cidr, a). (- na_connections a, cidr)) (net_groups report declared))\<rparr>"

subsection \<open>Facts: the summary of an address\<close>

lemma split_keeps: "c \<in> set s \<Longrightarrow> c \<noteq> d \<Longrightarrow> \<exists>w \<in> set (split_on d s). c \<in> set w"
proof (induction d s rule: split_on.induct)
  case (2 d x s)
  obtain w ws where w: "split_on d s = w # ws" by (cases "split_on d s") simp_all
  show ?case using 2 w by (cases "x = d") auto
qed simp

lemma parse_addr_no_slash: "parse_addr s = Some x \<Longrightarrow> CHR ''/'' \<notin> set s"
proof
  assume p: "parse_addr s = Some x" and c: "CHR ''/'' \<in> set s"
  obtain w where w: "w \<in> set (split_on CHR ''.'' s)" "CHR ''/'' \<in> set w" using split_keeps [OF c, of "CHR ''.''"] by auto
  have "\<exists>a b c d. map parse_octet (split_on CHR ''.'' s) = [Some a, Some b, Some c, Some d]"
    using p by (auto simp: parse_addr_def split: list.splits option.splits)
  then have "None \<notin> set (map parse_octet (split_on CHR ''.'' s))" by auto
  then have "parse_octet w \<noteq> None" using w(1) by (metis image_eqI list.set_map)
  then have "all_digits w" by (auto simp: parse_octet_def split: if_splits)
  then show False using w(2) by (auto simp: all_digits_def list_all_iff is_digit_def)
qed

lemma summarize_contains:
  assumes "parse_addr address = Some x"
  shows "\<exists>n. summarize address = Some (str_of_net n) \<and> net_ok n \<and> in_net x n \<and> nw_plen n = 24"
proof -
  let ?n = "mk_net (x - x mod block 24) 24"
  have "split_on CHR ''/'' (address @ CHR ''/'' # str_of_nat SUMMARY_PREFIX) = [address, str_of_nat SUMMARY_PREFIX]"
    using split_on_append [OF parse_addr_no_slash [OF assms]] split_on_plain [OF no_sep_digits [of "CHR ''/''"]]
    by (simp add: is_digit_def)
  then have n: "ip_network False (address @ ''/'' @ str_of_nat SUMMARY_PREFIX) = Some ?n"
    using assms by (auto simp: ip_network_def make_net_def SUMMARY_PREFIX_def parse_mask_str)
  have b: "x mod block 24 \<le> x" "x mod block 24 < block 24" by simp_all
  have "in_net x ?n" unfolding in_net_def broadcast_def mk_net_def ipnet.simps using b by linarith
  moreover have "net_ok ?n" by (rule ip_network_ok [OF n])
  ultimately show ?thesis using n by (intro exI [of _ ?n]) (simp add: summarize_def mk_net_def)
qed

lemma cidrs_overlap_iff:
  assumes "net_ok n" and "ip_network True vpc = Some v"
  shows "cidrs_overlap (str_of_net n) vpc \<longleftrightarrow> net_range n \<inter> net_range v \<noteq> {}"
  using assms by (simp add: cidrs_overlap_def ip_network_str overlaps_iff)

subsection \<open>Facts: the groups\<close>

definition holds_external :: "(string, net_acc) dict \<Rightarrow> external_dependency \<Rightarrow> bool" where
  "holds_external d ex \<longleftrightarrow> (case summarize (ex_address ex) of None \<Rightarrow> True | Some c \<Rightarrow>
     (case map_of d c of None \<Rightarrow> False | Some a \<Rightarrow> ex_address ex \<in> set (na_addresses a)
        \<and> set (ex_ports ex) \<subseteq> set (na_ports a) \<and> ex_source ex \<in> set (na_workloads a)))"

lemma set_fold_insert: "set (fold List.insert xs ys) = set xs \<union> set ys"
  by (induction xs arbitrary: ys) auto

lemma holds_add: "ex_private ex \<Longrightarrow> holds_external (add_external d ex) ex"
  by (auto simp: holds_external_def add_external_def Let_def set_fold_insert split: option.split)

lemma holds_keep: "holds_external d ex \<Longrightarrow> holds_external (add_external d ex') ex"
  by (auto simp: holds_external_def add_external_def Let_def set_fold_insert split: option.splits)

lemma holds_declared: "holds_external d ex \<Longrightarrow> holds_external (add_declared d c) ex"
  by (auto simp: holds_external_def add_declared_def split: option.splits)

lemma holds_declared_all: "holds_external d ex \<Longrightarrow> holds_external (foldl add_declared d cs) ex"
  by (induction cs arbitrary: d) (simp_all add: holds_declared)

lemma holds_externals: "ex \<in> set exs \<Longrightarrow> ex_private ex \<Longrightarrow> holds_external (foldl add_external d exs) ex"
proof (induction exs arbitrary: d rule: rev_induct)
  case (snoc y exs)
  then show ?case by (auto simp: holds_add holds_keep)
qed simp

lemma grouped_holds: "ex \<in> set (dr_external report) \<Longrightarrow> ex_private ex \<Longrightarrow> holds_external (net_groups report declared) ex"
  unfolding net_groups_def by (intro holds_declared_all holds_externals)

text \<open>Every key is a network in normal form, once.\<close>

definition nets_ok :: "(string, net_acc) dict \<Rightarrow> bool" where
  "nets_ok d \<longleftrightarrow> dict_ok d \<and> (\<forall>c \<in> set (keys d). \<exists>n. net_ok n \<and> c = str_of_net n)"

lemma nets_ok_update: "nets_ok d \<Longrightarrow> net_ok n \<Longrightarrow> nets_ok (AList.update (str_of_net n) a d)"
  unfolding nets_ok_def keys_dict_update by auto

lemma nets_ok_external: "nets_ok d \<Longrightarrow> nets_ok (add_external d ex)"
  by (auto simp: add_external_def summarize_def Let_def intro!: nets_ok_update ip_network_ok split: option.split)

lemma nets_ok_declared: "nets_ok d \<Longrightarrow> nets_ok (add_declared d c)"
  by (auto simp: add_declared_def intro!: nets_ok_update ip_network_ok split: option.split)

lemma grouped_ok: "nets_ok (net_groups report declared)"
  unfolding net_groups_def
  by (intro foldl_invariant [where P = nets_ok, OF foldl_invariant [where P = nets_ok, OF _ nets_ok_external] nets_ok_declared])
    (simp add: nets_ok_def)

text \<open>No connection is lost or counted twice.\<close>

definition total_connections :: "(string, net_acc) dict \<Rightarrow> int" where
  "total_connections d = sum_list (map (na_connections \<circ> snd) d)"

lemma connections_update:
  "dict_ok d \<Longrightarrow> total_connections (AList.update k a d)
     = total_connections d - (case map_of d k of None \<Rightarrow> 0 | Some b \<Rightarrow> na_connections b) + na_connections a"
  by (induction d) (auto simp: total_connections_def split: option.splits)

lemma total_external:
  "dict_ok d \<Longrightarrow> total_connections (add_external d ex)
     = total_connections d + (if ex_private ex \<and> summarize (ex_address ex) \<noteq> None then ex_connections ex else 0)"
  by (auto simp: add_external_def connections_update no_acc_def Let_def split: option.split)

lemma total_declared: "dict_ok d \<Longrightarrow> total_connections (add_declared d c) = total_connections d"
  by (auto simp: add_declared_def connections_update no_acc_def split: option.split)

lemma total_grouped:
  "total_connections (net_groups report declared)
     = sum_list (map ex_connections (filter (\<lambda>ex. ex_private ex \<and> summarize (ex_address ex) \<noteq> None) (dr_external report)))"
proof -
  have e: "nets_ok (foldl add_external [] exs) \<and> total_connections (foldl add_external [] exs)
      = sum_list (map ex_connections (filter (\<lambda>ex. ex_private ex \<and> summarize (ex_address ex) \<noteq> None) exs))" for exs
  proof (induction exs rule: rev_induct)
    case (snoc y ys)
    then have "dict_ok (foldl add_external [] ys)" by (simp add: nets_ok_def)
    from total_external [OF this, of y] snoc show ?case by (auto simp: nets_ok_external)
  qed (simp add: nets_ok_def total_connections_def)
  have "nets_ok d \<Longrightarrow> nets_ok (foldl add_declared d cs) \<and> total_connections (foldl add_declared d cs) = total_connections d" for d cs
    by (induction cs rule: rev_induct) (simp_all add: nets_ok_declared total_declared nets_ok_def [THEN iffD1])
  then show ?thesis using e [of "dr_external report"] by (simp add: net_groups_def)
qed

subsection \<open>Facts: the plan\<close>

lemma plan_networks:
  "set (hy_networks (plan_hybrid report vpc declared)) = network_of vpc ` set (net_groups report declared)"
  by (simp add: plan_hybrid_def)

lemma private_address_network:
  assumes "ex \<in> set (dr_external report)" and "ex_private ex" and "parse_addr (ex_address ex) = Some x"
  obtains net n where "net \<in> set (hy_networks (plan_hybrid report vpc declared))" and "on_cidr net = str_of_net n"
    and "net_ok n" and "in_net x n" and "nw_plen n = 24" and "ex_address ex \<in> set (on_addresses net)"
    and "set (ex_ports ex) \<subseteq> set (on_ports net)" and "ex_source ex \<in> set (on_workloads net)"
    and "on_overlaps_vpc net = cidrs_overlap (str_of_net n) vpc"
proof -
  obtain n where n: "summarize (ex_address ex) = Some (str_of_net n)" "net_ok n" "in_net x n" "nw_plen n = 24"
    using summarize_contains [OF assms(3)] by blast
  obtain a where a: "map_of (net_groups report declared) (str_of_net n) = Some a" "ex_address ex \<in> set (na_addresses a)"
    "set (ex_ports ex) \<subseteq> set (na_ports a)" "ex_source ex \<in> set (na_workloads a)"
    using grouped_holds [OF assms(1,2), of declared] n(1) by (auto simp: holds_external_def split: option.splits)
  have "network_of vpc (str_of_net n, a) \<in> set (hy_networks (plan_hybrid report vpc declared))"
    unfolding plan_networks using map_of_SomeD [OF a(1)] by (rule imageI)
  then show thesis by (rule that) (use n a(2-4) in \<open>simp_all add: network_of_def\<close>)
qed

text \<open>Exactly the networks that share an address with the planned range are in conflict.\<close>

lemma conflict_iff:
  assumes "net \<in> set (hy_networks (plan_hybrid report vpc declared))" and "ip_network True vpc = Some v"
  shows "\<exists>n. net_ok n \<and> on_cidr net = str_of_net n
    \<and> (net \<in> set (conflicts (plan_hybrid report vpc declared)) \<longleftrightarrow> net_range n \<inter> net_range v \<noteq> {})"
proof -
  obtain c a where ca: "(c, a) \<in> set (net_groups report declared)" "net = network_of vpc (c, a)"
    using assms(1) unfolding plan_networks by auto
  then have "c \<in> set (keys (net_groups report declared))" by force
  then obtain n where n: "net_ok n" "c = str_of_net n" using grouped_ok [of report declared] by (auto simp: nets_ok_def)
  then show ?thesis using cidrs_overlap_iff [OF n(1) assms(2)] assms(1) ca(2)
    by (intro exI [of _ n]) (simp add: conflicts_def network_of_def)
qed

end
