(* ===== verification/Diff.thy ===== *)
theory Diff
  imports Models
begin

text \<open>
  \<open>diff.py\<close>: what changed between two inventories. The machines of the second one are told apart by their
  position, as the code does by object identity. \<open>format_g\<close> is \<open>f"{x:g}"\<close> on exact rationals down to
  \<open>10 ^ -400\<close>.
\<close>

subsection \<open>Formatting a number\<close>

definition strip_zeros :: "string \<Rightarrow> string" where
  "strip_zeros s = rev (dropWhile (\<lambda>c. c = CHR ''0'') (rev s))"

definition exponent_of :: "rat \<Rightarrow> int" where
  "exponent_of x =
     (if 1 \<le> x then int (length (str_of_nat (nat \<lfloor>x\<rfloor>))) - 1
      else case find (\<lambda>k. 1 \<le> x * 10 ^ k) [1..<401] of None \<Rightarrow> -401 | Some k \<Rightarrow> - int k)"

definition scale :: "int \<Rightarrow> rat" where
  "scale e = (if 0 \<le> e then 10 ^ nat e else 1 / 10 ^ nat (- e))"

definition point :: "string \<Rightarrow> string \<Rightarrow> string" where
  "point w f = (let f = strip_zeros f in if f = [] then w else w @ ''.'' @ f)"

definition format_pos :: "rat \<Rightarrow> string" where
  "format_pos x =
     (let e = exponent_of x; m = nat (round_even (x / scale (e - 5)));
          (e, m) = (if m = 1000000 then (e + 1, 100000) else (e, m)); ds = str_of_nat m
      in if e < -4 \<or> 6 \<le> e
         then point (take 1 ds) (drop 1 ds) @ ''e'' @ (if e < 0 then ''-'' else ''+'')
                @ (let n = str_of_nat (nat \<bar>e\<bar>) in if length n < 2 then CHR ''0'' # n else n)
         else if e < 0 then point ''0'' (replicate (nat (- e) - 1) CHR ''0'' @ ds)
         else point (take (nat e + 1) ds) (drop (nat e + 1) ds))"

definition format_g :: "rat \<Rightarrow> string" where
  "format_g x = (if x = 0 then ''0'' else if x < 0 then CHR ''-'' # format_pos (- x) else format_pos x)"

subsection \<open>The report\<close>

record field_change =
  fc_field :: string
  fc_before :: "string option"
  fc_after :: "string option"

record workload_change =
  wc_vm_name :: string
  wc_changes :: "field_change list"

record rename =
  rn_before :: string
  rn_after :: string

record totals =
  to_workloads :: nat
  to_vcpu :: int
  to_memory :: rat
  to_storage :: rat

record inventory_diff =
  di_added :: "string list"
  di_removed :: "string list"
  di_renamed :: "rename list"
  di_modified :: "workload_change list"
  di_unchanged :: nat
  di_before :: totals
  di_after :: totals

definition vcpu_delta :: "inventory_diff \<Rightarrow> int" where
  "vcpu_delta d = to_vcpu (di_after d) - to_vcpu (di_before d)"

definition memory_delta :: "inventory_diff \<Rightarrow> rat" where
  "memory_delta d = round_dp 2 (to_memory (di_after d) - to_memory (di_before d))"

definition storage_delta :: "inventory_diff \<Rightarrow> rat" where
  "storage_delta d = round_dp 2 (to_storage (di_after d) - to_storage (di_before d))"

definition has_changes :: "inventory_diff \<Rightarrow> bool" where
  "has_changes d \<longleftrightarrow> di_added d \<noteq> [] \<or> di_removed d \<noteq> [] \<or> di_renamed d \<noteq> [] \<or> di_modified d \<noteq> []"

subsection \<open>Fields\<close>

definition COMPARED :: "string list" where
  "COMPARED = [''cpu'', ''memory_gib'', ''storage_gib'', ''os'', ''power_state'']"

definition storage_of :: "vm \<Rightarrow> rat" where
  "storage_of v = round_dp 2 (sum_list (vm_disks v))"

definition none_if_blank :: "string option \<Rightarrow> string option" where
  "none_if_blank s = (if s = Some [] then None else s)"

definition field_value :: "vm \<Rightarrow> string \<Rightarrow> string option" where
  "field_value v f =
     (if f = ''storage_gib'' then Some (format_g (storage_of v))
      else if f = ''cpu'' then Some (str_of_int (vm_cpu v))
      else if f = ''memory_gib'' then Some (format_g (vm_memory v))
      else if f = ''os'' then none_if_blank (vm_os v)
      else if f = ''power_state'' then none_if_blank (vm_power v)
      else None)"

definition totals_of :: "vm list \<Rightarrow> totals" where
  "totals_of vms =
     \<lparr>to_workloads = length vms, to_vcpu = sum_list (map vm_cpu vms), to_memory = round_dp 2 (sum_list (map vm_memory vms)),
      to_storage = round_dp 2 (sum_list (map storage_of vms))\<rparr>"

definition name_key :: "vm \<Rightarrow> string" where
  "name_key v = lower (strip (vm_name v))"

text \<open>\<open>_uuid\<close>, with the empty text for none as every caller treats it.\<close>

definition uuid_key :: "vm \<Rightarrow> string option" where
  "uuid_key v =
     (case vm_uuid v of None \<Rightarrow> None
      | Some s \<Rightarrow> if s = [] then None else none_if_blank (Some (lower (strip s))))"

subsection \<open>Matching\<close>

definition index_uuids :: "vm list \<Rightarrow> (string, nat \<times> vm) dict" where
  "index_uuids after =
     foldl (\<lambda>d (i, v). case uuid_key v of None \<Rightarrow> d | Some u \<Rightarrow> AList.update u (i, v) d) [] (enumerate 0 after)"

definition partner :: "(string, nat \<times> vm) dict \<Rightarrow> vm \<Rightarrow> (nat \<times> vm) option" where
  "partner ix b = (case uuid_key b of None \<Rightarrow> None | Some u \<Rightarrow> map_of ix u)"

definition index_names :: "vm list \<Rightarrow> (string, vm) dict" where
  "index_names vms = foldl (\<lambda>d v. AList.update (name_key v) v d) [] vms"

definition vm_pairs :: "vm list \<Rightarrow> vm list \<Rightarrow> (vm \<times> vm) list \<times> vm list \<times> vm list" where
  "vm_pairs before after =
     (let ix = index_uuids after;
          by_uuid = List.map_filter (\<lambda>b. map_option (\<lambda>(i, a). (b, a)) (partner ix b)) before;
          matched = List.map_filter (\<lambda>b. map_option fst (partner ix b)) before;
          b_rest = filter (\<lambda>b. partner ix b = None) before;
          a_rest = map snd (filter (\<lambda>(i, a). i \<notin> set matched) (enumerate 0 after));
          b_by = index_names b_rest; a_by = index_names a_rest
      in (by_uuid @ List.map_filter (\<lambda>(k, b). map_option (\<lambda>a. (b, a)) (map_of a_by k)) b_by,
          map snd (filter (\<lambda>(k, b). map_of a_by k = None) b_by),
          map snd (filter (\<lambda>(k, a). map_of b_by k = None) a_by)))"

definition field_changes :: "vm \<Rightarrow> vm \<Rightarrow> field_change list" where
  "field_changes b a =
     map (\<lambda>f. \<lparr>fc_field = f, fc_before = field_value b f, fc_after = field_value a f\<rparr>)
       (filter (\<lambda>f. field_value b f \<noteq> field_value a f) COMPARED)"

definition diff_inventories :: "vm list \<Rightarrow> vm list \<Rightarrow> inventory_diff" where
  "diff_inventories before after =
     (let (ps, gone, new) = vm_pairs before after; ps = sort_key (\<lambda>(b, a). name_key a) ps
      in \<lparr>di_added = sort (map vm_name new), di_removed = sort (map vm_name gone),
          di_renamed = map (\<lambda>(b, a). \<lparr>rn_before = vm_name b, rn_after = vm_name a\<rparr>) (filter (\<lambda>(b, a). name_key b \<noteq> name_key a) ps),
          di_modified = map (\<lambda>(b, a). \<lparr>wc_vm_name = vm_name a, wc_changes = field_changes b a\<rparr>) (filter (\<lambda>(b, a). field_changes b a \<noteq> []) ps),
          di_unchanged = length (filter (\<lambda>(b, a). field_changes b a = [] \<and> name_key b = name_key a) ps),
          di_before = totals_of before, di_after = totals_of after\<rparr>)"


subsection \<open>Facts: the two indices\<close>

lemma index_names_distinct:
  "distinct (map name_key vms) \<Longrightarrow> index_names vms = map (\<lambda>v. (name_key v, v)) vms"
proof (induction vms rule: rev_induct)
  case (snoc v vms)
  then have "name_key v \<notin> set (keys (map (\<lambda>v. (name_key v, v)) vms))" by (auto simp: comp_def)
  then show ?case using snoc by (simp add: index_names_def dict_update_append)
qed (simp add: index_names_def)

lemma map_of_names: "distinct (map name_key vms) \<Longrightarrow>
    map_of (map (\<lambda>v. (name_key v, v)) vms) k = Some v \<longleftrightarrow> v \<in> set vms \<and> name_key v = k"
  by (subst map_of_eq_Some_iff) (auto simp: comp_def)

lemma map_of_names_None: "map_of (map (\<lambda>v. (name_key v, v)) vms) k = None \<longleftrightarrow> k \<notin> name_key ` set vms"
  by (force simp: map_of_eq_None_iff)

text \<open>An entry of the first index is a machine with that identifier at that position.\<close>

lemma index_uuids_step:
  "index_uuids (after @ [a]) = (case uuid_key a of None \<Rightarrow> index_uuids after
     | Some u \<Rightarrow> AList.update u (length after, a) (index_uuids after))"
  by (simp add: index_uuids_def enumerate_append_eq split: option.split)

lemma index_uuids_sound: "map_of (index_uuids after) u = Some (i, a) \<Longrightarrow> i < length after \<and> after ! i = a \<and> uuid_key a = Some u"
proof (induction after arbitrary: u i a rule: rev_induct)
  case (snoc x after)
  show ?case
  proof (cases "uuid_key x = Some u")
    case True
    then have "length after = i \<and> x = a" using snoc.prems by (simp add: index_uuids_step)
    then show ?thesis using True by (auto simp: nth_append)
  next
    case False
    then have "map_of (index_uuids after) u = Some (i, a)"
      using snoc.prems by (simp add: index_uuids_step split: option.splits if_splits)
    then show ?thesis using snoc.IH by (fastforce simp: nth_append)
  qed
qed (simp add: index_uuids_def)

lemma index_uuids_complete: "a \<in> set after \<Longrightarrow> uuid_key a = Some u \<Longrightarrow> map_of (index_uuids after) u \<noteq> None"
proof (induction after rule: rev_induct)
  case (snoc x after)
  then show ?case by (auto simp: index_uuids_step split: option.splits)
qed simp

lemma partner_sound: "partner (index_uuids after) b = Some (i, a) \<Longrightarrow> i < length after \<and> after ! i = a \<and> uuid_key a = uuid_key b \<and> uuid_key b \<noteq> None"
  using index_uuids_sound [of after _ i a] by (auto simp: partner_def split: option.splits)

lemma partner_None: "partner (index_uuids after) b = None \<longleftrightarrow> uuid_key b = None \<or> (\<forall>a \<in> set after. uuid_key a \<noteq> uuid_key b)"
proof
  assume "partner (index_uuids after) b = None"
  then show "uuid_key b = None \<or> (\<forall>a \<in> set after. uuid_key a \<noteq> uuid_key b)"
  proof (cases "uuid_key b")
    case (Some u)
    then have "map_of (index_uuids after) u = None" using \<open>partner (index_uuids after) b = None\<close> by (simp add: partner_def)
    then show ?thesis using index_uuids_complete [of _ after u] Some by (metis)
  qed simp
next
  assume r: "uuid_key b = None \<or> (\<forall>a \<in> set after. uuid_key a \<noteq> uuid_key b)"
  show "partner (index_uuids after) b = None"
  proof (rule ccontr)
    assume "partner (index_uuids after) b \<noteq> None"
    then obtain i a where "partner (index_uuids after) b = Some (i, a)" by auto
    from partner_sound [OF this] show False using r by (metis nth_mem)
  qed
qed

subsection \<open>Facts: every machine is accounted for\<close>

definition b_rest :: "vm list \<Rightarrow> vm list \<Rightarrow> vm list" where
  "b_rest before after = filter (\<lambda>b. partner (index_uuids after) b = None) before"

definition matched :: "vm list \<Rightarrow> vm list \<Rightarrow> nat list" where
  "matched before after = List.map_filter (\<lambda>b. map_option fst (partner (index_uuids after) b)) before"

definition a_rest :: "vm list \<Rightarrow> vm list \<Rightarrow> vm list" where
  "a_rest before after = map snd (filter (\<lambda>(i, a). i \<notin> set (matched before after)) (enumerate 0 after))"

definition uuid_pairs :: "vm list \<Rightarrow> vm list \<Rightarrow> (vm \<times> vm) list" where
  "uuid_pairs before after = List.map_filter (\<lambda>b. map_option (\<lambda>(i, a). (b, a)) (partner (index_uuids after) b)) before"

lemma distinct_part:
  "distinct (map f xs) \<Longrightarrow> distinct (map f (map snd (filter P (enumerate n xs))))"
proof (induction xs arbitrary: n)
  case (Cons x xs)
  have "set (map f (map snd (filter P (enumerate (Suc n) xs)))) \<subseteq> set (map f xs)"
    by (auto simp: enumerate_eq_zip dest: set_zip_rightD)
  then show ?case using Cons.IH [of "Suc n"] Cons.prems by auto
qed simp

lemma filter_one:
  assumes "distinct (map name_key as)"
  shows "filter (\<lambda>a. name_key a = k) as = (case map_of (map (\<lambda>v. (name_key v, v)) as) k of None \<Rightarrow> [] | Some a \<Rightarrow> [a])"
  using assms
proof (induction as)
  case (Cons a as)
  have "map_of (map (\<lambda>v. (name_key v, v)) as) (name_key a) = None"
    using Cons.prems by (simp only: map_of_names_None) simp
  then show ?case using Cons by auto
qed simp

lemma match_names:
  assumes "distinct (map name_key as)"
  shows "List.map_filter (\<lambda>(k, b). map_option (\<lambda>a. (b, a)) (map_of (map (\<lambda>v. (name_key v, v)) as) k)) (map (\<lambda>v. (name_key v, v)) bs)
    = concat (map (\<lambda>b. map (\<lambda>a. (b, a)) (filter (\<lambda>a. name_key a = name_key b) as)) bs)"
  by (induction bs) (simp_all add: List.map_filter_def filter_one [OF assms] split: option.split)

lemma unmatched_names:
  "map snd (filter (\<lambda>(k, b). map_of (map (\<lambda>v. (name_key v, v)) as) k = None) (map (\<lambda>v. (name_key v, v)) bs))
    = filter (\<lambda>b. name_key b \<notin> name_key ` set as) bs"
  by (induction bs) (simp_all add: map_of_names_None del: map_of_eq_None_iff)

definition name_pairs :: "vm list \<Rightarrow> vm list \<Rightarrow> (vm \<times> vm) list" where
  "name_pairs before after = concat (map (\<lambda>b. map (\<lambda>a. (b, a))
     (filter (\<lambda>a. name_key a = name_key b) (a_rest before after))) (b_rest before after))"

lemma rest_distinct:
  "distinct (map name_key before) \<Longrightarrow> distinct (map name_key (b_rest before after))"
  "distinct (map name_key after) \<Longrightarrow> distinct (map name_key (a_rest before after))"
  by (simp add: b_rest_def distinct_map_filter) (simp add: a_rest_def distinct_part del: map_map)

lemma vm_pairs_eq:
  assumes "distinct (map name_key before)" and "distinct (map name_key after)"
  shows "vm_pairs before after =
    (uuid_pairs before after @ name_pairs before after,
     filter (\<lambda>b. name_key b \<notin> name_key ` set (a_rest before after)) (b_rest before after),
     filter (\<lambda>a. name_key a \<notin> name_key ` set (b_rest before after)) (a_rest before after))"
proof -
  note d = rest_distinct(1) [OF assms(1), of after] rest_distinct(2) [OF assms(2), of before]
  show ?thesis
    unfolding vm_pairs_def Let_def b_rest_def [symmetric] matched_def [symmetric] a_rest_def [symmetric] uuid_pairs_def [symmetric]
      index_names_distinct [OF d(1)] index_names_distinct [OF d(2)] match_names [OF d(2)] unmatched_names name_pairs_def ..
qed

lemma length_map_filter: "length (List.map_filter f xs) = length (filter (\<lambda>x. f x \<noteq> None) xs)"
  by (induction xs) (simp_all add: List.map_filter_def split: option.split)

lemma count_common: "distinct (map f xs) \<Longrightarrow> length (filter (\<lambda>x. f x \<in> S) xs) = card (f ` set xs \<inter> S)"
proof -
  assume d: "distinct (map f xs)"
  have "length (filter (\<lambda>x. f x \<in> S) xs) = card (set (map f (filter (\<lambda>x. f x \<in> S) xs)))"
    using distinct_card [OF distinct_map_filter [OF d]] by (metis length_map)
  also have "set (map f (filter (\<lambda>x. f x \<in> S) xs)) = f ` set xs \<inter> S" by auto
  finally show ?thesis .
qed

lemma length_name_pairs:
  assumes "distinct (map name_key after)"
  shows "length (name_pairs before after) = length (filter (\<lambda>b. name_key b \<in> name_key ` set (a_rest before after)) (b_rest before after))"
proof -
  note d = rest_distinct(2) [OF assms, of before]
  have "length (concat (map (\<lambda>b. map (\<lambda>a. (b, a)) (filter (\<lambda>a. name_key a = name_key b) (a_rest before after))) bs))
      = length (filter (\<lambda>b. name_key b \<in> name_key ` set (a_rest before after)) bs)" for bs
  proof (induction bs)
    case (Cons b bs)
    have "length (filter (\<lambda>a. name_key a = name_key b) (a_rest before after)) = (if name_key b \<in> name_key ` set (a_rest before after) then 1 else 0)"
      unfolding filter_one [OF d]
      using map_of_names_None [of "a_rest before after" "name_key b"] by (auto split: option.split)
    then show ?case using Cons by simp
  qed simp
  then show ?thesis by (simp add: name_pairs_def)
qed

lemma matched_distinct:
  assumes "distinct (List.map_filter uuid_key before)"
  shows "distinct (matched before after) \<and> set (matched before after) \<subseteq> {0..<length after}"
proof
  show "set (matched before after) \<subseteq> {0..<length after}"
    using partner_sound by (fastforce simp: matched_def List.map_filter_def)
  show "distinct (matched before after)"
    using assms
  proof (induction before)
    case (Cons b bs)
    have tail: "distinct (List.map_filter uuid_key bs)"
      using Cons.prems by (cases "uuid_key b") (simp_all add: List.map_filter_def)
    show ?case
    proof (cases "partner (index_uuids after) b")
      case None
      then show ?thesis using Cons.IH [OF tail] by (simp add: matched_def List.map_filter_def)
    next
      case (Some ia)
      obtain i a where ia: "ia = (i, a)" by (cases ia)
      have b: "after ! i = a" "uuid_key a = uuid_key b" "uuid_key b \<noteq> None" using partner_sound Some ia by blast+
      have "i \<notin> set (matched bs after)"
      proof
        assume "i \<in> set (matched bs after)"
        then obtain c a' where c: "c \<in> set bs" "partner (index_uuids after) c = Some (i, a')"
          by (auto simp: matched_def List.map_filter_def)
        from partner_sound [OF c(2)] have "uuid_key c = uuid_key b" using b by simp
        then show False using c(1) b(3) Cons.prems by (auto simp: List.map_filter_def image_iff)
      qed
      then show ?thesis using Cons.IH [OF tail] Some ia by (simp add: matched_def List.map_filter_def)
    qed
  qed (simp add: matched_def List.map_filter_def)
qed

lemma length_a_rest:
  assumes "distinct (List.map_filter uuid_key before)"
  shows "length (a_rest before after) + length (uuid_pairs before after) = length after"
proof -
  have u: "length (uuid_pairs before after) = length (matched before after)"
    by (simp add: uuid_pairs_def matched_def length_map_filter)
  have "length (filter (\<lambda>(i, a). i \<notin> set M) (enumerate 0 after)) + length (filter (\<lambda>(i, a). i \<in> set M) (enumerate 0 after)) = length after" for M
    using sum_length_filter_compl [of "\<lambda>(i, a). i \<in> set M" "enumerate 0 after"] by (simp add: case_prod_unfold)
  moreover have "length (filter (\<lambda>(i, a). i \<in> set (matched before after)) (enumerate 0 after)) = card (fst ` set (enumerate 0 after) \<inter> set (matched before after))"
    using count_common [of fst "enumerate 0 after" "set (matched before after)"] by (simp add: case_prod_unfold)
  moreover have "fst ` set (enumerate 0 after) = {0..<length after}"
    by (metis list.set_map map_fst_enumerate add_0 set_upt)
  moreover have "{0..<length after} \<inter> set (matched before after) = set (matched before after)"
    using matched_distinct [OF assms, of after] by blast
  moreover have "card (set (matched before after)) = length (matched before after)"
    using matched_distinct [OF assms, of after] distinct_card by blast
  ultimately show ?thesis by (simp add: a_rest_def u) (metis add.commute)
qed

lemma diff_fields:
  assumes "vm_pairs before after = (ps, gone, new)"
  shows "di_added (diff_inventories before after) = sort (map vm_name new)"
    and "di_removed (diff_inventories before after) = sort (map vm_name gone)"
    and "di_renamed (diff_inventories before after) = map (\<lambda>(b, a). \<lparr>rn_before = vm_name b, rn_after = vm_name a\<rparr>)
      (filter (\<lambda>(b, a). name_key b \<noteq> name_key a) (sort_key (\<lambda>(b, a). name_key a) ps))"
    and "di_modified (diff_inventories before after) = map (\<lambda>(b, a). \<lparr>wc_vm_name = vm_name a, wc_changes = field_changes b a\<rparr>)
      (filter (\<lambda>(b, a). field_changes b a \<noteq> []) (sort_key (\<lambda>(b, a). name_key a) ps))"
    and "di_unchanged (diff_inventories before after) = length (filter (\<lambda>(b, a). field_changes b a = [] \<and> name_key b = name_key a)
      (sort_key (\<lambda>(b, a). name_key a) ps))"
  by (simp_all add: diff_inventories_def assms Let_def)

text \<open>Every machine of either inventory is in exactly one pair, or reported as removed or added.\<close>

lemma diff_accounts:
  assumes b: "distinct (map name_key before)" and a: "distinct (map name_key after)"
    and u: "distinct (List.map_filter uuid_key before)"
  shows "length (fst (vm_pairs before after)) + length (di_removed (diff_inventories before after)) = length before"
    and "length (fst (vm_pairs before after)) + length (di_added (diff_inventories before after)) = length after"
proof -
  let ?B = "b_rest before after" and ?A = "a_rest before after"
  let ?KB = "name_key ` set ?B" and ?KA = "name_key ` set ?A"
  have n: "length (name_pairs before after) = card (?KB \<inter> ?KA)"
    using length_name_pairs [OF a] count_common [OF rest_distinct(1) [OF b, of after], of ?KA] by simp
  have gone: "length (filter (\<lambda>b. name_key b \<notin> ?KA) ?B) + card (?KB \<inter> ?KA) = length ?B"
    using sum_length_filter_compl [of "\<lambda>b. name_key b \<in> ?KA" ?B] count_common [OF rest_distinct(1) [OF b, of after], of ?KA] by simp
  have new: "length (filter (\<lambda>a. name_key a \<notin> ?KB) ?A) + card (?KB \<inter> ?KA) = length ?A"
    using sum_length_filter_compl [of "\<lambda>b. name_key b \<in> ?KB" ?A] count_common [OF rest_distinct(2) [OF a, of before], of ?KB]
    by (simp add: Int_commute)
  have "length (uuid_pairs before after) + length ?B = length before"
    using sum_length_filter_compl [of "\<lambda>b. partner (index_uuids after) b = None" before]
    unfolding uuid_pairs_def b_rest_def length_map_filter option.map_disc_iff by (simp only: add.commute)
  then show "length (fst (vm_pairs before after)) + length (di_removed (diff_inventories before after)) = length before"
    using n gone by (simp add: diff_fields [OF vm_pairs_eq [OF b a]] vm_pairs_eq [OF b a])
  show "length (fst (vm_pairs before after)) + length (di_added (diff_inventories before after)) = length after"
    using n new length_a_rest [OF u, of after] by (simp add: diff_fields [OF vm_pairs_eq [OF b a]] vm_pairs_eq [OF b a])
qed


subsection \<open>Facts: nothing has changed\<close>

lemma uuids_Cons: "List.map_filter uuid_key (x # xs) = (case uuid_key x of None \<Rightarrow> List.map_filter uuid_key xs | Some u \<Rightarrow> u # List.map_filter uuid_key xs)"
  by (simp add: List.map_filter_def split: option.split)

lemma uuids_mem: "c \<in> set xs \<Longrightarrow> uuid_key c = Some u \<Longrightarrow> u \<in> set (List.map_filter uuid_key xs)"
  by (induction xs) (auto simp: uuids_Cons split: option.split)

lemma same_uuid:
  "distinct (List.map_filter uuid_key xs) \<Longrightarrow> a \<in> set xs \<Longrightarrow> b \<in> set xs \<Longrightarrow> uuid_key a = Some u \<Longrightarrow> uuid_key b = Some u \<Longrightarrow> a = b"
proof (induction xs)
  case (Cons x xs)
  have tail: "distinct (List.map_filter uuid_key xs)"
    using Cons.prems(1) by (simp add: uuids_Cons split: option.splits)
  have new: "c \<notin> set xs" if "uuid_key c = Some u" "uuid_key x = Some u" for c
    using that uuids_mem [of c xs u] Cons.prems(1) by (auto simp: uuids_Cons)
  show ?case using Cons.IH [OF tail] Cons.prems(2-5) new by auto
qed simp

definition snapshot_ok :: "vm list \<Rightarrow> bool" where
  "snapshot_ok xs \<longleftrightarrow> distinct (map name_key xs) \<and> distinct (List.map_filter uuid_key xs)"

lemma self_partner:
  "snapshot_ok xs \<Longrightarrow> b \<in> set xs \<Longrightarrow> partner (index_uuids xs) b = Some (i, a) \<Longrightarrow> a = b \<and> i < length xs \<and> xs ! i = b"
  using partner_sound [of xs b i a] same_uuid [of xs a b] unfolding snapshot_ok_def by (metis nth_mem option.exhaust)

lemma self_a_rest:
  assumes ok: "snapshot_ok xs"
  shows "a \<in> set (a_rest xs xs) \<Longrightarrow> a \<in> set xs \<and> uuid_key a = None"
proof -
  assume "a \<in> set (a_rest xs xs)"
  then obtain i where i: "i < length xs" "xs ! i = a" "i \<notin> set (matched xs xs)"
    by (auto simp: a_rest_def in_set_enumerate_eq)
  have "uuid_key a = None"
  proof (rule ccontr)
    assume "uuid_key a \<noteq> None"
    then have "partner (index_uuids xs) a \<noteq> None" using i partner_None [of xs a] by (metis nth_mem)
    then obtain j c where p: "partner (index_uuids xs) a = Some (j, c)" by auto
    have "a \<in> set xs" using i by auto
    then have "j < length xs" "xs ! j = a" using self_partner [OF ok _ p] by blast+
    moreover have "distinct xs" using ok by (simp add: snapshot_ok_def distinct_map)
    ultimately have "j = i" using i nth_eq_iff_index_eq [of xs j i] by simp
    then have "i \<in> set (matched xs xs)" using p \<open>a \<in> set xs\<close> by (force simp: matched_def List.map_filter_def)
    then show False using i by blast
  qed
  then show ?thesis using i by auto
qed

lemma self_b_rest: "b \<in> set (b_rest xs xs) \<longleftrightarrow> b \<in> set xs \<and> uuid_key b = None"
  using partner_None [of xs b] by (auto simp: b_rest_def)

lemma self_rest:
  assumes ok: "snapshot_ok xs"
  shows "set (a_rest xs xs) = set (b_rest xs xs)"
proof
  show "set (a_rest xs xs) \<subseteq> set (b_rest xs xs)" using self_a_rest [OF ok] self_b_rest by blast
  show "set (b_rest xs xs) \<subseteq> set (a_rest xs xs)"
  proof
    fix b
    assume "b \<in> set (b_rest xs xs)"
    then have b: "b \<in> set xs" "uuid_key b = None" using self_b_rest by auto
    then obtain i where i: "i < length xs" "xs ! i = b" by (metis in_set_conv_nth)
    have "i \<notin> set (matched xs xs)"
    proof
      assume "i \<in> set (matched xs xs)"
      then obtain c a where "partner (index_uuids xs) c = Some (i, a)" by (auto simp: matched_def List.map_filter_def)
      from partner_sound [OF this] show False using i b(2) by auto
    qed
    then show "b \<in> set (a_rest xs xs)" using i by (force simp: a_rest_def in_set_enumerate_eq)
  qed
qed

lemma self_pairs: "snapshot_ok xs \<Longrightarrow> vm_pairs xs xs = (uuid_pairs xs xs @ name_pairs xs xs, [], [])"
  using vm_pairs_eq [of xs xs] self_rest [of xs] by (auto simp: snapshot_ok_def filter_empty_conv)

lemma self_pair:
  assumes ok: "snapshot_ok xs" and "(b, a) \<in> set (uuid_pairs xs xs @ name_pairs xs xs)"
  shows "a = b"
proof -
  consider "(b, a) \<in> set (uuid_pairs xs xs)" | "(b, a) \<in> set (name_pairs xs xs)" using assms(2) by auto
  then show ?thesis
  proof cases
    case 1
    then show ?thesis using self_partner [OF ok] by (auto simp: uuid_pairs_def List.map_filter_def)
  next
    case 2
    then have "a \<in> set xs" "b \<in> set xs" "name_key a = name_key b" using self_rest [OF ok] self_b_rest by (auto simp: name_pairs_def)
    then show ?thesis using ok unfolding snapshot_ok_def by (metis (mono_tags, lifting) distinct_map inj_onD)
  qed
qed

lemma diff_same:
  assumes ok: "snapshot_ok xs"
  shows "\<not> has_changes (diff_inventories xs xs) \<and> di_unchanged (diff_inventories xs xs) = length xs"
proof -
  let ?ps = "uuid_pairs xs xs @ name_pairs xs xs"
  let ?qs = "sort_key (\<lambda>(b, a). name_key a) ?ps"
  note p = self_pairs [OF ok]
  have none: "field_changes b b = []" for b by (simp add: field_changes_def)
  have same: "a = b" if "(b, a) \<in> set ?qs" for a b using that self_pair [OF ok] by simp
  have "filter (\<lambda>(b, a). field_changes b a = [] \<and> name_key b = name_key a) ?qs = ?qs"
    unfolding filter_id_conv using same by (fastforce simp: none)
  moreover have "filter (\<lambda>(b, a). field_changes b a \<noteq> []) ?qs = []"
    unfolding filter_empty_conv using same by (fastforce simp: none)
  moreover have "filter (\<lambda>(b, a). name_key b \<noteq> name_key a) ?qs = []"
    unfolding filter_empty_conv using same by fastforce
  moreover have "length ?ps = length xs"
    using diff_accounts(1) [of xs xs] ok p diff_fields(2) [OF p] by (simp add: snapshot_ok_def)
  ultimately show ?thesis by (simp only: has_changes_def diff_fields [OF p] length_sort) simp
qed

text \<open>A machine that keeps its identifier is reported as renamed, never as removed and added.\<close>

lemma diff_rename:
  assumes "distinct (map name_key before)" and "distinct (map name_key after)"
    and "distinct (List.map_filter uuid_key after)"
    and "b \<in> set before" and "a \<in> set after" and "uuid_key b = Some u" and "uuid_key a = Some u" and "name_key b \<noteq> name_key a"
  shows "\<lparr>rn_before = vm_name b, rn_after = vm_name a\<rparr> \<in> set (di_renamed (diff_inventories before after))"
proof -
  obtain i c where p: "partner (index_uuids after) b = Some (i, c)"
    using partner_None [of after b] assms(5-7) by (cases "partner (index_uuids after) b") auto
  from partner_sound [OF p] have "c \<in> set after" "uuid_key c = uuid_key b" by auto
  then have "c = a" using same_uuid [OF assms(3)] assms(5-7) by metis
  then have "(b, a) \<in> set (uuid_pairs before after)" using p assms(4) by (force simp: uuid_pairs_def List.map_filter_def)
  then show ?thesis using assms(8) unfolding diff_fields(3) [OF vm_pairs_eq [OF assms(1,2)]] by force
qed

text \<open>
  What the counts of a report say: unchanged and modified machines are matched, and every other match is a rename.
\<close>

lemma pair_counts:
  assumes "vm_pairs before after = (ps, gone, new)"
  shows "di_unchanged (diff_inventories before after) + length (di_modified (diff_inventories before after)) \<le> length ps
    \<and> length ps \<le> di_unchanged (diff_inventories before after) + length (di_modified (diff_inventories before after))
        + length (di_renamed (diff_inventories before after))"
proof -
  have "length (filter (\<lambda>(b, a). C b a = [] \<and> K b a) qs) + length (filter (\<lambda>(b, a). C b a \<noteq> []) qs) \<le> length qs
      \<and> length qs \<le> length (filter (\<lambda>(b, a). C b a = [] \<and> K b a) qs) + length (filter (\<lambda>(b, a). C b a \<noteq> []) qs)
          + length (filter (\<lambda>(b, a). \<not> K b a) qs)" for C :: "vm \<Rightarrow> vm \<Rightarrow> field_change list" and K and qs :: "(vm \<times> vm) list"
    by (induction qs) auto
  from this [of field_changes "\<lambda>b a. name_key b = name_key a" "sort_key (\<lambda>(b, a). name_key a) ps"]
  show ?thesis by (simp add: diff_fields [OF assms])
qed

text \<open>Two machines whose names differ in case only are one entry of the index: the first is in no list.\<close>

lemma twins_vanish: "name_key a = name_key b \<Longrightarrow> di_added (diff_inventories [] [a, b]) = [vm_name b]"
  by (simp add: diff_inventories_def vm_pairs_def index_names_def List.map_filter_def Let_def)

end
