(* ===== verification/Estimates.thy ===== *)
theory Estimates
  imports Waves PyFloat
begin

text \<open>
  The read-only analyses of a finished plan: \<open>confidence.py\<close> (how sure each decision is), \<open>transfer.py\<close> (how
  long the data takes to move) and \<open>replatform.py\<close> with \<open>maturity.py\<close>. Prose (bases, summaries, notes,
  assumptions) is left out. An infinite time is \<open>Infinite\<close>.
\<close>

subsection \<open>Confidence\<close>

datatype factor = SIZING | CLASSIFICATION | IMAGE | COST

definition WEIGHTS :: "(factor, rat) dict" where
  "WEIGHTS = [(SIZING, 0.35), (CLASSIFICATION, 0.25), (IMAGE, 0.2), (COST, 0.2)]"

definition HIGH :: rat where "HIGH = 0.8"
definition MEDIUM :: rat where "MEDIUM = 0.6"

definition RECOGNIZED_OS :: "string list" where
  "RECOGNIZED_OS = [''windows'', ''red hat'', ''rhel'', ''ubuntu'', ''suse'', ''sles'', ''centos'', ''debian'', ''rocky'',
     ''amazon linux'', ''oracle linux'']"

record factor_score =
  fs_factor :: factor
  fs_score :: rat

record workload_confidence =
  cf_vm_name :: string
  cf_overall :: rat
  cf_level :: string
  cf_factors :: "factor_score list"

record plan_confidence =
  pc_overall :: rat
  pc_level :: string
  pc_averages :: "(factor, rat) dict"
  pc_workloads :: "workload_confidence list"

definition low_confidence :: "plan_confidence \<Rightarrow> workload_confidence list" where
  "low_confidence p = filter (\<lambda>w. cf_level w = ''low'') (pc_workloads p)"

definition level_of :: "rat \<Rightarrow> string" where
  "level_of score = (if HIGH \<le> score then ''high'' else if MEDIUM \<le> score then ''medium'' else ''low'')"

definition classification_factor :: "compute_plan \<Rightarrow> factor_score" where
  "classification_factor c =
     \<lparr>fs_factor = CLASSIFICATION,
      fs_score = (if c_tier c = OTHER then 0.45 else if c_environment c = UNKNOWN then 0.75 else 0.9)\<rparr>"

definition sizing_factor :: "compute_plan \<Rightarrow> factor_score" where
  "sizing_factor c = \<lparr>fs_factor = SIZING, fs_score = (if c_right_sized c then 0.9 else 0.6)\<rparr>"

definition image_factor :: "vm option \<Rightarrow> factor_score" where
  "image_factor v =
     (let os = (case v of None \<Rightarrow> [] | Some v \<Rightarrow> lower (strip (case vm_os v of None \<Rightarrow> [] | Some s \<Rightarrow> s)))
      in \<lparr>fs_factor = IMAGE,
          fs_score = (if os = [] then 0.35 else if list_ex (\<lambda>tok. contains tok os) RECOGNIZED_OS then 0.9 else 0.55)\<rparr>)"

definition cost_factor :: "compute_plan \<Rightarrow> factor_score" where
  "cost_factor c = \<lparr>fs_factor = COST, fs_score = (if c_price_source c = ''live'' then 0.9 else 0.7)\<rparr>"

definition score_workload :: "compute_plan \<Rightarrow> vm option \<Rightarrow> workload_confidence" where
  "score_workload c v =
     (let factors = [sizing_factor c, classification_factor c, image_factor v, cost_factor c];
          overall = round_dp 4 (sum_list (map (\<lambda>f. the (map_of WEIGHTS (fs_factor f)) * fs_score f) factors))
      in \<lparr>cf_vm_name = c_vm_name c, cf_overall = overall, cf_level = level_of overall, cf_factors = factors\<rparr>)"

definition vms_by_name :: "vm list \<Rightarrow> (string, vm) dict" where
  "vms_by_name vms = foldl (\<lambda>d v. AList.update (vm_name v) v d) [] vms"

definition score_plan :: "migration_plan \<Rightarrow> vm list option \<Rightarrow> plan_confidence" where
  "score_plan p vms =
     (let by_name = vms_by_name (case vms of None \<Rightarrow> [] | Some vs \<Rightarrow> vs);
          ws = map (\<lambda>c. score_workload c (map_of by_name (c_vm_name c))) (plan_compute p);
          n = of_nat (length ws);
          overall = (if ws = [] then 0 else round_dp 4 (sum_list (map cf_overall ws) / n));
          averages = map (\<lambda>(f, w). (f, if ws = [] then 0
            else round_dp 4 (sum_list (map fs_score (filter (\<lambda>s. fs_factor s = f) (concat (map cf_factors ws)))) / n))) WEIGHTS
      in \<lparr>pc_overall = overall, pc_level = level_of overall, pc_averages = averages, pc_workloads = ws\<rparr>)"

subsection \<open>Transfer\<close>

definition WAN_EFFICIENCY :: rat where "WAN_EFFICIENCY = 0.7"
definition DEFAULT_LINK_SHARE :: rat where "DEFAULT_LINK_SHARE = 0.5"
definition OFFLINE_THRESHOLD_TIB :: rat where "OFFLINE_THRESHOLD_TIB = 20"
definition GIB_IN_TIB :: rat where "GIB_IN_TIB = 1024"
definition GIB_TO_MEGABITS :: rat where "GIB_TO_MEGABITS = 8589.934592"

record workload_transfer =
  wt_vm_name :: string
  wt_gib :: rat
  wt_hours :: pyfloat

record wave_transfer =
  vt_wave_id :: string
  vt_sequence :: nat
  vt_count :: nat
  vt_gib :: rat
  vt_hours :: pyfloat
  vt_fits_window :: bool
  vt_workloads :: "workload_transfer list"

record transfer_estimate =
  te_total_gib :: rat
  te_total_hours :: pyfloat
  te_effective_mbps :: rat
  te_link_mbps :: rat
  te_link_share :: rat
  te_window :: "rat option"
  te_waves :: "wave_transfer list"
  te_offline :: bool

definition round_py :: "nat \<Rightarrow> pyfloat \<Rightarrow> pyfloat" where
  "round_py n x = (case x of Fin r \<Rightarrow> Fin (round_dp n r) | _ \<Rightarrow> x)"

definition effective_throughput :: "rat \<Rightarrow> rat \<Rightarrow> rat" where
  "effective_throughput link share = link * WAN_EFFICIENCY * share"

definition transfer_hours :: "rat \<Rightarrow> rat \<Rightarrow> pyfloat" where
  "transfer_hours gib mbps = (if mbps \<le> 0 then Infinite else Fin (gib * GIB_TO_MEGABITS / mbps / 3600))"

definition fits_within :: "pyfloat \<Rightarrow> rat \<Rightarrow> bool" where
  "fits_within h w \<longleftrightarrow> (case h of Fin r \<Rightarrow> r \<le> w | _ \<Rightarrow> False)"

definition gib_by_vm :: "migration_plan \<Rightarrow> (string, rat) dict" where
  "gib_by_vm p = foldl (\<lambda>d c. AList.update (c_vm_name c) (of_int (c_root_gib c) + of_int (sum_list (c_extra_gib c))) d) [] (plan_compute p)"

definition gib_of :: "(string, rat) dict \<Rightarrow> string \<Rightarrow> rat" where
  "gib_of d n = (case map_of d n of None \<Rightarrow> 0 | Some g \<Rightarrow> g)"

definition wave_transfer_of :: "(string, rat) dict \<Rightarrow> rat \<Rightarrow> rat option \<Rightarrow> wave \<Rightarrow> wave_transfer" where
  "wave_transfer_of d mbps window w =
     (let members = map (\<lambda>n. \<lparr>wt_vm_name = n, wt_gib = round_dp 1 (gib_of d n),
                              wt_hours = round_py 2 (transfer_hours (gib_of d n) mbps)\<rparr>) (wv_workloads w);
          gib = sum_list (map wt_gib members); hours = transfer_hours gib mbps
      in \<lparr>vt_wave_id = wv_id w, vt_sequence = wv_sequence w, vt_count = length members, vt_gib = round_dp 1 gib,
          vt_hours = round_py 2 hours, vt_fits_window = (case window of None \<Rightarrow> True | Some h \<Rightarrow> fits_within hours h),
          vt_workloads = members\<rparr>)"

definition estimate_transfer ::
  "migration_plan \<Rightarrow> rat \<Rightarrow> rat \<Rightarrow> rat option \<Rightarrow> wave list option \<Rightarrow> transfer_estimate" where
  "estimate_transfer p link share window waves =
     (let mbps = effective_throughput link share; d = gib_by_vm p; total = sum_list (map snd d)
      in \<lparr>te_total_gib = round_dp 1 total, te_total_hours = round_py 2 (transfer_hours total mbps),
          te_effective_mbps = round_dp 1 mbps, te_link_mbps = link, te_link_share = share, te_window = window,
          te_waves = (case waves of None \<Rightarrow> [] | Some ws \<Rightarrow> map (wave_transfer_of d mbps window) ws),
          te_offline = (OFFLINE_THRESHOLD_TIB \<le> total / GIB_IN_TIB)\<rparr>)"

definition total_tib :: "transfer_estimate \<Rightarrow> rat" where
  "total_tib t = round_dp 2 (te_total_gib t / GIB_IN_TIB)"

definition total_days :: "transfer_estimate \<Rightarrow> pyfloat" where
  "total_days t = (case te_total_hours t of Fin h \<Rightarrow> Fin (round_dp 1 (h / 24)) | x \<Rightarrow> x)"

subsection \<open>Managed databases\<close>

definition ENGINE_KEYWORDS :: "(string \<times> string list) list" where
  "ENGINE_KEYWORDS =
     [(''postgresql'', [''postgres'', ''postgre'', ''pgsql'', ''pg-'']), (''mysql'', [''mysql'']), (''mariadb'', [''mariadb'']),
      (''sqlserver'', [''sqlserver'', ''mssql'', ''sql-server'', ''sql server'']), (''oracle'', [''oracle'', ''orcl'']),
      (''mongodb'', [''mongo'']), (''redis'', [''redis''])]"

definition MANAGED_SERVICE :: "(string, (string, string) dict) dict" where
  "MANAGED_SERVICE =
     [(''aws'',
        [(''postgresql'', ''Amazon RDS for PostgreSQL''), (''mysql'', ''Amazon RDS for MySQL''), (''mariadb'', ''Amazon RDS for MariaDB''),
         (''sqlserver'', ''Amazon RDS for SQL Server''), (''oracle'', ''Amazon RDS for Oracle''),
         (''mongodb'', ''Amazon DocumentDB (MongoDB-compatible)''), (''redis'', ''Amazon ElastiCache for Redis''), (''unknown'', ''Amazon RDS'')]),
      (''azure'',
        [(''postgresql'', ''Azure Database for PostgreSQL Flexible Server''), (''mysql'', ''Azure Database for MySQL Flexible Server''),
         (''mariadb'', ''Azure Database for MySQL (MariaDB-compatible workloads)''), (''sqlserver'', ''Azure SQL Managed Instance''),
         (''oracle'', ''Oracle Database@Azure''), (''mongodb'', ''Azure Cosmos DB for MongoDB''), (''redis'', ''Azure Cache for Redis''),
         (''unknown'', ''Azure SQL / Azure Database'')]),
      (''gcp'',
        [(''postgresql'', ''Cloud SQL for PostgreSQL (or AlloyDB)''), (''mysql'', ''Cloud SQL for MySQL''), (''mariadb'', ''Cloud SQL for MySQL''),
         (''sqlserver'', ''Cloud SQL for SQL Server''), (''oracle'', ''Bare Metal Solution / partner offering (no native managed Oracle)''),
         (''mongodb'', ''MongoDB Atlas on GCP (partner)''), (''redis'', ''Memorystore for Redis''), (''unknown'', ''Cloud SQL'')])]"

definition NO_NATIVE_MANAGED :: "(string, string list) dict" where
  "NO_NATIVE_MANAGED = [(''gcp'', [''oracle'', ''mongodb''])]"

datatype caveat = DataMigration | UnknownEngine | SqlServerLicense | NoManagedService

record replatform_candidate =
  rc_vm_name :: string
  rc_engine :: string
  rc_instance_type :: string
  rc_service :: string
  rc_vcpu :: int
  rc_memory :: rat
  rc_storage :: int
  rc_caveats :: "caveat list"

definition engine_haystack :: "string \<Rightarrow> vm option \<Rightarrow> string" where
  "engine_haystack n v = lower (join '' '' (n # (case v of None \<Rightarrow> []
     | Some v \<Rightarrow> [case vm_hostname v of None \<Rightarrow> [] | Some s \<Rightarrow> s, case vm_os v of None \<Rightarrow> [] | Some s \<Rightarrow> s])))"

definition detect_engine :: "string \<Rightarrow> vm option \<Rightarrow> string" where
  "detect_engine n v =
     (case find (\<lambda>(e, needles). list_ex (\<lambda>x. contains x (engine_haystack n v)) needles) ENGINE_KEYWORDS of
        None \<Rightarrow> ''unknown'' | Some (e, needles) \<Rightarrow> e)"

definition services_for :: "string \<Rightarrow> (string, string) dict" where
  "services_for target = (case map_of MANAGED_SERVICE target of None \<Rightarrow> the (map_of MANAGED_SERVICE ''aws'') | Some s \<Rightarrow> s)"

definition service_for :: "string \<Rightarrow> string \<Rightarrow> string" where
  "service_for target engine =
     (case map_of (services_for target) engine of None \<Rightarrow> the (map_of (services_for target) ''unknown'') | Some s \<Rightarrow> s)"

definition candidate_of :: "string \<Rightarrow> (string, vm) dict \<Rightarrow> compute_plan \<Rightarrow> replatform_candidate" where
  "candidate_of target by_name c =
     (let engine = detect_engine (c_vm_name c) (map_of by_name (c_vm_name c));
          no_native = (case map_of NO_NATIVE_MANAGED target of None \<Rightarrow> [] | Some es \<Rightarrow> es)
      in \<lparr>rc_vm_name = c_vm_name c, rc_engine = engine, rc_instance_type = c_instance_type c, rc_service = service_for target engine,
          rc_vcpu = c_vcpu c, rc_memory = c_memory c, rc_storage = c_root_gib c + sum_list (c_extra_gib c),
          rc_caveats = [DataMigration] @ (if engine = ''unknown'' then [UnknownEngine] else [])
            @ (if engine = ''sqlserver'' then [SqlServerLicense] else []) @ (if engine \<in> set no_native then [NoManagedService] else [])\<rparr>)"

definition analyze_replatforming :: "migration_plan \<Rightarrow> vm list option \<Rightarrow> replatform_candidate list" where
  "analyze_replatforming p vms =
     map (candidate_of (plan_target p) (vms_by_name (case vms of None \<Rightarrow> [] | Some vs \<Rightarrow> vs)))
       (filter (\<lambda>c. c_tier c = DATABASE) (plan_compute p))"

subsection \<open>Validation levels\<close>

datatype validation_level = SYNTAX | SEMANTIC | POLICY | DEPLOYMENT | APPLICATION

definition level_rank :: "validation_level \<Rightarrow> nat" where
  "level_rank l = (case l of SYNTAX \<Rightarrow> 1 | SEMANTIC \<Rightarrow> 2 | POLICY \<Rightarrow> 3 | DEPLOYMENT \<Rightarrow> 4 | APPLICATION \<Rightarrow> 5)"

definition HIGHEST_REACHED :: validation_level where "HIGHEST_REACHED = POLICY"

datatype provider_maturity = PROVIDER_VALIDATED | RENDERED_AND_TESTED

definition PROVIDER_VALIDATED_TARGETS :: "string list" where
  "PROVIDER_VALIDATED_TARGETS = [''aws'', ''azure'', ''gcp'', ''oci'', ''digitalocean'', ''nutanix'', ''proxmox'']"

definition maturity_of :: "string \<Rightarrow> provider_maturity" where
  "maturity_of t = (if t \<in> set PROVIDER_VALIDATED_TARGETS then PROVIDER_VALIDATED else RENDERED_AND_TESTED)"


subsection \<open>Facts: rounding\<close>

lemma round_even_int [simp]: "round_even (of_int k) = k"
  by (simp add: round_even_def)

lemma round_even_ge: "of_int k \<le> x \<Longrightarrow> k \<le> round_even x"
  using floor_mono [of "of_int k" x] by (auto simp: round_even_def Let_def)

lemma round_even_le: "x \<le> of_int k \<Longrightarrow> round_even x \<le> k"
proof -
  assume x: "x \<le> of_int k"
  show ?thesis
  proof (cases "x = of_int k")
    case False
    then have "x < of_int k" using x by simp
    then have "\<lfloor>x\<rfloor> < k" by (simp add: floor_less_iff)
    then show ?thesis by (auto simp: round_even_def Let_def)
  qed simp
qed

lemma round_dp_exact: "x * 10 ^ n = of_int k \<Longrightarrow> round_dp n x = x"
  by (simp add: round_dp_def field_simps)

lemma round_dp_int [simp]: "round_dp n (of_int k) = of_int k"
  by (rule round_dp_exact [where k = "k * 10 ^ n"]) simp

lemma round_dp_between:
  assumes "lo * 10 ^ n = of_int a" and "hi * 10 ^ n = of_int b" and "lo \<le> x" and "x \<le> hi"
  shows "lo \<le> round_dp n x \<and> round_dp n x \<le> hi"
proof -
  have p: "(0 :: rat) < 10 ^ n" by simp
  have "of_int a \<le> x * 10 ^ n" "x * 10 ^ n \<le> of_int b"
    using assms(3,4) mult_right_mono [of _ _ "10 ^ n"] p unfolding assms(1,2) [symmetric] by simp_all
  then have "a \<le> round_even (x * 10 ^ n)" "round_even (x * 10 ^ n) \<le> b" by (simp_all add: round_even_ge round_even_le)
  then have "lo * 10 ^ n \<le> of_int (round_even (x * 10 ^ n))" "of_int (round_even (x * 10 ^ n)) \<le> hi * 10 ^ n"
    unfolding assms(1,2) by simp_all
  then show ?thesis using p by (simp add: round_dp_def field_simps)
qed

subsection \<open>Facts: confidence\<close>

lemma factor_scores:
  "fs_score (sizing_factor c) \<in> {0.6, 0.9}" "fs_score (classification_factor c) \<in> {0.45, 0.75, 0.9}"
  "fs_score (image_factor v) \<in> {0.35, 0.55, 0.9}" "fs_score (cost_factor c) \<in> {0.7, 0.9}"
  by (simp_all add: sizing_factor_def classification_factor_def image_factor_def cost_factor_def Let_def)

lemma factor_kinds [simp]:
  "fs_factor (sizing_factor c) = SIZING" "fs_factor (classification_factor c) = CLASSIFICATION"
  "fs_factor (image_factor v) = IMAGE" "fs_factor (cost_factor c) = COST"
  by (simp_all add: sizing_factor_def classification_factor_def image_factor_def cost_factor_def Let_def)

lemma workload_sum:
  "0.5325 \<le> 0.35 * fs_score (sizing_factor c) + 0.25 * fs_score (classification_factor c) + 0.2 * fs_score (image_factor v) + 0.2 * fs_score (cost_factor c)"
  "0.35 * fs_score (sizing_factor c) + 0.25 * fs_score (classification_factor c) + 0.2 * fs_score (image_factor v) + 0.2 * fs_score (cost_factor c) \<le> 0.9"
proof -
  have "0.6 \<le> fs_score (sizing_factor c) \<and> fs_score (sizing_factor c) \<le> 0.9" "0.45 \<le> fs_score (classification_factor c) \<and> fs_score (classification_factor c) \<le> 0.9"
    "0.35 \<le> fs_score (image_factor v) \<and> fs_score (image_factor v) \<le> 0.9" "0.7 \<le> fs_score (cost_factor c) \<and> fs_score (cost_factor c) \<le> 0.9"
    using factor_scores(1,2,4) [of c] factor_scores(3) [of v] by auto
  then show "0.5325 \<le> 0.35 * fs_score (sizing_factor c) + 0.25 * fs_score (classification_factor c) + 0.2 * fs_score (image_factor v) + 0.2 * fs_score (cost_factor c)"
    and "0.35 * fs_score (sizing_factor c) + 0.25 * fs_score (classification_factor c) + 0.2 * fs_score (image_factor v) + 0.2 * fs_score (cost_factor c) \<le> 0.9"
    by (simp_all add: power2_eq_square power4_eq_xxxx)
qed

lemma workload_bounds: "0.5325 \<le> cf_overall (score_workload c v) \<and> cf_overall (score_workload c v) \<le> 0.9"
proof -
  have "cf_overall (score_workload c v) = round_dp 4 (0.35 * fs_score (sizing_factor c) + 0.25 * fs_score (classification_factor c)
      + 0.2 * fs_score (image_factor v) + 0.2 * fs_score (cost_factor c))"
    by (simp add: score_workload_def WEIGHTS_def Let_def add.assoc)
  then show ?thesis
    using round_dp_between [of "0.5325" 4 5325 "0.9" 9000, OF _ _ workload_sum] by simp
qed

lemma sum_between: "\<forall>x \<in> set xs. lo \<le> x \<and> x \<le> hi \<Longrightarrow> of_nat (length xs) * lo \<le> sum_list xs \<and> sum_list xs \<le> of_nat (length xs) * (hi :: rat)"
  by (induction xs) (auto simp: algebra_simps)

lemma plan_confidence_bounds:
  assumes "plan_compute p \<noteq> []"
  shows "0.5325 \<le> pc_overall (score_plan p vms) \<and> pc_overall (score_plan p vms) \<le> 0.9"
proof -
  let ?ws = "pc_workloads (score_plan p vms)"
  have ws: "?ws \<noteq> []" "\<forall>x \<in> set (map cf_overall ?ws). 0.5325 \<le> x \<and> x \<le> 0.9"
    using assms workload_bounds by (auto simp: score_plan_def Let_def)
  have o: "pc_overall (score_plan p vms) = round_dp 4 (sum_list (map cf_overall ?ws) / of_nat (length ?ws))"
    using assms by (simp add: score_plan_def Let_def)
  have "(0 :: rat) < of_nat (length ?ws)" using ws(1) by simp
  then have "0.5325 \<le> sum_list (map cf_overall ?ws) / of_nat (length ?ws)" "sum_list (map cf_overall ?ws) / of_nat (length ?ws) \<le> 0.9"
    using sum_between [OF ws(2)] by (simp_all add: field_simps)
  then show ?thesis unfolding o by (intro round_dp_between [of _ 4 5325 _ 9000]) simp_all
qed

subsection \<open>Facts: transfer\<close>

definition volume_gib :: "compute_plan \<Rightarrow> int" where
  "volume_gib c = c_root_gib c + sum_list (c_extra_gib c)"

lemma gib_by_vm_distinct:
  assumes "distinct (map c_vm_name (plan_compute p))"
  shows "gib_by_vm p = map (\<lambda>c. (c_vm_name c, of_int (volume_gib c))) (plan_compute p)"
proof -
  have "distinct (map c_vm_name cs) \<Longrightarrow>
      foldl (\<lambda>d c. AList.update (c_vm_name c) (of_int (c_root_gib c) + of_int (sum_list (c_extra_gib c))) d) [] cs
        = map (\<lambda>c. (c_vm_name c, of_int (volume_gib c) :: rat)) cs" for cs
  proof (induction cs rule: rev_induct)
    case (snoc c cs)
    then have "c_vm_name c \<notin> set (keys (map (\<lambda>c. (c_vm_name c, of_int (volume_gib c) :: rat)) cs))" by auto
    then show ?case using snoc by (simp add: dict_update_append volume_gib_def)
  qed simp
  then show ?thesis using assms by (simp add: gib_by_vm_def)
qed

lemma gib_of_distinct:
  assumes "distinct (map c_vm_name (plan_compute p))" and "c \<in> set (plan_compute p)"
  shows "gib_of (gib_by_vm p) (c_vm_name c) = of_int (volume_gib c)"
proof -
  have "map_of (gib_by_vm p) (c_vm_name c) = Some (of_int (volume_gib c))"
    unfolding gib_by_vm_distinct [OF assms(1)] using assms
    by (subst map_of_eq_Some_iff) (auto simp: comp_def)
  then show ?thesis by (simp add: gib_of_def)
qed

lemma sum_list_mset_eq: "mset xs = mset ys \<Longrightarrow> sum_list (map f xs) = (sum_list (map f ys) :: rat)"
  by (metis mset_map sum_mset_sum_list)

lemma sum_concat: "sum_list (map f (concat (map g ws))) = (\<Sum>w \<leftarrow> ws. sum_list (map f (g w)))"
  by (induction ws) simp_all

lemma wave_gib:
  assumes "\<forall>n \<in> set (wv_workloads w). \<exists>k. gib_of d n = of_int k"
  shows "vt_gib (wave_transfer_of d mbps window w) = sum_list (map (gib_of d) (wv_workloads w))"
proof -
  have "\<forall>n \<in> set ns. \<exists>k. gib_of d n = of_int k \<Longrightarrow> sum_list (map (\<lambda>n. round_dp 1 (gib_of d n)) ns) = sum_list (map (gib_of d) ns)
      \<and> (\<exists>k. sum_list (map (gib_of d) ns) = of_int k)" for ns
  proof (induction ns)
    case (Cons n ns)
    then obtain j k where "gib_of d n = of_int j" "sum_list (map (gib_of d) ns) = of_int k"
      "sum_list (map (\<lambda>n. round_dp 1 (gib_of d n)) ns) = sum_list (map (gib_of d) ns)" by auto
    then show ?case by (auto intro: exI [of _ "j + k"])
  qed (simp add: exI [of _ 0])
  from this [OF assms] show ?thesis by (auto simp: wave_transfer_of_def Let_def comp_def)
qed

lemma transfer_totals:
  assumes "distinct (map c_vm_name (plan_compute p))"
  shows "te_total_gib (estimate_transfer p link share window (Some (plan_waves p))) = of_int (sum_list (map volume_gib (plan_compute p)))"
    and "sum_list (map vt_gib (te_waves (estimate_transfer p link share window (Some (plan_waves p))))) = of_int (sum_list (map volume_gib (plan_compute p)))"
proof -
  have s: "sum_list (map (\<lambda>c. of_int (volume_gib c) :: rat) cs) = of_int (sum_list (map volume_gib cs))" for cs
    by (induction cs) simp_all
  have t: "sum_list (map snd (gib_by_vm p)) = of_int (sum_list (map volume_gib (plan_compute p)))"
    by (simp add: gib_by_vm_distinct [OF assms] comp_def s)
  then show "te_total_gib (estimate_transfer p link share window (Some (plan_waves p))) = of_int (sum_list (map volume_gib (plan_compute p)))"
    by (simp add: estimate_transfer_def Let_def)
  let ?d = "gib_by_vm p"
  have names: "set (concat (map wv_workloads (plan_waves p))) = c_vm_name ` set (plan_compute p)"
    using mset_eq_setD [OF plan_waves_partition [of p]] by simp
  have "\<exists>k. gib_of ?d n = of_int k" if "n \<in> set (wv_workloads w)" "w \<in> set (plan_waves p)" for n w
  proof -
    have "n \<in> c_vm_name ` set (plan_compute p)" using that names by auto
    then show ?thesis using gib_of_distinct [OF assms] by auto
  qed
  then have "map (\<lambda>w. vt_gib (wave_transfer_of ?d m window w)) (plan_waves p) = map (\<lambda>w. sum_list (map (gib_of ?d) (wv_workloads w))) (plan_waves p)" for m
    by (intro map_cong refl wave_gib) blast
  then have "sum_list (map vt_gib (te_waves (estimate_transfer p link share window (Some (plan_waves p)))))
      = sum_list (map (\<lambda>w. sum_list (map (gib_of ?d) (wv_workloads w))) (plan_waves p))"
    unfolding estimate_transfer_def Let_def transfer_estimate.simps option.case map_map comp_def by (rule arg_cong)
  also have "\<dots> = sum_list (map (gib_of ?d) (concat (map wv_workloads (plan_waves p))))"
    by (rule sum_concat [symmetric])
  also have "\<dots> = sum_list (map (gib_of ?d) (map c_vm_name (plan_compute p)))"
    by (rule sum_list_mset_eq [OF plan_waves_partition])
  also have "\<dots> = sum_list (map (\<lambda>c. of_int (volume_gib c)) (plan_compute p))"
    by (rule arg_cong [of _ _ sum_list]) (simp add: gib_of_distinct [OF assms])
  finally show "sum_list (map vt_gib (te_waves (estimate_transfer p link share window (Some (plan_waves p))))) = of_int (sum_list (map volume_gib (plan_compute p)))"
    by (simp add: s)
qed

subsection \<open>Facts: managed databases\<close>

text \<open>Every engine has an entry in the table of the plan's cloud, or in that of AWS for a cloud without one.\<close>

lemma detect_engine_mem: "detect_engine n v \<in> insert ''unknown'' (fst ` set ENGINE_KEYWORDS)"
  by (auto simp: detect_engine_def dest!: find_Some_iff [THEN iffD1] split: option.split) (metis fst_conv image_eqI nth_mem)

lemma services_complete:
  assumes "e \<in> insert ''unknown'' (fst ` set ENGINE_KEYWORDS)"
  shows "map_of (services_for t) e \<noteq> None"
proof -
  have "list_all (\<lambda>(t, d). list_all (\<lambda>e. e \<in> set (keys d)) (''unknown'' # map fst ENGINE_KEYWORDS)) MANAGED_SERVICE"
    by (simp add: MANAGED_SERVICE_def ENGINE_KEYWORDS_def)
  moreover have "\<exists>n. (n, services_for t) \<in> set MANAGED_SERVICE"
  proof (cases "map_of MANAGED_SERVICE t")
    case None
    have "map_of MANAGED_SERVICE ''aws'' \<noteq> None" by (simp add: MANAGED_SERVICE_def)
    then obtain d where "map_of MANAGED_SERVICE ''aws'' = Some d" by auto
    then have "(''aws'', d) \<in> set MANAGED_SERVICE" "services_for t = d" using None by (simp_all add: services_for_def map_of_SomeD)
    then show ?thesis by blast
  qed (auto simp: services_for_def dest: map_of_SomeD)
  ultimately obtain n where "(\<lambda>(t, d). list_all (\<lambda>e. e \<in> set (keys d)) (''unknown'' # map fst ENGINE_KEYWORDS)) (n, services_for t)"
    unfolding list_all_iff by blast
  then have "\<forall>e \<in> set (''unknown'' # map fst ENGINE_KEYWORDS). e \<in> set (keys (services_for t))"
    by (simp only: case_prod_conv list_all_iff)
  then have "e \<in> set (keys (services_for t))" using assms by (simp only: list.set set_map)
  then show ?thesis by (simp only: map_of_None_keys not_not simp_thms)
qed

lemma other_cloud_gets_aws:
  "t \<notin> {''aws'', ''azure'', ''gcp''} \<Longrightarrow> services_for t = services_for ''aws''"
  by (simp add: services_for_def MANAGED_SERVICE_def)

end
