(* ===== verification/GraphFacts.thy ===== *)
theory GraphFacts
  imports Graph Targets
begin

text \<open>
  What the renderers rely on in the graph of a plan: its nodes by kind, that every machine and balancer is placed
  in a subnet of the plan, and lists of results that may fail.
\<close>

subsection \<open>The graph of a plan\<close>

lemma graph_nodes:
  "nodes_of (build_graph p) VPC = [vpc_node p]"
  "nodes_of (build_graph p) SUBNET = map subnet_node (net_subnets (plan_net p))"
  "nodes_of (build_graph p) SECURITY_GROUP = map group_node (net_security_groups (plan_net p))"
  "nodes_of (build_graph p) INSTANCE = map instance_node (plan_compute p)"
  "nodes_of (build_graph p) LOAD_BALANCER = map lb_node (net_load_balancers (plan_net p))"
  by (simp_all add: nodes_of_def build_graph_def Let_def vpc_node_def subnet_node_def group_node_def instance_node_def lb_node_def
      filter_map comp_def)

lemma fold_update_dom:
  "map_of (foldl (\<lambda>d x. AList.update (f x) (g x) d) d xs) k \<noteq> None \<longleftrightarrow> k \<in> f ` set xs \<or> map_of d k \<noteq> None"
  by (induction xs arbitrary: d) (auto simp del: map_of_eq_None_iff)

lemma assign_loop_dom:
  assumes "net_subnets net \<noteq> []"
  shows "v \<in> c_vm_name ` set cs \<or> map_of mapping v \<noteq> None \<Longrightarrow> map_of (assign_loop net counters mapping cs) v \<noteq> None"
proof (induction cs arbitrary: counters mapping)
  case (Cons c cs)
  let ?pool = "pool_for net (c_subnet_tier c)"
  let ?m = "AList.update (c_vm_name c) (?pool ! (counters (c_subnet_tier c) mod length ?pool)) mapping"
  have ne: "?pool \<noteq> []" using assms by (auto simp: pool_for_def)
  have "v \<in> c_vm_name ` set cs \<or> map_of ?m v \<noteq> None" using Cons.prems by auto
  from Cons.IH [OF this, of "counters(c_subnet_tier c := counters (c_subnet_tier c) + 1)"]
  show ?case using ne unfolding assign_loop.simps Let_def by (simp only: if_False simp_thms)
qed simp

text \<open>Machines and balancers are placed in subnets of the plan, and a machine always is when there are any.\<close>

lemma placed_in_subnet:
  assumes "e \<in> set (out_edges (build_graph p) i (Some PLACED_IN))"
  shows "ge_target e \<in> gn_id ` set (nodes_of (build_graph p) SUBNET)"
proof -
  let ?S = "subnet_id ` sn_resource_name ` set (net_subnets (plan_net p))"
  have pl: "x \<in> sn_resource_name ` set (net_subnets (plan_net p))" if "map_of (assign_subnets p) n = Some x" for n x
    by (rule assign_loop_range [OF that [unfolded assign_subnets_def]]) simp
  have k: "ge_kind e = PLACED_IN" "e \<in> set (g_edges (build_graph p))" using assms by (simp_all add: out_edges_def)
  have inst: "ge_target e \<in> ?S" if "e \<in> set (instance_edges (assign_subnets p) sgs c)" for sgs c
    using that k(1) by (auto simp: instance_edges_def Let_def edge_to_mem edge_def dest!: pl)
  have lb: "ge_target e \<in> ?S" if "e \<in> set (lb_edges (plan_net p) sgs iids lb)" for sgs iids lb
    using that k(1) by (auto simp: lb_edges_def Let_def edge_to_mem edge_def)
  have "ge_target e \<in> ?S"
    using k inst lb by (auto simp: build_graph_def Let_def edge_def)
  then show ?thesis by (simp add: graph_nodes subnet_node_def image_image)
qed

lemma machine_placed:
  assumes "net_subnets (plan_net p) \<noteq> []" and "[] \<notin> sn_resource_name ` set (net_subnets (plan_net p))" and "c \<in> set (plan_compute p)"
  shows "out_edges (build_graph p) (instance_id (c_resource_name c)) (Some PLACED_IN) \<noteq> []"
proof -
  have "map_of (assign_subnets p) (c_vm_name c) \<noteq> None"
    unfolding assign_subnets_def by (rule assign_loop_dom [OF assms(1)]) (use assms(3) in simp)
  then obtain x where x: "map_of (assign_subnets p) (c_vm_name c) = Some x" by blast
  have "x \<in> sn_resource_name ` set (net_subnets (plan_net p))"
    by (rule assign_loop_range [OF x [unfolded assign_subnets_def]]) simp
  then have "x \<noteq> []" using assms(2) by blast
  then have "edge (instance_id (c_resource_name c)) (subnet_id x) PLACED_IN
      \<in> set (out_edges (build_graph p) (instance_id (c_resource_name c)) (Some PLACED_IN))"
    using x assms(3) by (auto simp: out_edges_def build_graph_def Let_def edge_def instance_edges_def edge_to_mem intro!: bexI [of _ c])
  then show ?thesis by auto
qed

lemma those_all:
  assumes "\<And>x. x \<in> set xs \<Longrightarrow> \<exists>y. f x = Some y \<and> P x y"
  shows "\<exists>ys. those (map f xs) = Some ys \<and> list_all2 P xs ys"
  using assms by (induction xs) fastforce+

lemma those_mem: "those (map f xs) = Some ys \<Longrightarrow> y \<in> set ys \<Longrightarrow> \<exists>x \<in> set xs. f x = Some y"
  by (induction xs arbitrary: ys) (auto split: option.splits)

subsection \<open>Planned networks\<close>

lemma planned_subnets:
  assumes "plan_network cs t zone = Inr net"
  shows "net_subnets net \<noteq> []" and "[] \<notin> sn_resource_name ` set (net_subnets net)"
  using assms by (auto simp: plan_network_def upt_AZ subnet_of_az_def Let_def split: sum.splits prod.splits)

end
