(* ===== verification/Bicep.thy ===== *)
theory Bicep
  imports GraphFacts
begin

text \<open>
  \<open>renderers/bicep.py\<close>: the Bicep project of an Azure plan, from its infrastructure graph. A line is a list of
  pieces, so that the identifiers it refers to are known; printing a piece gives its text. \<open>None\<close> is an
  exception (a missing key, or no node for a machine). The README and the opening comments
  are left out.
\<close>

subsection \<open>Text\<close>

datatype piece = Txt string | Ref string

fun piece_text :: "piece \<Rightarrow> string" where
  "piece_text (Txt s) = s"
| "piece_text (Ref s) = s"

type_synonym line = "piece list"

definition line_text :: "line \<Rightarrow> string" where
  "line_text l = concat (map piece_text l)"

abbreviation NL :: char where "NL \<equiv> CHR 0x0A"
abbreviation QUOTE :: char where "QUOTE \<equiv> CHR 0x27"
abbreviation BACKSLASH :: char where "BACKSLASH \<equiv> CHR 0x5C"

text \<open>A literal of the template.\<close>

definition lit :: "string \<Rightarrow> string" where
  "lit s = QUOTE # s @ [QUOTE]"

definition upper_first :: "string \<Rightarrow> string" where
  "upper_first s =
     (case s of [] \<Rightarrow> [] | c # cs \<Rightarrow> (if is_ascii_lower c then char_of (code c - 32) else c) # lower cs)"

definition bicep_id :: "string \<Rightarrow> string" where
  "bicep_id name =
     (let parts = split_on CHR ''_'' (terraform_safe_name name)
      in hd parts @ concat (map upper_first (tl parts)))"

definition bicep_escape :: "char \<Rightarrow> string" where
  "bicep_escape c = (if c = BACKSLASH \<or> c = QUOTE then [BACKSLASH, c] else [c])"

definition bicep_str :: "string \<Rightarrow> string" where
  "bicep_str s = QUOTE # concat (map bicep_escape s) @ [QUOTE]"

subsection \<open>Resources\<close>

record bicep_resource =
  br_id :: string
  br_type :: string
  br_body :: "line list"

definition resource_lines :: "bicep_resource \<Rightarrow> line list" where
  "resource_lines r =
     [Txt (''resource '' @ br_id r @ '' '' @ lit (br_type r) @ '' = {'')] # br_body r @ [[Txt ''}''], []]"

definition port_range :: "int \<Rightarrow> int \<Rightarrow> string" where
  "port_range a b = (if a = b then str_of_int a else str_of_int a @ ''-'' @ str_of_int b)"

definition nsg_rule :: "ingress_rule \<Rightarrow> nat \<Rightarrow> line list" where
  "nsg_rule r priority =
     map (\<lambda>s. [Txt s])
       [''      {'',
        ''        name: '' @ bicep_str (''rule'' @ str_of_nat priority),
        ''        properties: {'',
        ''          priority: '' @ str_of_nat priority,
        ''          direction: '' @ lit ''Inbound'',
        ''          access: '' @ lit ''Allow'',
        ''          protocol: '' @ bicep_str (upper_first (in_protocol r)),
        ''          sourcePortRange: '' @ lit ''*'',
        ''          destinationPortRange: '' @ bicep_str (port_range (in_from_port r) (in_to_port r)),
        ''          sourceAddressPrefix: '' @ bicep_str (case in_cidrs r of [] \<Rightarrow> ''*'' | c # cs \<Rightarrow> c),
        ''          destinationAddressPrefix: '' @ lit ''*'',
        ''        }'',
        ''      }'']"

definition node_cidr :: "graph_node \<Rightarrow> string" where
  "node_cidr n = (case gn_attributes n of VpcAttrs c i g \<Rightarrow> c | SubnetAttrs c t z \<Rightarrow> c | _ \<Rightarrow> [])"

definition node_ingress :: "graph_node \<Rightarrow> ingress_rule list" where
  "node_ingress n = (case gn_attributes n of GroupAttrs d rs \<Rightarrow> rs | _ \<Rightarrow> [])"

definition vnet_resource :: "migration_plan \<Rightarrow> graph_node \<Rightarrow> bicep_resource" where
  "vnet_resource p vpc =
     \<lparr>br_id = bicep_id (''vnet-'' @ plan_project p), br_type = ''Microsoft.Network/virtualNetworks@2023-05-01'',
      br_body = map (\<lambda>s. [Txt s])
        [''  name: '' @ bicep_str (plan_project p @ ''-vnet''), ''  location: location'', ''  properties: {'',
         ''    addressSpace: { addressPrefixes: ['' @ bicep_str (node_cidr vpc) @ ''] }'', ''  }'']\<rparr>"

definition subnet_var :: "graph_node \<Rightarrow> string" where
  "subnet_var n = bicep_id (''subnet-'' @ gn_name n)"

definition subnet_resource :: "string \<Rightarrow> graph_node \<Rightarrow> bicep_resource" where
  "subnet_resource vnet n =
     \<lparr>br_id = subnet_var n, br_type = ''Microsoft.Network/virtualNetworks/subnets@2023-05-01'',
      br_body = [[Txt ''  parent: '', Ref vnet], [Txt (''  name: '' @ bicep_str (gn_name n))],
         [Txt (''  properties: { addressPrefix: '' @ bicep_str (node_cidr n) @ '' }'')]]\<rparr>"

definition nsg_var :: "graph_node \<Rightarrow> string" where
  "nsg_var n = bicep_id (''nsg-'' @ gn_name n)"

definition nsg_resource :: "graph_node \<Rightarrow> bicep_resource" where
  "nsg_resource n =
     \<lparr>br_id = nsg_var n, br_type = ''Microsoft.Network/networkSecurityGroups@2023-05-01'',
      br_body = [[Txt (''  name: '' @ bicep_str (gn_name n))], [Txt ''  location: location''], [Txt ''  properties: {''],
          [Txt ''    securityRules: [''] ]
        @ concat (map (\<lambda>(i, r). nsg_rule r (100 + i * 10)) (enumerate 0 (node_ingress n)))
        @ [[Txt ''    ]''], [Txt ''  }'']]\<rparr>"

definition vars_by_node :: "(graph_node \<Rightarrow> string) \<Rightarrow> graph_node list \<Rightarrow> (string, string) dict" where
  "vars_by_node f ns = foldl (\<lambda>d n. AList.update (gn_id n) (f n) d) [] ns"

definition public_ip :: "string \<Rightarrow> string \<Rightarrow> bicep_resource" where
  "public_ip var name =
     \<lparr>br_id = var, br_type = ''Microsoft.Network/publicIPAddresses@2023-05-01'',
      br_body = [[Txt (''  name: '' @ bicep_str (name @ ''-pip''))], [Txt ''  location: location''],
        [Txt (''  sku: { name: '' @ lit ''Standard'' @ '' }'')],
        [Txt (''  properties: { publicIPAllocationMethod: '' @ lit ''Static'' @ '' }'')]]\<rparr>"

definition probe_text :: "lb_listener \<Rightarrow> string" where
  "probe_text l = join [NL]
     [''      {'', ''        name: '' @ bicep_str (''probe'' @ str_of_int (ll_listener_port l)), ''        properties: {'',
      ''          protocol: '' @ lit ''Tcp'', ''          port: '' @ str_of_int (ll_target_port l),
      ''          intervalInSeconds: 15'', ''          numberOfProbes: 2'', ''        }'', ''      }'']"

definition rule_text :: "string \<Rightarrow> nat \<Rightarrow> lb_listener \<Rightarrow> line" where
  "rule_text var i l =
     [Txt (join [NL] [''      {'', ''        name: '' @ bicep_str (''rule'' @ str_of_int (ll_listener_port l)), ''        properties: {'',
        ''          frontendIPConfiguration: { id: '']),
      Ref var, Txt (''.properties.frontendIPConfigurations[0].id }'' @ [NL] @ ''          backendAddressPool: { id: ''),
      Ref var, Txt (''.properties.backendAddressPools[0].id }'' @ [NL] @ ''          probe: { id: ''),
      Ref var, Txt (''.properties.probes['' @ str_of_nat i @ ''].id }'' @ [NL] @ join [NL]
       [''          protocol: '' @ lit ''Tcp'', ''          frontendPort: '' @ str_of_int (ll_listener_port l),
        ''          backendPort: '' @ str_of_int (ll_target_port l), ''        }'', ''      }''])]"

text \<open>\<open>sep.join\<close> on lines.\<close>

fun join_lines :: "string \<Rightarrow> line list \<Rightarrow> line" where
  "join_lines sep [] = []"
| "join_lines sep [l] = l"
| "join_lines sep (l # ls) = l @ Txt sep # join_lines sep ls"

definition lb_var :: "graph_node \<Rightarrow> string" where
  "lb_var n = bicep_id (''lb-'' @ gn_name n)"

definition lb_resource :: "string \<Rightarrow> string \<Rightarrow> line list \<Rightarrow> lb_listener list \<Rightarrow> bicep_resource" where
  "lb_resource var name props listeners =
     \<lparr>br_id = var, br_type = ''Microsoft.Network/loadBalancers@2023-05-01'',
      br_body = [[Txt (''  name: '' @ bicep_str name)], [Txt ''  location: location''],
          [Txt (''  sku: { name: '' @ lit ''Standard'' @ '' }'')], [Txt ''  properties: {''], [Txt ''    frontendIPConfigurations: [''],
          [Txt ''      {''], [Txt (''        name: '' @ lit ''frontend'')]]
        @ props
        @ [[Txt ''      }''], [Txt ''    ]''], [Txt (''    backendAddressPools: [ { name: '' @ lit ''backendPool'' @ '' } ]'')],
           [Txt ''    probes: [''], join_lines ('','' @ [NL]) (map (\<lambda>l. [Txt (probe_text l)]) listeners), [Txt ''    ]''],
           [Txt ''    loadBalancingRules: [''],
           join_lines ('','' @ [NL]) (map (\<lambda>(i, l). rule_text var i l) (enumerate 0 listeners)), [Txt ''    ]''], [Txt ''  }'']]\<rparr>"

definition lb_resources ::
  "infra_graph \<Rightarrow> (string, string) dict \<Rightarrow> string \<Rightarrow> graph_node \<Rightarrow> bicep_resource list option" where
  "lb_resources g subs vnet n =
     (case gn_attributes n of
        LbAttrs t e s facing path listeners \<Rightarrow>
          (let var = lb_var n; pip = bicep_id (''pip-'' @ gn_name n);
               front = (if facing
                        then Some ([public_ip pip (gn_name n)], [[Txt ''        properties: { publicIPAddress: { id: '', Ref pip, Txt ''.id } }'']])
                        else case (case out_edges g (gn_id n) (Some PLACED_IN) of [] \<Rightarrow> Some vnet | e # es \<Rightarrow> map_of subs (ge_target e)) of
                               None \<Rightarrow> None
                             | Some v \<Rightarrow> Some ([], [[Txt ''        properties: {''], [Txt ''          subnet: { id: '', Ref v, Txt ''.id }''],
                                 [Txt (''          privateIPAllocationMethod: '' @ lit ''Dynamic'')], [Txt ''        }'']]))
           in case front of
                None \<Rightarrow> None
              | Some (ips, props) \<Rightarrow> Some (ips @
                  [lb_resource var (gn_name n) props listeners]))
      | _ \<Rightarrow> None)"

text \<open>The pool of a machine behind a balancer, by machine name.\<close>

definition backend_pools :: "infra_graph \<Rightarrow> (string, string) dict" where
  "backend_pools g =
     foldl (\<lambda>d n. foldl (\<lambda>d e. case node_by_id g (ge_target e) of None \<Rightarrow> d | Some t \<Rightarrow> AList.update (gn_name t) (lb_var n) d)
              d (out_edges g (gn_id n) (Some FRONTS)))
       [] (nodes_of g LOAD_BALANCER)"

definition ref_text :: "(string, ref_value) dict \<Rightarrow> string \<Rightarrow> string option" where
  "ref_text d k = (case map_of d k of Some (RStr s) \<Rightarrow> Some s | _ \<Rightarrow> None)"

definition os_profile :: "bool \<Rightarrow> string \<Rightarrow> line list" where
  "os_profile windows name = map (\<lambda>s. [Txt s])
     (if windows
      then [''    osProfile: {'', ''      computerName: '' @ bicep_str name, ''      adminUsername: adminUsername'',
            ''      adminPassword: adminPassword'', ''    }'']
      else [''    osProfile: {'', ''      computerName: '' @ bicep_str name, ''      adminUsername: adminUsername'',
            ''      linuxConfiguration: {'', ''        disablePasswordAuthentication: true'',
            ''        ssh: { publicKeys: [ { path: '' @ lit ''/home/${adminUsername}/.ssh/authorized_keys'' @ '', keyData: adminSshPublicKey } ] }'',
            ''      }'', ''    }''])"

definition nic_resource :: "string \<Rightarrow> string \<Rightarrow> string \<Rightarrow> string option \<Rightarrow> string option \<Rightarrow> string list \<Rightarrow> bicep_resource" where
  "nic_resource var name subnet pip pool sgs =
     \<lparr>br_id = var, br_type = ''Microsoft.Network/networkInterfaces@2023-05-01'',
      br_body = [[Txt (''  name: '' @ bicep_str (name @ ''-nic''))], [Txt ''  location: location''], [Txt ''  properties: {''],
          [Txt ''    ipConfigurations: [''], [Txt ''      {''], [Txt (''        name: '' @ lit ''internal'')],
          [Txt ''        properties: {''], [Txt ''          subnet: { id: '', Ref subnet, Txt ''.id }''],
          [Txt (''          privateIPAllocationMethod: '' @ lit ''Dynamic'')]]
        @ (case pip of None \<Rightarrow> [] | Some v \<Rightarrow> [[Txt ''          publicIPAddress: { id: '', Ref v, Txt ''.id }'']])
        @ (case pool of None \<Rightarrow> [] | Some v \<Rightarrow> [[Txt ''          loadBalancerBackendAddressPools: [ { id: '', Ref v,
             Txt ''.properties.backendAddressPools[0].id } ]'']])
        @ [[Txt ''        }''], [Txt ''      }''], [Txt ''    ]'']]
        @ (case sgs of [] \<Rightarrow> [] | v # vs \<Rightarrow> [[Txt ''    networkSecurityGroup: { id: '', Ref v, Txt ''.id }'']])
        @ [[Txt ''  }'']]\<rparr>"

definition vm_resource ::
  "string \<Rightarrow> string \<Rightarrow> bool \<Rightarrow> string \<times> string \<times> string \<Rightarrow> compute_plan \<Rightarrow> bicep_resource" where
  "vm_resource var nic windows ref c =
     (let (publisher, offer, sku) = ref in
      \<lparr>br_id = var, br_type = ''Microsoft.Compute/virtualMachines@2023-09-01'',
       br_body = [[Txt (''  name: '' @ bicep_str (c_resource_name c))], [Txt ''  location: location''], [Txt ''  properties: {''],
           [Txt (''    hardwareProfile: { vmSize: '' @ bicep_str (c_instance_type c) @ '' }'')]]
         @ os_profile windows (c_resource_name c)
         @ [[Txt ''    storageProfile: {''], [Txt ''      imageReference: {''], [Txt (''        publisher: '' @ bicep_str publisher)],
            [Txt (''        offer: '' @ bicep_str offer)], [Txt (''        sku: '' @ bicep_str sku)], [Txt (''        version: '' @ lit ''latest'')],
            [Txt ''      }''],
            [Txt (''      osDisk: { createOption: '' @ lit ''FromImage'' @ '', diskSizeGB: '' @ str_of_int (c_root_gib c)
                @ '', managedDisk: { storageAccountType: '' @ lit ''StandardSSD_LRS'' @ '' } }'')],
            [Txt ''    }''], [Txt ''    networkProfile: { networkInterfaces: [ { id: '', Ref nic, Txt ''.id } ] }''], [Txt ''  }''],
            [Txt ''  tags: {''], [Txt (''    tier: '' @ bicep_str (tier_value (c_tier c)))],
            [Txt (''    environment: '' @ bicep_str (env_value (c_environment c)))], [Txt ''  }'']]\<rparr>)"

text \<open>A machine is its network interface and itself, and first a public address when it gets one.\<close>

definition machine_resources ::
  "compute_plan \<Rightarrow> string option \<Rightarrow> string list \<Rightarrow> bool \<Rightarrow> bool \<Rightarrow> string \<Rightarrow> string \<times> string \<times> string \<Rightarrow> bicep_resource list" where
  "machine_resources c pool sgs windows public subnet ref =
     (let name = c_resource_name c; pip = bicep_id (''pip-'' @ name); nic = bicep_id (''nic-'' @ name)
      in (if public then [public_ip pip name] else [])
         @ [nic_resource nic name subnet (if public then Some pip else None) pool sgs, vm_resource (bicep_id (''vm-'' @ name)) nic windows ref c])"

text \<open>The subnet is the text \<open>None\<close> when the machine is placed in none.\<close>

definition compute_resources ::
  "infra_graph \<Rightarrow> target \<Rightarrow> (string, string) dict \<Rightarrow> (string, string) dict \<Rightarrow> (string, string) dict \<Rightarrow> compute_plan list \<Rightarrow> compute_plan
    \<Rightarrow> bicep_resource list option" where
  "compute_resources g t subs groups pools cs c =
     (case find (\<lambda>n. gn_name n = c_vm_name c) (nodes_of g INSTANCE) of
        None \<Rightarrow> None
      | Some inst \<Rightarrow>
          (case gn_attributes inst of
             InstanceAttrs ity tr env st vcpu mem img rgib extra \<Rightarrow>
               (let subnet = (case out_edges g (gn_id inst) (Some PLACED_IN) of [] \<Rightarrow> Some ''None'' | e # es \<Rightarrow> map_of subs (ge_target e));
                    sgs = List.map_filter (\<lambda>e. map_of groups (ge_target e)) (out_edges g (gn_id inst) (Some SECURED_BY));
                    ref = t_image_reference t img;
                    windows = (case map_of (foldl (\<lambda>d x. AList.update (c_resource_name x) (starts_with ''windows'' (c_image_key x)) d) [] cs) (c_resource_name c) of
                                 None \<Rightarrow> False | Some w \<Rightarrow> w);
                    pool = map_of pools (c_vm_name c);
                    machine = machine_resources c pool sgs windows
                in case (subnet, ref_text ref ''publisher'', ref_text ref ''offer'', ref_text ref ''sku'') of
                     (Some sn, Some publisher, Some offer, Some sku) \<Rightarrow>
                       Some (machine (st = PUBLIC \<and> pool = None) sn (publisher, offer, sku))
                   | _ \<Rightarrow> None)
           | _ \<Rightarrow> None))"

definition bicep_resources :: "infra_graph \<Rightarrow> migration_plan \<Rightarrow> target \<Rightarrow> bicep_resource list option" where
  "bicep_resources g p t =
     (case nodes_of g VPC of
        [] \<Rightarrow> None
      | vpc # vs \<Rightarrow>
          (let vnet = vnet_resource p vpc;
               subs = vars_by_node subnet_var (nodes_of g SUBNET); groups = vars_by_node nsg_var (nodes_of g SECURITY_GROUP)
           in case (those (map (lb_resources g subs (br_id vnet)) (nodes_of g LOAD_BALANCER)),
                    those (map (compute_resources g t subs groups (backend_pools g) (plan_compute p)) (plan_compute p))) of
                (Some lbs, Some vms) \<Rightarrow>
                  Some ([vnet] @ map (subnet_resource (br_id vnet)) (nodes_of g SUBNET) @ map nsg_resource (nodes_of g SECURITY_GROUP)
                    @ concat lbs @ concat vms)
              | _ \<Rightarrow> None))"

definition resources_bicep :: "infra_graph \<Rightarrow> migration_plan \<Rightarrow> target \<Rightarrow> string option" where
  "resources_bicep g p t =
     map_option (\<lambda>rs. join [NL] (
         [''param location string'', ''param adminUsername string = '' @ lit ''azureuser'', ''@secure()'',
          ''param adminPassword string = '' @ lit [], ''param adminSshPublicKey string = '' @ lit [], []]
         @ map line_text (concat (map resource_lines rs))))
       (bicep_resources g p t)"

definition main_bicep :: "migration_plan \<Rightarrow> string" where
  "main_bicep p = join [NL]
     [''targetScope = '' @ lit ''subscription'', [],
      ''param location string = '' @ bicep_str (plan_region p), ''param adminUsername string = '' @ lit ''azureuser'', ''@secure()'',
      ''param adminPassword string = '' @ lit [], ''param adminSshPublicKey string = '' @ lit [], [],
      ''resource rg '' @ lit ''Microsoft.Resources/resourceGroups@2023-07-01'' @ '' = {'', ''  name: '' @ bicep_str (plan_project p @ ''-rg''),
      ''  location: location'', ''}'', [], ''module resources '' @ lit ''resources.bicep'' @ '' = {'', ''  name: '' @ lit ''resources'',
      ''  scope: rg'', ''  params: {'', ''    location: location'', ''    adminUsername: adminUsername'', ''    adminPassword: adminPassword'',
      ''    adminSshPublicKey: adminSshPublicKey'', ''  }'', ''}'', []]"

datatype bicep_error = NotSupported | RenderFailed

definition build_bicep_files :: "migration_plan \<Rightarrow> target \<Rightarrow> bicep_error + (string, string) dict" where
  "build_bicep_files p t =
     (if t_name t \<noteq> ''azure'' then Inl NotSupported
      else case resources_bicep (build_graph p) p t of
             None \<Rightarrow> Inl RenderFailed
           | Some out \<Rightarrow> Inr [(''main.bicep'', main_bicep p), (''resources.bicep'', out)])"

subsection \<open>References\<close>

definition line_refs :: "line \<Rightarrow> string list" where
  "line_refs l = concat (map (\<lambda>x. case x of Ref s \<Rightarrow> [s] | Txt s \<Rightarrow> []) l)"

definition refs :: "bicep_resource \<Rightarrow> string list" where
  "refs r = concat (map line_refs (br_body r))"

text \<open>Every identifier a resource refers to is the identifier of a resource.\<close>

definition closed_refs :: "bicep_resource list \<Rightarrow> bool" where
  "closed_refs rs \<longleftrightarrow> set (concat (map refs rs)) \<subseteq> set (map br_id rs)"

lemma line_refs_simps [simp]:
  "line_refs [] = []" "line_refs (Txt s # l) = line_refs l" "line_refs (Ref s # l) = s # line_refs l"
  "line_refs (l @ l') = line_refs l @ line_refs l'"
  by (simp_all add: line_refs_def)

lemma line_refs_join: "set (line_refs (join_lines sep ls)) = (\<Union>l \<in> set ls. set (line_refs l))"
  by (induction sep ls rule: join_lines.induct) auto

lemma refs_text [simp]: "concat (map line_refs (map (\<lambda>s. [Txt s]) ss)) = []"
  by (induction ss) simp_all

lemma refs_vnet [simp]: "refs (vnet_resource p v) = []"
  by (simp add: refs_def vnet_resource_def)

lemma refs_subnet [simp]: "refs (subnet_resource v n) = [v]"
  by (simp add: refs_def subnet_resource_def)

lemma refs_nsg [simp]: "refs (nsg_resource n) = []"
proof -
  have "concat (map line_refs (concat (map (\<lambda>(i, r). nsg_rule r (f i)) irs))) = []" for f :: "nat \<Rightarrow> nat" and irs
    by (induction irs) (auto simp: nsg_rule_def)
  then show ?thesis by (simp add: refs_def nsg_resource_def)
qed

lemma refs_public_ip [simp]: "refs (public_ip v n) = []" "br_id (public_ip v n) = v"
  by (simp_all add: refs_def public_ip_def)

lemma refs_nic: "refs (nic_resource v n s pip pool sgs) =
    s # (case pip of None \<Rightarrow> [] | Some x \<Rightarrow> [x]) @ (case pool of None \<Rightarrow> [] | Some x \<Rightarrow> [x]) @ take 1 sgs"
  by (simp add: refs_def nic_resource_def split: option.split list.split)

lemma refs_vm [simp]: "refs (vm_resource v nic w ref c) = [nic]"
  by (simp add: refs_def vm_resource_def os_profile_def split: prod.split)

lemma refs_lb: "set (refs (lb_resource v n props ls)) \<subseteq> insert v (set (concat (map line_refs props)))"
  by (auto simp: refs_def lb_resource_def line_refs_join rule_text_def)

lemma br_ids [simp]:
  "br_id (lb_resource v n props ls) = v"
  "br_id (nic_resource v n s pip pool sgs) = v" "br_id (vm_resource v nic w ref c) = v"
  "br_id (subnet_resource x m) = subnet_var m" "br_id (nsg_resource m) = nsg_var m"
  by (simp_all add: lb_resource_def nic_resource_def vm_resource_def subnet_resource_def nsg_resource_def split: prod.split)

lemma vars_by_node_dom: "i \<in> gn_id ` set ns \<Longrightarrow> \<exists>v. map_of (vars_by_node f ns) i = Some v"
  using fold_update_dom [of gn_id f "[]" ns i] by (auto simp: vars_by_node_def simp del: map_of_eq_None_iff)

lemma vars_by_node_range: "map_of (vars_by_node f ns) i = Some v \<Longrightarrow> v \<in> f ` set ns"
  unfolding vars_by_node_def by (rule fold_update_range) auto

lemma backend_pools_range:
  assumes "map_of (backend_pools g) v = Some x"
  shows "x \<in> lb_var ` set (nodes_of g LOAD_BALANCER)"
proof -
  let ?A = "lb_var ` set (nodes_of g LOAD_BALANCER)"
  let ?pick = "\<lambda>n d e. case node_by_id g (ge_target e) of None \<Rightarrow> d | Some t \<Rightarrow> AList.update (gn_name t) (lb_var n) d"
  have inner: "ran (map_of (foldl (?pick n) d es)) \<subseteq> A" if "ran (map_of d) \<subseteq> A" "lb_var n \<in> A" for n A d es
    using that
  proof (induction es arbitrary: d)
    case (Cons e es)
    have "ran (map_of (?pick n d e)) \<subseteq> A" using Cons.prems by (auto simp: ran_def split: option.split if_splits)
    then show ?case using Cons.IH Cons.prems(2) by simp
  qed simp
  have "ran (map_of (foldl (\<lambda>d n. foldl (?pick n) d (out_edges g (gn_id n) (Some FRONTS))) d ns)) \<subseteq> ?A"
    if "ran (map_of d) \<subseteq> ?A" "set ns \<subseteq> set (nodes_of g LOAD_BALANCER)" for d ns
    using that
  proof (induction ns arbitrary: d)
    case (Cons n ns)
    have "ran (map_of (foldl (?pick n) d (out_edges g (gn_id n) (Some FRONTS)))) \<subseteq> ?A"
      by (rule inner) (use Cons.prems in auto)
    then show ?case using Cons.IH Cons.prems(2) by simp
  qed simp
  from this [of "[]" "nodes_of g LOAD_BALANCER"] show ?thesis
    using assms by (auto simp: backend_pools_def ran_def)
qed

subsection \<open>What the renderer returns\<close>

definition shared_ids :: "migration_plan \<Rightarrow> string set" where
  "shared_ids p = insert (br_id (vnet_resource p (vpc_node p)))
     (subnet_var ` set (nodes_of (build_graph p) SUBNET) \<union> nsg_var ` set (nodes_of (build_graph p) SECURITY_GROUP))"

definition refs_within :: "string set \<Rightarrow> bicep_resource list \<Rightarrow> bool" where
  "refs_within A rs \<longleftrightarrow> set (concat (map refs rs)) \<subseteq> set (map br_id rs) \<union> A"

lemma lb_rendered:
  assumes "lb \<in> set (net_load_balancers (plan_net p))"
  shows "\<exists>rs. lb_resources (build_graph p) (vars_by_node subnet_var (nodes_of (build_graph p) SUBNET))
      (br_id (vnet_resource p (vpc_node p))) (lb_node lb) = Some rs
    \<and> lb_var (lb_node lb) \<in> set (map br_id rs) \<and> refs_within (shared_ids p) rs"
proof -
  let ?subs = "vars_by_node subnet_var (nodes_of (build_graph p) SUBNET)"
  let ?vnet = "br_id (vnet_resource p (vpc_node p))"
  let ?es = "out_edges (build_graph p) (gn_id (lb_node lb)) (Some PLACED_IN)"
  have attrs: "gn_attributes (lb_node lb) = LbAttrs (lb_tier lb) (lb_environment lb) (lb_subnet_tier lb) (internet_facing lb)
        (lb_health_path lb) (lb_listeners lb)" by (simp add: lb_node_def)
  obtain x where x: "(case ?es of [] \<Rightarrow> Some ?vnet | e # es \<Rightarrow> map_of ?subs (ge_target e)) = Some x" and m: "x \<in> shared_ids p"
  proof (cases ?es)
    case Nil
    then show thesis using that by (simp add: shared_ids_def)
  next
    case (Cons e es)
    then have "ge_target e \<in> gn_id ` set (nodes_of (build_graph p) SUBNET)" by (intro placed_in_subnet [of e p "gn_id (lb_node lb)"]) simp
    from vars_by_node_dom [OF this, of subnet_var] obtain v where v: "map_of ?subs (ge_target e) = Some v" ..
    then show thesis using that [of v] Cons vars_by_node_range [OF v] by (simp add: shared_ids_def)
  qed
  show ?thesis
  proof (cases "internet_facing lb")
    case True
    then show ?thesis
      unfolding lb_resources_def attrs attributes.case Let_def x
      using refs_lb [of "lb_var (lb_node lb)" "gn_name (lb_node lb)" "[[Txt ''        properties: { publicIPAddress: { id: '', Ref (bicep_id (''pip-'' @ gn_name (lb_node lb))), Txt ''.id } }'']]" "lb_listeners lb"]
      by (auto simp: refs_within_def)
  next
    case False
    then show ?thesis
      unfolding lb_resources_def attrs attributes.case Let_def x
      using m refs_lb [of "lb_var (lb_node lb)" "gn_name (lb_node lb)" "[[Txt ''        properties: {''], [Txt ''          subnet: { id: '', Ref x, Txt ''.id }''],
          [Txt (''          privateIPAllocationMethod: '' @ lit ''Dynamic'')], [Txt ''        }'']]" "lb_listeners lb"]
      by (auto simp: refs_within_def)
  qed
qed

text \<open>The references to an image that the renderer reads.\<close>

definition image_ref_ok :: "target \<Rightarrow> bool" where
  "image_ref_ok t \<longleftrightarrow> (\<forall>img. \<forall>k \<in> {''publisher'', ''offer'', ''sku''}. ref_text (t_image_reference t img) k \<noteq> None)"

lemma compute_rendered:
  assumes "net_subnets (plan_net p) \<noteq> []" and "[] \<notin> sn_resource_name ` set (net_subnets (plan_net p))" and "image_ref_ok t"
    and "c \<in> set (plan_compute p)"
  shows "\<exists>rs. compute_resources (build_graph p) t (vars_by_node subnet_var (nodes_of (build_graph p) SUBNET))
      (vars_by_node nsg_var (nodes_of (build_graph p) SECURITY_GROUP)) (backend_pools (build_graph p)) (plan_compute p) c = Some rs
    \<and> bicep_id (''vm-'' @ c_resource_name c) \<in> set (map br_id rs)
    \<and> refs_within (shared_ids p \<union> lb_var ` set (nodes_of (build_graph p) LOAD_BALANCER)) rs"
proof -
  let ?g = "build_graph p"
  let ?subs = "vars_by_node subnet_var (nodes_of ?g SUBNET)"
  let ?groups = "vars_by_node nsg_var (nodes_of ?g SECURITY_GROUP)"
  obtain inst where inst: "find (\<lambda>n. gn_name n = c_vm_name c) (nodes_of ?g INSTANCE) = Some inst"
    using assms(4) by (cases "find (\<lambda>n. gn_name n = c_vm_name c) (nodes_of ?g INSTANCE)")
      (auto simp: find_None_iff graph_nodes instance_node_def)
  then have "inst \<in> set (nodes_of ?g INSTANCE)" by (auto simp: find_Some_iff)
  then obtain d where d: "d \<in> set (plan_compute p)" "inst = instance_node d" by (auto simp: graph_nodes)
  let ?es = "out_edges ?g (gn_id inst) (Some PLACED_IN)"
  have "?es \<noteq> []" using machine_placed [OF assms(1,2) d(1)] by (simp add: d(2) instance_node_def)
  then obtain e es where es: "?es = e # es" by (cases ?es) auto
  then have "ge_target e \<in> gn_id ` set (nodes_of ?g SUBNET)" by (intro placed_in_subnet [of e p "gn_id inst"]) simp
  from vars_by_node_dom [OF this, of subnet_var] obtain v where v: "map_of ?subs (ge_target e) = Some v" ..
  have vm: "v \<in> shared_ids p" using vars_by_node_range [OF v] by (simp add: shared_ids_def)
  define sgs where "sgs = List.map_filter (\<lambda>e. map_of ?groups (ge_target e)) (out_edges ?g (gn_id inst) (Some SECURED_BY))"
  have sgm: "set sgs \<subseteq> shared_ids p"
    by (auto simp: sgs_def map_filter_mem shared_ids_def dest!: vars_by_node_range)
  have pm: "x \<in> lb_var ` set (nodes_of ?g LOAD_BALANCER)" if "map_of (backend_pools ?g) n = Some x" for n x
    using that by (rule backend_pools_range)
  let ?ref = "t_image_reference t (c_image_key d)"
  obtain pub off sku where img: "ref_text ?ref ''publisher'' = Some pub" "ref_text ?ref ''offer'' = Some off" "ref_text ?ref ''sku'' = Some sku"
    using assms(3) unfolding image_ref_ok_def by (metis insertCI option.exhaust)
  have tk: "set (take 1 sgs) \<subseteq> shared_ids p" using sgm set_take_subset by fast
  have attrs: "gn_attributes inst = InstanceAttrs (c_instance_type d) (c_tier d) (c_environment d) (c_subnet_tier d)
        (c_vcpu d) (c_memory d) (c_image_key d) (c_root_gib d) (c_extra_gib d)" by (simp add: d(2) instance_node_def)
  have m: "refs_within (shared_ids p \<union> lb_var ` set (nodes_of ?g LOAD_BALANCER))
      (machine_resources c (map_of (backend_pools ?g) n) sgs w public v r)" for n w public r
    using vm tk pm [of n] by (auto simp: refs_within_def machine_resources_def Let_def refs_nic split: option.splits)
  have i: "bicep_id (''vm-'' @ c_resource_name c) \<in> set (map br_id (machine_resources c pool sgs w public v r))" for pool w public r
    by (simp add: machine_resources_def Let_def)
  show ?thesis
    unfolding compute_resources_def inst option.case attrs attributes.case Let_def es list.case v img prod.case sgs_def [symmetric]
    using m i by blast
qed

lemma refs_within_concat:
  assumes "list_all2 (\<lambda>x ys. refs_within A ys) xs yss"
  shows "refs_within A (concat yss)"
  using assms
proof (induction rule: list_all2_induct)
  case (Cons x xs y ys)
  then have "set (concat (map refs y)) \<subseteq> set (map br_id y) \<union> A" "set (concat (map refs (concat ys))) \<subseteq> set (map br_id (concat ys)) \<union> A"
    by (simp_all only: refs_within_def)
  then show ?case unfolding refs_within_def concat.simps map_append concat_append set_append by blast
qed (simp add: refs_within_def)

text \<open>Rendering succeeds, every reference is to a resource of the file, and every machine has its resource.\<close>

lemma bicep_rendered:
  assumes "net_subnets (plan_net p) \<noteq> []" and "[] \<notin> sn_resource_name ` set (net_subnets (plan_net p))" and "image_ref_ok t"
  shows "\<exists>rs. bicep_resources (build_graph p) p t = Some rs \<and> closed_refs rs
    \<and> (\<forall>c \<in> set (plan_compute p). bicep_id (''vm-'' @ c_resource_name c) \<in> set (map br_id rs))"
proof -
  let ?g = "build_graph p"
  let ?subs = "vars_by_node subnet_var (nodes_of ?g SUBNET)" and ?groups = "vars_by_node nsg_var (nodes_of ?g SECURITY_GROUP)"
  let ?vnet = "vnet_resource p (vpc_node p)"
  let ?L = "lb_var ` set (nodes_of ?g LOAD_BALANCER)"
  have "\<exists>rs. lb_resources ?g ?subs (br_id ?vnet) n = Some rs \<and> lb_var n \<in> set (map br_id rs) \<and> refs_within (shared_ids p) rs"
    if n: "n \<in> set (nodes_of ?g LOAD_BALANCER)" for n
    using n lb_rendered by (auto simp only: graph_nodes list.set_map)
  from those_all [of "nodes_of ?g LOAD_BALANCER" "lb_resources ?g ?subs (br_id ?vnet)", OF this] obtain lbs where lbs: "those (map (lb_resources ?g ?subs (br_id ?vnet)) (nodes_of ?g LOAD_BALANCER)) = Some lbs"
    "list_all2 (\<lambda>n rs. lb_var n \<in> set (map br_id rs) \<and> refs_within (shared_ids p) rs) (nodes_of ?g LOAD_BALANCER) lbs" by blast
  from those_all [of "plan_compute p" "compute_resources ?g t ?subs ?groups (backend_pools ?g) (plan_compute p)", OF compute_rendered [OF assms]] obtain vms where
    vms: "those (map (compute_resources ?g t ?subs ?groups (backend_pools ?g) (plan_compute p)) (plan_compute p)) = Some vms"
    "list_all2 (\<lambda>c rs. bicep_id (''vm-'' @ c_resource_name c) \<in> set (map br_id rs) \<and> refs_within (shared_ids p \<union> ?L) rs) (plan_compute p) vms" by blast
  define rs where "rs = [?vnet] @ map (subnet_resource (br_id ?vnet)) (nodes_of ?g SUBNET) @ map nsg_resource (nodes_of ?g SECURITY_GROUP)
      @ concat lbs @ concat vms"
  have r: "bicep_resources ?g p t = Some rs"
    by (simp add: bicep_resources_def graph_nodes(1) Let_def lbs(1) vms(1) rs_def)
  have L: "?L \<subseteq> set (map br_id (concat lbs))"
    using lbs(2) by (induction rule: list_all2_induct) auto
  have V: "\<forall>c \<in> set (plan_compute p). bicep_id (''vm-'' @ c_resource_name c) \<in> set (map br_id (concat vms))"
    using vms(2) by (induction rule: list_all2_induct) auto
  have "list_all2 (\<lambda>x ys. refs_within (shared_ids p) ys) (nodes_of ?g LOAD_BALANCER) lbs"
    "list_all2 (\<lambda>x ys. refs_within (shared_ids p \<union> ?L) ys) (plan_compute p) vms"
    using lbs(2) vms(2) by (auto elim: list_all2_mono)
  note w = refs_within_concat [OF this(1), unfolded refs_within_def] refs_within_concat [OF this(2), unfolded refs_within_def]
  have S: "shared_ids p \<subseteq> set (map br_id rs)" by (auto simp: shared_ids_def rs_def)
  have I: "br_id ?vnet \<in> set (map br_id rs)" "set (map br_id (concat lbs)) \<subseteq> set (map br_id rs)" "set (map br_id (concat vms)) \<subseteq> set (map br_id rs)"
    by (auto simp: rs_def)
  have "set (concat (map refs rs)) \<subseteq> insert (br_id ?vnet) (set (concat (map refs (concat lbs))) \<union> set (concat (map refs (concat vms))))"
    by (auto simp: rs_def)
  also have "\<dots> \<subseteq> set (map br_id rs)"
    using w L S I by blast
  finally have "closed_refs rs" by (simp add: closed_refs_def)
  then show ?thesis using r V by (auto simp: rs_def)
qed

subsection \<open>Identifiers and strings\<close>

definition bicep_name_ok :: "string \<Rightarrow> bool" where
  "bicep_name_ok s \<longleftrightarrow> (case s of [] \<Rightarrow> False | c # cs \<Rightarrow> is_ascii_alpha c \<and> list_all is_ascii_alnum cs)"

lemma split_on_chars: "w \<in> set (split_on d s) \<Longrightarrow> c \<in> set w \<Longrightarrow> c \<in> set s \<and> c \<noteq> d"
  by (induction d s arbitrary: w rule: split_on.induct) (fastforce split: if_splits list.splits)+

lemma lower_alnum: "is_ascii_alnum c \<Longrightarrow> is_ascii_alnum (lower_char c)"
  by (auto simp: is_ascii_alnum_def is_ascii_alpha_def is_ascii_lower_def is_ascii_upper_def is_digit_def code_lower_char)

lemma upper_alnum: "is_ascii_lower c \<Longrightarrow> is_ascii_alnum (char_of (code c - 32))"
  by (auto simp: is_ascii_alnum_def is_ascii_alpha_def is_ascii_lower_def is_ascii_upper_def)

lemma upper_first_alnum: "list_all is_ascii_alnum s \<Longrightarrow> list_all is_ascii_alnum (upper_first s)"
  by (auto simp: upper_first_def list_all_iff lower_alnum upper_alnum split: list.split)

lemma safe_name_start: "is_ascii_alpha (hd (terraform_safe_name s)) \<and> (\<forall>c \<in> set (terraform_safe_name s). is_ascii_alnum c \<or> c = CHR ''_'')"
proof -
  define slug where "slug = (if tf_slug s = [] then ''resource'' else tf_slug s)"
  have "tf_slug s \<noteq> [] \<Longrightarrow> hd (tf_slug s) \<noteq> CHR ''_''" using strip_by_hd by (fastforce simp: tf_slug_def)
  then have h: "hd slug \<noteq> CHR ''_''" by (simp add: slug_def)
  have all: "\<forall>c \<in> set slug. is_ascii_alnum c \<or> c = CHR ''_''"
    using tf_slug_chars by (auto simp: slug_def char_class_defs)
  have n: "terraform_safe_name s = (if is_ascii_alpha (hd slug) \<or> hd slug = CHR ''_'' then slug else ''r_'' @ slug)"
    by (simp add: terraform_safe_name_def Let_def slug_def)
  have r: "is_ascii_alpha CHR ''r''" "is_ascii_alnum CHR ''r''" by (simp_all add: char_class_defs)
  show ?thesis unfolding n using h all r by auto
qed

lemma split_on_hd: "s \<noteq> [] \<Longrightarrow> hd s \<noteq> d \<Longrightarrow> \<exists>w. hd (split_on d s) = hd s # w"
  by (cases s) (auto split: list.split)

text \<open>Every identifier is a letter followed by letters and digits.\<close>

lemma bicep_id_ok: "bicep_name_ok (bicep_id s)"
proof -
  let ?n = "terraform_safe_name s"
  let ?parts = "split_on CHR ''_'' ?n"
  have "hd ?n \<noteq> CHR ''_''" using safe_name_start [of s] by (auto simp: char_class_defs)
  then obtain w where w: "hd ?parts = hd ?n # w" using split_on_hd [of ?n "CHR ''_''"] by auto
  have parts: "list_all is_ascii_alnum x" if "x \<in> set ?parts" for x
    using split_on_chars [OF that] safe_name_start [of s] by (fastforce simp: list_all_iff)
  have "list_all is_ascii_alnum (hd ?n # w)" using parts [OF hd_in_set [OF split_on_ne]] by (simp add: w)
  moreover have "list_all is_ascii_alnum (concat (map upper_first (tl ?parts)))"
    using parts list.set_sel(2) [OF split_on_ne] upper_first_alnum by (fastforce simp: list_all_iff)
  ultimately show ?thesis using safe_name_start [of s] w by (simp add: bicep_id_def bicep_name_ok_def Let_def)
qed

text \<open>A reader of the literals: the closing quote is the first one that is not escaped.\<close>

fun read_body :: "string \<Rightarrow> (string \<times> string) option" where
  "read_body [] = None"
| "read_body (c # cs) =
     (if c = QUOTE then Some ([], cs)
      else if c = BACKSLASH then (case cs of [] \<Rightarrow> None | d # ds \<Rightarrow> map_option (\<lambda>(s, rest). (d # s, rest)) (read_body ds))
      else map_option (\<lambda>(s, rest). (c # s, rest)) (read_body cs))"

definition read_str :: "string \<Rightarrow> (string \<times> string) option" where
  "read_str s = (case s of [] \<Rightarrow> None | c # cs \<Rightarrow> if c = QUOTE then read_body cs else None)"

lemma read_bicep_str: "read_str (bicep_str s @ rest) = Some (s, rest)"
proof -
  have "read_body (concat (map bicep_escape s) @ QUOTE # rest) = Some (s, rest)"
    by (induction s) (auto simp: bicep_escape_def)
  then show ?thesis by (simp add: read_str_def bicep_str_def)
qed

subsection \<open>All identifiers of a file\<close>

definition ids_ok :: "bicep_resource list \<Rightarrow> bool" where
  "ids_ok rs \<longleftrightarrow> list_all (\<lambda>r. bicep_name_ok (br_id r)) rs"

lemma ids_ok_simps [simp]: "ids_ok []" "ids_ok (r # rs) \<longleftrightarrow> bicep_name_ok (br_id r) \<and> ids_ok rs" "ids_ok (rs @ rs') \<longleftrightarrow> ids_ok rs \<and> ids_ok rs'"
  by (simp_all add: ids_ok_def)

lemma ids_ok_concat: "ids_ok (concat rss) \<longleftrightarrow> (\<forall>rs \<in> set rss. ids_ok rs)"
  by (induction rss) simp_all

lemma lb_ids_ok: "lb_resources g subs vnet n = Some rs \<Longrightarrow> ids_ok rs"
  by (auto simp: lb_resources_def Let_def lb_var_def bicep_id_ok split: attributes.splits option.splits if_splits)

lemma compute_ids_ok: "compute_resources g t subs groups pools cs c = Some rs \<Longrightarrow> ids_ok rs"
  by (auto simp: compute_resources_def Let_def machine_resources_def bicep_id_ok split: attributes.splits option.splits)

lemma those_ids_ok:
  assumes "those (map f xs) = Some ys" and "\<And>x rs. f x = Some rs \<Longrightarrow> ids_ok rs"
  shows "ids_ok (concat ys)"
  unfolding ids_ok_concat using assms(2) those_mem [OF assms(1)] by blast

lemma bicep_ids_ok:
  assumes "bicep_resources g p t = Some rs"
  shows "ids_ok rs"
proof -
  have m: "ids_ok (map (subnet_resource v) ns)" "ids_ok (map nsg_resource ns)" for v ns
    by (induction ns) (simp_all add: subnet_var_def nsg_var_def bicep_id_ok)
  have v: "bicep_name_ok (br_id (vnet_resource p v))" for v by (simp add: vnet_resource_def bicep_id_ok)
  have l: "those (map (lb_resources g subs vnet) ns) = Some lbs \<Longrightarrow> ids_ok (concat lbs)" for subs vnet ns lbs
    by (erule those_ids_ok) (rule lb_ids_ok)
  have c: "those (map (compute_resources g t subs groups pools cs) cs') = Some vms \<Longrightarrow> ids_ok (concat vms)" for subs groups pools cs cs' vms
    by (erule those_ids_ok) (rule compute_ids_ok)
  show ?thesis
    using assms by (auto simp: bicep_resources_def Let_def m v split: list.splits option.splits dest!: l c)
qed

subsection \<open>Azure\<close>

lemma get_target_azure: "get_target ''azure'' = Inr AZURE"
  by (simp add: get_target_def REGISTRY_def AWS_def AZURE_def)

lemma azure_image_ref_ok: "image_ref_ok AZURE"
proof -
  have "list_all (\<lambda>(n, d). list_all (\<lambda>k. ref_text d k \<noteq> None) [''publisher'', ''offer'', ''sku'']) azure_images"
    by (simp add: azure_images_def ref_text_def)
  moreover have "\<exists>n. (n, t_image_reference AZURE img) \<in> set azure_images" for img
  proof (cases "map_of azure_images img")
    case None
    have "map_of azure_images ''ubuntu-22.04'' \<noteq> None" by (simp add: azure_images_def)
    then obtain d where d: "map_of azure_images ''ubuntu-22.04'' = Some d" by blast
    then have "t_image_reference AZURE img = d" using None by (simp add: AZURE_def azure_image_reference_def)
    then show ?thesis using map_of_SomeD [OF d] by blast
  next
    case (Some d)
    then have "t_image_reference AZURE img = d" by (simp add: AZURE_def azure_image_reference_def)
    then show ?thesis using map_of_SomeD [OF Some] by blast
  qed
  ultimately show ?thesis unfolding image_ref_ok_def list_all_iff by fastforce
qed

text \<open>The separators of a name are lost, so two machines may get one identifier.\<close>

lemma bicep_ids_collide:
  "terraform_safe_name ''web-01'' \<noteq> terraform_safe_name ''web01''"
  "bicep_id (''vm-'' @ terraform_safe_name ''web-01'') = bicep_id (''vm-'' @ terraform_safe_name ''web01'')"
  by code_simp+

end
