(* ===== verification/Crypto.thy ===== *)
theory Crypto
  imports Oidc
begin

text \<open>
  \<open>crypto.py\<close>: encryption of uploaded files at rest. Bytes are strings. AES-GCM and HKDF are the fields of a
  record, salts and nonces are arguments, base64 is the decoder of the standard library, which skips the
  characters that are not of its alphabet. An error is a value, the file system a dictionary from path to bytes.
\<close>

subsection \<open>base64\<close>

definition b64_value :: "char \<Rightarrow> nat option" where
  "b64_value c =
     (let n = code c
      in if is_ascii_upper c then Some (n - 65) else if is_ascii_lower c then Some (n - 71) else if is_digit c then Some (n + 4)
         else if c \<in> {CHR ''-'', CHR ''+''} then Some 62 else if c \<in> {CHR ''_'', CHR ''/''} then Some 63 else None)"

text \<open>The scanner: place in the group of four, bits left over, padding seen; \<open>None\<close> for incorrect padding.\<close>

fun b64_scan :: "nat \<Rightarrow> nat \<Rightarrow> nat \<Rightarrow> string \<Rightarrow> nat list option" where
  "b64_scan quad left pads [] = (if quad = 0 then Some [] else None)"
| "b64_scan quad left pads (c # cs) =
     (if c = CHR ''=''
      then if 2 \<le> quad \<and> 4 \<le> quad + (pads + 1) then Some []
           else b64_scan quad left (if 2 \<le> quad then pads + 1 else pads) cs
      else case b64_value c of
             None \<Rightarrow> b64_scan quad left pads cs
           | Some v \<Rightarrow>
               if quad = 0 then b64_scan 1 v 0 cs
               else if quad = 1 then map_option ((#) (left * 4 + v div 16)) (b64_scan 2 (v mod 16) 0 cs)
               else if quad = 2 then map_option ((#) (left * 16 + v div 4)) (b64_scan 3 (v mod 4) 0 cs)
               else map_option ((#) (left * 64 + v)) (b64_scan 0 0 0 cs))"

text \<open>A string with a character outside ASCII is a \<open>ValueError\<close>.\<close>

definition urlsafe_b64decode :: "string \<Rightarrow> string option" where
  "urlsafe_b64decode s = (if list_all (\<lambda>c. code c < 128) s then map_option (map char_of) (b64_scan 0 0 0 s) else None)"

definition b64_pad :: "string \<Rightarrow> string" where
  "b64_pad s = s @ replicate ((4 - length s mod 4) mod 4) CHR ''=''"

definition urlsafe_b64encode :: "string \<Rightarrow> string" where
  "urlsafe_b64encode bs = b64_pad (b64url (map code bs))"

subsection \<open>Keys\<close>

definition MAGIC :: string where "MAGIC = ''IACTE1''"
definition SALT_LEN :: nat where "SALT_LEN = 16"
definition NONCE_LEN :: nat where "NONCE_LEN = 12"
definition KEY_LEN :: nat where "KEY_LEN = 32"
definition HEADER_LEN :: nat where "HEADER_LEN = length MAGIC + SALT_LEN + NONCE_LEN"

datatype crypto_error = EncryptionUnavailable | DecryptionError

record crypto_lib =
  cl_installed :: bool
  cl_hkdf :: "string \<Rightarrow> string \<Rightarrow> string"
  cl_encrypt :: "string \<Rightarrow> string \<Rightarrow> string \<Rightarrow> string \<Rightarrow> string"
  cl_decrypt :: "string \<Rightarrow> string \<Rightarrow> string \<Rightarrow> string \<Rightarrow> string option"

definition generate_key :: "string \<Rightarrow> string" where
  "generate_key random = urlsafe_b64encode random"

text \<open>The environment variable, \<open>None\<close> when it is unset.\<close>

definition master_key :: "string option \<Rightarrow> crypto_error + string option" where
  "master_key env =
     (let raw = strip (case env of None \<Rightarrow> [] | Some v \<Rightarrow> v)
      in if raw = [] then Inr None
         else case urlsafe_b64decode (b64_pad raw) of
                None \<Rightarrow> Inl EncryptionUnavailable
              | Some key \<Rightarrow> if length key \<noteq> KEY_LEN then Inl EncryptionUnavailable else Inr (Some key))"

definition encryption_enabled :: "string option \<Rightarrow> crypto_error + bool" where
  "encryption_enabled env = (case master_key env of Inl e \<Rightarrow> Inl e | Inr k \<Rightarrow> Inr (k \<noteq> None))"

subsection \<open>Files\<close>

definition is_encrypted :: "string \<Rightarrow> bool" where
  "is_encrypted blob \<longleftrightarrow> take (length MAGIC) blob = MAGIC"

definition encrypt_bytes :: "crypto_lib \<Rightarrow> string option \<Rightarrow> string \<Rightarrow> string \<Rightarrow> string \<Rightarrow> crypto_error + string" where
  "encrypt_bytes lib env salt nonce data =
     (case master_key env of
        Inl e \<Rightarrow> Inl e
      | Inr None \<Rightarrow> Inl EncryptionUnavailable
      | Inr (Some key) \<Rightarrow>
          if \<not> cl_installed lib then Inl EncryptionUnavailable
          else let header = MAGIC @ salt @ nonce
               in Inr (header @ cl_encrypt lib (cl_hkdf lib key salt) nonce data header))"

definition decrypt_bytes :: "crypto_lib \<Rightarrow> string option \<Rightarrow> string \<Rightarrow> crypto_error + string" where
  "decrypt_bytes lib env blob =
     (case master_key env of
        Inl e \<Rightarrow> Inl e
      | Inr None \<Rightarrow> Inl EncryptionUnavailable
      | Inr (Some key) \<Rightarrow>
          if \<not> is_encrypted blob then Inl DecryptionError
          else if length blob < HEADER_LEN then Inl DecryptionError
          else if \<not> cl_installed lib then Inl EncryptionUnavailable
          else let header = take HEADER_LEN blob; body = drop HEADER_LEN blob;
                   salt = take SALT_LEN (drop (length MAGIC) header); nonce = drop (length MAGIC + SALT_LEN) header
               in case cl_decrypt lib (cl_hkdf lib key salt) nonce body header of
                    None \<Rightarrow> Inl DecryptionError
                  | Some data \<Rightarrow> Inr data)"

text \<open>What \<open>write_file\<close> writes, and the file system after it: the file is truncated first.\<close>

definition file_bytes :: "crypto_lib \<Rightarrow> string option \<Rightarrow> string \<Rightarrow> string \<Rightarrow> string \<Rightarrow> crypto_error + string" where
  "file_bytes lib env salt nonce data =
     (case encryption_enabled env of
        Inl e \<Rightarrow> Inl e
      | Inr on \<Rightarrow> if on then encrypt_bytes lib env salt nonce data else Inr data)"

definition write_file ::
  "crypto_lib \<Rightarrow> string option \<Rightarrow> string \<Rightarrow> string \<Rightarrow> string \<Rightarrow> string \<Rightarrow> (string, string) dict
    \<Rightarrow> (crypto_error + unit) \<times> (string, string) dict" where
  "write_file lib env salt nonce path data fs =
     (case file_bytes lib env salt nonce data of
        Inl e \<Rightarrow> (Inl e, AList.update path [] fs)
      | Inr blob \<Rightarrow> (Inr (), AList.update path blob fs))"

text \<open>\<open>read_file\<close> on the bytes of the file.\<close>

definition read_blob :: "crypto_lib \<Rightarrow> string option \<Rightarrow> string \<Rightarrow> crypto_error + string" where
  "read_blob lib env blob =
     (if \<not> is_encrypted blob then Inr blob
      else case encryption_enabled env of
             Inl e \<Rightarrow> Inl e
           | Inr on \<Rightarrow> if \<not> on then Inl EncryptionUnavailable else decrypt_bytes lib env blob)"

definition read_file :: "crypto_lib \<Rightarrow> string option \<Rightarrow> string \<Rightarrow> (string, string) dict \<Rightarrow> (crypto_error + string) option" where
  "read_file lib env path fs = map_option (read_blob lib env) (map_of fs path)"

text \<open>What \<open>_plaintext_upload\<close> of \<open>api/main.py\<close> gives the parsers to read.\<close>

definition plaintext_upload :: "crypto_lib \<Rightarrow> string option \<Rightarrow> string \<Rightarrow> crypto_error + string" where
  "plaintext_upload lib env blob = (if \<not> is_encrypted blob then Inr blob else decrypt_bytes lib env blob)"

subsection \<open>What the code relies on\<close>

text \<open>An authenticated cipher: decryption undoes encryption, and accepts nothing else.\<close>

definition aead_laws :: "crypto_lib \<Rightarrow> bool" where
  "aead_laws lib \<longleftrightarrow>
     (\<forall>k n d a. cl_decrypt lib k n (cl_encrypt lib k n d a) a = Some d)
     \<and> (\<forall>k n c d a. cl_decrypt lib k n c a = Some d \<longrightarrow> c = cl_encrypt lib k n d a)"

subsection \<open>Round trips\<close>

lemma header_parts:
  assumes "length salt = SALT_LEN" and "length nonce = NONCE_LEN"
  shows "take HEADER_LEN ((MAGIC @ salt @ nonce) @ c) = MAGIC @ salt @ nonce" "drop HEADER_LEN ((MAGIC @ salt @ nonce) @ c) = c"
    "take SALT_LEN (drop (length MAGIC) (MAGIC @ salt @ nonce)) = salt" "drop (length MAGIC + SALT_LEN) (MAGIC @ salt @ nonce) = nonce"
    "is_encrypted ((MAGIC @ salt @ nonce) @ c)" "HEADER_LEN \<le> length ((MAGIC @ salt @ nonce) @ c)"
  using assms by (simp_all add: HEADER_LEN_def is_encrypted_def)

lemma decrypt_encrypt:
  assumes "aead_laws lib" and "length salt = SALT_LEN" and "length nonce = NONCE_LEN" and "encrypt_bytes lib env salt nonce data = Inr blob"
  shows "decrypt_bytes lib env blob = Inr data \<and> is_encrypted blob"
proof -
  let ?h = "MAGIC @ salt @ nonce"
  obtain key where k: "master_key env = Inr (Some key)" "cl_installed lib"
    and b: "blob = ?h @ cl_encrypt lib (cl_hkdf lib key salt) nonce data ?h"
    using assms(4) by (auto simp: encrypt_bytes_def Let_def split: sum.splits option.splits if_splits)
  note hp = header_parts [OF assms(2,3)]
  have "cl_decrypt lib (cl_hkdf lib key salt) nonce (cl_encrypt lib (cl_hkdf lib key salt) nonce data ?h) ?h = Some data"
    using assms(1) by (simp add: aead_laws_def)
  then show ?thesis
    unfolding decrypt_bytes_def k sum.case option.case Let_def b hp(1-4) using hp(5,6) k(2) by (simp add: not_less)
qed

text \<open>A blob is decrypted only if it is what encryption under the same key gives, header included.\<close>

lemma decrypt_authentic:
  assumes "aead_laws lib" and "decrypt_bytes lib env blob = Inr data"
  obtains salt nonce where "length salt = SALT_LEN" and "length nonce = NONCE_LEN" and "encrypt_bytes lib env salt nonce data = Inr blob"
proof -
  let ?h = "take HEADER_LEN blob"
  let ?salt = "take SALT_LEN (drop (length MAGIC) ?h)" and ?nonce = "drop (length MAGIC + SALT_LEN) ?h"
  obtain key where k: "master_key env = Inr (Some key)" "cl_installed lib" and e: "is_encrypted blob" "\<not> length blob < HEADER_LEN"
    and d: "cl_decrypt lib (cl_hkdf lib key ?salt) ?nonce (drop HEADER_LEN blob) ?h = Some data"
    using assms(2) by (auto simp: decrypt_bytes_def Let_def split: sum.splits option.splits if_splits)
  have len: "length ?h = HEADER_LEN" using e(2) by simp
  then have l: "length ?salt = SALT_LEN" "length ?nonce = NONCE_LEN" by (simp_all add: HEADER_LEN_def)
  have "take (length MAGIC) ?h = MAGIC" using e(1) by (simp add: is_encrypted_def HEADER_LEN_def min_def)
  then have h: "MAGIC @ ?salt @ ?nonce = ?h"
    by (metis append_take_drop_id drop_drop add.commute)
  have "drop HEADER_LEN blob = cl_encrypt lib (cl_hkdf lib key ?salt) ?nonce data ?h"
    using assms(1) d by (simp add: aead_laws_def)
  then have "encrypt_bytes lib env ?salt ?nonce data = Inr (?h @ drop HEADER_LEN blob)"
    unfolding encrypt_bytes_def k sum.case option.case Let_def h using k(2) by simp
  then show thesis using that [OF l] by simp
qed

text \<open>What is written can be read, as long as a plain upload does not look like an encrypted one.\<close>

lemma written_reads_back:
  assumes "aead_laws lib" and "length salt = SALT_LEN" and "length nonce = NONCE_LEN" and "file_bytes lib env salt nonce data = Inr blob"
  shows "if master_key env = Inr None then blob = data \<and> (\<not> is_encrypted data \<longrightarrow> read_blob lib env blob = Inr data)
    else is_encrypted blob \<and> encrypt_bytes lib env salt nonce data = Inr blob \<and> read_blob lib env blob = Inr data
      \<and> plaintext_upload lib env blob = Inr data"
proof (cases "master_key env")
  case (Inl e)
  then show ?thesis using assms(4) by (simp add: file_bytes_def encryption_enabled_def)
next
  case (Inr k)
  then show ?thesis
  proof (cases k)
    case None
    then show ?thesis using Inr assms(4) by (simp add: file_bytes_def encryption_enabled_def read_blob_def)
  next
    case (Some key)
    then have e: "encrypt_bytes lib env salt nonce data = Inr blob" using Inr assms(4) by (simp add: file_bytes_def encryption_enabled_def)
    from decrypt_encrypt [OF assms(1-3) e] show ?thesis
      using Inr Some e by (simp add: read_blob_def plaintext_upload_def encryption_enabled_def)
  qed
qed

text \<open>The read of a file that claims to be encrypted gives only what was encrypted under the key.\<close>

lemma read_authentic:
  assumes "aead_laws lib" and "is_encrypted blob" and "read_blob lib env blob = Inr data"
  shows "\<exists>salt nonce. length salt = SALT_LEN \<and> length nonce = NONCE_LEN \<and> encrypt_bytes lib env salt nonce data = Inr blob"
proof -
  have "decrypt_bytes lib env blob = Inr data"
    using assms(2,3) by (auto simp: read_blob_def split: sum.splits if_splits)
  from decrypt_authentic [OF assms(1) this] show ?thesis by blast
qed

subsection \<open>Generated keys\<close>

lemma b64_codes:
  assumes "n < 64"
  shows "code (b64_char n) = (if n < 26 then 65 + n else if n < 52 then 71 + n else if n < 62 then n - 4 else if n = 62 then 45 else 95)"
  using assms by (simp add: b64_char_def of_char_of)

lemma char_eqI: "code c = code d \<Longrightarrow> c = d"
  by (metis char_of_char)

lemma b64_value_char:
  assumes "n < 64"
  shows "b64_value (b64_char n) = Some n"
proof -
  have d: "b64_char 62 = CHR ''-''" "b64_char 63 = CHR ''_''" by code_simp+
  consider "n < 26" | "26 \<le> n" "n < 52" | "52 \<le> n" "n < 62" | "n = 62" | "n = 63" using assms by linarith
  then show ?thesis
  proof cases
    case 3
    then have "48 \<le> n - 4 \<and> n - 4 \<le> 57" by arith
    then show ?thesis using 3 by (simp add: b64_value_def Let_def b64_codes is_ascii_upper_def is_ascii_lower_def is_digit_def)
  next
    case 4
    then show ?thesis unfolding 4 d by code_simp
  next
    case 5
    then show ?thesis unfolding 5 d by code_simp
  qed (simp_all add: b64_value_def Let_def b64_codes is_ascii_upper_def is_ascii_lower_def is_digit_def)
qed

lemma b64_char_plain:
  assumes "n < 64"
  shows "b64_char n \<noteq> CHR ''=''" and "code (b64_char n) < 128" and "\<not> is_space (b64_char n)"
proof -
  have "code (b64_char n) \<noteq> 61 \<and> code (b64_char n) < 128 \<and> 45 \<le> code (b64_char n)"
    using assms by (auto simp: b64_codes)
  then show "b64_char n \<noteq> CHR ''=''" "code (b64_char n) < 128" "\<not> is_space (b64_char n)"
    by (auto simp: is_space_def)
qed

lemma scan_char: "n < 64 \<Longrightarrow> b64_scan q l p (b64_char n # cs) =
     (if q = 0 then b64_scan 1 n 0 cs else if q = 1 then map_option ((#) (l * 4 + n div 16)) (b64_scan 2 (n mod 16) 0 cs)
      else if q = 2 then map_option ((#) (l * 16 + n div 4)) (b64_scan 3 (n mod 4) 0 cs)
      else map_option ((#) (l * 64 + n)) (b64_scan 0 0 0 cs))"
  by (simp add: b64_value_char b64_char_plain)

lemma b64_pad_step: "b64_pad (w # x # y # z # cs) = w # x # y # z # b64_pad cs"
  by (simp add: b64_pad_def)

lemma scan_end: "b64_scan 2 l 0 ''=='' = Some []" "b64_scan 3 l 0 ''='' = Some []" "b64_scan 0 l q [] = Some []"
  by simp_all

lemma pad_lengths: "b64_pad [w, x] = [w, x, CHR ''='', CHR ''='']" "b64_pad [w, x, y] = [w, x, y, CHR ''='']" "b64_pad [] = []"
  by (simp_all add: b64_pad_def numeral_2_eq_2)

lemma scan_b64url:
  "list_all (\<lambda>b. b < 256) bs \<Longrightarrow> b64_scan 0 0 p (b64_pad (b64url bs)) = Some bs"
proof (induction bs arbitrary: p rule: b64url.induct)
  case 1
  show ?case by (simp only: b64url.simps pad_lengths scan_end)
next
  case (2 a)
  then have a: "a div 4 < 64" "a mod 4 * 16 < 64" by auto
  have "a div 4 * 4 + a mod 4 * 16 div 16 = a" by simp
  then show ?case
    unfolding b64url.simps pad_lengths scan_char [OF a(1)] scan_char [OF a(2)] by (simp add: scan_end del: b64_scan.simps)
next
  case (3 a b)
  then have a: "a div 4 < 64" "a mod 4 * 16 + b div 16 < 64" "b mod 16 * 4 < 64" by auto
  have "b div 16 < 16" using 3 by auto
  then have e: "a div 4 * 4 + (a mod 4 * 16 + b div 16) div 16 = a" "(a mod 4 * 16 + b div 16) mod 16 * 16 + b mod 16 * 4 div 4 = b"
    by simp_all
  show ?case
    unfolding b64url.simps pad_lengths scan_char [OF a(1)] scan_char [OF a(2)] scan_char [OF a(3)]
    using e by (simp add: scan_end del: b64_scan.simps)
next
  case (4 a b c bs)
  then have l: "a < 256" "b < 256" "c < 256" "list_all (\<lambda>b. b < 256) bs" by simp_all
  have a: "a div 4 < 64" "a mod 4 * 16 + b div 16 < 64" "b mod 16 * 4 + c div 64 < 64" "c mod 64 < 64" using l by auto
  have bc: "b div 16 < 16" "c div 64 < 4" using l by auto
  have e: "a div 4 * 4 + (a mod 4 * 16 + b div 16) div 16 = a"
    "(a mod 4 * 16 + b div 16) mod 16 * 16 + (b mod 16 * 4 + c div 64) div 4 = b"
    "(b mod 16 * 4 + c div 64) mod 4 * 64 + c mod 64 = c"
    using bc by simp_all
  show ?case
    unfolding b64url.simps b64_pad_step scan_char [OF a(1)] scan_char [OF a(2)] scan_char [OF a(3)] scan_char [OF a(4)]
    using 4(1) [OF l(4)] e by (simp del: b64_scan.simps)
qed

lemma b64url_bounds: "list_all (\<lambda>b. b < 256) bs \<Longrightarrow> \<forall>c \<in> set (b64url bs). \<exists>n < 64. c = b64_char n"
proof (induction bs rule: b64url.induct)
  case (4 a b c bs)
  then have l: "a div 4 < 64" "a mod 4 * 16 + b div 16 < 64" "b mod 16 * 4 + c div 64 < 64" "c mod 64 < 64" by auto
  have "list_all (\<lambda>b. b < 256) bs" using 4(2) by simp
  from 4(1) [OF this] l show ?case unfolding b64url.simps list.set by blast
next
  case (3 a b)
  then have "a div 4 < 64" "a mod 4 * 16 + b div 16 < 64" "b mod 16 * 4 < 64" by auto
  then show ?case unfolding b64url.simps list.set by blast
next
  case (2 a)
  then have "a div 4 < 64" "a mod 4 * 16 < 64" by auto
  then show ?case unfolding b64url.simps list.set by blast
qed simp

lemma b64_roundtrip: "urlsafe_b64decode (urlsafe_b64encode bs) = Some bs"
proof -
  have b: "list_all (\<lambda>b. b < 256) (map code bs)" by (simp add: list_all_iff)
  have "list_all (\<lambda>c. code c < 128) (b64url (map code bs))"
    using b64url_bounds [OF b] b64_char_plain(2) by (fastforce simp: list_all_iff)
  then have "list_all (\<lambda>c. code c < 128) (b64_pad (b64url (map code bs)))"
    unfolding b64_pad_def by (simp add: list_all_iff) (auto split: if_splits)
  then show ?thesis by (simp add: urlsafe_b64decode_def urlsafe_b64encode_def scan_b64url [OF b] comp_def)
qed

lemma b64_pad_twice: "b64_pad (b64_pad s) = b64_pad s"
proof -
  have "length s mod 4 = 0 \<or> length s mod 4 = 1 \<or> length s mod 4 = 2 \<or> length s mod 4 = 3" by arith
  then have "(length s mod 4 + (4 - length s mod 4) mod 4) mod 4 = 0" by auto
  then have "length (b64_pad s) mod 4 = 0" unfolding b64_pad_def length_append length_replicate by (simp only: mod_add_left_eq)
  then show ?thesis unfolding b64_pad_def [of "b64_pad s"] by simp
qed

lemma generated_key:
  assumes "length k = KEY_LEN"
  shows "master_key (Some (generate_key k)) = Inr (Some k)"
proof -
  have b: "list_all (\<lambda>b. b < 256) (map code k)" by (simp add: list_all_iff)
  have ns: "\<not> is_space c" if "c \<in> set (generate_key k)" for c
  proof -
    have "c \<in> set (b64url (map code k)) \<or> c = CHR ''=''"
      using that unfolding generate_key_def urlsafe_b64encode_def b64_pad_def set_append set_replicate_conv_if by (auto split: if_splits)
    then show ?thesis
    proof
      assume "c \<in> set (b64url (map code k))"
      then obtain n where "n < 64" "c = b64_char n" using b64url_bounds [OF b] by auto
      then show ?thesis using b64_char_plain(3) [of n] by simp
    qed (simp add: is_space_def)
  qed
  have ne: "generate_key k \<noteq> []"
  proof -
    have "length (b64url (map code k)) = 43" using b64url_length [of "map code k"] assms by (simp add: KEY_LEN_def)
    then have "b64url (map code k) \<noteq> []" by fastforce
    then show ?thesis unfolding generate_key_def urlsafe_b64encode_def b64_pad_def by simp
  qed
  have s: "strip (generate_key k) = generate_key k"
    using strip_by_id [of "generate_key k" is_space] ns ne hd_in_set last_in_set by blast
  have p: "b64_pad (generate_key k) = generate_key k" by (simp only: generate_key_def urlsafe_b64encode_def b64_pad_twice)
  have d: "urlsafe_b64decode (generate_key k) = Some k" by (simp only: generate_key_def b64_roundtrip)
  show ?thesis
    unfolding master_key_def Let_def option.case s p d using ne assms by (simp only: if_False simp_thms)
qed

end
