(* ===== verification/Endpoints.thy ===== *)
theory Endpoints
  imports Access Policy Targets Crypto
begin

text \<open>
  The rest of the project endpoints of \<open>api/main.py\<close>: creation with its checks, the paged listing, upload and
  download, with the registries of renderers (\<open>renderers/__init__.py\<close>) and sources (\<open>sources/__init__.py\<close>) they
  ask, and what the middlewares do to a request and a response. The file system is a dictionary from path to
  bytes. Events and logging are left out; an HTTP error is its status.
\<close>

subsection \<open>The registries\<close>

text \<open>\<open>None\<close> means every target.\<close>

definition SUPPORTED :: "(string, string list option) dict" where
  "SUPPORTED =
     [(''terraform'', None), (''pulumi'', Some [''aws'', ''azure'', ''gcp'']), (''cloudformation'', Some [''aws'']),
      (''bicep'', Some [''azure'']), (''cdk'', Some [''aws'']), (''kubernetes'', None)]"

definition RENDERERS :: "(string, string) dict" where
  "RENDERERS =
     [(''terraform'', ''Terraform (HCL)''), (''pulumi'', ''Pulumi (Python)''), (''cloudformation'', ''CloudFormation (JSON, AWS-only)''),
      (''bicep'', ''Bicep (Azure-only)''), (''cdk'', ''AWS CDK (Python, AWS-only)''), (''kubernetes'', ''Kubernetes/KubeVirt (JSON, any cloud)'')]"

definition renderer_supports :: "string \<Rightarrow> string \<Rightarrow> bool" where
  "renderer_supports name target \<longleftrightarrow>
     (if name \<notin> set (keys RENDERERS) then False
      else case the (map_of SUPPORTED name) of None \<Rightarrow> True | Some allowed \<Rightarrow> target \<in> set allowed)"

definition renderers_for :: "string \<Rightarrow> string list" where
  "renderers_for target = filter (\<lambda>n. renderer_supports n target) (keys RENDERERS)"

definition list_renderers :: "string list" where
  "list_renderers = keys RENDERERS"

definition renderer_label :: "string \<Rightarrow> string" where
  "renderer_label n = (case map_of RENDERERS n of None \<Rightarrow> n | Some l \<Rightarrow> l)"

definition list_sources :: "string list" where
  "list_sources = [''vmware'', ''hyperv'', ''kubernetes'', ''cloud'', ''generic'']"

text \<open>\<open>detect\<close> is the confidence of each source for the file; ties go to the registry's order.\<close>

definition detect_source :: "(string \<Rightarrow> rat) \<Rightarrow> string" where
  "detect_source detect =
     (let best = max_by detect (hd list_sources) (tl list_sources)
      in if detect best \<le> 0 then ''generic'' else best)"

definition resolve_source :: "(string \<Rightarrow> rat) \<Rightarrow> string option \<Rightarrow> string option" where
  "resolve_source detect name =
     (case name of
        None \<Rightarrow> Some (detect_source detect)
      | Some n \<Rightarrow> if n = [] \<or> n = ''auto'' then Some (detect_source detect)
                  else if n \<in> set list_sources then Some n else None)"

subsection \<open>Creating a project\<close>

definition project_name_chars :: "string \<Rightarrow> bool" where
  "project_name_chars s \<longleftrightarrow> 1 \<le> length s \<and> length s \<le> 128
     \<and> list_all (\<lambda>c. is_ascii_alnum c \<or> c \<in> set '' ._-'') s"

text \<open>The two validators of the body; an error is a 422.\<close>

definition valid_body :: "project_args \<Rightarrow> project_args option" where
  "valid_body b =
     (let name = strip (pa_name b)
      in if pa_provider b \<notin> {''rule'', ''anthropic''} then None
         else if \<not> dollar project_name_chars name then None
         else Some (b\<lparr>pa_name := name\<rparr>))"

definition create_project ::
  "(rat \<Rightarrow> string \<Rightarrow> string \<Rightarrow> project_args \<Rightarrow> 's \<Rightarrow> (project \<times> string list) option \<times> 's) \<Rightarrow> rat \<Rightarrow> string \<Rightarrow> string
    \<Rightarrow> project_args \<Rightarrow> string option \<Rightarrow> 's \<Rightarrow> (http_error + project) \<times> 's" where
  "create_project create now pid ws body user s =
     (case valid_body body of
        None \<Rightarrow> (Inl (Http 422), s)
      | Some b \<Rightarrow>
          if pa_target b \<notin> set list_targets then (Inl (Http 400), s)
          else if pa_source b \<notin> set (''auto'' # list_sources) then (Inl (Http 400), s)
          else if \<not> list_all (\<lambda>n. n \<in> set (keys POLICIES)) (case pa_policy b of None \<Rightarrow> [] | Some d \<Rightarrow> keys d) then (Inl (Http 400), s)
          else if pa_renderer b \<notin> set list_renderers then (Inl (Http 400), s)
          else if \<not> renderer_supports (pa_renderer b) (pa_target b) then (Inl (Http 400), s)
          else case create now pid ws (b\<lparr>pa_owner_id := user\<rparr>) s of
                 (None, s) \<Rightarrow> (Inl (Http 500), s)
               | (Some (p, gone), s) \<Rightarrow> (Inr p, s))"

subsection \<open>What a response says of a project\<close>

definition opt_str :: "string option \<Rightarrow> json" where
  "opt_str v = (case v of None \<Rightarrow> JNull | Some s \<Rightarrow> JStr s)"

definition summary_of :: "project \<Rightarrow> (string, json) dict" where
  "summary_of p =
     [(''id'', JStr (pj_id p)), (''name'', JStr (pj_name p)), (''target'', JStr (pj_target p)), (''source'', JStr (pj_source p)),
      (''region'', opt_str (pj_region p)), (''provider'', JStr (pj_provider p)), (''renderer'', JStr (pj_renderer p)),
      (''status'', JStr (pj_status p))]
     @ (case pj_error p of None \<Rightarrow> [] | Some e \<Rightarrow> if e = [] then [] else [(''error'', JStr e)])
     @ (case pj_summary p of None \<Rightarrow> [] | Some d \<Rightarrow> if d = [] then [] else [(''result'', JObj d)])"

subsection \<open>Listing\<close>

definition MAX_PAGE :: int where "MAX_PAGE = 200"

record page =
  pg_rows :: "(string, json) dict list"
  pg_total :: int
  pg_link :: "string option"

definition page_url :: "string \<Rightarrow> int \<Rightarrow> int \<Rightarrow> string" where
  "page_url path limit offset = path @ ''?limit='' @ str_of_int limit @ ''&offset='' @ str_of_int offset"

definition link_rel :: "string \<Rightarrow> string \<Rightarrow> string" where
  "link_rel url rel = ''<'' @ url @ ''>; rel='' @ [CHR 0x22] @ rel @ [CHR 0x22]"

definition link_header :: "string \<Rightarrow> int \<Rightarrow> int \<Rightarrow> int \<Rightarrow> string option" where
  "link_header path limit offset rows =
     (let links = (if offset + limit < rows then [link_rel (page_url path limit (offset + limit)) ''next''] else [])
          @ (if 0 < offset then [link_rel (page_url path limit (max 0 (offset - limit))) ''prev'', link_rel (page_url path limit 0) ''first''] else [])
      in if links = [] then None else Some (join '', '' links))"

text \<open>The projects of the listing, with the role held and whether the caller owns it in multi-tenant mode.\<close>

definition listed ::
  "'s store_api \<Rightarrow> 'm member_api \<Rightarrow> string option \<Rightarrow> 's \<Rightarrow> 'm \<Rightarrow> (project \<times> (role option \<times> bool) option) list" where
  "listed so mo user s m =
     (let owned = so_list_for_owner so user s
      in case user of
           None \<Rightarrow> map (\<lambda>p. (p, None)) owned
         | Some u \<Rightarrow> map (\<lambda>p. (p, Some (Some ADMIN, True))) owned
             @ List.map_filter (\<lambda>pid. if pid \<in> set (map pj_id owned) then None
                   else case so_get so s pid of None \<Rightarrow> None
                        | Some p \<Rightarrow> Some (p, Some (role_for pid u (pj_owner_id p) (mo_grants mo m), False)))
                 (projects_for u (mo_grants mo m)))"

definition row_of :: "project \<times> (role option \<times> bool) option \<Rightarrow> (string, json) dict" where
  "row_of x = (case x of (p, h) \<Rightarrow> summary_of p @
     (case h of None \<Rightarrow> [] | Some (r, own) \<Rightarrow> [(''role'', case r of None \<Rightarrow> JNull | Some r \<Rightarrow> JStr (role_value r)), (''owner'', JBool own)]))"

definition list_projects ::
  "'s store_api \<Rightarrow> 'm member_api \<Rightarrow> string \<Rightarrow> int \<Rightarrow> int \<Rightarrow> string option \<Rightarrow> 's \<Rightarrow> 'm \<Rightarrow> http_error + page" where
  "list_projects so mo path limit offset user s m =
     (if limit < 1 \<or> MAX_PAGE < limit then Inl (Http 400)
      else if offset < 0 then Inl (Http 400)
      else let rows = map row_of (listed so mo user s m)
           in Inr \<lparr>pg_rows = take (nat limit) (drop (nat offset) rows), pg_total = int (length rows),
                   pg_link = link_header path limit offset (int (length rows))\<rparr>)"

subsection \<open>Upload and download\<close>

type_synonym files = "(string, string) dict"

definition ALLOWED_SUFFIXES :: "string list" where
  "ALLOWED_SUFFIXES = [''.xlsx'', ''.xls'', ''.xlsm'', ''.csv'']"

text \<open>\<open>Path(p).name\<close> and \<open>Path(p).suffix\<close>.\<close>

definition final_name :: "string \<Rightarrow> string" where
  "final_name p = (case rev (filter (\<lambda>w. w \<noteq> [] \<and> w \<noteq> ''.'') (split_on CHR ''/'' p)) of [] \<Rightarrow> [] | w # ws \<Rightarrow> w)"

definition path_suffix :: "string \<Rightarrow> string" where
  "path_suffix p =
     (let name = final_name p; tail = takeWhile (\<lambda>c. c \<noteq> CHR ''.'') (rev name)
      in if tail = [] \<or> length name \<le> Suc (length tail) then [] else CHR ''.'' # rev tail)"

text \<open>The chunks are read while they fit; \<open>None\<close> when the limit is crossed.\<close>

fun read_chunks :: "nat \<Rightarrow> string \<Rightarrow> string list \<Rightarrow> string option" where
  "read_chunks cap acc [] = Some acc"
| "read_chunks cap acc (c # cs) =
     (if c = [] then Some acc
      else if cap < length acc + length c then None else read_chunks cap (acc @ c) cs)"

text \<open>\<open>seal\<close> is what \<open>write_file\<close> puts on disk for given bytes, \<open>None\<close> when encryption is configured and not available.\<close>

definition upload ::
  "'s store_api \<Rightarrow> 'm member_api \<Rightarrow> nat \<Rightarrow> (string \<Rightarrow> string option) \<Rightarrow> string \<Rightarrow> string option \<Rightarrow> string list \<Rightarrow> string option
    \<Rightarrow> 's \<Rightarrow> 'm \<Rightarrow> files \<Rightarrow> (http_error + project) \<times> 's \<times> files" where
  "upload so mo cap seal pid filename chunks user s m fs =
     (case require_project so mo pid user EDITOR s m of
        Inl e \<Rightarrow> (Inl e, s, fs)
      | Inr p \<Rightarrow>
          let suffix = lower (path_suffix (case filename of None \<Rightarrow> [] | Some f \<Rightarrow> f));
              dest = pj_workspace p @ ''/upload'' @ suffix
          in if suffix \<notin> set ALLOWED_SUFFIXES then (Inl (Http 400), s, fs)
             else case read_chunks cap [] chunks of
                    None \<Rightarrow> (Inl (Http 413), s, AList.delete dest fs)
                  | Some bytes \<Rightarrow>
                      (case seal bytes of
                         None \<Rightarrow> (Inl (Http 500), s, AList.delete dest fs)
                       | Some blob \<Rightarrow>
                           let p = p\<lparr>pj_upload_path := Some dest, pj_status := ''uploaded''\<rparr>
                           in (Inr p, so_save so p s, AList.update dest blob fs)))"

text \<open>What \<open>write_file\<close> does for an upload.\<close>

definition sealed :: "crypto_lib \<Rightarrow> string option \<Rightarrow> string \<Rightarrow> string \<Rightarrow> string \<Rightarrow> string option" where
  "sealed lib env salt nonce bytes = (case file_bytes lib env salt nonce bytes of Inl e \<Rightarrow> None | Inr blob \<Rightarrow> Some blob)"

definition download ::
  "'s store_api \<Rightarrow> 'm member_api \<Rightarrow> string \<Rightarrow> string option \<Rightarrow> 's \<Rightarrow> 'm \<Rightarrow> files \<Rightarrow> http_error + string \<times> string" where
  "download so mo pid user s m fs =
     (case require_project so mo pid user VIEWER s m of
        Inl e \<Rightarrow> Inl e
      | Inr p \<Rightarrow>
          (case pj_zip_path p of
             None \<Rightarrow> Inl (Http 409)
           | Some z \<Rightarrow> if z = [] \<or> map_of fs z = None then Inl (Http 409) else Inr (z, pj_name p @ ''.zip'')))"

definition safe_filename :: "string \<Rightarrow> string" where
  "safe_filename name =
     (let cleaned = strip (map (\<lambda>c. if is_alnum c \<or> c \<in> set '' ._-'' then c else CHR ''-'') name)
      in take 64 (if cleaned = [] then ''report'' else cleaned))"

subsection \<open>Cookies and headers\<close>

text \<open>The environment variable, \<open>None\<close> when it is unset.\<close>

definition cookie_samesite :: "string option \<Rightarrow> string" where
  "cookie_samesite env =
     (let value = lower (strip (case env of None \<Rightarrow> ''lax'' | Some v \<Rightarrow> if v = [] then ''lax'' else v))
      in if value \<in> {''lax'', ''strict'', ''none''} then value else ''lax'')"

record cookie =
  ck_value :: string
  ck_httponly :: bool
  ck_samesite :: string
  ck_secure :: bool
  ck_max_age :: int
  ck_path :: string

definition session_cookie :: "string option \<Rightarrow> string option \<Rightarrow> string \<Rightarrow> cookie" where
  "session_cookie samesite_env secure_env value =
     (let samesite = cookie_samesite samesite_env
      in \<lparr>ck_value = value, ck_httponly = True, ck_samesite = samesite,
          ck_secure = (if samesite = ''none'' then True else (case secure_env of None \<Rightarrow> ''1'' | Some v \<Rightarrow> v) \<noteq> ''0''),
          ck_max_age = 14 * 24 * 3600, ck_path = ''/''\<rparr>)"

definition UNSAFE_METHODS :: "string list" where
  "UNSAFE_METHODS = [''POST'', ''PUT'', ''PATCH'', ''DELETE'']"

definition cors_origins :: "string option \<Rightarrow> string list" where
  "cors_origins env =
     (let raw = strip (case env of None \<Rightarrow> [] | Some v \<Rightarrow> v)
      in if raw = [] then [] else filter (\<lambda>w. w \<noteq> []) (map strip (split_on CHR '','' raw)))"

text \<open>Whether a request is passed on.\<close>

definition origin_allowed :: "string list \<Rightarrow> string \<Rightarrow> string \<Rightarrow> string option \<Rightarrow> bool" where
  "origin_allowed origins samesite meth origin \<longleftrightarrow>
     \<not> (meth \<in> set UNSAFE_METHODS \<and> origins \<noteq> [] \<and> samesite = ''none''
        \<and> (case origin of None \<Rightarrow> False | Some x \<Rightarrow> x \<notin> set origins))"

text \<open>The id of a request: the one that came in, cleaned and cut, or a new one.\<close>

definition request_id :: "string option \<Rightarrow> string \<Rightarrow> string" where
  "request_id header fresh =
     (let cleaned = take 64 (filter (\<lambda>c. is_alnum c \<or> c \<in> set ''-_'') (strip (case header of None \<Rightarrow> [] | Some h \<Rightarrow> h)))
      in if cleaned = [] then fresh else cleaned)"

definition header_default :: "string \<Rightarrow> string \<Rightarrow> (string, string) dict \<Rightarrow> (string, string) dict" where
  "header_default k v h = (if lower k \<in> set (keys h) then h else h @ [(lower k, v)])"

definition security_headers :: "string \<Rightarrow> (string, string) dict \<Rightarrow> (string, string) dict" where
  "security_headers scheme h =
     (let h = header_default ''X-Content-Type-Options'' ''nosniff'' h; h = header_default ''X-Frame-Options'' ''DENY'' h;
          h = header_default ''Referrer-Policy'' ''no-referrer'' h; h = header_default ''Cross-Origin-Opener-Policy'' ''same-origin'' h
      in if scheme = ''https'' then header_default ''Strict-Transport-Security'' ''max-age=31536000; includeSubDomains'' h else h)"

definition API_VERSION :: string where "API_VERSION = ''v1''"

definition deprecate_unversioned :: "string \<Rightarrow> (string, string) dict \<Rightarrow> (string, string) dict" where
  "deprecate_unversioned path h =
     (if \<not> starts_with (''/'' @ API_VERSION @ ''/'') path \<and> path \<notin> {''/health'', ''/metrics''}
      then header_default ''Link'' (''</'' @ API_VERSION @ path @ ''>; rel='' @ [CHR 0x22] @ ''successor-version'' @ [CHR 0x22])
        (header_default ''Warning'' (''299 - '' @ [CHR 0x22] @ ''unversioned paths are deprecated; use /v1'' @ [CHR 0x22])
          (header_default ''Deprecation'' ''true'' h))
      else h)"

subsection \<open>The listing shows what one may open\<close>

locale listing = app +
  assumes distinct_list: "sok s \<Longrightarrow> distinct (map pj_id (so_list_for_owner so w s))"
begin

lemma owned_iff:
  "sok s \<Longrightarrow> p \<in> set (so_list_for_owner so w s) \<longleftrightarrow> so_get so s (pj_id p) = Some p \<and> pj_owner_id p = w"
  using list_owner by blast

lemma listed_mem:
  assumes "sok s" and "mok m"
  shows "(p, h) \<in> set (listed so mo (Some u) s m) \<longleftrightarrow>
    so_get so s (pj_id p) = Some p \<and> role_for (pj_id p) u (pj_owner_id p) (mo_grants mo m) \<noteq> None
      \<and> h = Some (role_for (pj_id p) u (pj_owner_id p) (mo_grants mo m), pj_owner_id p = Some u)"
proof -
  let ?own = "so_list_for_owner so (Some u) s"
  have seen: "pid \<in> set (map pj_id ?own) \<longleftrightarrow> (case so_get so s pid of None \<Rightarrow> False | Some q \<Rightarrow> pj_owner_id q = Some u)" for pid
  proof
    assume "pid \<in> set (map pj_id ?own)"
    then obtain q where "q \<in> set ?own" "pid = pj_id q" by auto
    then show "case so_get so s pid of None \<Rightarrow> False | Some q \<Rightarrow> pj_owner_id q = Some u" using owned_iff [OF assms(1)] by simp
  next
    assume a: "case so_get so s pid of None \<Rightarrow> False | Some q \<Rightarrow> pj_owner_id q = Some u"
    then obtain q where q: "so_get so s pid = Some q" "pj_owner_id q = Some u" by (cases "so_get so s pid") simp_all
    then have id: "pj_id q = pid" using st.get_id [OF assms(1)] by blast
    then have "q \<in> set ?own" using q owned_iff [OF assms(1)] by simp
    then show "pid \<in> set (map pj_id ?own)" using id by (auto intro: rev_image_eqI)
  qed
  have own: "(p, h) \<in> set (map (\<lambda>p. (p, Some (Some ADMIN, True))) ?own) \<longleftrightarrow>
      so_get so s (pj_id p) = Some p \<and> pj_owner_id p = Some u \<and> h = Some (Some ADMIN, True)"
    using owned_iff [OF assms(1)] by auto
  let ?f = "\<lambda>pid. if pid \<in> set (map pj_id ?own) then None
       else case so_get so s pid of None \<Rightarrow> None
            | Some p \<Rightarrow> Some (p, Some (role_for pid u (pj_owner_id p) (mo_grants mo m), False))"
  have f: "?f pid = Some (p, h) \<longleftrightarrow> so_get so s pid = Some p \<and> pj_owner_id p \<noteq> Some u
      \<and> h = Some (role_for pid u (pj_owner_id p) (mo_grants mo m), False)" for pid
    unfolding seen by (auto split: option.splits)
  have sh: "(p, h) \<in> set (List.map_filter ?f (projects_for u (mo_grants mo m))) \<longleftrightarrow>
      so_get so s (pj_id p) = Some p \<and> pj_owner_id p \<noteq> Some u \<and> held_role (mo_grants mo m) (pj_id p) u \<noteq> None
        \<and> h = Some (role_for (pj_id p) u (pj_owner_id p) (mo_grants mo m), False)"
    unfolding map_filter_mem f Bex_def projects_for_spec [OF members_ok [OF assms(2)]]
    using st.get_id [OF assms(1)] by blast
  have "(p, h) \<in> set (listed so mo (Some u) s m) \<longleftrightarrow>
      so_get so s (pj_id p) = Some p \<and> pj_owner_id p = Some u \<and> h = Some (Some ADMIN, True)
      \<or> so_get so s (pj_id p) = Some p \<and> pj_owner_id p \<noteq> Some u \<and> held_role (mo_grants mo m) (pj_id p) u \<noteq> None
        \<and> h = Some (role_for (pj_id p) u (pj_owner_id p) (mo_grants mo m), False)"
    unfolding listed_def Let_def option.case set_append Un_iff own sh ..
  then show ?thesis by (auto simp: role_for_def)
qed

lemma listed_distinct:
  assumes "sok s" and "mok m"
  shows "distinct (map (pj_id \<circ> fst) (listed so mo (Some u) s m))"
proof -
  let ?own = "so_list_for_owner so (Some u) s"
  let ?f = "\<lambda>pid. if pid \<in> set (map pj_id ?own) then None
       else case so_get so s pid of None \<Rightarrow> None
            | Some p \<Rightarrow> Some (p, Some (role_for pid u (pj_owner_id p) (mo_grants mo m), False))"
  have id: "?f pid = Some x \<Longrightarrow> pj_id (fst x) = pid \<and> pid \<notin> set (map pj_id ?own)" for pid x
    using st.get_id [OF assms(1)] by (auto split: if_splits option.splits)
  have ids: "map (pj_id \<circ> fst) (List.map_filter ?f pids) = filter (\<lambda>pid. ?f pid \<noteq> None) pids" for pids
  proof (induction pids)
    case (Cons pid pids)
    then show ?case using id [of pid] by (cases "?f pid") (simp_all add: List.map_filter_def)
  qed (simp add: List.map_filter_def)
  have "distinct (projects_for u (mo_grants mo m))"
    using members_ok [OF assms(2)] by (simp add: projects_for_def grants_ok_def distinct_map_filter)
  moreover have "set (filter (\<lambda>pid. ?f pid \<noteq> None) (projects_for u (mo_grants mo m))) \<inter> set (map pj_id ?own) = {}"
    by auto
  ultimately show ?thesis
    unfolding listed_def Let_def option.case map_append ids distinct_append
    using distinct_list [OF assms(1), of "Some u"] by (simp add: comp_def Int_commute)
qed

end

text \<open>A client that asks for the next page while there is one.\<close>

fun crawl :: "(int \<Rightarrow> http_error + page) \<Rightarrow> int \<Rightarrow> nat \<Rightarrow> int \<Rightarrow> (string, json) dict list option" where
  "crawl ask limit 0 offset = None"
| "crawl ask limit (Suc fuel) offset =
     (case ask offset of
        Inl e \<Rightarrow> None
      | Inr pg \<Rightarrow> if offset + limit < pg_total pg then map_option ((@) (pg_rows pg)) (crawl ask limit fuel (offset + limit))
                  else Some (pg_rows pg))"

lemma crawl_complete:
  assumes "1 \<le> limit" and "limit \<le> MAX_PAGE" and "0 \<le> offset" and "nat (int (length (listed so mo user s m)) - offset) < fuel"
  shows "crawl (\<lambda>i. list_projects so mo path limit i user s m) limit fuel offset
    = Some (drop (nat offset) (map row_of (listed so mo user s m)))"
  using assms(3,4)
proof (induction fuel arbitrary: offset)
  case (Suc fuel)
  let ?rows = "map row_of (listed so mo user s m)"
  have ask: "list_projects so mo path limit offset user s m = Inr \<lparr>pg_rows = take (nat limit) (drop (nat offset) ?rows),
      pg_total = int (length ?rows), pg_link = link_header path limit offset (int (length ?rows))\<rparr>"
    using assms(1,2) Suc.prems(1) by (simp add: list_projects_def)
  show ?case
  proof (cases "offset + limit < int (length ?rows)")
    case True
    have n: "nat (offset + limit) = nat limit + nat offset" using Suc.prems(1) assms(1) by simp
    have "crawl (\<lambda>i. list_projects so mo path limit i user s m) limit fuel (offset + limit)
        = Some (drop (nat (offset + limit)) ?rows)"
      by (rule Suc.IH) (use Suc.prems True assms(1) in auto)
    then show ?thesis using True by (simp add: ask n drop_drop [symmetric] del: drop_drop)
  next
    case False
    then show ?thesis using Suc.prems(1) assms(1) by (simp add: ask)
  qed
qed simp

lemma link_next_iff: "0 \<le> offset \<Longrightarrow> link_header path limit offset n = None \<longleftrightarrow> offset = 0 \<and> n \<le> limit"
  by (auto simp: link_header_def)

text \<open>Both stores list a project once.\<close>

lemma mem_list_distinct:
  assumes "mem_ok s"
  shows "distinct (map pj_id (mem_list_for_owner w s))"
proof -
  have "\<forall>x \<in> set (ms_projects s). pj_id (snd x) = fst x" using assms by (auto simp: mem_ok_def)
  then have e: "map pj_id (map snd (ms_projects s)) = keys (ms_projects s)" by simp
  have "dict_ok (ms_projects s)" using assms by (simp add: mem_ok_def)
  then have "distinct (map pj_id (map snd (ms_projects s)))" unfolding e .
  then show ?thesis by (simp add: mem_list_for_owner_def distinct_map_filter rev_map [symmetric])
qed

lemma sql_list_distinct:
  assumes "rows_ok s"
  shows "distinct (map pj_id (sql_list_for_owner w s))"
proof -
  have ok: "dict_ok (ss_rows s)" using assms by (simp add: rows_ok_def)
  let ?rows = "sort_key (\<lambda>(pid, r). (pr_created_at r, pid)) (filter (\<lambda>(pid, r). pj_owner_id (pr_project r) = w) (ss_rows s))"
  have "pj_id (row_to_project (snd x)) = fst x" if "x \<in> set ?rows" for x
  proof -
    have "x \<in> set (ss_rows s)" using that by (simp only: set_sort set_filter) blast
    then have "map_of (ss_rows s) (fst x) = Some (snd x)" using ok map_of_is_SomeI [of "ss_rows s" "fst x" "snd x"] by simp
    then show ?thesis using rows_ok_id [OF assms] by (simp add: row_to_project_def)
  qed
  then have "map pj_id (sql_list_for_owner w s) = rev (keys ?rows)"
    by (simp add: sql_list_for_owner_def rev_map [symmetric])
  moreover have "distinct (keys ?rows)"
    using distinct_map_filter [OF ok, of "\<lambda>(pid, r). pj_owner_id (pr_project r) = w"] unfolding distinct_map by simp
  ultimately show ?thesis by simp
qed

interpretation mem_listing: listing mem_ok MEM_STORE mem_create grants_ok MEM_MEMBERS
  by unfold_locales (simp_all add: api_defs mem_list_distinct)

interpretation sql_listing: listing rows_ok SQL_STORE sql_create sql_ok SQL_MEMBERS
  by unfold_locales (simp_all add: api_defs sql_list_distinct)

subsection \<open>Uploads\<close>

text \<open>What a rejected upload leaves: the file of the earlier one is gone, the project still names it.\<close>

lemma oversized_upload_loses_file:
  assumes "require_project so mo pid user EDITOR s m = Inr p" and "lower (path_suffix f) \<in> set ALLOWED_SUFFIXES"
    and "read_chunks cap [] chunks = None" and "pj_upload_path p = Some (pj_workspace p @ ''/upload'' @ lower (path_suffix f))"
  shows "\<exists>fs'. upload so mo cap seal pid (Some f) chunks user s m fs = (Inl (Http 413), s, fs')
    \<and> map_of fs' (the (pj_upload_path p)) = None"
  using assms by (simp add: upload_def Let_def)

text \<open>An upload during a run gives the claim of the run away.\<close>

context app
begin

lemma upload_releases:
  assumes "sok s" and "RUN_LEASE_SECONDS < now" and "upload so mo cap seal pid f chunks user s m fs = (Inr p, s', fs')"
  shows "fst (so_begin_run so now pid s')"
proof -
  obtain q dest where q: "require_project so mo pid user EDITOR s m = Inr q"
      and s': "s' = so_save so (q\<lparr>pj_upload_path := Some dest, pj_status := ''uploaded''\<rparr>) s"
    using assms(3) by (auto simp: upload_def Let_def split: sum.splits if_splits option.splits)
  have g: "so_get so s pid = Some q"
    using q by (auto simp: require_project_def split: option.splits if_splits)
  have i: "pj_id q = pid" by (rule st.get_id [OF assms(1) g])
  have "map_option run_view (so_get so s' pid) = Some (''uploaded'', pj_run_started_at q)"
    using st.view_save [OF assms(1), of "q\<lparr>pj_upload_path := Some dest, pj_status := ''uploaded''\<rparr>" pid] g i s' by simp
  then obtain p' where "so_get so s' pid = Some p'" "pj_status p' = ''uploaded''" by (auto simp: run_view_def)
  moreover have "sok s'" unfolding s' by (rule st.ok_save [OF assms(1)])
  ultimately show ?thesis using st.begin_iff [OF _ assms(2)] by (simp add: claimable_def)
qed

end

lemma read_chunks_all:
  "read_chunks cap acc cs = Some b \<Longrightarrow> length acc \<le> cap \<Longrightarrow> length b \<le> cap \<and> (\<exists>k. b = acc @ concat (take k cs))"
proof (induction cap acc cs rule: read_chunks.induct)
  case (2 cap acc c cs)
  show ?case
  proof (cases "c = []")
    case False
    with 2 have "length b \<le> cap \<and> (\<exists>k. b = (acc @ c) @ concat (take k cs))" by (auto split: if_splits)
    then obtain k where "length b \<le> cap" "b = acc @ c @ concat (take k cs)" by auto
    then show ?thesis by (auto intro: exI [of _ "Suc k"])
  qed (use 2 in \<open>auto intro: exI [of _ 0]\<close>)
qed (auto intro: exI [of _ 0])

lemma read_chunks_concat:
  "[] \<notin> set cs \<Longrightarrow> read_chunks cap acc cs = Some b \<Longrightarrow> b = acc @ concat cs"
  by (induction cap acc cs rule: read_chunks.induct) (auto split: if_splits)

lemma upload_stores:
  assumes "upload so mo cap seal pid f chunks user s m fs = (Inr p, s', fs')"
  shows "\<exists>bytes blob dest. read_chunks cap [] chunks = Some bytes \<and> seal bytes = Some blob \<and> pj_upload_path p = Some dest
    \<and> map_of fs' dest = Some blob"
  using assms by (auto simp: upload_def Let_def split: sum.splits option.splits if_splits)

subsection \<open>Text that goes into headers\<close>

lemma strip_chars: "c \<in> set (strip s) \<Longrightarrow> c \<in> set s"
  using set_strip_by by blast

lemma safe_filename_chars:
  "c \<in> set (safe_filename n) \<Longrightarrow> is_alnum c \<or> c \<in> set '' ._-''"
proof -
  let ?ok = "\<lambda>c. is_alnum c \<or> c \<in> set '' ._-''"
  let ?m = "map (\<lambda>c. if is_alnum c \<or> c \<in> set '' ._-'' then c else CHR ''-'') n"
  have r: "list_all ?ok ''report''" by code_simp
  have m: "list_all ?ok ?m" by (induction n) auto
  have "list_all ?ok (strip ?m)" using m strip_chars [of _ ?m] unfolding list_all_iff by blast
  then have "list_all ?ok (if strip ?m = [] then ''report'' else strip ?m)" using r by (cases "strip ?m = []") (simp_all only: if_True if_False simp_thms)
  then show "c \<in> set (safe_filename n) \<Longrightarrow> ?thesis"
    unfolding safe_filename_def Let_def list_all_iff by (blast dest: in_set_takeD)
qed

lemma safe_filename_length: "0 < length (safe_filename n) \<and> length (safe_filename n) \<le> 64"
  by (simp add: safe_filename_def Let_def)

lemma request_id_ok:
  assumes "fresh \<noteq> []"
  shows "request_id h fresh \<noteq> []" and "request_id h fresh = fresh \<or> length (request_id h fresh) \<le> 64 \<and> (\<forall>c \<in> set (request_id h fresh). is_alnum c \<or> c \<in> set ''-_'')"
  using assms by (auto simp: request_id_def Let_def dest: in_set_takeD)

lemma none_is_secure: "ck_samesite (session_cookie a b v) = ''none'' \<Longrightarrow> ck_secure (session_cookie a b v)"
  by (simp add: session_cookie_def Let_def)

end
