(* ===== verification/CloudFormation.thy ===== *)
theory CloudFormation
  imports GraphFacts Store
begin

text \<open>
  \<open>renderers/cloudformation.py\<close>: the CloudFormation template of an AWS plan, from its infrastructure graph, as a JSON
  value. Its dictionaries are filled in the order of the code, so an entry whose key comes again is overwritten.
  \<open>None\<close> is a \<open>KeyError\<close>. Printing the JSON text and the README are left out.
\<close>

subsection \<open>Logical identifiers\<close>

definition cap_first :: "string \<Rightarrow> string" where
  "cap_first p = (case p of [] \<Rightarrow> [] | c # cs \<Rightarrow> (if is_ascii_lower c then char_of (code c - 32) else c) # cs)"

definition cid :: "string \<Rightarrow> string \<Rightarrow> string" where
  "cid prefix name =
     (let parts = filter (\<lambda>w. w \<noteq> []) (split_on CHR '' '' (sub_runs (\<lambda>c. \<not> is_ascii_alnum c) '' '' name));
          camel = concat (map cap_first parts)
      in prefix @ (if camel = [] then ''Resource'' else camel))"

definition SSM_IMAGE_PARAMS :: "(string, string) dict" where
  "SSM_IMAGE_PARAMS =
     [(''amazon-linux-2'', ''/aws/service/ami-amazon-linux-latest/amzn2-ami-hvm-x86_64-gp2''),
      (''windows-2022'', ''/aws/service/ami-windows-latest/Windows_Server-2022-English-Full-Base''),
      (''windows-2019'', ''/aws/service/ami-windows-latest/Windows_Server-2019-English-Full-Base''),
      (''windows-2016'', ''/aws/service/ami-windows-latest/Windows_Server-2016-English-Full-Base''),
      (''ubuntu-22.04'', ''/aws/service/canonical/ubuntu/server/22.04/stable/current/amd64/hvm/ebs-gp2/ami-id'')]"

definition ami_dynamic_ref :: "string \<Rightarrow> string option" where
  "ami_dynamic_ref key =
     (case map_of SSM_IMAGE_PARAMS key of None \<Rightarrow> None
      | Some path \<Rightarrow> if path = [] then None else Some (''{{resolve:ssm:'' @ path @ ''}}''))"

definition ami_parameter_name :: "string \<Rightarrow> string" where
  "ami_parameter_name key = cid ''AmiId'' key"

subsection \<open>JSON pieces\<close>

text \<open>A dictionary filled by assignments.\<close>

definition dict_of :: "('k \<times> 'v) list \<Rightarrow> ('k, 'v) dict" where
  "dict_of kvs = foldl (\<lambda>d (k, v). AList.update k v d) [] kvs"

definition jref :: "string \<Rightarrow> json" where
  "jref i = JObj [(''Ref'', JStr i)]"

definition jatt :: "string \<Rightarrow> string \<Rightarrow> json" where
  "jatt i a = JObj [(''Fn::GetAtt'', JList [JStr i, JStr a])]"

definition jint :: "int \<Rightarrow> json" where
  "jint n = JNum (of_int n)"

definition jtag :: "string \<Rightarrow> string \<Rightarrow> json" where
  "jtag k v = JObj [(''Key'', JStr k), (''Value'', JStr v)]"

definition resource :: "string \<Rightarrow> (string \<times> json) list \<Rightarrow> json" where
  "resource ty props = JObj [(''Type'', JStr ty), (''Properties'', JObj props)]"

type_synonym entries = "(string \<times> json) list"

subsection \<open>Network\<close>

definition vpc_cid :: "graph_node \<Rightarrow> string" where
  "vpc_cid v = cid ''Vpc'' (gn_name v)"

definition vpc_entries :: "graph_node \<Rightarrow> string \<Rightarrow> bool \<Rightarrow> entries" where
  "vpc_entries v cidr igw =
     (vpc_cid v, resource ''AWS::EC2::VPC''
        [(''CidrBlock'', JStr cidr), (''EnableDnsHostnames'', JBool True), (''EnableDnsSupport'', JBool True),
         (''Tags'', JList [jtag ''Name'' (gn_name v)])])
     # (if igw
        then [(cid ''Igw'' (gn_name v), resource ''AWS::EC2::InternetGateway'' [(''Tags'', JList [jtag ''Name'' (gn_name v @ ''-igw'')])]),
              (cid ''VpcGatewayAttachment'' (gn_name v), resource ''AWS::EC2::VPCGatewayAttachment''
                 [(''VpcId'', jref (vpc_cid v)), (''InternetGatewayId'', jref (cid ''Igw'' (gn_name v)))])]
        else [])"

definition subnet_cid :: "graph_node \<Rightarrow> string" where
  "subnet_cid n = cid ''Subnet'' (gn_name n)"

definition public_node :: "graph_node \<Rightarrow> bool" where
  "public_node n \<longleftrightarrow> (case gn_attributes n of SubnetAttrs c t z \<Rightarrow> t = PUBLIC | _ \<Rightarrow> False)"

definition subnet_entry :: "string \<Rightarrow> graph_node \<Rightarrow> string \<times> json" where
  "subnet_entry vpc n =
     (case gn_attributes n of
        SubnetAttrs cidr tr az \<Rightarrow>
          (subnet_cid n, resource ''AWS::EC2::Subnet''
             [(''VpcId'', jref vpc), (''CidrBlock'', JStr cidr),
              (''AvailabilityZone'', JObj [(''Fn::Select'', JList [jint (int az), JObj [(''Fn::GetAZs'', JStr [])]])]),
              (''MapPublicIpOnLaunch'', JBool (tr = PUBLIC)),
              (''Tags'', JList [jtag ''Name'' (gn_name n), jtag ''Tier'' (subnet_value tr)])])
      | _ \<Rightarrow> (subnet_cid n, JNull))"

definition association :: "string \<Rightarrow> string \<Rightarrow> string \<times> json" where
  "association table sid =
     (cid ''RouteTableAssoc'' sid, resource ''AWS::EC2::SubnetRouteTableAssociation'' [(''SubnetId'', jref sid), (''RouteTableId'', jref table)])"

definition route_table :: "string \<Rightarrow> string \<Rightarrow> string \<times> json" where
  "route_table vpc name = (cid ''RouteTable'' name, resource ''AWS::EC2::RouteTable'' [(''VpcId'', jref vpc)])"

definition public_routes :: "graph_node \<Rightarrow> bool \<Rightarrow> string list \<Rightarrow> entries" where
  "public_routes v igw publics =
     (if igw \<and> publics \<noteq> []
      then [route_table (vpc_cid v) ''public'',
            (cid ''Route'' ''public-internet'',
             JObj [(''Type'', JStr ''AWS::EC2::Route''), (''DependsOn'', JStr (cid ''VpcGatewayAttachment'' (gn_name v))),
               (''Properties'', JObj [(''RouteTableId'', jref (cid ''RouteTable'' ''public'')), (''DestinationCidrBlock'', JStr ''0.0.0.0/0''),
                  (''GatewayId'', jref (cid ''Igw'' (gn_name v)))])])]
           @ map (association (cid ''RouteTable'' ''public'')) publics
      else [])"

definition nat_routes :: "graph_node \<Rightarrow> bool \<Rightarrow> string list \<Rightarrow> string list \<Rightarrow> entries" where
  "nat_routes v has_nat publics privates =
     (if has_nat \<and> publics \<noteq> [] \<and> privates \<noteq> []
      then [(cid ''NatEip'' ''nat'', resource ''AWS::EC2::EIP'' [(''Domain'', JStr ''vpc'')]),
            (cid ''NatGateway'' ''nat'', resource ''AWS::EC2::NatGateway''
               [(''AllocationId'', jatt (cid ''NatEip'' ''nat'') ''AllocationId''), (''SubnetId'', jref (hd publics))]),
            route_table (vpc_cid v) ''private'',
            (cid ''Route'' ''private-nat'', resource ''AWS::EC2::Route''
               [(''RouteTableId'', jref (cid ''RouteTable'' ''private'')), (''DestinationCidrBlock'', JStr ''0.0.0.0/0''),
                (''NatGatewayId'', jref (cid ''NatGateway'' ''nat''))])]
           @ map (association (cid ''RouteTable'' ''private'')) privates
      else [])"

definition sg_cid :: "graph_node \<Rightarrow> string" where
  "sg_cid n = cid ''Sg'' (gn_name n)"

definition ingress_json :: "ingress_rule \<Rightarrow> string \<Rightarrow> json" where
  "ingress_json r cidr =
     JObj [(''Description'', JStr (in_description r)), (''IpProtocol'', JStr (in_protocol r)), (''FromPort'', jint (in_from_port r)),
       (''ToPort'', jint (in_to_port r)), (''CidrIp'', JStr cidr)]"

definition sg_entry :: "string \<Rightarrow> graph_node \<Rightarrow> string \<times> json" where
  "sg_entry vpc n =
     (case gn_attributes n of
        GroupAttrs d rules \<Rightarrow>
          (sg_cid n, resource ''AWS::EC2::SecurityGroup''
             [(''GroupDescription'', JStr (if d = [] then gn_name n else d)), (''VpcId'', jref vpc),
              (''SecurityGroupIngress'', JList (concat (map (\<lambda>r. map (ingress_json r) (in_cidrs r)) rules))),
              (''SecurityGroupEgress'', JList [JObj [(''IpProtocol'', JStr ''-1''), (''CidrIp'', JStr ''0.0.0.0/0''), (''Description'', JStr ''All outbound'')]]),
              (''Tags'', JList [jtag ''Name'' (gn_name n)])])
      | _ \<Rightarrow> (sg_cid n, JNull))"

text \<open>The identifier of each node, by node id.\<close>

definition ids_by_node :: "(graph_node \<Rightarrow> string) \<Rightarrow> graph_node list \<Rightarrow> (string, string) dict" where
  "ids_by_node f ns = dict_of (map (\<lambda>n. (gn_id n, f n)) ns)"

subsection \<open>Machines\<close>

definition instance_cid :: "string \<Rightarrow> string" where
  "instance_cid name = cid ''Instance'' name"

definition node_image :: "graph_node \<Rightarrow> string" where
  "node_image n = (case gn_attributes n of InstanceAttrs ity tr env st vcpu mem img rgib extra \<Rightarrow> img | _ \<Rightarrow> [])"

definition image_parameters :: "graph_node list \<Rightarrow> entries" where
  "image_parameters insts =
     map (\<lambda>key. (ami_parameter_name key, JObj [(''Type'', JStr ''AWS::EC2::Image::Id''),
            (''Description'', JStr (''AMI id for image '' @ [CHR 0x27] @ key @ [CHR 0x27] @ '' (no public SSM alias for this OS)''))]))
       (filter (\<lambda>key. ami_dynamic_ref key = None) (sorted_set (map node_image insts)))"

definition block_device :: "string \<Rightarrow> int \<Rightarrow> json" where
  "block_device dev gib = JObj [(''DeviceName'', JStr dev), (''Ebs'', JObj [(''VolumeSize'', jint gib), (''VolumeType'', JStr ''gp3'')])]"

definition block_devices :: "int \<Rightarrow> int list \<Rightarrow> json list" where
  "block_devices root_gib extra = block_device ''/dev/xvda'' root_gib
     # map (\<lambda>(i, gib). block_device (''/dev/xvd'' @ [char_of (102 + i)]) gib) (enumerate 0 extra)"

definition instance_entry :: "infra_graph \<Rightarrow> (string, string) dict \<Rightarrow> (string, string) dict \<Rightarrow> graph_node \<Rightarrow> (string \<times> json) option" where
  "instance_entry g subs groups n =
     (case gn_attributes n of
        InstanceAttrs ity tr env st vcpu mem img rgib extra \<Rightarrow>
          (let image_id = (case ami_dynamic_ref img of Some d \<Rightarrow> JStr d | None \<Rightarrow> jref (ami_parameter_name img));
               sgs = List.map_filter (\<lambda>e. map_of groups (ge_target e)) (out_edges g (gn_id n) (Some SECURED_BY));
               subnet = (case out_edges g (gn_id n) (Some PLACED_IN) of [] \<Rightarrow> Some []
                         | e # es \<Rightarrow> map_option (\<lambda>s. [(''SubnetId'', jref s)]) (map_of subs (ge_target e)))
           in case subnet of
                None \<Rightarrow> None
              | Some sn \<Rightarrow> Some (instance_cid (gn_name n), resource ''AWS::EC2::Instance''
                  ([(''InstanceType'', JStr ity), (''ImageId'', image_id)] @ sn
                   @ [(''SecurityGroupIds'', JList (map jref sgs)), (''BlockDeviceMappings'', JList (block_devices rgib extra)),
                      (''Tags'', JList [jtag ''Name'' (gn_name n), jtag ''Tier'' (tier_value tr), jtag ''Environment'' (env_value env)])])))
      | _ \<Rightarrow> None)"

subsection \<open>Load balancers\<close>

definition lb_cid :: "graph_node \<Rightarrow> string" where
  "lb_cid n = cid ''Lb'' (gn_name n)"

definition listener_name :: "graph_node \<Rightarrow> lb_listener \<Rightarrow> string" where
  "listener_name n l = gn_name n @ ''-'' @ str_of_int (ll_listener_port l)"

definition listener_entries :: "string \<Rightarrow> graph_node \<Rightarrow> string \<Rightarrow> string list \<Rightarrow> lb_listener \<Rightarrow> entries" where
  "listener_entries vpc n path target_ids l =
     (let tg = cid ''TargetGroup'' (listener_name n l)
      in [(tg, resource ''AWS::ElasticLoadBalancingV2::TargetGroup''
             [(''Port'', jint (ll_target_port l)), (''Protocol'', JStr (ll_protocol l)), (''VpcId'', jref vpc), (''TargetType'', JStr ''instance''),
              (''HealthCheckPath'', JStr path),
              (''Targets'', JList (map (\<lambda>t. JObj [(''Id'', jref t), (''Port'', jint (ll_target_port l))]) target_ids))]),
          (cid ''Listener'' (listener_name n l), resource ''AWS::ElasticLoadBalancingV2::Listener''
             [(''LoadBalancerArn'', jref (lb_cid n)), (''Port'', jint (ll_listener_port l)), (''Protocol'', JStr (ll_protocol l)),
              (''DefaultActions'', JList [JObj [(''Type'', JStr ''forward''), (''TargetGroupArn'', jref tg)]])])])"

definition lb_entries ::
  "infra_graph \<Rightarrow> string \<Rightarrow> (string, string) dict \<Rightarrow> (string, string) dict \<Rightarrow> (string, string) dict \<Rightarrow> graph_node \<Rightarrow> entries option" where
  "lb_entries g vpc subs groups insts n =
     (case gn_attributes n of
        LbAttrs tr env st facing path listeners \<Rightarrow>
          (case (those (map (\<lambda>e. map_of subs (ge_target e)) (out_edges g (gn_id n) (Some PLACED_IN))),
                 those (map (\<lambda>e. map_of groups (ge_target e)) (out_edges g (gn_id n) (Some SECURED_BY))),
                 those (map (\<lambda>t. map_of insts (gn_name t)) (List.map_filter (\<lambda>e. node_by_id g (ge_target e)) (out_edges g (gn_id n) (Some FRONTS))))) of
             (Some sns, Some sgs, Some target_ids) \<Rightarrow>
               Some ((lb_cid n, resource ''AWS::ElasticLoadBalancingV2::LoadBalancer''
                  [(''Type'', JStr ''application''), (''Scheme'', JStr (if facing then ''internet-facing'' else ''internal'')),
                   (''Subnets'', JList (map jref sns)), (''SecurityGroups'', JList (map jref sgs)), (''Tags'', JList [jtag ''Name'' (gn_name n)])])
                 # concat (map (listener_entries vpc n path target_ids) listeners))
           | _ \<Rightarrow> None)
      | _ \<Rightarrow> None)"

subsection \<open>The template\<close>

record cfn_template =
  ct_description :: string
  ct_parameters :: "(string, json) dict"
  ct_resources :: "(string, json) dict"
  ct_outputs :: "(string, json) dict"

definition value_of :: "json \<Rightarrow> json" where
  "value_of v = JObj [(''Value'', v)]"

definition template_outputs :: "string \<Rightarrow> graph_node list \<Rightarrow> graph_node list \<Rightarrow> entries" where
  "template_outputs vpc lbs insts =
     map (\<lambda>n. (lb_cid n @ ''DnsName'', value_of (jatt (lb_cid n) ''DNSName''))) lbs
     @ [(''VpcId'', value_of (jref vpc))]
     @ map (\<lambda>n. (instance_cid (gn_name n) @ ''Id'', value_of (jref (instance_cid (gn_name n))))) insts"

definition build_template :: "infra_graph \<Rightarrow> migration_plan \<Rightarrow> cfn_template option" where
  "build_template g p =
     (case nodes_of g VPC of
        [] \<Rightarrow> None
      | v # vs \<Rightarrow>
          (case gn_attributes v of
             VpcAttrs cidr igw has_nat \<Rightarrow>
               (let subnets = nodes_of g SUBNET; groups = nodes_of g SECURITY_GROUP; insts = nodes_of g INSTANCE; lbs = nodes_of g LOAD_BALANCER;
                    publics = map subnet_cid (filter public_node subnets); privates = map subnet_cid (filter (\<lambda>n. \<not> public_node n) subnets);
                    sub_ids = ids_by_node subnet_cid subnets; group_ids = ids_by_node sg_cid groups;
                    inst_ids = dict_of (map (\<lambda>n. (gn_name n, instance_cid (gn_name n))) insts)
                in case (those (map (instance_entry g sub_ids group_ids) insts), those (map (lb_entries g (vpc_cid v) sub_ids group_ids inst_ids) lbs)) of
                     (Some machines, Some balancers) \<Rightarrow>
                       Some \<lparr>ct_description = ''IaCTranslate-generated migration of '' @ plan_project p @ '' to AWS (rendered from the Infrastructure Graph).'',
                         ct_parameters = dict_of (image_parameters insts),
                         ct_resources = dict_of (vpc_entries v cidr igw @ map (subnet_entry (vpc_cid v)) subnets @ public_routes v igw publics
                           @ nat_routes v has_nat publics privates @ map (sg_entry (vpc_cid v)) groups @ machines @ concat balancers),
                         ct_outputs = dict_of (template_outputs (vpc_cid v) lbs insts)\<rparr>
                   | _ \<Rightarrow> None)
           | _ \<Rightarrow> None))"

text \<open>The JSON value: no parameters, no entry for them.\<close>

definition template_json :: "cfn_template \<Rightarrow> json" where
  "template_json t =
     JObj ([(''AWSTemplateFormatVersion'', JStr ''2010-09-09''), (''Description'', JStr (ct_description t))]
       @ (if ct_parameters t = [] then [] else [(''Parameters'', JObj (ct_parameters t))])
       @ [(''Resources'', JObj (ct_resources t)), (''Outputs'', JObj (ct_outputs t))])"

datatype cfn_error = CfnNotSupported | CfnKeyError

definition build_cloudformation :: "migration_plan \<Rightarrow> target \<Rightarrow> cfn_error + json" where
  "build_cloudformation p t =
     (if t_name t \<noteq> ''aws'' then Inl CfnNotSupported
      else case build_template (build_graph p) p of None \<Rightarrow> Inl CfnKeyError | Some tpl \<Rightarrow> Inr (template_json tpl))"

subsection \<open>References\<close>

text \<open>The identifiers a JSON value refers to: the three forms the template uses.\<close>

fun json_refs :: "json \<Rightarrow> string list" where
  "json_refs (JObj kvs) = concat (map (\<lambda>(k, v).
     if k = ''Ref'' \<or> k = ''DependsOn'' then (case v of JStr s \<Rightarrow> [s] | _ \<Rightarrow> [])
     else if k = ''Fn::GetAtt'' then (case v of JList (JStr s # vs) \<Rightarrow> [s] | _ \<Rightarrow> [])
     else json_refs v) kvs)"
| "json_refs (JList vs) = concat (map json_refs vs)"
| "json_refs v = []"

definition refs_in :: "entries \<Rightarrow> string set" where
  "refs_in es = (\<Union>(k, v) \<in> set es. set (json_refs v))"

text \<open>A template is closed when every reference is to one of its resources or parameters.\<close>

definition template_closed :: "cfn_template \<Rightarrow> bool" where
  "template_closed t \<longleftrightarrow> refs_in (ct_resources t @ ct_outputs t) \<subseteq> set (keys (ct_resources t)) \<union> set (keys (ct_parameters t))"

lemma refs_in_simps [simp]:
  "refs_in [] = {}" "refs_in ((k, v) # es) = set (json_refs v) \<union> refs_in es" "refs_in (es @ fs) = refs_in es \<union> refs_in fs"
  "refs_in (concat ess) = (\<Union>es \<in> set ess. refs_in es)"
  by (auto simp: refs_in_def)

lemma refs_in_map: "refs_in (map f xs) = (\<Union>x \<in> set xs. set (json_refs (snd (f x))))"
  by (auto simp: refs_in_def)

lemma json_refs_pieces [simp]:
  "json_refs (jref i) = [i]" "json_refs (jatt i a) = [i]" "json_refs (jint n) = []" "json_refs (jtag k v) = []"
  by (simp_all add: jref_def jatt_def jint_def jtag_def)

lemma refs_resource: "set (json_refs (resource ty props)) = set (json_refs (JObj props))"
  by (simp add: resource_def)

lemma ref_free: "(\<And>x. x \<in> set xs \<Longrightarrow> json_refs (f x) = []) \<Longrightarrow> concat (map (json_refs \<circ> f) xs) = []"
  by (induction xs) simp_all

lemma refs_vpc: "refs_in (vpc_entries v cidr igw) \<subseteq> {vpc_cid v} \<union> (if igw then {cid ''Igw'' (gn_name v)} else {})"
  by (simp add: vpc_entries_def refs_resource)

lemma refs_subnet_entry: "set (json_refs (snd (subnet_entry vpc n))) \<subseteq> {vpc}"
  by (simp add: subnet_entry_def refs_resource split: attributes.split)

lemma refs_public_routes:
  "refs_in (public_routes v igw publics) \<subseteq> (if igw \<and> publics \<noteq> []
     then {vpc_cid v, cid ''RouteTable'' ''public'', cid ''VpcGatewayAttachment'' (gn_name v), cid ''Igw'' (gn_name v)} \<union> set publics else {})"
  by (auto simp: public_routes_def route_table_def association_def refs_resource refs_in_map)

lemma refs_nat_routes:
  "refs_in (nat_routes v b publics privates) \<subseteq> (if b \<and> publics \<noteq> [] \<and> privates \<noteq> []
     then {vpc_cid v, cid ''RouteTable'' ''private'', cid ''NatEip'' ''nat'', cid ''NatGateway'' ''nat''} \<union> set publics \<union> set privates else {})"
  by (auto simp: nat_routes_def route_table_def association_def refs_resource refs_in_map)

lemma refs_sg_entry: "set (json_refs (snd (sg_entry vpc n))) \<subseteq> {vpc}"
  by (auto simp: sg_entry_def refs_resource ingress_json_def split: attributes.split)

lemma refs_block_devices: "concat (map json_refs (block_devices r extra)) = []"
proof -
  have b: "json_refs (block_device d n) = []" for d n by (simp add: block_device_def)
  then have "concat (map json_refs (map (\<lambda>(i, gib). block_device (f i) gib) xs)) = []" for f :: "nat \<Rightarrow> string" and xs
    by (induction xs) auto
  then show ?thesis by (simp add: block_devices_def b)
qed

subsection \<open>Dictionaries filled by assignments\<close>

lemma dict_of_snoc: "dict_of (kvs @ [(k, v)]) = AList.update k v (dict_of kvs)"
  by (simp add: dict_of_def)

lemma dict_of_lookup: "map_of (dict_of kvs) k = map_of (rev kvs) k"
  by (induction kvs rule: rev_induct) (auto simp: dict_of_snoc, simp add: dict_of_def)

lemma dict_of_keys: "set (keys (dict_of kvs)) = fst ` set kvs"
proof (induction kvs rule: rev_induct)
  case (snoc x kvs)
  obtain k v where x: "x = (k, v)" by (cases x)
  show ?case unfolding x dict_of_snoc keys_dict_update snoc by simp
qed (simp add: dict_of_def)

lemma dict_of_subset: "set (dict_of kvs) \<subseteq> set kvs"
proof (induction kvs rule: rev_induct)
  case (snoc x kvs)
  then show ?case by (cases x) (auto simp: dict_of_snoc dest!: AList_update_mem)
qed (simp add: dict_of_def)

lemma refs_dict_of: "refs_in (dict_of kvs) \<subseteq> refs_in kvs"
  using dict_of_subset [of kvs] by (fastforce simp: refs_in_def)

lemma ids_by_node_dom: "i \<in> gn_id ` set ns \<Longrightarrow> \<exists>x. map_of (ids_by_node f ns) i = Some x"
proof -
  assume "i \<in> gn_id ` set ns"
  then have "i \<in> set (keys (ids_by_node f ns))" by (simp only: ids_by_node_def dict_of_keys) force
  then have "map_of (ids_by_node f ns) i \<noteq> None" by (simp only: map_of_None_keys not_not)
  then show ?thesis by blast
qed

lemma ids_by_node_range: "map_of (ids_by_node f ns) i = Some x \<Longrightarrow> x \<in> f ` set ns"
  using dict_of_subset by (fastforce simp: ids_by_node_def dest!: map_of_SomeD)

subsection \<open>Machines and balancers\<close>

abbreviation subnet_ids_of :: "migration_plan \<Rightarrow> (string, string) dict" where
  "subnet_ids_of p \<equiv> ids_by_node subnet_cid (nodes_of (build_graph p) SUBNET)"

abbreviation group_ids_of :: "migration_plan \<Rightarrow> (string, string) dict" where
  "group_ids_of p \<equiv> ids_by_node sg_cid (nodes_of (build_graph p) SECURITY_GROUP)"

abbreviation instance_ids_of :: "migration_plan \<Rightarrow> (string, string) dict" where
  "instance_ids_of p \<equiv> dict_of (map (\<lambda>n. (gn_name n, instance_cid (gn_name n))) (nodes_of (build_graph p) INSTANCE))"

definition network_cids :: "migration_plan \<Rightarrow> string set" where
  "network_cids p = subnet_cid ` set (nodes_of (build_graph p) SUBNET) \<union> sg_cid ` set (nodes_of (build_graph p) SECURITY_GROUP)"

text \<open>The identifier, type and instance type of a machine's entry.\<close>

definition entry_of :: "compute_plan \<Rightarrow> string \<times> json \<Rightarrow> bool" where
  "entry_of c e \<longleftrightarrow> (\<exists>props. e = (instance_cid (c_vm_name c), resource ''AWS::EC2::Instance'' ((''InstanceType'', JStr (c_instance_type c)) # props)))"

lemma instance_rendered:
  assumes "c \<in> set (plan_compute p)"
  shows "\<exists>e. instance_entry (build_graph p) (subnet_ids_of p) (group_ids_of p) (instance_node c) = Some e \<and> entry_of c e
    \<and> set (json_refs (snd e)) \<subseteq> network_cids p \<union> fst ` set (image_parameters (nodes_of (build_graph p) INSTANCE))"
proof -
  let ?g = "build_graph p" and ?n = "instance_node c"
  let ?es = "out_edges ?g (gn_id ?n) (Some PLACED_IN)"
  define sgs where "sgs = List.map_filter (\<lambda>e. map_of (group_ids_of p) (ge_target e)) (out_edges ?g (gn_id ?n) (Some SECURED_BY))"
  have sg: "set sgs \<subseteq> network_cids p"
    by (auto simp: sgs_def map_filter_mem network_cids_def dest!: ids_by_node_range)
  obtain sn where sn: "(case ?es of [] \<Rightarrow> Some [] | e # es \<Rightarrow> map_option (\<lambda>s. [(''SubnetId'', jref s)]) (map_of (subnet_ids_of p) (ge_target e))) = Some sn"
    and snr: "set (json_refs (JObj sn)) \<subseteq> network_cids p"
  proof (cases ?es)
    case Nil
    then show thesis using that [of "[]"] by simp
  next
    case (Cons e es)
    then have "ge_target e \<in> gn_id ` set (nodes_of ?g SUBNET)" by (intro placed_in_subnet [of e p "gn_id ?n"]) simp
    from ids_by_node_dom [OF this, of subnet_cid] obtain x where x: "map_of (subnet_ids_of p) (ge_target e) = Some x" ..
    then show thesis using that [of "[(''SubnetId'', jref x)]"] Cons ids_by_node_range [OF x] by (simp add: network_cids_def)
  qed
  have attrs: "gn_attributes ?n = InstanceAttrs (c_instance_type c) (c_tier c) (c_environment c) (c_subnet_tier c)
        (c_vcpu c) (c_memory c) (c_image_key c) (c_root_gib c) (c_extra_gib c)" by (simp add: instance_node_def)
  let ?img = "case ami_dynamic_ref (c_image_key c) of Some d \<Rightarrow> JStr d | None \<Rightarrow> jref (ami_parameter_name (c_image_key c))"
  have "c_image_key c \<in> set (sorted_set (map node_image (nodes_of ?g INSTANCE)))"
    using assms by (auto simp: graph_nodes node_image_def instance_node_def image_image)
  then have img: "set (json_refs ?img) \<subseteq> fst ` set (image_parameters (nodes_of ?g INSTANCE))"
    by (auto simp: image_parameters_def image_image split: option.split)
  let ?e = "(instance_cid (c_vm_name c), resource ''AWS::EC2::Instance''
      ([(''InstanceType'', JStr (c_instance_type c)), (''ImageId'', ?img)] @ sn
       @ [(''SecurityGroupIds'', JList (map jref sgs)), (''BlockDeviceMappings'', JList (block_devices (c_root_gib c) (c_extra_gib c))),
          (''Tags'', JList [jtag ''Name'' (c_vm_name c), jtag ''Tier'' (tier_value (c_tier c)), jtag ''Environment'' (env_value (c_environment c))])]))"
  have name: "gn_name ?n = c_vm_name c" by (simp add: instance_node_def)
  have e: "instance_entry ?g (subnet_ids_of p) (group_ids_of p) ?n = Some ?e"
    unfolding instance_entry_def attrs attributes.case Let_def sgs_def [symmetric] sn option.case name ..
  have m: "json_refs (JObj (xs @ ys)) = json_refs (JObj xs) @ json_refs (JObj ys)" for xs ys by simp
  have "set (json_refs (snd ?e)) = set (json_refs ?img) \<union> set (json_refs (JObj sn)) \<union> set sgs"
    unfolding snd_conv refs_resource m by (auto simp: refs_block_devices)
  then have "set (json_refs (snd ?e)) \<subseteq> network_cids p \<union> fst ` set (image_parameters (nodes_of ?g INSTANCE))"
    using img snr sg by blast
  moreover have "entry_of c ?e" unfolding entry_of_def by (rule exI) (simp only: append_Cons append_Nil)
  ultimately show ?thesis using e by blast
qed

text \<open>The target of an edge of a balancer, by its kind.\<close>

lemma lb_edge_targets:
  assumes "e \<in> set (out_edges (build_graph p) i (Some k))"
  shows "k = SECURED_BY \<Longrightarrow> ge_target e \<in> gn_id ` set (nodes_of (build_graph p) SECURITY_GROUP)"
    and "k = FRONTS \<Longrightarrow> ge_target e \<in> gn_id ` set (nodes_of (build_graph p) INSTANCE)"
proof -
  let ?net = "plan_net p"
  have sg: "x \<in> sg_id ` sg_resource_name ` set (net_security_groups ?net)" if "map_of (sg_ids ?net) n = Some x" for n x
    by (rule fold_update_range [OF that [unfolded sg_ids_def]]) auto
  have inst: "x \<in> instance_id ` c_resource_name ` set (plan_compute p)" if "map_of (instance_ids (plan_compute p)) n = Some x" for n x
    by (rule fold_update_range [OF that [unfolded instance_ids_def]]) auto
  have e: "ge_kind e = k" "e \<in> set (g_edges (build_graph p))" using assms by (simp_all add: out_edges_def)
  have g: "gn_id ` set (nodes_of (build_graph p) SECURITY_GROUP) = sg_id ` sg_resource_name ` set (net_security_groups ?net)"
    "gn_id ` set (nodes_of (build_graph p) INSTANCE) = instance_id ` c_resource_name ` set (plan_compute p)"
    by (simp_all add: graph_nodes group_node_def instance_node_def image_image)
  show "k = SECURED_BY \<Longrightarrow> ge_target e \<in> gn_id ` set (nodes_of (build_graph p) SECURITY_GROUP)"
    unfolding g using e by (auto simp: build_graph_def Let_def edge_def instance_edges_def lb_edges_def edge_to_mem dest!: sg)
  show "k = FRONTS \<Longrightarrow> ge_target e \<in> gn_id ` set (nodes_of (build_graph p) INSTANCE)"
    unfolding g using e by (auto simp: build_graph_def Let_def edge_def instance_edges_def lb_edges_def edge_to_mem dest!: inst)
qed

lemma those_lookup:
  assumes "\<And>x. x \<in> set xs \<Longrightarrow> \<exists>y. f x = Some y \<and> y \<in> A"
  obtains ys where "those (map f xs) = Some ys" and "set ys \<subseteq> A"
proof -
  obtain ys where ys: "those (map f xs) = Some ys" "list_all2 (\<lambda>x y. y \<in> A) xs ys"
    using those_all [of xs f "\<lambda>x y. y \<in> A"] assms by blast
  from ys(2) have "set ys \<subseteq> A" by (induction rule: list_all2_induct) auto
  then show thesis using that ys(1) by blast
qed

lemma refs_listener:
  "refs_in (listener_entries vpc n path ts l) \<subseteq> {vpc, lb_cid n, cid ''TargetGroup'' (listener_name n l)} \<union> set ts"
  by (auto simp: listener_entries_def Let_def refs_resource)

text \<open>An identifier starts as its prefix does.\<close>

lemma cid_append: "\<exists>r. cid p n = p @ r"
  by (simp add: cid_def Let_def)

lemma cid_differs: "cid (a # p) n \<noteq> cid (b # q) m" if "a \<noteq> b"
  using cid_append [of "a # p" n] cid_append [of "b # q" m] that by auto

lemma node_by_id_instance:
  assumes "node_by_id (build_graph p) i = Some t" and "i \<in> gn_id ` set (nodes_of (build_graph p) INSTANCE)"
  shows "\<exists>c \<in> set (plan_compute p). t = instance_node c"
proof -
  have t: "t \<in> set (g_nodes (build_graph p))" "gn_id t = i"
    using assms(1) by (auto simp: node_by_id_def find_Some_iff)
  from assms(2) have "i \<in> instance_id ` c_resource_name ` set (plan_compute p)"
    by (simp add: graph_nodes instance_node_def image_image)
  then obtain c :: compute_plan where "i = instance_id (c_resource_name c)" by blast
  with t show ?thesis
    by (auto simp: build_graph_def Let_def vpc_node_def subnet_node_def group_node_def lb_node_def id_prefixes id_prefixes(5-) [symmetric])
qed

text \<open>The references of a balancer's entries.\<close>

definition lb_scope :: "migration_plan \<Rightarrow> string set" where
  "lb_scope p = network_cids p \<union> (instance_cid \<circ> c_vm_name) ` set (plan_compute p)"

lemma lb_lookups:
  obtains sns sgs ts where
    "those (map (\<lambda>e. map_of (subnet_ids_of p) (ge_target e)) (out_edges (build_graph p) i (Some PLACED_IN))) = Some sns"
    "those (map (\<lambda>e. map_of (group_ids_of p) (ge_target e)) (out_edges (build_graph p) i (Some SECURED_BY))) = Some sgs"
    "those (map (\<lambda>t. map_of (instance_ids_of p) (gn_name t))
       (List.map_filter (\<lambda>e. node_by_id (build_graph p) (ge_target e)) (out_edges (build_graph p) i (Some FRONTS)))) = Some ts"
    "set sns \<union> set sgs \<union> set ts \<subseteq> lb_scope p"
proof -
  have a: "\<exists>y. map_of (subnet_ids_of p) (ge_target e) = Some y \<and> y \<in> lb_scope p"
    if h: "e \<in> set (out_edges (build_graph p) i (Some PLACED_IN))" for e
  proof -
    obtain y where y: "map_of (subnet_ids_of p) (ge_target e) = Some y"
      using ids_by_node_dom [OF placed_in_subnet [OF h], of subnet_cid] by (elim exE)
    from ids_by_node_range [OF this] show ?thesis using y by (auto simp: lb_scope_def network_cids_def)
  qed
  have b: "\<exists>y. map_of (group_ids_of p) (ge_target e) = Some y \<and> y \<in> lb_scope p"
    if h: "e \<in> set (out_edges (build_graph p) i (Some SECURED_BY))" for e
  proof -
    obtain y where y: "map_of (group_ids_of p) (ge_target e) = Some y"
      using ids_by_node_dom [OF lb_edge_targets(1) [OF h refl], of sg_cid] by (elim exE)
    from ids_by_node_range [OF this] show ?thesis using y by (auto simp: lb_scope_def network_cids_def)
  qed
  have c: "\<exists>y. map_of (instance_ids_of p) (gn_name t) = Some y \<and> y \<in> lb_scope p"
    if t: "t \<in> set (List.map_filter (\<lambda>e. node_by_id (build_graph p) (ge_target e)) (out_edges (build_graph p) i (Some FRONTS)))" for t
  proof -
    obtain e where e: "e \<in> set (out_edges (build_graph p) i (Some FRONTS))" "node_by_id (build_graph p) (ge_target e) = Some t"
      using t by (auto simp: map_filter_mem)
    obtain c where c: "c \<in> set (plan_compute p)" "t = instance_node c"
      using node_by_id_instance [OF e(2) lb_edge_targets(2) [OF e(1) refl]] by blast
    have n: "gn_name t = c_vm_name c" by (simp add: c instance_node_def)
    have "c_vm_name c \<in> set (keys (instance_ids_of p))"
      unfolding dict_of_keys using c(1) by (auto simp: graph_nodes image_image instance_node_def)
    then have "map_of (instance_ids_of p) (c_vm_name c) \<noteq> None" by (simp only: map_of_None_keys not_not)
    then obtain y where y: "map_of (instance_ids_of p) (c_vm_name c) = Some y" by blast
    then have "(c_vm_name c, y) \<in> set (instance_ids_of p)" by (rule map_of_SomeD)
    then have "y \<in> (instance_cid \<circ> c_vm_name) ` set (plan_compute p)"
      using dict_of_subset by (fastforce simp: graph_nodes instance_node_def)
    then show ?thesis using y by (simp only: n lb_scope_def) blast
  qed
  obtain sns where sns: "those (map (\<lambda>e. map_of (subnet_ids_of p) (ge_target e)) (out_edges (build_graph p) i (Some PLACED_IN))) = Some sns"
    "set sns \<subseteq> lb_scope p" by (rule those_lookup [OF a])
  obtain sgs where sgs: "those (map (\<lambda>e. map_of (group_ids_of p) (ge_target e)) (out_edges (build_graph p) i (Some SECURED_BY))) = Some sgs"
    "set sgs \<subseteq> lb_scope p" by (rule those_lookup [OF b])
  obtain ts where ts: "those (map (\<lambda>t. map_of (instance_ids_of p) (gn_name t))
      (List.map_filter (\<lambda>e. node_by_id (build_graph p) (ge_target e)) (out_edges (build_graph p) i (Some FRONTS)))) = Some ts"
    "set ts \<subseteq> lb_scope p" by (rule those_lookup [OF c])
  show thesis by (rule that [OF sns(1) sgs(1) ts(1)]) (use sns(2) sgs(2) ts(2) in blast)
qed

lemma listener_keys:
  "fst ` set (listener_entries vpc n path ts l) = {cid ''TargetGroup'' (listener_name n l), cid ''Listener'' (listener_name n l)}"
  by (simp add: listener_entries_def Let_def)

definition balancer_entries_ok :: "migration_plan \<Rightarrow> string \<Rightarrow> load_balancer \<Rightarrow> entries \<Rightarrow> bool" where
  "balancer_entries_ok p vpc lb es \<longleftrightarrow> lb_cid (lb_node lb) \<in> fst ` set es \<and> refs_in es \<subseteq> fst ` set es \<union> {vpc} \<union> lb_scope p
     \<and> (\<forall>nm. instance_cid nm \<notin> fst ` set es)"

lemma lb_entries_rendered:
  "\<exists>es. lb_entries (build_graph p) vpc (subnet_ids_of p) (group_ids_of p) (instance_ids_of p) (lb_node lb) = Some es
    \<and> balancer_entries_ok p vpc lb es"
proof -
  let ?n = "lb_node lb"
  obtain sns sgs ts where l:
    "those (map (\<lambda>e. map_of (subnet_ids_of p) (ge_target e)) (out_edges (build_graph p) (gn_id ?n) (Some PLACED_IN))) = Some sns"
    "those (map (\<lambda>e. map_of (group_ids_of p) (ge_target e)) (out_edges (build_graph p) (gn_id ?n) (Some SECURED_BY))) = Some sgs"
    "those (map (\<lambda>t. map_of (instance_ids_of p) (gn_name t))
       (List.map_filter (\<lambda>e. node_by_id (build_graph p) (ge_target e)) (out_edges (build_graph p) (gn_id ?n) (Some FRONTS)))) = Some ts"
    and sc: "set sns \<union> set sgs \<union> set ts \<subseteq> lb_scope p" by (rule lb_lookups [of p "gn_id ?n"])
  have at: "gn_attributes ?n = LbAttrs (lb_tier lb) (lb_environment lb) (lb_subnet_tier lb) (internet_facing lb) (lb_health_path lb) (lb_listeners lb)"
    by (simp add: lb_node_def)
  define b where "b = (lb_cid ?n, resource ''AWS::ElasticLoadBalancingV2::LoadBalancer''
                  [(''Type'', JStr ''application''), (''Scheme'', JStr (if internet_facing lb then ''internet-facing'' else ''internal'')),
                   (''Subnets'', JList (map jref sns)), (''SecurityGroups'', JList (map jref sgs)), (''Tags'', JList [jtag ''Name'' (gn_name ?n)])])"
  define es where "es = b # concat (map (listener_entries vpc ?n (lb_health_path lb) ts) (lb_listeners lb))"
  have e: "lb_entries (build_graph p) vpc (subnet_ids_of p) (group_ids_of p) (instance_ids_of p) ?n = Some es"
    unfolding lb_entries_def at attributes.case l es_def b_def by simp
  have keys: "fst ` set es = insert (lb_cid ?n) (\<Union>x \<in> set (lb_listeners lb). {cid ''TargetGroup'' (listener_name ?n x), cid ''Listener'' (listener_name ?n x)})"
    by (auto simp: es_def b_def image_UN listener_keys)
  have rb: "set (json_refs (snd b)) = set sns \<union> set sgs" by (auto simp: b_def refs_resource)
  have "refs_in es = set sns \<union> set sgs \<union> (\<Union>x \<in> set (lb_listeners lb). refs_in (listener_entries vpc ?n (lb_health_path lb) ts x))"
    by (cases b) (use rb in \<open>simp add: es_def\<close>)
  then have "refs_in es \<subseteq> fst ` set es \<union> {vpc} \<union> lb_scope p"
    using refs_listener [of vpc ?n "lb_health_path lb" ts] sc unfolding keys by fastforce
  moreover have "instance_cid nm \<notin> fst ` set es" for nm
    unfolding keys by (auto simp: instance_cid_def lb_cid_def cid_differs)
  ultimately show ?thesis using e by (auto simp: balancer_entries_ok_def keys)
qed

subsection \<open>The template of a plan\<close>

text \<open>The identifiers the fixed parts of the template declare.\<close>

lemma network_keys:
  "vpc_cid v \<in> fst ` set (vpc_entries v cidr igw)"
  "igw \<Longrightarrow> {cid ''Igw'' (gn_name v), cid ''VpcGatewayAttachment'' (gn_name v)} \<subseteq> fst ` set (vpc_entries v cidr igw)"
  "igw \<Longrightarrow> publics \<noteq> [] \<Longrightarrow> cid ''RouteTable'' ''public'' \<in> fst ` set (public_routes v igw publics)"
  "has_nat \<Longrightarrow> publics \<noteq> [] \<Longrightarrow> privates \<noteq> [] \<Longrightarrow>
     {cid ''RouteTable'' ''private'', cid ''NatEip'' ''nat'', cid ''NatGateway'' ''nat''} \<subseteq> fst ` set (nat_routes v has_nat publics privates)"
  by (simp_all add: vpc_entries_def public_routes_def nat_routes_def route_table_def)

lemma fst_entries: "fst (subnet_entry vpc n) = subnet_cid n" "fst (sg_entry vpc n) = sg_cid n"
  by (simp_all add: subnet_entry_def sg_entry_def split: attributes.split)

lemma fixed_refs:
  "refs_in (vpc_entries v cidr igw @ map (subnet_entry (vpc_cid v)) sns @ public_routes v igw (map subnet_cid (filter public_node sns))
      @ nat_routes v has_nat (map subnet_cid (filter public_node sns)) (map subnet_cid (filter (\<lambda>n. \<not> public_node n) sns))
      @ map (sg_entry (vpc_cid v)) groups)
    \<subseteq> fst ` set (vpc_entries v cidr igw @ map (subnet_entry (vpc_cid v)) sns @ public_routes v igw (map subnet_cid (filter public_node sns))
      @ nat_routes v has_nat (map subnet_cid (filter public_node sns)) (map subnet_cid (filter (\<lambda>n. \<not> public_node n) sns))
      @ map (sg_entry (vpc_cid v)) groups)" (is "_ \<subseteq> fst ` set ?R")
proof -
  let ?pub = "map subnet_cid (filter public_node sns)" and ?priv = "map subnet_cid (filter (\<lambda>n. \<not> public_node n) sns)"
  define K where "K = fst ` set ?R"
  have pieces: "fst ` set (vpc_entries v cidr igw) \<subseteq> K" "subnet_cid ` set sns \<subseteq> K" "fst ` set (public_routes v igw ?pub) \<subseteq> K"
    "fst ` set (nat_routes v has_nat ?pub ?priv) \<subseteq> K"
    unfolding K_def set_append image_Un set_map image_image fst_entries by (rule Un_upper1, auto simp only: Un_iff)+
  have v: "vpc_cid v \<in> K" using network_keys(1) pieces(1) by (rule rev_subsetD)
  have s: "set ?pub \<subseteq> K" "set ?priv \<subseteq> K" using pieces(2) by auto
  have igw: "{cid ''Igw'' (gn_name v), cid ''VpcGatewayAttachment'' (gn_name v)} \<subseteq> K" if igw
    using network_keys(2) [OF that] pieces(1) by (rule subset_trans)
  have a: "refs_in (vpc_entries v cidr igw) \<subseteq> K"
    by (rule subset_trans [OF refs_vpc]) (use v igw in simp)
  have b: "refs_in (map (subnet_entry (vpc_cid v)) sns) \<subseteq> K"
    unfolding refs_in_map using refs_subnet_entry v by fastforce
  have c: "refs_in (public_routes v igw ?pub) \<subseteq> K"
  proof (rule subset_trans [OF refs_public_routes], split if_split, intro conjI impI)
    assume i: "igw \<and> ?pub \<noteq> []"
    have "cid ''RouteTable'' ''public'' \<in> K" using network_keys(3) [of igw ?pub v] i pieces(3) by blast
    then show "{vpc_cid v, cid ''RouteTable'' ''public'', cid ''VpcGatewayAttachment'' (gn_name v), cid ''Igw'' (gn_name v)} \<union> set ?pub \<subseteq> K"
      using v s(1) igw [OF conjunct1 [OF i]] by (simp only: Un_subset_iff insert_subset simp_thms empty_subsetI)
  qed simp
  have d: "refs_in (nat_routes v has_nat ?pub ?priv) \<subseteq> K"
  proof (rule subset_trans [OF refs_nat_routes], split if_split, intro conjI impI)
    assume i: "has_nat \<and> ?pub \<noteq> [] \<and> ?priv \<noteq> []"
    have "{cid ''RouteTable'' ''private'', cid ''NatEip'' ''nat'', cid ''NatGateway'' ''nat''} \<subseteq> K"
      using network_keys(4) [of has_nat ?pub ?priv v] i pieces(4) by (meson subset_trans)
    then show "{vpc_cid v, cid ''RouteTable'' ''private'', cid ''NatEip'' ''nat'', cid ''NatGateway'' ''nat''} \<union> set ?pub \<union> set ?priv \<subseteq> K"
      using v s by (simp only: Un_subset_iff insert_subset simp_thms empty_subsetI)
  qed simp
  have e: "refs_in (map (sg_entry (vpc_cid v)) groups) \<subseteq> K"
    unfolding refs_in_map using refs_sg_entry v by fastforce
  show ?thesis unfolding refs_in_simps(3) K_def [symmetric] using a b c d e by (simp only: Un_subset_iff simp_thms)
qed

text \<open>What the template of a plan has: every reference resolves, and with distinct identifiers every machine is there.\<close>

definition template_of_plan :: "migration_plan \<Rightarrow> cfn_template \<Rightarrow> bool" where
  "template_of_plan p tpl \<longleftrightarrow> template_closed tpl
     \<and> (distinct (map (\<lambda>c. instance_cid (c_vm_name c)) (plan_compute p))
        \<longrightarrow> (\<forall>c \<in> set (plan_compute p). \<exists>v. map_of (ct_resources tpl) (instance_cid (c_vm_name c)) = Some v
              \<and> entry_of c (instance_cid (c_vm_name c), v)))"

lemma machines_rendered:
  obtains ms where "those (map (instance_entry (build_graph p) (subnet_ids_of p) (group_ids_of p)) (nodes_of (build_graph p) INSTANCE)) = Some ms"
    and "list_all2 entry_of (plan_compute p) ms"
    and "refs_in ms \<subseteq> network_cids p \<union> fst ` set (image_parameters (nodes_of (build_graph p) INSTANCE))"
proof -
  let ?A = "network_cids p \<union> fst ` set (image_parameters (nodes_of (build_graph p) INSTANCE))"
  let ?P = "\<lambda>c e. entry_of c e \<and> set (json_refs (snd e)) \<subseteq> ?A"
  obtain ms where ms: "those (map (\<lambda>c. instance_entry (build_graph p) (subnet_ids_of p) (group_ids_of p) (instance_node c)) (plan_compute p)) = Some ms"
    "list_all2 ?P (plan_compute p) ms"
    using those_all [of "plan_compute p" "\<lambda>c. instance_entry (build_graph p) (subnet_ids_of p) (group_ids_of p) (instance_node c)" ?P]
      instance_rendered by blast
  have "list_all2 entry_of (plan_compute p) ms" using ms(2) by (rule list_all2_mono) simp
  moreover have "refs_in ms \<subseteq> ?A" using ms(2) by (induction rule: list_all2_induct) (auto simp: refs_in_def)
  ultimately show thesis using that [of ms] ms(1) by (simp add: graph_nodes comp_def)
qed

lemma balancers_rendered:
  obtains bs where "those (map (lb_entries (build_graph p) vpc (subnet_ids_of p) (group_ids_of p) (instance_ids_of p)) (nodes_of (build_graph p) LOAD_BALANCER)) = Some bs"
    and "list_all2 (balancer_entries_ok p vpc) (net_load_balancers (plan_net p)) bs"
  using those_all [of "net_load_balancers (plan_net p)"
      "\<lambda>lb. lb_entries (build_graph p) vpc (subnet_ids_of p) (group_ids_of p) (instance_ids_of p) (lb_node lb)" "balancer_entries_ok p vpc"]
    lb_entries_rendered that by (auto simp: graph_nodes comp_def)

lemma entry_keys: "list_all2 entry_of cs ms \<Longrightarrow> map fst ms = map (\<lambda>c. instance_cid (c_vm_name c)) cs"
  by (induction rule: list_all2_induct) (auto simp: entry_of_def)

lemma entry_lookup:
  assumes "list_all2 entry_of cs ms" and "distinct (map (\<lambda>c. instance_cid (c_vm_name c)) cs)" and "c \<in> set cs"
  shows "\<exists>v. map_of (rev ms) (instance_cid (c_vm_name c)) = Some v \<and> entry_of c (instance_cid (c_vm_name c), v)"
proof -
  obtain i where i: "i < length cs" "cs ! i = c" using assms(3) by (auto simp: in_set_conv_nth)
  then have e: "entry_of c (ms ! i)" using assms(1) by (auto simp: list_all2_conv_all_nth)
  then obtain v where v: "ms ! i = (instance_cid (c_vm_name c), v)" by (auto simp: entry_of_def)
  have "ms ! i \<in> set ms" using i assms(1) by (simp add: list_all2_lengthD)
  moreover have "distinct (map fst (rev ms))" using assms(2) entry_keys [OF assms(1)] by (simp add: rev_map [symmetric])
  ultimately have "map_of (rev ms) (instance_cid (c_vm_name c)) = Some v" using v by (intro map_of_is_SomeI) auto
  then show ?thesis using e v by simp
qed

lemma refs_outputs:
  "refs_in (template_outputs vpc (nodes_of (build_graph p) LOAD_BALANCER) (nodes_of (build_graph p) INSTANCE))
     = (\<lambda>lb. lb_cid (lb_node lb)) ` set (net_load_balancers (plan_net p)) \<union> {vpc} \<union> (\<lambda>c. instance_cid (c_vm_name c)) ` set (plan_compute p)"
  by (auto simp: template_outputs_def refs_in_map graph_nodes value_of_def instance_node_def)

lemma list_all2_lookups:
  assumes "list_all2 P xs ys"
  shows "y \<in> set ys \<Longrightarrow> \<exists>x \<in> set xs. P x y" and "x \<in> set xs \<Longrightarrow> \<exists>y \<in> set ys. P x y"
  using assms by (metis list_all2_conv_all_nth in_set_conv_nth)+

lemma template_rendered: "\<exists>tpl. build_template (build_graph p) p = Some tpl \<and> template_of_plan p tpl"
proof -
  let ?g = "build_graph p" and ?v = "vpc_node p"
  let ?sns = "nodes_of ?g SUBNET" and ?sgs = "nodes_of ?g SECURITY_GROUP" and ?is = "nodes_of ?g INSTANCE" and ?lbs = "nodes_of ?g LOAD_BALANCER"
  let ?igw = "net_internet_gateway (plan_net p)"
  obtain ms where ms: "those (map (instance_entry ?g (subnet_ids_of p) (group_ids_of p)) ?is) = Some ms"
    "list_all2 entry_of (plan_compute p) ms" "refs_in ms \<subseteq> network_cids p \<union> fst ` set (image_parameters ?is)" by (rule machines_rendered)
  obtain bs where bs: "those (map (lb_entries ?g (vpc_cid ?v) (subnet_ids_of p) (group_ids_of p) (instance_ids_of p)) ?lbs) = Some bs"
    "list_all2 (balancer_entries_ok p (vpc_cid ?v)) (net_load_balancers (plan_net p)) bs" by (rule balancers_rendered)
  define R where "R = vpc_entries ?v (net_vpc_cidr (plan_net p)) ?igw @ map (subnet_entry (vpc_cid ?v)) ?sns
    @ public_routes ?v ?igw (map subnet_cid (filter public_node ?sns))
    @ nat_routes ?v (net_nat_gateway (plan_net p)) (map subnet_cid (filter public_node ?sns)) (map subnet_cid (filter (\<lambda>n. \<not> public_node n) ?sns))
    @ map (sg_entry (vpc_cid ?v)) ?sgs"
  define tpl where "tpl = \<lparr>ct_description = ''IaCTranslate-generated migration of '' @ plan_project p @ '' to AWS (rendered from the Infrastructure Graph).'',
    ct_parameters = dict_of (image_parameters ?is), ct_resources = dict_of (R @ ms @ concat bs),
    ct_outputs = dict_of (template_outputs (vpc_cid ?v) ?lbs ?is)\<rparr>"
  have at: "gn_attributes ?v = VpcAttrs (net_vpc_cidr (plan_net p)) ?igw (net_nat_gateway (plan_net p))" by (simp add: vpc_node_def)
  have b: "build_template ?g p = Some tpl"
    unfolding build_template_def graph_nodes(1) list.case at attributes.case Let_def ms(1) bs(1) option.case prod.case tpl_def R_def append_assoc ..
  define K where "K = fst ` set (R @ ms @ concat bs)"
  have keys: "set (keys (ct_resources tpl)) = K" "set (keys (ct_parameters tpl)) = fst ` set (image_parameters ?is)"
    unfolding K_def tpl_def cfn_template.simps dict_of_keys by (rule refl, rule refl)
  have RK: "fst ` set R \<subseteq> K" unfolding K_def by auto
  have net: "network_cids p \<subseteq> K"
    unfolding network_cids_def K_def R_def set_append image_Un set_map image_image fst_entries by blast
  have "set (map fst ms) \<subseteq> K" unfolding K_def by auto
  then have inst: "(\<lambda>c. instance_cid (c_vm_name c)) ` set (plan_compute p) \<subseteq> K" unfolding entry_keys [OF ms(2)] by simp
  have vpc: "vpc_cid ?v \<in> K" using RK network_keys(1) unfolding R_def by fastforce
  have rR: "refs_in R \<subseteq> K" using fixed_refs RK unfolding R_def by (rule subset_trans)
  have scope: "lb_scope p \<subseteq> K" unfolding lb_scope_def comp_def using net inst by (rule Un_least)
  have bk: "refs_in es \<subseteq> K \<and> lb_cid (lb_node lb) \<in> K" if ok: "balancer_entries_ok p (vpc_cid ?v) lb es" and es: "es \<in> set bs" for lb es
  proof -
    have k: "fst ` set es \<subseteq> K" using es unfolding K_def by (auto intro!: imageI)
    have "refs_in es \<subseteq> fst ` set es \<union> {vpc_cid ?v} \<union> lb_scope p" using ok by (simp add: balancer_entries_ok_def)
    also have "\<dots> \<subseteq> K" using k vpc scope by (simp only: Un_subset_iff insert_subset empty_subsetI simp_thms)
    finally show ?thesis using ok k by (auto simp: balancer_entries_ok_def)
  qed
  have brefs: "refs_in (concat bs) \<subseteq> K" and blb: "(\<lambda>lb. lb_cid (lb_node lb)) ` set (net_load_balancers (plan_net p)) \<subseteq> K"
    using list_all2_lookups [OF bs(2)] bk unfolding refs_in_simps(4) by blast+
  have "refs_in ms \<subseteq> K \<union> fst ` set (image_parameters ?is)" using ms(3) net by blast
  then have res: "refs_in (ct_resources tpl) \<subseteq> K \<union> fst ` set (image_parameters ?is)"
    unfolding tpl_def cfn_template.simps using refs_dict_of [of "R @ ms @ concat bs"] rR brefs unfolding refs_in_simps(3) by blast
  have "refs_in (template_outputs (vpc_cid ?v) ?lbs ?is) \<subseteq> K"
    unfolding refs_outputs using blb inst vpc by (simp only: Un_subset_iff insert_subset empty_subsetI simp_thms)
  then have "refs_in (ct_outputs tpl) \<subseteq> K" unfolding tpl_def cfn_template.simps by (rule subset_trans [OF refs_dict_of])
  then have closed: "template_closed tpl" using res unfolding template_closed_def keys refs_in_simps(3) by blast
  have other: "map_of (rev (concat bs)) (instance_cid nm) = None" for nm
    using list_all2_lookups(1) [OF bs(2)] by (auto simp: map_of_eq_None_iff balancer_entries_ok_def)
  have "\<exists>v. map_of (ct_resources tpl) (instance_cid (c_vm_name c)) = Some v \<and> entry_of c (instance_cid (c_vm_name c), v)"
    if d: "distinct (map (\<lambda>c. instance_cid (c_vm_name c)) (plan_compute p))" and c: "c \<in> set (plan_compute p)" for c
    using entry_lookup [OF ms(2) d c] by (auto simp: tpl_def dict_of_lookup map_add_def other)
  with closed have "template_of_plan p tpl" unfolding template_of_plan_def by blast
  with b show ?thesis by blast
qed

text \<open>Names of different machines can have one identifier, and the later entry overwrites the earlier one.\<close>

lemma instance_cids_collide: "instance_cid ''web-01'' = instance_cid ''web01''"
  by code_simp

end
