(* ===== verification/SharedLimits.thy ===== *)
theory SharedLimits
  imports RateLimit
begin

text \<open>
  \<open>api/ratelimit_redis.py\<close>: token buckets in Redis, shared by the replicas. The Lua script is one operation on
  the store, on the clock of the server; a call can be answered, can be run with its answer lost, or can fail
  to arrive. Numbers are rationals, as in \<open>RateLimit\<close>.
\<close>

record shared_bucket =
  sb_tokens :: rat
  sb_ts :: rat
  sb_expires :: rat

type_synonym redis_store = "(string, shared_bucket) dict"

text \<open>\<open>HMGET\<close>: an expired key is not there.\<close>

definition hmget :: "rat \<Rightarrow> string \<Rightarrow> redis_store \<Rightarrow> shared_bucket option" where
  "hmget now key st = (case map_of st key of Some b \<Rightarrow> if now < sb_expires b then Some b else None | None \<Rightarrow> None)"

definition bucket_lua :: "rat \<Rightarrow> rat \<Rightarrow> rat \<Rightarrow> string \<Rightarrow> redis_store \<Rightarrow> (int \<times> int) \<times> redis_store" where
  "bucket_lua limit period now key st =
     (let refill = limit / period;
          (tokens, ts) = (case hmget now key st of Some b \<Rightarrow> (sb_tokens b, sb_ts b) | None \<Rightarrow> (limit, now));
          elapsed = now - ts;
          elapsed = (if elapsed < 0 then 0 else elapsed);
          tokens = min limit (tokens + elapsed * refill);
          (ok, retry, tokens) =
            (if 1 \<le> tokens then (1, 0, tokens - 1)
             else let retry = \<lfloor>(1 - tokens) / refill\<rfloor> + 1 in (0, if retry < 1 then 1 else retry, tokens))
      in ((ok, retry), AList.update key \<lparr>sb_tokens = tokens, sb_ts = now, sb_expires = now + of_int \<lceil>period * 2\<rceil>\<rparr> st))"

definition KEY_PREFIX :: string where
  "KEY_PREFIX = ''iactranslate:rl:''"

definition bucket_key :: "string \<Rightarrow> string \<Rightarrow> string" where
  "bucket_key name key = KEY_PREFIX @ name @ '':'' @ key"

text \<open>What becomes of one call to the script.\<close>

datatype outcome = Answered | AnswerLost | Unreachable

datatype limiter_log = LimiterDegraded string | LimiterRestored string

record redis_buckets =
  rb_degraded :: bool
  rb_log :: "limiter_log list"

definition redis_check ::
  "outcome \<Rightarrow> rat \<Rightarrow> string \<Rightarrow> string \<Rightarrow> rat \<Rightarrow> rat \<Rightarrow> redis_buckets \<Rightarrow> redis_store
    \<Rightarrow> (bool \<times> int) option \<times> redis_buckets \<times> redis_store" where
  "redis_check out now name key limit period c st =
     (let ((ok, retry), st') = bucket_lua limit period now (bucket_key name key) st
      in case out of
           Answered \<Rightarrow>
             (Some (ok \<noteq> 0, retry),
              (if rb_degraded c then \<lparr>rb_degraded = False, rb_log = rb_log c @ [LimiterRestored name]\<rparr> else c), st')
         | _ \<Rightarrow>
             (None, (if rb_degraded c then c else \<lparr>rb_degraded = True, rb_log = rb_log c @ [LimiterDegraded name]\<rparr>),
              if out = AnswerLost then st' else st))"

text \<open>\<open>create_backend\<close>: from the setting, whether the package is there and whether a client can be made and answers.\<close>

datatype backend_setup = NoPackage | ClientFails | Pings | PingFails

definition create_backend :: "string option \<Rightarrow> backend_setup \<Rightarrow> redis_buckets option" where
  "create_backend url env =
     (if strip (case url of None \<Rightarrow> [] | Some u \<Rightarrow> u) = [] then None
      else case env of NoPackage \<Rightarrow> None | ClientFails \<Rightarrow> None
             | Pings \<Rightarrow> Some \<lparr>rb_degraded = False, rb_log = []\<rparr> | PingFails \<Rightarrow> Some \<lparr>rb_degraded = False, rb_log = []\<rparr>)"

subsection \<open>Replicas\<close>

text \<open>\<open>limiter_key\<close>: the last part of the variable's name.\<close>

definition limiter_key :: "limiter \<Rightarrow> string" where
  "limiter_key l = lower (last (split_on CHR ''_'' (rl_env_var l)))"

text \<open>A replica has its limiter and its connection; the store is common.\<close>

record replica =
  rp_limiter :: limiter
  rp_backend :: "redis_buckets option"

definition replica_check ::
  "int option \<Rightarrow> outcome \<Rightarrow> rat \<Rightarrow> rat \<Rightarrow> string \<Rightarrow> replica \<Rightarrow> redis_store \<Rightarrow> (bool \<times> int) \<times> replica \<times> redis_store" where
  "replica_check raw out server_now now key r st =
     (let l = rp_limiter r; limit = limit_of l raw
      in if limit \<le> 0 then ((True, 0), r, st)
         else case rp_backend r of
                None \<Rightarrow> (let (a, l) = check raw None now key l in (a, r\<lparr>rp_limiter := l\<rparr>, st))
              | Some c \<Rightarrow>
                  (let (shared, c, st) = redis_check out server_now (limiter_key l) key limit (rl_period l) c st;
                       (a, l) = check raw shared now key l
                   in (a, r\<lparr>rp_limiter := l, rp_backend := Some c\<rparr>, st)))"

subsection \<open>Credit, and why keys may expire\<close>

definition shared_ok :: "rat \<Rightarrow> rat \<Rightarrow> rat \<Rightarrow> redis_store \<Rightarrow> bool" where
  "shared_ok limit period now st \<longleftrightarrow>
     (\<forall>(k, b) \<in> set st. 0 \<le> sb_tokens b \<and> sb_tokens b \<le> limit \<and> sb_ts b \<le> now \<and> sb_ts b + period * 2 \<le> sb_expires b)"

text \<open>The tokens a key has at a time, on a store that never forgets.\<close>

definition shared_credit :: "rat \<Rightarrow> rat \<Rightarrow> rat \<Rightarrow> string \<Rightarrow> redis_store \<Rightarrow> rat" where
  "shared_credit limit period t k st =
     (case map_of st k of None \<Rightarrow> limit | Some b \<Rightarrow> min limit (sb_tokens b + (t - sb_ts b) * (limit / period)))"

lemma shared_okD:
  "shared_ok limit period now st \<Longrightarrow> map_of st k = Some b \<Longrightarrow>
     0 \<le> sb_tokens b \<and> sb_tokens b \<le> limit \<and> sb_ts b \<le> now \<and> sb_ts b + period * 2 \<le> sb_expires b"
  by (drule map_of_SomeD) (fastforce simp: shared_ok_def)

lemma refill_full:
  fixes limit period d tk :: rat
  assumes "0 < period" and "0 \<le> limit" and "period \<le> d" and "0 \<le> tk"
  shows "min limit (tk + d * (limit / period)) = limit"
proof -
  have "limit = period * (limit / period)" using assms(1) by simp
  also have "\<dots> \<le> d * (limit / period)" using assms(1-3) by (intro mult_right_mono) auto
  finally show ?thesis using assms(4) by simp
qed

text \<open>The tokens the script computes are the credit: an expired bucket was full again.\<close>

lemma lua_tokens:
  assumes "shared_ok limit period now st" and "0 < period" and "0 \<le> limit"
  shows "(case hmget now key st of Some b \<Rightarrow> min limit (sb_tokens b + (if now - sb_ts b < 0 then 0 else now - sb_ts b) * (limit / period))
      | None \<Rightarrow> min limit (limit + (if now - now < 0 then 0 else now - now) * (limit / period)))
    = shared_credit limit period now key st"
proof (cases "map_of st key")
  case None
  then show ?thesis by (simp add: hmget_def shared_credit_def)
next
  case (Some b)
  note b = shared_okD [OF assms(1) Some]
  show ?thesis
  proof (cases "now < sb_expires b")
    case True
    then show ?thesis using Some b by (simp add: hmget_def shared_credit_def)
  next
    case False
    then have "period \<le> now - sb_ts b" using b assms(2) by linarith
    then show ?thesis using Some False b refill_full [OF assms(2,3), of "now - sb_ts b" "sb_tokens b"]
      by (simp add: hmget_def shared_credit_def)
  qed
qed

lemma bucket_lua_step:
  assumes "shared_ok limit period now st" and "0 < period" and "0 \<le> limit"
  shows "bucket_lua limit period now key st =
    (let tk = shared_credit limit period now key st; e = now + of_int \<lceil>period * 2\<rceil>
     in if 1 \<le> tk then ((1, 0), AList.update key \<lparr>sb_tokens = tk - 1, sb_ts = now, sb_expires = e\<rparr> st)
        else ((0, retry_after (limit / period) tk), AList.update key \<lparr>sb_tokens = tk, sb_ts = now, sb_expires = e\<rparr> st))"
  using lua_tokens [OF assms, of key]
  by (cases "hmget now key st") (auto simp: bucket_lua_def Let_def retry_after_def max_def)


lemma shared_credit_nonneg:
  assumes "shared_ok limit period t st" and "0 < period" and "0 \<le> limit"
  shows "0 \<le> shared_credit limit period t k st"
proof (cases "map_of st k")
  case (Some b)
  note b = shared_okD [OF assms(1) Some]
  then have "0 \<le> (t - sb_ts b) * (limit / period)" using assms(2,3) by (intro mult_nonneg_nonneg) auto
  then show ?thesis using Some b assms(3) by (simp add: shared_credit_def)
qed (use assms in \<open>simp add: shared_credit_def\<close>)

lemma min_plus: "0 \<le> y \<Longrightarrow> min l (x + y) \<le> min l x + y" for l x y :: rat
  by auto

lemma shared_credit_mono:
  assumes "t \<le> t'" and "0 \<le> limit / period"
  shows "shared_credit limit period t' k st \<le> shared_credit limit period t k st + (t' - t) * (limit / period)"
proof -
  define rate where "rate = limit / period"
  have nn: "0 \<le> (t' - t) * rate" using assms unfolding rate_def by (intro mult_nonneg_nonneg) auto
  show ?thesis
  proof (cases "map_of st k")
    case None
    then show ?thesis using nn by (simp add: shared_credit_def flip: rate_def)
  next
    case (Some b)
    have "sb_tokens b + (t - sb_ts b) * rate + (t' - t) * rate = sb_tokens b + (t' - sb_ts b) * rate"
      by (simp add: algebra_simps)
    with min_plus [OF nn, of limit "sb_tokens b + (t - sb_ts b) * rate"] show ?thesis
      unfolding shared_credit_def Some option.case rate_def [symmetric] by (simp only:)
  qed
qed

lemma bucket_lua_ok:
  assumes "shared_ok limit period t st" and "t \<le> now" and "0 < period" and "0 \<le> limit"
  shows "shared_ok limit period now (snd (bucket_lua limit period now key st))"
proof -
  have mono: "shared_ok limit period now st" using assms(1,2) by (fastforce simp: shared_ok_def)
  have c: "0 \<le> shared_credit limit period now key st" "shared_credit limit period now key st \<le> limit"
    using shared_credit_nonneg [OF mono assms(3,4)] by (auto simp: shared_credit_def split: option.splits)
  have e: "period * 2 \<le> of_int \<lceil>period * 2\<rceil>" by (rule le_of_int_ceiling)
  have upd: "shared_ok limit period now (AList.update key b st)"
    if "0 \<le> sb_tokens b" "sb_tokens b \<le> limit" "sb_ts b \<le> now" "sb_ts b + period * 2 \<le> sb_expires b" for b
    using mono that unfolding shared_ok_def by (auto dest!: AList_update_mem)
  show ?thesis unfolding bucket_lua_step [OF mono assms(3,4)] using c e by (auto simp: Let_def intro!: upd)
qed

lemma bucket_lua_credit:
  assumes "shared_ok limit period now st" and "0 < period" and "0 \<le> limit" and "bucket_lua limit period now key st = ((a, r), st')"
  shows "shared_credit limit period now k st' + (if key = k \<and> a \<noteq> 0 then 1 else 0) = shared_credit limit period now k st"
proof -
  have "shared_credit limit period now key st \<le> limit" by (auto simp: shared_credit_def split: option.splits)
  then show ?thesis using assms(4) unfolding bucket_lua_step [OF assms(1-3)]
    by (auto simp: Let_def shared_credit_def split: if_splits)
qed

text \<open>A caller refused who waits as long as told gets a token.\<close>

lemma shared_retry:
  assumes "shared_ok limit period now st" and "0 < period" and "1 \<le> limit"
    and "bucket_lua limit period now key st = ((0, r), st')" and "now + of_int r \<le> later"
  shows "fst (fst (bucket_lua limit period later key st')) = 1"
proof -
  let ?rate = "limit / period" and ?tk = "shared_credit limit period now key st"
  have l0: "0 \<le> limit" using assms(3) by simp
  have tk: "?tk < 1" "r = retry_after ?rate ?tk" and st': "map_of st' key = Some \<lparr>sb_tokens = ?tk, sb_ts = now, sb_expires = now + of_int \<lceil>period * 2\<rceil>\<rparr>"
    using assms(4) unfolding bucket_lua_step [OF assms(1,2) l0] by (auto simp: Let_def split: if_splits)
  have rate: "0 < ?rate" using assms(2,3) by simp
  have "(1 - ?tk) / ?rate < of_int (\<lfloor>(1 - ?tk) / ?rate\<rfloor> + 1)" using floor_correct [of "(1 - ?tk) / ?rate"] by blast
  also have "\<dots> \<le> of_int r" unfolding of_int_le_iff tk(2) retry_after_def by (rule max.cobounded2)
  also have "\<dots> \<le> later - now" using assms(5) by simp
  finally have "1 - ?tk < (later - now) * ?rate" using rate pos_divide_less_eq by blast
  then have c: "1 \<le> shared_credit limit period later key st'" using assms(3) by (simp add: shared_credit_def st')
  have "1 \<le> r" unfolding tk(2) retry_after_def by simp
  then have "now \<le> later" using assms(5) by (smt (verit) of_int_1_le_iff le_add_same_cancel1 of_int_0_le_iff order_trans)
  moreover have "shared_ok limit period now st'" using bucket_lua_ok [OF assms(1) order_refl assms(2) l0, of key] by (simp add: assms(4))
  ultimately have "shared_ok limit period later st'" by (fastforce simp: shared_ok_def)
  from bucket_lua_step [OF this assms(2) l0] show ?thesis using c by (simp add: Let_def)
qed

subsection \<open>The limit holds across replicas\<close>

lemma bucket_key_inj: "bucket_key n k = bucket_key n k' \<longleftrightarrow> k = k'"
  by (simp add: bucket_key_def)

text \<open>Limiters of different name never share a key.\<close>

lemma bucket_key_names:
  assumes "CHR '':'' \<notin> set n" and "CHR '':'' \<notin> set n'" and "bucket_key n k = bucket_key n' k'"
  shows "n = n'"
  using assms by (auto simp: bucket_key_def append_eq_append_conv2 append_eq_Cons_conv Cons_eq_append_conv)

lemma redis_check_credit:
  assumes "redis_check out now name key limit period c st = (shared, c', st')"
    and "shared_ok limit period t st" and "t \<le> now" and "0 < period" and "0 \<le> limit"
  shows "shared_ok limit period now st'"
    and "shared_credit limit period now (bucket_key name k) st'
      + (if key = k \<and> (case shared of Some (a, r) \<Rightarrow> a | None \<Rightarrow> False) then 1 else 0) \<le> shared_credit limit period now (bucket_key name k) st"
proof -
  obtain a r st2 where l: "bucket_lua limit period now (bucket_key name key) st = ((a, r), st2)" by (metis surj_pair)
  have mono: "shared_ok limit period now st" using assms(2,3) by (fastforce simp: shared_ok_def)
  have ok: "shared_ok limit period now st2" using bucket_lua_ok [OF assms(2-5), of "bucket_key name key"] by (simp add: l)
  note cr = bucket_lua_credit [OF mono assms(4,5) l, of "bucket_key name k", unfolded bucket_key_inj]
  show "shared_ok limit period now st'" using assms(1) ok mono by (auto simp: redis_check_def l split: outcome.splits if_splits)
  show "shared_credit limit period now (bucket_key name k) st'
      + (if key = k \<and> (case shared of Some (a, r) \<Rightarrow> a | None \<Rightarrow> False) then 1 else 0) \<le> shared_credit limit period now (bucket_key name k) st"
    using assms(1) cr by (auto simp: redis_check_def l split: outcome.splits if_splits)
qed

text \<open>A request: the clock of the server and of the replica, the replica, what becomes of the call, and the key.\<close>

record shared_request =
  sr_server_time :: rat
  sr_time :: rat
  sr_replica :: nat
  sr_outcome :: outcome
  sr_key :: string

text \<open>Each answer is given with whether Redis decided it.\<close>

fun serve_all ::
  "int option \<Rightarrow> shared_request list \<Rightarrow> replica list \<Rightarrow> redis_store \<Rightarrow> (string \<times> bool \<times> bool) list \<times> replica list \<times> redis_store" where
  "serve_all raw [] rs st = ([], rs, st)"
| "serve_all raw (q # qs) rs st =
     (let i = sr_replica q;
          ((a, retry), r, st) = replica_check raw (sr_outcome q) (sr_server_time q) (sr_time q) (sr_key q) (rs ! i) st;
          (as, rs', st) = serve_all raw qs (rs[i := r]) st
      in ((sr_key q, sr_outcome q = Answered \<and> rp_backend (rs ! i) \<noteq> None, a) # as, rs', st))"

definition shared_allowed :: "string \<Rightarrow> (string \<times> bool \<times> bool) list \<Rightarrow> nat" where
  "shared_allowed k as = length (filter (\<lambda>(k', shared, a). k' = k \<and> shared \<and> a) as)"

fun server_times :: "rat \<Rightarrow> shared_request list \<Rightarrow> bool" where
  "server_times t [] = True"
| "server_times t (q # qs) = (t \<le> sr_server_time q \<and> server_times (sr_server_time q) qs)"

definition last_server_time :: "rat \<Rightarrow> shared_request list \<Rightarrow> rat" where
  "last_server_time t qs = (if qs = [] then t else sr_server_time (last qs))"

text \<open>The replicas of one deployment run the same limiter, each with its own table.\<close>

definition same_limiter :: "limiter \<Rightarrow> limiter \<Rightarrow> bool" where
  "same_limiter l l' \<longleftrightarrow> rl_env_var l' = rl_env_var l \<and> rl_default l' = rl_default l \<and> rl_period l' = rl_period l"

lemma check_same: "check raw shared now key l = (a, l') \<Longrightarrow> same_limiter l l'"
  by (auto simp: check_def Let_def same_limiter_def split: if_splits option.splits prod.splits)

lemma replica_step:
  assumes "replica_check raw out now now' key r st = ((a, w), r', st')" and "same_limiter l (rp_limiter r)"
    and "shared_ok (limit_of l raw) (rl_period l) t st" and "t \<le> now" and "0 < rl_period l" and "0 < limit_of l raw"
  shows "same_limiter l (rp_limiter r')" and "shared_ok (limit_of l raw) (rl_period l) now st'"
    and "(rp_backend r' = None) = (rp_backend r = None)"
    and "shared_credit (limit_of l raw) (rl_period l) now (bucket_key (limiter_key l) k) st'
      + (if key = k \<and> (out = Answered \<and> rp_backend r \<noteq> None) \<and> a then 1 else 0)
        \<le> shared_credit (limit_of l raw) (rl_period l) now (bucket_key (limiter_key l) k) st"
proof -
  let ?l = "rp_limiter r" and ?L = "limit_of l raw" and ?P = "rl_period l" and ?N = "limiter_key l"
  have eq: "limit_of ?l raw = ?L" "rl_period ?l = ?P" "limiter_key ?l = ?N"
    using assms(2) by (auto simp: same_limiter_def limit_of_def limiter_key_def split: option.split)
  have mono: "shared_ok ?L ?P now st" using assms(3,4) by (fastforce simp: shared_ok_def)
  have nl: "\<not> ?L \<le> 0" using assms(6) by simp
  have trans: "same_limiter l m" if "same_limiter ?l m" for m using that assms(2) by (simp add: same_limiter_def)
  have "same_limiter l (rp_limiter r') \<and> shared_ok ?L ?P now st' \<and> (rp_backend r' = None) = (rp_backend r = None)
    \<and> shared_credit ?L ?P now (bucket_key ?N k) st' + (if key = k \<and> (out = Answered \<and> rp_backend r \<noteq> None) \<and> a then 1 else 0)
        \<le> shared_credit ?L ?P now (bucket_key ?N k) st"
  proof (cases "rp_backend r")
    case None
    obtain l' where c: "check raw None now' key ?l = ((a, w), l')" "r' = r\<lparr>rp_limiter := l'\<rparr>" "st' = st"
      using assms(1) nl by (auto simp: replica_check_def Let_def eq None split: prod.splits)
    then show ?thesis using None mono trans [OF check_same [OF c(1)]] by simp
  next
    case (Some c)
    obtain shared c2 st2 where rc: "redis_check out now ?N key ?L ?P c st = (shared, c2, st2)" by (metis surj_pair)
    obtain l' where ch: "check raw shared now' key ?l = ((a, w), l')" "r' = r\<lparr>rp_limiter := l', rp_backend := Some c2\<rparr>" "st' = st2"
      using assms(1) nl by (auto simp: replica_check_def Let_def eq Some rc split: prod.splits)
    have "shared = Some (a, w)" if "out = Answered"
    proof -
      have "shared \<noteq> None" using rc that by (auto simp: redis_check_def Let_def split: prod.splits)
      then show ?thesis using ch(1) nl by (auto simp: check_def Let_def eq)
    qed
    then show ?thesis using redis_check_credit(1) [OF rc assms(3,4,5)] redis_check_credit(2) [OF rc assms(3,4,5), of k] assms(6) Some ch trans [OF check_same [OF ch(1)]] by (auto split: if_splits option.splits)
  qed
  then show "same_limiter l (rp_limiter r')" and "shared_ok (limit_of l raw) (rl_period l) now st'"
    and "(rp_backend r' = None) = (rp_backend r = None)"
    and "shared_credit (limit_of l raw) (rl_period l) now (bucket_key (limiter_key l) k) st'
      + (if key = k \<and> (out = Answered \<and> rp_backend r \<noteq> None) \<and> a then 1 else 0)
        \<le> shared_credit (limit_of l raw) (rl_period l) now (bucket_key (limiter_key l) k) st" by blast+
qed

lemma span_chain_le: "n \<le> c' + a \<Longrightarrow> c' + d \<le> c1 \<Longrightarrow> c1 \<le> c0 + b \<Longrightarrow> s = a + b \<Longrightarrow> d + n \<le> c0 + s" for n :: rat
  by linarith

lemma shared_window:
  assumes "server_times t qs" and "list_all (\<lambda>q. sr_replica q < length rs) qs" and "list_all (\<lambda>r. same_limiter l (rp_limiter r)) rs"
    and "shared_ok (limit_of l raw) (rl_period l) t st" and "0 < rl_period l" and "0 < limit_of l raw"
  shows "of_nat (shared_allowed k (fst (serve_all raw qs rs st)))
    \<le> shared_credit (limit_of l raw) (rl_period l) t (bucket_key (limiter_key l) k) st + (last_server_time t qs - t) * (limit_of l raw / rl_period l)"
  using assms(1-4)
proof (induction qs arbitrary: t rs st)
  case Nil
  have "0 \<le> shared_credit (limit_of l raw) (rl_period l) t (bucket_key (limiter_key l) k) st"
    using assms(6) by (intro shared_credit_nonneg [OF Nil.prems(4) assms(5)]) simp
  then show ?case by (simp add: shared_allowed_def last_server_time_def)
next
  case (Cons q qs)
  let ?i = "sr_replica q" and ?t = "sr_server_time q" and ?K = "bucket_key (limiter_key l) k"
  let ?C = "shared_credit (limit_of l raw) (rl_period l)" and ?rate = "limit_of l raw / rl_period l"
  obtain a w r st2 where rc: "replica_check raw (sr_outcome q) ?t (sr_time q) (sr_key q) (rs ! ?i) st = ((a, w), r, st2)"
    by (metis surj_pair)
  have i: "?i < length rs" using Cons.prems(2) by simp
  have sl: "same_limiter l (rp_limiter (rs ! ?i))" using Cons.prems(3) i by (simp add: list_all_length)
  have t: "t \<le> ?t" "server_times ?t qs" using Cons.prems(1) by simp_all
  note st = replica_step [OF rc sl Cons.prems(4) t(1) assms(5,6)]
  have rs: "list_all (\<lambda>r. same_limiter l (rp_limiter r)) (rs[?i := r])"
    unfolding list_all_iff using Cons.prems(3) [unfolded list_all_iff] st(1) set_update_subset_insert [of rs ?i r] by blast
  have len: "list_all (\<lambda>q. sr_replica q < length (rs[?i := r])) qs" using Cons.prems(2) by simp
  have ih: "of_nat (shared_allowed k (fst (serve_all raw qs (rs[?i := r]) st2))) \<le> ?C ?t ?K st2 + (last_server_time ?t qs - ?t) * ?rate"
    by (rule Cons.IH [OF t(2) len rs st(2)])
  have rate: "0 \<le> ?rate" using assms(5,6) by simp
  have "of_nat (shared_allowed k (fst (serve_all raw (q # qs) rs st)))
      = (if sr_key q = k \<and> (sr_outcome q = Answered \<and> rp_backend (rs ! ?i) \<noteq> None) \<and> a then 1 else 0)
        + rat_of_nat (shared_allowed k (fst (serve_all raw qs (rs[?i := r]) st2)))"
    by (auto simp: rc shared_allowed_def Let_def split: prod.splits)
  moreover have "last_server_time t (q # qs) = last_server_time ?t qs" by (simp add: last_server_time_def)
  moreover note span_chain_le [OF ih st(4) [of k] shared_credit_mono [OF t(1) rate, of ?K st] split_span [of _ t]]
  ultimately show ?case by (simp only:)
qed

subsection \<open>The log\<close>

text \<open>A loss of Redis is logged once until it is back.\<close>

definition is_degraded :: "limiter_log \<Rightarrow> bool" where
  "is_degraded e = (case e of LimiterDegraded n \<Rightarrow> True | LimiterRestored n \<Rightarrow> False)"

fun alternating :: "bool \<Rightarrow> bool list \<Rightarrow> bool" where
  "alternating b [] = True"
| "alternating b (x # xs) = (x = b \<and> alternating (\<not> b) xs)"

definition log_ok :: "redis_buckets \<Rightarrow> bool" where
  "log_ok c \<longleftrightarrow> alternating True (map is_degraded (rb_log c)) \<and> rb_degraded c = odd (length (rb_log c))"

lemma alternating_snoc: "alternating b (xs @ [x]) \<longleftrightarrow> alternating b xs \<and> x = (if even (length xs) then b else \<not> b)"
  by (induction xs arbitrary: b) auto

lemma redis_check_log:
  "log_ok c \<Longrightarrow> log_ok (fst (snd (redis_check out now name key limit period c st)))"
  by (auto simp: redis_check_def Let_def log_ok_def alternating_snoc is_degraded_def split: prod.splits outcome.splits)

lemma create_backend_log: "create_backend url env = Some c \<Longrightarrow> log_ok c"
  by (auto simp: create_backend_def log_ok_def split: if_splits backend_setup.splits)

end
