(* ===== verification/StateFiles.thy ===== *)
theory StateFiles
  imports Validation
begin

text \<open>
  \<open>state.py\<close>: the backend for the Terraform state of a project and the block it is printed as; \<open>identity.py\<close>: the
  identities of the tiers. Comments and prose in the printed files are left out.
\<close>

subsection \<open>Backends\<close>

definition BACKEND_BY_CLOUD :: "(string, string) dict" where
  "BACKEND_BY_CLOUD = [(''aws'', ''s3''), (''azure'', ''azurerm''), (''gcp'', ''gcs''), (''oci'', ''s3''), (''digitalocean'', ''s3'')]"

definition REQUIRED_KEYS :: "(string, string list) dict" where
  "REQUIRED_KEYS =
     [(''s3'', [''bucket'', ''key'', ''region'']),
      (''azurerm'', [''resource_group_name'', ''storage_account_name'', ''container_name'', ''key'']),
      (''gcs'', [''bucket'', ''prefix''])]"

definition STATE_SUPPORTED :: "string list" where
  "STATE_SUPPORTED = ''local'' # map fst REQUIRED_KEYS"

definition S3_COMPATIBLE_EXTRAS :: "(string, string) dict" where
  "S3_COMPATIBLE_EXTRAS =
     [(''skip_credentials_validation'', ''true''), (''skip_region_validation'', ''true''),
      (''skip_requesting_account_id'', ''true''), (''skip_metadata_api_check'', ''true''), (''use_path_style'', ''true'')]"

definition UNQUOTED :: "string list" where
  "UNQUOTED = [''true'', ''false'']"

record state_backend =
  be_kind :: string
  be_config :: "(string, string) dict"
  be_cloud :: "string option"

datatype state_error = UnknownBackend string

definition mk_state_backend :: "string \<Rightarrow> (string, string) dict \<Rightarrow> string option \<Rightarrow> state_error + state_backend" where
  "mk_state_backend kind cfg cloud =
     (if kind \<notin> set STATE_SUPPORTED then Inl (UnknownBackend kind)
      else Inr \<lparr>be_kind = kind, be_config = cfg, be_cloud = cloud\<rparr>)"

definition is_local :: "state_backend \<Rightarrow> bool" where
  "is_local b \<longleftrightarrow> be_kind b = ''local''"

definition required_keys :: "string \<Rightarrow> string list" where
  "required_keys kind = (case map_of REQUIRED_KEYS kind of Some ks \<Rightarrow> ks | None \<Rightarrow> [])"

definition missing_keys :: "state_backend \<Rightarrow> string list" where
  "missing_keys b =
     filter (\<lambda>k. case map_of (be_config b) k of None \<Rightarrow> True | Some v \<Rightarrow> v = []) (required_keys (be_kind b))"

definition is_complete :: "state_backend \<Rightarrow> bool" where
  "is_complete b \<longleftrightarrow> \<not> is_local b \<and> missing_keys b = []"

definition setdefault :: "string \<Rightarrow> string \<Rightarrow> (string, string) dict \<Rightarrow> (string, string) dict" where
  "setdefault k v d = (if map_of d k = None then AList.update k v d else d)"

definition rendered_config :: "state_backend \<Rightarrow> (string, string) dict" where
  "rendered_config b =
     (if be_kind b = ''s3'' \<and> be_cloud b \<in> {Some ''oci'', Some ''digitalocean''}
      then foldl (\<lambda>d (k, v). setdefault k v d) (be_config b) S3_COMPATIBLE_EXTRAS else be_config b)"

definition ljust :: "nat \<Rightarrow> string \<Rightarrow> string" where
  "ljust n s = s @ replicate (n - length s) CHR '' ''"

definition rendered_value :: "string \<Rightarrow> string" where
  "rendered_value v = (if v \<in> set UNQUOTED then v else [CHR 0x22] @ v @ [CHR 0x22])"

text \<open>The stanza: none, one that has to be completed with the missing keys, or all of it.\<close>

datatype stanza = NoStanza | PartialStanza string "string list" | FullStanza string "string list"

definition entry_line :: "nat \<Rightarrow> string \<times> string \<Rightarrow> string" where
  "entry_line width e = ''    '' @ ljust width (fst e) @ '' = '' @ rendered_value (snd e)"

definition key_width :: "(string, string) dict \<Rightarrow> nat" where
  "key_width cfg = Max (set (map (\<lambda>(k, v). length k) cfg))"

definition terraform_block :: "state_backend \<Rightarrow> stanza" where
  "terraform_block b =
     (if is_local b then NoStanza
      else if \<not> is_complete b then PartialStanza (be_kind b) (missing_keys b)
      else FullStanza (be_kind b) (map (entry_line (key_width (rendered_config b))) (rendered_config b)))"

text \<open>The entries of \<open>backend.hcl.example\<close>: the required keys, blank where unknown, then the others.\<close>

definition example_hcl :: "state_backend \<Rightarrow> string list" where
  "example_hcl b =
     (let cfg = rendered_config b; req = required_keys (be_kind b);
          width = Max (set (map length (if map_of REQUIRED_KEYS (be_kind b) = None then [''key''] else req)));
          extras = filter (\<lambda>(k, v). k \<notin> set req) cfg
      in map (\<lambda>k. ljust width k @ '' = '' @ [CHR 0x22] @ (case map_of cfg k of Some v \<Rightarrow> v | None \<Rightarrow> []) @ [CHR 0x22]) req
         @ (if extras = [] then [] else [] # map (\<lambda>(k, v). k @ '' = '' @ rendered_value v) extras))"

definition resolve_backend :: "string \<Rightarrow> string option \<Rightarrow> (string, string) dict option \<Rightarrow> state_error + state_backend" where
  "resolve_backend cloud kind cfg =
     (let kind = (case kind of None \<Rightarrow> ''local''
                  | Some k \<Rightarrow> if k = ''auto'' then (case map_of BACKEND_BY_CLOUD (lower cloud) of Some b \<Rightarrow> b | None \<Rightarrow> ''s3'') else k)
      in mk_state_backend kind (case cfg of None \<Rightarrow> [] | Some c \<Rightarrow> c) (Some (lower cloud)))"

subsection \<open>What a stanza says\<close>

text \<open>Reading an entry back: the key ends at the first space, the value is a word or stands in quotes.\<close>

definition read_entry :: "string \<Rightarrow> string \<times> string" where
  "read_entry line =
     (let s = drop 4 line; k = takeWhile (\<lambda>c. c \<noteq> CHR '' '') s; r = drop 2 (dropWhile (\<lambda>c. c = CHR '' '') (drop (length k) s))
      in (k, case r of [] \<Rightarrow> [] | c # cs \<Rightarrow> if c = CHR 0x22 then takeWhile (\<lambda>c. c \<noteq> CHR 0x22) cs else r))"

definition hcl_plain :: "(string, string) dict \<Rightarrow> bool" where
  "hcl_plain cfg \<longleftrightarrow> (\<forall>(k, v) \<in> set cfg. CHR '' '' \<notin> set k \<and> CHR 0x22 \<notin> set v)"

lemma takeWhile_key: "CHR '' '' \<notin> set k \<Longrightarrow> takeWhile (\<lambda>c. c \<noteq> CHR '' '') (k @ CHR '' '' # r) = k"
  by (induction k) auto

lemma takeWhile_quoted: "CHR 0x22 \<notin> set v \<Longrightarrow> takeWhile (\<lambda>c. c \<noteq> CHR 0x22) (v @ [CHR 0x22]) = v"
  by (induction v) auto

lemma dropWhile_blanks: "dropWhile (\<lambda>c. c = CHR '' '') (replicate n CHR '' '' @ r) = dropWhile (\<lambda>c. c = CHR '' '') r"
  by (induction n) auto

lemma read_entry_line:
  assumes "CHR '' '' \<notin> set k" and "CHR 0x22 \<notin> set v"
  shows "read_entry (entry_line w (k, v)) = (k, v)"
proof -
  have j: "ljust w k @ '' = '' @ r = k @ CHR '' '' # (replicate (w - length k) CHR '' '' @ ''= '' @ r)" for r
    by (simp add: ljust_def) (metis append_Cons append_assoc replicate_append_same self_append_conv2 append_Nil)
  have v: "(case rendered_value v of [] \<Rightarrow> [] | c # cs \<Rightarrow> if c = CHR 0x22 then takeWhile (\<lambda>c. c \<noteq> CHR 0x22) cs else rendered_value v) = v"
    using assms(2) by (auto simp: rendered_value_def UNQUOTED_def takeWhile_quoted)
  define tl where "tl = replicate (w - length k) CHR '' '' @ ''= '' @ rendered_value v"
  have d: "drop 4 (entry_line w (k, v)) = k @ CHR '' '' # tl"
    using j [of "rendered_value v"] by (simp add: entry_line_def tl_def)
  have r: "drop 2 (dropWhile (\<lambda>c. c = CHR '' '') (CHR '' '' # tl)) = rendered_value v"
    by (simp add: tl_def dropWhile_blanks)
  have k: "drop (length k) (k @ CHR '' '' # tl) = CHR '' '' # tl" by simp
  show ?thesis unfolding read_entry_def d Let_def takeWhile_key [OF assms(1)] k r v ..
qed

lemma setdefault_mem: "e \<in> set (setdefault k v d) \<Longrightarrow> e \<in> set d \<or> e = (k, v)"
  by (auto simp: setdefault_def dest!: AList_update_mem split: if_splits)


lemma foldl_setdefault_mem: "e \<in> set (foldl (\<lambda>d (k, v). setdefault k v d) d xs) \<Longrightarrow> e \<in> set d \<or> e \<in> set xs"
proof (induction xs arbitrary: d)
  case (Cons x xs)
  then show ?case using setdefault_mem [of e "fst x" "snd x" d] by (cases x) fastforce
qed simp

lemma setdefault_keeps: "map_of d k = Some v \<Longrightarrow> map_of (setdefault k' v' d) k = Some v"
  by (auto simp: setdefault_def simp del: map_of_eq_None_iff)

lemma setdefault_sets: "map_of (setdefault k v d) k \<noteq> None"
  by (auto simp: setdefault_def simp del: map_of_eq_None_iff)

lemma foldl_setdefault_keeps: "map_of d k = Some v \<Longrightarrow> map_of (foldl (\<lambda>d (k, v). setdefault k v d) d xs) k = Some v"
  by (induction xs arbitrary: d) (auto simp: setdefault_keeps)

lemma foldl_setdefault_sets: "k \<in> fst ` set xs \<Longrightarrow> map_of (foldl (\<lambda>d (k, v). setdefault k v d) d xs) k \<noteq> None"
proof (induction xs arbitrary: d)
  case (Cons x xs)
  show ?case
  proof (cases "k = fst x")
    case True
    obtain v where "map_of (setdefault (fst x) (snd x) d) k = Some v" using setdefault_sets unfolding True by fast
    then show ?thesis using foldl_setdefault_keeps by (cases x) fastforce
  next
    case False
    then show ?thesis using Cons by (cases x) auto
  qed
qed simp

lemma rendered_plain:
  assumes "hcl_plain (be_config b)"
  shows "hcl_plain (rendered_config b)"
proof -
  have "hcl_plain S3_COMPATIBLE_EXTRAS" by (simp add: hcl_plain_def S3_COMPATIBLE_EXTRAS_def)
  with assms show ?thesis unfolding rendered_config_def hcl_plain_def by (auto dest!: foldl_setdefault_mem)
qed

text \<open>What the user gave is in the configuration that is printed, and object stores that only resemble S3 get their flags.\<close>

lemma rendered_keeps: "map_of (be_config b) k = Some v \<Longrightarrow> map_of (rendered_config b) k = Some v"
  by (simp add: rendered_config_def foldl_setdefault_keeps)

lemma rendered_flags:
  "be_kind b = ''s3'' \<Longrightarrow> be_cloud b \<in> {Some ''oci'', Some ''digitalocean''} \<Longrightarrow> k \<in> fst ` set S3_COMPATIBLE_EXTRAS \<Longrightarrow>
     map_of (rendered_config b) k \<noteq> None"
  unfolding rendered_config_def using foldl_setdefault_sets by simp

lemma block_reads_back:
  assumes "hcl_plain (be_config b)" and "is_complete b"
  shows "\<exists>lines. terraform_block b = FullStanza (be_kind b) lines \<and> map read_entry lines = rendered_config b"
proof -
  have "map (read_entry \<circ> entry_line w) (rendered_config b) = rendered_config b" for w
    using rendered_plain [OF assms(1)] by (intro map_idI) (auto simp: hcl_plain_def read_entry_line)
  then show ?thesis using assms(2) by (auto simp: terraform_block_def is_complete_def)
qed

lemma missing_keys_iff:
  "k \<in> set (missing_keys b) \<longleftrightarrow> k \<in> set (required_keys (be_kind b)) \<and> (map_of (be_config b) k = None \<or> map_of (be_config b) k = Some [])"
  by (auto simp: missing_keys_def split: option.splits)

text \<open>A kind that is known, or chosen from the cloud, always gives a backend.\<close>

lemma resolve_fails_iff:
  "(\<exists>e. resolve_backend cloud kind cfg = Inl e) \<longleftrightarrow> (\<exists>k. kind = Some k \<and> k \<noteq> ''auto'' \<and> k \<notin> set STATE_SUPPORTED)"
proof -
  have "map_of BACKEND_BY_CLOUD c = Some b \<Longrightarrow> b \<in> set STATE_SUPPORTED" for c b
    by (auto simp: BACKEND_BY_CLOUD_def STATE_SUPPORTED_def REQUIRED_KEYS_def split: if_splits)
  moreover have "''local'' \<in> set STATE_SUPPORTED" "''s3'' \<in> set STATE_SUPPORTED"
    by (simp_all add: STATE_SUPPORTED_def REQUIRED_KEYS_def)
  ultimately show ?thesis
    by (auto simp: resolve_backend_def mk_state_backend_def Let_def split: option.splits if_splits)
qed

lemma resolve_fields:
  "resolve_backend cloud kind cfg = Inr b \<Longrightarrow> be_config b = (case cfg of None \<Rightarrow> [] | Some c \<Rightarrow> c) \<and> be_cloud b = Some (lower cloud)
     \<and> be_kind b \<in> set STATE_SUPPORTED"
  by (auto simp: resolve_backend_def mk_state_backend_def Let_def split: if_splits)

text \<open>A value with a quote does not read back.\<close>

lemma quote_not_escaped: "read_entry (entry_line 3 (''key'', [CHR ''a'', CHR 0x22, CHR ''b''])) \<noteq> (''key'', [CHR ''a'', CHR 0x22, CHR ''b''])"
  by (simp add: read_entry_def entry_line_def ljust_def rendered_value_def UNQUOTED_def)

subsection \<open>Identities\<close>

datatype identity_mode = IdentityNone | IdentityBasic | IdentitySsm

fun mode_value :: "identity_mode \<Rightarrow> string" where
  "mode_value IdentityNone = ''none''"
| "mode_value IdentityBasic = ''basic''"
| "mode_value IdentitySsm = ''ssm''"

definition IDENTITY_CLOUDS :: "string list" where
  "IDENTITY_CLOUDS = [''aws'', ''azure'', ''gcp'']"

definition parse_mode :: "string option \<Rightarrow> identity_mode option" where
  "parse_mode v =
     (case v of None \<Rightarrow> Some IdentityBasic
      | Some s \<Rightarrow> find (\<lambda>m. mode_value m = lower (strip s)) [IdentityNone, IdentityBasic, IdentitySsm])"

definition identity_supported :: "string \<Rightarrow> bool" where
  "identity_supported cloud \<longleftrightarrow> lower cloud \<in> set IDENTITY_CLOUDS"

definition roles_for :: "compute_plan list \<Rightarrow> identity_mode \<Rightarrow> string list" where
  "roles_for cs m = (if m = IdentityNone then [] else sorted_set (map (\<lambda>c. tier_value (c_tier c)) cs))"

datatype identity_note = NoIdentityModel string | NoPermissionsAttached | SessionManagerAttached

definition identity_notes :: "string \<Rightarrow> identity_mode \<Rightarrow> identity_note list" where
  "identity_notes cloud m =
     (if m = IdentityNone then []
      else if \<not> identity_supported (lower cloud) then [NoIdentityModel (lower cloud)]
      else NoPermissionsAttached # (if m = IdentitySsm \<and> lower cloud = ''aws'' then [SessionManagerAttached] else []))"

lemma parse_mode_value: "parse_mode (Some (mode_value m)) = Some m"
proof -
  have "parse_mode (Some ''none'') = Some IdentityNone" "parse_mode (Some ''basic'') = Some IdentityBasic" "parse_mode (Some ''ssm'') = Some IdentitySsm"
    by code_simp+
  then show ?thesis by (cases m) simp_all
qed

text \<open>One identity for each tier in use, five at most, whatever the size of the estate.\<close>

lemma roles_for_tiers:
  "set (roles_for cs m) = (if m = IdentityNone then {} else (\<lambda>c. tier_value (c_tier c)) ` set cs) \<and> distinct (roles_for cs m)"
  by (simp add: roles_for_def)

lemma roles_for_bound: "length (roles_for cs m) \<le> 5"
proof -
  have "tier_value t \<in> {''web'', ''app'', ''database'', ''cache'', ''other''}" for t by (cases t) simp_all
  then have "set (roles_for cs m) \<subseteq> {''web'', ''app'', ''database'', ''cache'', ''other''}"
    using roles_for_tiers [of cs m] by (auto split: if_splits)
  then have "card (set (roles_for cs m)) \<le> card {''web'', ''app'', ''database'', ''cache'', ''other''}" by (intro card_mono) simp_all
  then show ?thesis unfolding distinct_card [OF conjunct2 [OF roles_for_tiers]] by simp
qed

end
