(* ===== verification/Sources.thy ===== *)
theory Sources
  imports Normalize Targets Endpoints
begin

text \<open>
  \<open>sources/\<close>: the readers of inventories. What pandas makes of a file, a frame, is given; a frame has its column
  names and its rows, a row is a dictionary, and a missing cell is \<open>NaN\<close>. From frames to raw records, the
  readers are as the code has them: the columns they look for, the limits on rows, detection, and the joins of
  the RVTools sheets.
\<close>

subsection \<open>Frames and files\<close>

record frame =
  fr_columns :: "string list"
  fr_rows :: "raw_record list"

text \<open>\<open>None\<close>: pandas cannot read the file so.\<close>

record source_file =
  sf_path :: string
  sf_csv :: "frame option"
  sf_sheets :: "(string \<times> frame) list option"
  sf_json :: "json option"

datatype source_error = InventoryTooLarge | CannotRead | BadDocument | UnknownSource

text \<open>\<open>df.empty\<close>\<close>

definition fr_empty :: "frame \<Rightarrow> bool" where
  "fr_empty fr \<longleftrightarrow> fr_rows fr = [] \<or> fr_columns fr = []"

subsection \<open>\<open>_columns.py\<close>\<close>

definition canon :: "string \<Rightarrow> string" where
  "canon name = map (\<lambda>c. if c = CHR ''_'' then CHR '' '' else c) (lower (strip name))"

definition canon_map :: "frame \<Rightarrow> (string, string) dict" where
  "canon_map fr = foldl (\<lambda>d c. AList.update (canon c) c d) [] (fr_columns fr)"

definition exact_column :: "(string, string) dict \<Rightarrow> string list \<Rightarrow> string option" where
  "exact_column m cands =
     (case List.map_filter (\<lambda>cand. map_of m (canon cand)) cands of [] \<Rightarrow> None | c # cs \<Rightarrow> Some c)"

definition prefix_column :: "(string, string) dict \<Rightarrow> string list \<Rightarrow> string option" where
  "prefix_column m cands =
     (case concat (map (\<lambda>cand. filter (\<lambda>(k, c). starts_with (canon cand) k) m) cands) of [] \<Rightarrow> None | (k, c) # es \<Rightarrow> Some c)"

definition find_column :: "frame \<Rightarrow> string list \<Rightarrow> string option" where
  "find_column fr cands =
     (case exact_column (canon_map fr) cands of Some c \<Rightarrow> Some c | None \<Rightarrow> prefix_column (canon_map fr) cands)"

text \<open>A missing column, a missing cell and \<open>NaN\<close> are all nothing.\<close>

definition row_cell :: "raw_record \<Rightarrow> string option \<Rightarrow> raw_value" where
  "row_cell row col = (case col of None \<Rightarrow> RNone | Some c \<Rightarrow> (let v = field row c in if v = RNum NaN then RNone else v))"

subsection \<open>\<open>base.py\<close>\<close>

definition XLSX_SUFFIXES :: "string list" where
  "XLSX_SUFFIXES = [''.xlsx'', ''.xls'', ''.xlsm'']"

definition file_suffix :: "string \<Rightarrow> string" where
  "file_suffix path = lower (path_suffix path)"

definition is_xlsx :: "source_file \<Rightarrow> bool" where
  "is_xlsx f \<longleftrightarrow> file_suffix (sf_path f) \<in> set XLSX_SUFFIXES"

definition is_csv :: "source_file \<Rightarrow> bool" where
  "is_csv f \<longleftrightarrow> file_suffix (sf_path f) = ''.csv''"

definition is_json :: "source_file \<Rightarrow> bool" where
  "is_json f \<longleftrightarrow> file_suffix (sf_path f) = ''.json''"

definition VM_ROW_LIMIT :: "nat \<Rightarrow> nat" where
  "VM_ROW_LIMIT max_vms = max_vms + 1"

definition AUX_ROW_LIMIT :: "nat \<Rightarrow> nat" where
  "AUX_ROW_LIMIT max_vms = max_vms * 16"

text \<open>\<open>nrows\<close>: at most so many rows are read.\<close>

definition nrows :: "nat \<Rightarrow> frame \<Rightarrow> frame" where
  "nrows n fr = fr\<lparr>fr_rows := take n (fr_rows fr)\<rparr>"

definition check_rows :: "frame \<Rightarrow> nat \<Rightarrow> source_error + frame" where
  "check_rows fr limit = (if limit \<le> length (fr_rows fr) then Inl InventoryTooLarge else Inr fr)"

definition read_csv_bounded :: "nat \<Rightarrow> source_file \<Rightarrow> source_error + frame" where
  "read_csv_bounded max_vms f =
     (case sf_csv f of None \<Rightarrow> Inl CannotRead
      | Some fr \<Rightarrow> check_rows (nrows (VM_ROW_LIMIT max_vms) fr) (VM_ROW_LIMIT max_vms))"

definition read_sheet_bounded :: "nat \<Rightarrow> bool \<Rightarrow> frame \<Rightarrow> source_error + frame" where
  "read_sheet_bounded max_vms aux fr =
     (let limit = (if aux then AUX_ROW_LIMIT max_vms else VM_ROW_LIMIT max_vms) in check_rows (nrows limit fr) limit)"

definition read_excel_bounded :: "nat \<Rightarrow> source_file \<Rightarrow> source_error + frame" where
  "read_excel_bounded max_vms f =
     (case sf_sheets f of
        Some ((n, fr) # rest) \<Rightarrow> read_sheet_bounded max_vms False fr
      | _ \<Rightarrow> Inl CannotRead)"

definition read_table :: "nat \<Rightarrow> source_file \<Rightarrow> source_error + frame" where
  "read_table max_vms f = (if is_csv f then read_csv_bounded max_vms f else read_excel_bounded max_vms f)"

definition sheet_names :: "source_file \<Rightarrow> string list" where
  "sheet_names f = (case sf_sheets f of None \<Rightarrow> [] | Some sheets \<Rightarrow> map (\<lambda>(n, fr). lower (strip n)) sheets)"

definition headers :: "source_file \<Rightarrow> string list" where
  "headers f =
     (let low = (\<lambda>fr. map (\<lambda>c. lower (strip c)) (fr_columns fr))
      in if is_csv f then (case sf_csv f of None \<Rightarrow> [] | Some fr \<Rightarrow> low fr)
         else if is_xlsx f then (case sf_sheets f of Some ((n, fr) # rest) \<Rightarrow> low fr | _ \<Rightarrow> [])
         else [])"

definition any_header_contains :: "string list \<Rightarrow> string list \<Rightarrow> bool" where
  "any_header_contains hdrs needles = list_ex (\<lambda>h. list_ex (\<lambda>n. contains n h) needles) hdrs"

subsection \<open>Records\<close>

text \<open>A row counts when it has a name.\<close>

definition row_name :: "py_env \<Rightarrow> raw_record \<Rightarrow> string option \<Rightarrow> string option" where
  "row_name env row col =
     (let v = row_cell row col in if v = RNone \<or> strip (str_value env v) = [] then None else Some (strip (str_value env v)))"

definition rows_with :: "py_env \<Rightarrow> string option \<Rightarrow> (raw_record \<Rightarrow> string \<Rightarrow> raw_record) \<Rightarrow> raw_record list \<Rightarrow> raw_record list" where
  "rows_with env col build rows = List.map_filter (\<lambda>row. map_option (build row) (row_name env row col)) rows"

text \<open>Fields that are set only when there is a value.\<close>

definition sized :: "string \<Rightarrow> string \<Rightarrow> string \<Rightarrow> raw_value \<Rightarrow> raw_record" where
  "sized k unit_key u v = (if v = RNone then [] else [(k, v), (unit_key, RText u)])"

subsection \<open>The generic reader\<close>

definition SYNONYMS :: "(string, string list) dict" where
  "SYNONYMS =
     [(''name'', [''hostname'', ''host name'', ''vm name'', ''server name'', ''ci name'', ''device name'',
         ''name'', ''host'', ''vm'', ''server'', ''device'', ''asset'', ''system'']),
      (''cpu'', [''vcpu'', ''cpu cores'', ''core count'', ''processorcount'', ''num cpu'', ''cpus'', ''cores'', ''cpu'', ''processors'', ''sockets'']),
      (''memory_gib'', [''memory gib'', ''memory gb'', ''ram gb'', ''ram (gb)'', ''memory (gb)'', ''memorygb'', ''ram'', ''memory'', ''mem'']),
      (''memory_mib'', [''memory mib'', ''memory mb'', ''ram mib'', ''ram mb'']),
      (''cpu_util_pct'', [''cpu utilization'', ''cpu util'', ''avg cpu'', ''average cpu'', ''cpu usage'', ''cpu percent'', ''cpu %'', ''%cpu'', ''peak cpu'']),
      (''mem_util_pct'', [''memory utilization'', ''mem util'', ''avg memory'', ''average memory'', ''memory usage'', ''memory percent'',
         ''memory %'', ''mem %'', ''ram %'', ''peak memory'']),
      (''mem_used_gib'', [''memory used'', ''used memory'', ''mem used'', ''used ram'', ''ram used'']),
      (''disk_gib'', [''disk gib'', ''disk gb'', ''storage gb'', ''capacity gb'', ''provisioned gb'', ''total storage'', ''storage'', ''capacity'', ''disk'', ''hdd'']),
      (''disk_mib'', [''disk mib'', ''disk mb'', ''storage mib'']),
      (''os'', [''operating system'', ''os name'', ''guest os'', ''os family'', ''platform'', ''os'']),
      (''network'', [''network'', ''vlan'', ''port group'', ''subnet'']),
      (''ip'', [''ip address'', ''ipv4'', ''primary ip'', ''ip'']),
      (''cluster'', [''cluster'', ''datacenter'', ''location'', ''site''])]"

text \<open>The header a synonym finds among those not taken: itself, else the first that has it.\<close>

definition syn_match :: "string list \<Rightarrow> string set \<Rightarrow> string \<Rightarrow> string option" where
  "syn_match hdrs taken syn =
     (case find (\<lambda>h. h = syn \<and> h \<notin> taken) hdrs of Some h \<Rightarrow> Some h
      | None \<Rightarrow> find (\<lambda>h. contains syn h \<and> h \<notin> taken) hdrs)"

definition auto_step :: "string list \<Rightarrow> (string, string) dict \<times> string set \<Rightarrow> string \<times> string list \<Rightarrow> (string, string) dict \<times> string set" where
  "auto_step hdrs st cs =
     (case List.map_filter (syn_match hdrs (snd st)) (snd cs) of [] \<Rightarrow> st
      | h # hs \<Rightarrow> (fst st @ [(fst cs, h)], insert h (snd st)))"

definition auto_map :: "string list \<Rightarrow> (string, string) dict" where
  "auto_map hdrs = fst (foldl (auto_step hdrs) ([], {}) SYNONYMS)"

definition generic_detect :: "source_file \<Rightarrow> rat" where
  "generic_detect f =
     (let found = map_of (auto_map (headers f))
      in if \<not> (is_csv f \<or> is_xlsx f) \<or> headers f = [] then 0
         else if found ''name'' \<noteq> None \<and> (found ''cpu'' \<noteq> None \<or> found ''memory_gib'' \<noteq> None \<or> found ''memory_mib'' \<noteq> None) then 35 / 100
         else if found ''name'' \<noteq> None then 2 / 10 else 1 / 10)"

definition lower_to_real :: "frame \<Rightarrow> (string, string) dict" where
  "lower_to_real fr = foldl (\<lambda>d c. AList.update (lower (strip c)) c d) [] (fr_columns fr)"

definition generic_column :: "(string, string) dict option \<Rightarrow> frame \<Rightarrow> string \<Rightarrow> string option" where
  "generic_column cm fr cn =
     (case cm of
        Some m \<Rightarrow> (case map_of m cn of
            Some header \<Rightarrow> find_column fr [header]
          | None \<Rightarrow> (case map_of (auto_map (keys (lower_to_real fr))) cn of Some h \<Rightarrow> map_of (lower_to_real fr) h | None \<Rightarrow> None))
      | None \<Rightarrow> (case map_of (auto_map (keys (lower_to_real fr))) cn of Some h \<Rightarrow> map_of (lower_to_real fr) h | None \<Rightarrow> None))"

text \<open>\<open>round(100.0 * used / alloc, 2)\<close>, with the infinities; \<open>None\<close> when there is nothing to divide by.\<close>

definition used_pct :: "pyfloat \<Rightarrow> pyfloat \<Rightarrow> pyfloat option" where
  "used_pct used alloc =
     (case (used, alloc) of
        (Fin u, Fin a) \<Rightarrow> if a = 0 then None else Some (Fin (round_dp 2 (100 * u / a)))
      | (Fin u, Infinite) \<Rightarrow> Some (Fin 0)
      | (Infinite, Fin a) \<Rightarrow> if a = 0 then None else Some Infinite
      | (NaN, Fin a) \<Rightarrow> if a = 0 then None else Some NaN
      | _ \<Rightarrow> Some NaN)"

definition memory_fields :: "raw_value \<Rightarrow> raw_value \<Rightarrow> raw_record" where
  "memory_fields mib gib = (if mib \<noteq> RNone then [(''memory_mib'', mib)] else sized ''memory_value'' ''memory_unit'' ''gib'' gib)"

definition disk_fields :: "raw_value \<Rightarrow> raw_value \<Rightarrow> raw_record" where
  "disk_fields mib gib = (if mib \<noteq> RNone then sized ''disk_value'' ''disk_unit'' ''mib'' mib else sized ''disk_value'' ''disk_unit'' ''gib'' gib)"

definition mem_util_fields :: "py_env \<Rightarrow> raw_value \<Rightarrow> raw_value \<Rightarrow> raw_value \<Rightarrow> raw_record" where
  "mem_util_fields env util used alloc =
     (if util \<noteq> RNone then [(''mem_util_pct'', util)]
      else case (float_of env used, float_of env alloc) of
             (Some u, Some a) \<Rightarrow> (case used_pct u a of Some x \<Rightarrow> [(''mem_util_pct'', RNum x)] | None \<Rightarrow> [])
           | _ \<Rightarrow> [])"

definition generic_record :: "py_env \<Rightarrow> (string \<Rightarrow> raw_value) \<Rightarrow> string \<Rightarrow> raw_record" where
  "generic_record env val name =
     (let mem = memory_fields (val ''memory_mib'') (val ''memory_gib'')
      in [(''name'', RText name), (''cpus'', val ''cpu''), (''os'', val ''os''), (''network'', val ''network''), (''ip'', val ''ip''),
          (''cluster'', val ''cluster'')]
         @ mem @ disk_fields (val ''disk_mib'') (val ''disk_gib'')
         @ (if val ''cpu_util_pct'' = RNone then [] else [(''cpu_util_pct'', val ''cpu_util_pct'')])
         @ mem_util_fields env (val ''mem_util_pct'') (val ''mem_used_gib'') (field mem ''memory_value''))"

definition generic_parse :: "py_env \<Rightarrow> nat \<Rightarrow> (string, string) dict option \<Rightarrow> source_file \<Rightarrow> source_error + raw_record list" where
  "generic_parse env max_vms cm f =
     (case read_table max_vms f of Inl e \<Rightarrow> Inl e
      | Inr fr \<Rightarrow>
          if fr_empty fr then Inr []
          else let col = generic_column cm fr
               in Inr (rows_with env (col ''name'') (\<lambda>row. generic_record env (\<lambda>cn. row_cell row (col cn))) (fr_rows fr)))"

subsection \<open>Hyper-V\<close>

definition BYTES_PER_MIB :: rat where "BYTES_PER_MIB = 1048576"

definition hyperv_detect :: "source_file \<Rightarrow> rat" where
  "hyperv_detect f =
     (if \<not> is_csv f then 0
      else if any_header_contains (headers f) [''processorcount''] then 9 / 10
      else if any_header_contains (headers f) [''memoryassigned'', ''memorystartup''] then 85 / 100 else 0)"

definition bytes_to_mib :: "pyfloat \<Rightarrow> pyfloat" where
  "bytes_to_mib x = (case x of Fin b \<Rightarrow> Fin (b / BYTES_PER_MIB) | _ \<Rightarrow> x)"

definition hyperv_memory :: "py_env \<Rightarrow> raw_value \<Rightarrow> raw_value \<Rightarrow> raw_record" where
  "hyperv_memory env gb raw =
     (if gb \<noteq> RNone then sized ''memory_value'' ''memory_unit'' ''gib'' gb
      else case float_of env raw of Some x \<Rightarrow> [(''memory_mib'', RNum (bytes_to_mib x))] | None \<Rightarrow> [])"

definition hyperv_parse :: "py_env \<Rightarrow> nat \<Rightarrow> source_file \<Rightarrow> source_error + raw_record list" where
  "hyperv_parse env max_vms f =
     (case read_csv_bounded max_vms f of Inl e \<Rightarrow> Inl e
      | Inr fr \<Rightarrow>
          if fr_empty fr then Inr []
          else let col = find_column fr
               in Inr (rows_with env (col [''VMName'', ''Name''])
                    (\<lambda>row name. [(''name'', RText name), (''cpus'', row_cell row (col [''ProcessorCount'', ''CPUCount'', ''CPUs''])),
                        (''powerstate'', row_cell row (col [''State'', ''Status''])), (''os'', row_cell row (col [''OperatingSystem'', ''Guest OS'', ''OS'', ''OSName'']))]
                      @ hyperv_memory env (row_cell row (col [''MemoryAssignedGB'', ''MemoryStartupGB'', ''MemoryGB'', ''Memory GB'']))
                          (row_cell row (col [''MemoryAssigned'', ''MemoryStartup'', ''MemoryMaximum'']))
                      @ sized ''disk_value'' ''disk_unit'' ''gib'' (row_cell row (col [''DiskSizeGB'', ''VHDSizeGB'', ''TotalDiskGB'', ''Disk GB''])))
                    (fr_rows fr)))"

subsection \<open>Cloud fleets\<close>

definition cloud_detect :: "source_file \<Rightarrow> rat" where
  "cloud_detect f =
     (if \<not> (is_csv f \<or> is_xlsx f) then 0
      else if any_header_contains (headers f) [''instancetype'', ''instance type'', ''vmsize'', ''vm size''] then 8 / 10 else 0)"

text \<open>The size behind an instance type, from the catalogs of AWS and Azure.\<close>

definition known_spec :: "py_env \<Rightarrow> raw_value \<Rightarrow> instance_spec option" where
  "known_spec env v =
     (if v = RNone then None
      else case spec_of AWS (strip (str_value env v)) of Some i \<Rightarrow> Some i | None \<Rightarrow> spec_of AZURE (strip (str_value env v)))"

definition cloud_size :: "py_env \<Rightarrow> raw_value \<Rightarrow> raw_value \<Rightarrow> raw_value \<Rightarrow> raw_record" where
  "cloud_size env ty cpu mem =
     (case known_spec env ty of
        Some i \<Rightarrow> [(''cpus'', RNum (Fin (of_int (i_vcpu i)))), (''memory_value'', RNum (Fin (i_memory i))), (''memory_unit'', RText ''gib'')]
      | None \<Rightarrow> (''cpus'', cpu) # sized ''memory_value'' ''memory_unit'' ''gib'' mem)"

definition stripped_text :: "py_env \<Rightarrow> raw_value \<Rightarrow> string option" where
  "stripped_text env v = (if v = RNone \<or> strip (str_value env v) = [] then None else Some (strip (str_value env v)))"

definition cloud_parse :: "py_env \<Rightarrow> nat \<Rightarrow> source_file \<Rightarrow> source_error + raw_record list" where
  "cloud_parse env max_vms f =
     (case read_table max_vms f of Inl e \<Rightarrow> Inl e
      | Inr fr \<Rightarrow>
          if fr_empty fr then Inr []
          else let col = find_column fr
               in Inr (rows_with env (col [''Name'', ''Instance Name'', ''InstanceId'', ''VM Name'', ''Hostname''])
                    (\<lambda>row name. [(''name'', RText name), (''os'', row_cell row (col [''Platform'', ''OperatingSystem'', ''OS'', ''Image'']))]
                      @ (case stripped_text env (row_cell row (col [''InstanceId'', ''Instance ID'', ''ResourceId'', ''Resource ID'', ''VM ID''])) of
                           Some i \<Rightarrow> [(''external_id'', RText i)] | None \<Rightarrow> [])
                      @ cloud_size env (row_cell row (col [''InstanceType'', ''Instance Type'', ''VMSize'', ''VM Size'', ''Size'']))
                          (row_cell row (col [''vCPUs'', ''vCPU'', ''CPUs'', ''Cores''])) (row_cell row (col [''Memory GiB'', ''MemoryGB'', ''RAM GB'', ''Memory'']))
                      @ sized ''disk_value'' ''disk_unit'' ''gib'' (row_cell row (col [''VolumeSize'', ''Disk GB'', ''Storage GB'', ''RootVolumeGB''])))
                    (fr_rows fr)))"

subsection \<open>VMware: the flat file\<close>

definition value_and_unit :: "raw_record \<Rightarrow> string option \<Rightarrow> string \<Rightarrow> raw_value \<times> string" where
  "value_and_unit row col default_unit =
     (case col of
        None \<Rightarrow> (RNone, default_unit)
      | Some c \<Rightarrow>
          if row_cell row col = RNone then (RNone, default_unit)
          else (row_cell row col,
            if contains ''gib'' (lower c) \<or> contains ''gb'' (lower c) then ''gib''
            else if contains ''mib'' (lower c) \<or> contains ''mb'' (lower c) then ''mib'' else default_unit))"

text \<open>The file is read whole: this reader has no limit on rows.\<close>

definition vmware_csv_parse :: "py_env \<Rightarrow> source_file \<Rightarrow> source_error + raw_record list" where
  "vmware_csv_parse env f =
     (case sf_csv f of None \<Rightarrow> Inl CannotRead
      | Some fr \<Rightarrow>
          if fr_empty fr then Inr []
          else let col = find_column fr
               in Inr (rows_with env (col [''VM'', ''VM Name'', ''Name'', ''vm_name''])
                    (\<lambda>row name.
                      let mem = value_and_unit row (col [''Memory GiB'', ''Memory MiB'', ''Memory'', ''RAM'', ''memory'']) ''gib'';
                          disk = value_and_unit row (col [''Disk GiB'', ''Disk MiB'', ''Provisioned MiB'', ''Storage'', ''Disk'', ''disk'']) ''gib''
                      in [(''name'', RText name), (''cpus'', row_cell row (col [''CPUs'', ''CPU'', ''vCPU'', ''cpu''])),
                          (''memory_value'', fst mem), (''memory_unit'', RText (snd mem)),
                          (''os'', row_cell row (col [''OS'', ''Guest OS'', ''Operating System'', ''os''])),
                          (''powerstate'', row_cell row (col [''Powerstate'', ''Power State'', ''power_state''])),
                          (''dns_name'', row_cell row (col [''DNS Name'', ''Hostname'', ''hostname''])),
                          (''ip'', row_cell row (col [''Primary IP Address'', ''IP Address'', ''IP'', ''ip''])),
                          (''network'', row_cell row (col [''Network'', ''VLAN'', ''Port Group'', ''network''])),
                          (''cluster'', row_cell row (col [''Cluster'', ''cluster''])),
                          (''datacenter'', row_cell row (col [''Datacenter'', ''Data Center'', ''datacenter'']))]
                         @ (if fst disk = RNone then [] else [(''disk_value'', fst disk), (''disk_unit'', RText (snd disk))]))
                    (fr_rows fr)))"

subsection \<open>VMware: RVTools\<close>

type_synonym sheets = "(string, frame) dict"

definition SHEETS_WE_READ :: "string list" where
  "SHEETS_WE_READ = [''vinfo'', ''vdisk'', ''vnetwork'']"

definition low_name :: "string \<Rightarrow> string" where
  "low_name n = lower (strip n)"

text \<open>The sheets that are read, by lower-case name; of sheets with one such name the last counts.\<close>

definition wanted_sheets :: "(string \<times> frame) list \<Rightarrow> (string \<times> frame) list" where
  "wanted_sheets all =
     (let by_lower = foldl (\<lambda>d (n, fr). AList.update (low_name n) (n, fr) d) [] all
      in if map_of by_lower ''vinfo'' = None then take 1 all
         else List.map_filter (map_of by_lower) SHEETS_WE_READ)"

fun read_wanted :: "nat \<Rightarrow> bool \<Rightarrow> (string \<times> frame) list \<Rightarrow> source_error + sheets" where
  "read_wanted max_vms has_vinfo [] = Inr []"
| "read_wanted max_vms has_vinfo ((n, fr) # rest) =
     (case read_sheet_bounded max_vms (has_vinfo \<and> low_name n \<noteq> ''vinfo'') fr of
        Inl e \<Rightarrow> Inl e
      | Inr fr \<Rightarrow> (case read_wanted max_vms has_vinfo rest of Inl e \<Rightarrow> Inl e | Inr d \<Rightarrow> Inr ((low_name n, fr) # d)))"

definition read_sheets :: "nat \<Rightarrow> source_file \<Rightarrow> source_error + sheets" where
  "read_sheets max_vms f =
     (case sf_sheets f of
        None \<Rightarrow> Inl CannotRead
      | Some all \<Rightarrow> read_wanted max_vms (''vinfo'' \<in> set (map (\<lambda>(n, fr). low_name n) all)) (wanted_sheets all))"

definition UUID_COLUMNS :: "string list" where
  "UUID_COLUMNS = [''VM UUID'', ''UUID'']"

definition uuid_join :: "string \<Rightarrow> string" where "uuid_join u = ''uuid:'' @ lower u"
definition name_join :: "string \<Rightarrow> string" where "name_join n = ''name:'' @ n"

definition row_keys :: "py_env \<Rightarrow> raw_record \<Rightarrow> string option \<Rightarrow> string option \<Rightarrow> string list" where
  "row_keys env row name_col uuid_col =
     (case stripped_text env (row_cell row uuid_col) of Some u \<Rightarrow> [uuid_join u] | None \<Rightarrow> [])
     @ (case stripped_text env (row_cell row name_col) of Some n \<Rightarrow> [name_join n] | None \<Rightarrow> [])"

text \<open>The entry of a machine: by its identifier if that has one that is not empty, else by its name.\<close>

definition lookup_vm :: "('v \<Rightarrow> bool) \<Rightarrow> (string, 'v) dict \<Rightarrow> string \<Rightarrow> string option \<Rightarrow> 'v option" where
  "lookup_vm present table name uuid =
     (case uuid of
        Some u \<Rightarrow>
          (case if u = [] then None else map_of table (uuid_join u) of
             Some hit \<Rightarrow> if present hit then Some hit else map_of table (name_join name)
           | None \<Rightarrow> map_of table (name_join name))
      | None \<Rightarrow> map_of table (name_join name))"

definition push_capacity :: "pyfloat \<Rightarrow> (string, pyfloat list) dict \<Rightarrow> string \<Rightarrow> (string, pyfloat list) dict" where
  "push_capacity c d k = AList.update k ((case map_of d k of Some cs \<Rightarrow> cs | None \<Rightarrow> []) @ [c]) d"

definition disk_row :: "py_env \<Rightarrow> string option \<Rightarrow> string option \<Rightarrow> string option \<Rightarrow> (string, pyfloat list) dict \<Rightarrow> raw_record \<Rightarrow> (string, pyfloat list) dict" where
  "disk_row env name_col uuid_col cap_col d row =
     (case float_of env (row_cell row cap_col) of None \<Rightarrow> d | Some c \<Rightarrow> foldl (push_capacity c) d (row_keys env row name_col uuid_col))"

definition disks_by_vm :: "py_env \<Rightarrow> sheets \<Rightarrow> (string, pyfloat list) dict" where
  "disks_by_vm env sh =
     (case map_of sh ''vdisk'' of None \<Rightarrow> []
      | Some fr \<Rightarrow>
          (let name_col = find_column fr [''VM'']; uuid_col = find_column fr UUID_COLUMNS;
               cap_col = find_column fr [''Capacity MiB'', ''Capacity'', ''Capacity MB'']
           in if fr_empty fr \<or> name_col = None \<or> cap_col = None then []
              else foldl (disk_row env name_col uuid_col cap_col) [] (fr_rows fr)))"

text \<open>The network and address of a row, where there are any.\<close>

record nic_entry =
  ni_network :: "string option"
  ni_ip :: "string option"

definition nic_of :: "py_env \<Rightarrow> raw_value \<Rightarrow> raw_value \<Rightarrow> nic_entry" where
  "nic_of env n ip =
     \<lparr>ni_network = (if n = RNone then None else Some (strip (str_value env n))),
      ni_ip = (if ip = RNone then None else Some (strip (str_value env ip)))\<rparr>"

definition nic_truthy :: "nic_entry \<Rightarrow> bool" where
  "nic_truthy e \<longleftrightarrow> ni_network e \<noteq> None \<or> ni_ip e \<noteq> None"

definition keep_first :: "'v \<Rightarrow> (string, 'v) dict \<Rightarrow> string \<Rightarrow> (string, 'v) dict" where
  "keep_first v d k = (if map_of d k = None then AList.update k v d else d)"

definition nic_row :: "py_env \<Rightarrow> frame \<Rightarrow> (string, nic_entry) dict \<Rightarrow> raw_record \<Rightarrow> (string, nic_entry) dict" where
  "nic_row env fr d row =
     (let e = nic_of env (row_cell row (find_column fr [''Network'', ''Port Group'', ''Portgroup'']))
                (row_cell row (find_column fr [''IP Address'', ''IPv4 Address'', ''IP'']))
      in foldl (keep_first e) d (row_keys env row (find_column fr [''VM'']) (find_column fr UUID_COLUMNS)))"

definition network_by_vm :: "py_env \<Rightarrow> sheets \<Rightarrow> (string, nic_entry) dict" where
  "network_by_vm env sh =
     (case map_of sh ''vnetwork'' of None \<Rightarrow> []
      | Some fr \<Rightarrow> if fr_empty fr \<or> find_column fr [''VM''] = None then [] else foldl (nic_row env fr) [] (fr_rows fr))"

definition raw_truthy :: "raw_value \<Rightarrow> bool" where
  "raw_truthy v = (case v of RNone \<Rightarrow> False | RText s \<Rightarrow> s \<noteq> [] | RNum x \<Rightarrow> x \<noteq> Fin 0 | RItems vs \<Rightarrow> vs \<noteq> [])"

text \<open>The address is given at the end, where it replaces a missing one.\<close>

definition rvtools_disks :: "raw_record \<Rightarrow> string option \<Rightarrow> (string, pyfloat list) dict \<Rightarrow> string \<Rightarrow> string option \<Rightarrow> raw_record" where
  "rvtools_disks row prov_col disks name uuid =
     (case lookup_vm (\<lambda>cs. cs \<noteq> []) disks name uuid of
        Some (c # cs) \<Rightarrow> [(''disks_mib'', RItems (map RNum (c # cs)))]
      | _ \<Rightarrow> if row_cell row prov_col = RNone then [] else [(''disks_mib'', RItems [row_cell row prov_col])])"

definition rvtools_network :: "raw_value \<Rightarrow> (string, nic_entry) dict \<Rightarrow> string \<Rightarrow> string option \<Rightarrow> raw_record" where
  "rvtools_network ip nics name uuid =
     (case lookup_vm nic_truthy nics name uuid of
        Some e \<Rightarrow> (case ni_network e of Some n \<Rightarrow> [(''network'', RText n)] | None \<Rightarrow> [])
          @ [(''ip'', case ni_ip e of Some i \<Rightarrow> if raw_truthy ip then ip else RText i | None \<Rightarrow> ip)]
      | None \<Rightarrow> [(''ip'', ip)])"

definition rvtools_record :: "py_env \<Rightarrow> frame \<Rightarrow> (string, pyfloat list) dict \<Rightarrow> (string, nic_entry) dict \<Rightarrow> raw_record \<Rightarrow> string \<Rightarrow> raw_record" where
  "rvtools_record env fr disks nics row name =
     (let col = find_column fr; uuid = stripped_text env (row_cell row (col UUID_COLUMNS))
      in [(''name'', RText name), (''uuid'', case uuid of Some u \<Rightarrow> RText u | None \<Rightarrow> RNone),
          (''cpus'', row_cell row (col [''CPUs'', ''CPU'', ''vCPU'', ''Num CPU''])), (''memory_mib'', row_cell row (col [''Memory'', ''Memory MiB'', ''RAM''])),
          (''os'', row_cell row (col [''OS according to the configuration file'', ''OS'', ''Guest OS'', ''OS according to the VMware Tools''])),
          (''powerstate'', row_cell row (col [''Powerstate'', ''Power State'', ''Power''])),
          (''dns_name'', row_cell row (col [''DNS Name'', ''Hostname'', ''DNS''])), (''cluster'', row_cell row (col [''Cluster''])),
          (''datacenter'', row_cell row (col [''Datacenter'', ''Data Center'']))]
         @ rvtools_disks row (col [''Provisioned MiB'', ''Provisioned MB'', ''Provisioned'']) disks name uuid
         @ rvtools_network (row_cell row (col [''Primary IP Address'', ''IP Address'', ''IP''])) nics name uuid)"

definition rvtools_parse :: "py_env \<Rightarrow> nat \<Rightarrow> source_file \<Rightarrow> source_error + raw_record list" where
  "rvtools_parse env max_vms f =
     (case read_sheets max_vms f of Inl e \<Rightarrow> Inl e
      | Inr sh \<Rightarrow>
          (case (case map_of sh ''vinfo'' of Some fr \<Rightarrow> Some fr | None \<Rightarrow> (case sh of [] \<Rightarrow> None | (n, fr) # rest \<Rightarrow> Some fr)) of
             None \<Rightarrow> Inr []
           | Some fr \<Rightarrow> Inr (rows_with env (find_column fr [''VM'', ''VM Name'', ''Name'']) (rvtools_record env fr (disks_by_vm env sh) (network_by_vm env sh)) (fr_rows fr))))"

definition vmware_detect :: "source_file \<Rightarrow> rat" where
  "vmware_detect f =
     (if is_xlsx f
      then (if ''vinfo'' \<in> set (sheet_names f) then 98 / 100
            else if any_header_contains (headers f) [''cpus'', ''provisioned mib''] then 6 / 10 else 4 / 10)
      else if is_csv f
      then (if any_header_contains (headers f) [''powerstate'', ''provisioned'', ''datacenter'', ''vlan''] then 6 / 10 else 2 / 10)
      else 0)"

definition vmware_parse :: "py_env \<Rightarrow> nat \<Rightarrow> source_file \<Rightarrow> source_error + raw_record list" where
  "vmware_parse env max_vms f = (if is_xlsx f then rvtools_parse env max_vms f else vmware_csv_parse env f)"

end
