(* ===== verification/Inventory.thy ===== *)
theory Inventory
  imports Sources
begin

text \<open>
  \<open>sources/kubernetes/\<close>, the reader of \<open>kubectl\<close> output, and the dispatch of \<open>sources/__init__.py\<close>. A value that is not the
  mapping or list the reader expects raises; so does an infinite amount where a whole number is made of it.
\<close>

subsection \<open>Amounts\<close>

datatype amount = Amount rat | PosInf | NegInf | NotANumber

text \<open>\<open>float(s)\<close>, and \<open>str(v)\<close> of what is not a string.\<close>

record k8s_env =
  ke_float :: "string \<Rightarrow> amount option"
  ke_str :: "json \<Rightarrow> string"

definition amount_scale :: "rat \<Rightarrow> amount \<Rightarrow> amount" where
  "amount_scale m a = (case a of Amount x \<Rightarrow> Amount (x * m) | _ \<Rightarrow> a)"

definition amount_add :: "amount \<Rightarrow> amount \<Rightarrow> amount" where
  "amount_add a b =
     (case (a, b) of
        (Amount x, Amount y) \<Rightarrow> Amount (x + y)
      | (NotANumber, _) \<Rightarrow> NotANumber
      | (_, NotANumber) \<Rightarrow> NotANumber
      | (Amount x, _) \<Rightarrow> b
      | (_, Amount y) \<Rightarrow> a
      | _ \<Rightarrow> if a = b then a else NotANumber)"

definition amount_positive :: "amount \<Rightarrow> bool" where
  "amount_positive a = (case a of Amount x \<Rightarrow> 0 < x | PosInf \<Rightarrow> True | _ \<Rightarrow> False)"

definition json_str :: "k8s_env \<Rightarrow> json \<Rightarrow> string" where
  "json_str env v = (case v of JStr s \<Rightarrow> s | _ \<Rightarrow> ke_str env v)"

definition ends_with :: "string \<Rightarrow> string \<Rightarrow> bool" where
  "ends_with t s = starts_with (rev t) (rev s)"

definition drop_last :: "nat \<Rightarrow> string \<Rightarrow> string" where
  "drop_last n s = take (length s - n) s"

definition or_zero :: "amount option \<Rightarrow> amount" where
  "or_zero a = (case a of Some x \<Rightarrow> x | None \<Rightarrow> Amount 0)"

definition cpu_to_cores :: "k8s_env \<Rightarrow> json \<Rightarrow> amount" where
  "cpu_to_cores env v =
     (let s = strip (json_str env v)
      in if v = JNull \<or> s = [] then Amount 0
         else if ends_with ''m'' s then or_zero (map_option (amount_scale (1 / 1000)) (ke_float env (drop_last 1 s)))
         else if ends_with ''n'' s then or_zero (map_option (amount_scale (1 / 1000000000)) (ke_float env (drop_last 1 s)))
         else or_zero (ke_float env s))"

definition MEM_SUFFIX :: "(string \<times> rat) list" where
  "MEM_SUFFIX =
     [(''Ki'', 1024), (''Mi'', 1024 ^ 2), (''Gi'', 1024 ^ 3), (''Ti'', 1024 ^ 4), (''Pi'', 1024 ^ 5),
      (''k'', 10 ^ 3), (''M'', 10 ^ 6), (''G'', 10 ^ 9), (''T'', 10 ^ 12), (''P'', 10 ^ 15)]"

definition mem_to_bytes :: "k8s_env \<Rightarrow> json \<Rightarrow> amount" where
  "mem_to_bytes env v =
     (let s = strip (json_str env v)
      in if v = JNull \<or> s = [] then Amount 0
         else case find (\<lambda>(suffix, m). ends_with suffix s) MEM_SUFFIX of
                Some (suffix, m) \<Rightarrow> or_zero (map_option (amount_scale m) (ke_float env (drop_last (length suffix) s)))
              | None \<Rightarrow> or_zero (ke_float env s))"

subsection \<open>Objects\<close>

text \<open>\<open>v.get(k)\<close>, \<open>v.get(k, {})\<close> and \<open>v or {}\<close>; a list where the code iterates.\<close>

definition jget :: "json \<Rightarrow> string \<Rightarrow> source_error + json" where
  "jget v k = (case v of JObj kvs \<Rightarrow> Inr (case map_of kvs k of Some x \<Rightarrow> x | None \<Rightarrow> JNull) | _ \<Rightarrow> Inl BadDocument)"

definition jget_dict :: "json \<Rightarrow> string \<Rightarrow> source_error + json" where
  "jget_dict v k = (case v of JObj kvs \<Rightarrow> Inr (case map_of kvs k of Some x \<Rightarrow> x | None \<Rightarrow> JObj []) | _ \<Rightarrow> Inl BadDocument)"

definition or_dict :: "json \<Rightarrow> json" where
  "or_dict v = (if truthy v then v else JObj [])"

definition or_list :: "json \<Rightarrow> source_error + json list" where
  "or_list v = (if \<not> truthy v then Inr [] else case v of JList vs \<Rightarrow> Inr vs | _ \<Rightarrow> Inl BadDocument)"

definition bind_sum :: "'e + 'a \<Rightarrow> ('a \<Rightarrow> 'e + 'b) \<Rightarrow> 'e + 'b" where
  "bind_sum r f = (case r of Inl e \<Rightarrow> Inl e | Inr x \<Rightarrow> f x)"

fun jpath :: "json \<Rightarrow> string list \<Rightarrow> source_error + json" where
  "jpath v [] = Inr v"
| "jpath v (k # ks) = bind_sum (jget_dict v k) (\<lambda>x. jpath x ks)"

fun map_sum_list :: "('a \<Rightarrow> 'e + 'b) \<Rightarrow> 'a list \<Rightarrow> 'e + 'b list" where
  "map_sum_list f [] = Inr []"
| "map_sum_list f (x # xs) = bind_sum (f x) (\<lambda>y. bind_sum (map_sum_list f xs) (\<lambda>ys. Inr (y # ys)))"

definition WORKLOAD_KINDS :: "string list" where
  "WORKLOAD_KINDS = [''Deployment'', ''StatefulSet'', ''DaemonSet'', ''ReplicaSet'', ''Pod'']"

text \<open>The kind is looked up in a set, which a list or a mapping cannot be.\<close>

definition kind_of :: "json \<Rightarrow> source_error + json" where
  "kind_of v = bind_sum (jget v ''kind'') (\<lambda>k. case k of JList vs \<Rightarrow> Inl BadDocument | JObj kvs \<Rightarrow> Inl BadDocument | _ \<Rightarrow> Inr k)"

definition is_kind :: "string list \<Rightarrow> json \<Rightarrow> bool" where
  "is_kind kinds k = (case k of JStr s \<Rightarrow> s \<in> set kinds | _ \<Rightarrow> False)"

definition pod_path :: "json \<Rightarrow> string list" where
  "pod_path k = (if k = JStr ''Pod'' then [''spec''] else [''spec'', ''template'', ''spec''])"

definition containers_of :: "json \<Rightarrow> json \<Rightarrow> source_error + json list" where
  "containers_of k v = bind_sum (jpath v (pod_path k)) (\<lambda>spec. bind_sum (jget spec ''containers'') or_list)"

definition pod_spec_of :: "json \<Rightarrow> json \<Rightarrow> source_error + json" where
  "pod_spec_of k v = bind_sum (jpath v (pod_path k)) (\<lambda>spec. Inr (or_dict spec))"

text \<open>What a container asks for, and if it asks for nothing its limit.\<close>

definition resource_of :: "json \<Rightarrow> string \<Rightarrow> source_error + json" where
  "resource_of c dimension =
     bind_sum (jget c ''resources'') (\<lambda>r. bind_sum (jget (or_dict r) ''requests'') (\<lambda>req. bind_sum (jget (or_dict r) ''limits'') (\<lambda>lim.
       bind_sum (jget (or_dict req) dimension) (\<lambda>x. if truthy x then Inr x else jget (or_dict lim) dimension))))"

definition claim_gib :: "k8s_env \<Rightarrow> json \<Rightarrow> source_error + amount list" where
  "claim_gib env v =
     bind_sum (jpath v [''spec'']) (\<lambda>spec. bind_sum (jget spec ''volumeClaimTemplates'') (\<lambda>ts. bind_sum (or_list ts) (\<lambda>ts.
       bind_sum (map_sum_list (\<lambda>t. bind_sum (jpath t [''spec'', ''resources'', ''requests'']) (\<lambda>req. jget (or_dict req) ''storage'')) ts) (\<lambda>sizes.
         Inr (map (\<lambda>g. case g of Amount x \<Rightarrow> Amount (round_dp 2 x) | _ \<Rightarrow> g)
           (filter amount_positive (map (\<lambda>x. amount_scale (1 / 1024 ^ 3) (mem_to_bytes env x)) (filter (\<lambda>x. x \<noteq> JNull) sizes))))))))"

definition os_of :: "k8s_env \<Rightarrow> json \<Rightarrow> json \<Rightarrow> source_error + string" where
  "os_of env k v =
     bind_sum (pod_spec_of k v) (\<lambda>spec. bind_sum (jget spec ''os'') (\<lambda>os. bind_sum (jget (or_dict os) ''name'') (\<lambda>n.
       bind_sum (if truthy n then Inr n
                 else bind_sum (jget spec ''nodeSelector'') (\<lambda>sel. jget (or_dict sel) ''kubernetes.io/os''))
         (\<lambda>n. Inr (if truthy n then json_str env n else ''linux'')))))"

definition iter_objects :: "json \<Rightarrow> json list" where
  "iter_objects doc =
     (let dicts = filter (\<lambda>v. case v of JObj kvs \<Rightarrow> True | _ \<Rightarrow> False)
      in case doc of
           JList vs \<Rightarrow> dicts vs
         | JObj kvs \<Rightarrow> (case map_of kvs ''items'' of Some (JList vs) \<Rightarrow> dicts vs | _ \<Rightarrow> [doc])
         | _ \<Rightarrow> [])"

definition loaded_json :: "source_file \<Rightarrow> json" where
  "loaded_json f = (case sf_json f of Some v \<Rightarrow> v | None \<Rightarrow> JNull)"

definition has_key :: "string \<Rightarrow> json \<Rightarrow> bool" where
  "has_key k v = (case v of JObj kvs \<Rightarrow> map_of kvs k \<noteq> None | _ \<Rightarrow> False)"

definition kubernetes_detect :: "source_file \<Rightarrow> source_error + rat" where
  "kubernetes_detect f =
     (let doc = loaded_json f; objects = iter_objects doc;
          score = (if list_ex (\<lambda>v. has_key ''apiVersion'' v \<or> has_key ''kind'' v) objects then 95 / 100 else 7 / 10)
      in if \<not> is_json f \<or> objects = [] then Inr 0
         else bind_sum (map_sum_list kind_of objects) (\<lambda>kinds.
           if list_ex (is_kind WORKLOAD_KINDS) kinds then Inr score
           else case doc of
                  JObj kvs \<Rightarrow> bind_sum (kind_of doc) (\<lambda>k.
                    Inr (if is_kind [''List'', ''DeploymentList'', ''StatefulSetList'', ''PodList''] k then score else 0))
                | _ \<Rightarrow> Inr 0))"

definition raw_of_json :: "k8s_env \<Rightarrow> json \<Rightarrow> raw_value" where
  "raw_of_json env v = (case v of JNull \<Rightarrow> RNone | _ \<Rightarrow> RText (json_str env v))"

text \<open>Whole cores; whole MiB of the disks.\<close>

definition whole_cores :: "amount \<Rightarrow> source_error + raw_record" where
  "whole_cores a =
     (case a of Amount x \<Rightarrow> Inr (if 0 < x then [(''cpus'', RNum (Fin (of_int (max 1 \<lceil>x\<rceil>))))] else [])
      | PosInf \<Rightarrow> Inl BadDocument | _ \<Rightarrow> Inr [])"

definition memory_of :: "amount \<Rightarrow> raw_record" where
  "memory_of a =
     (case a of Amount x \<Rightarrow> if 0 < x then [(''memory_mib'', RNum (Fin (x / BYTES_PER_MIB)))] else []
      | PosInf \<Rightarrow> [(''memory_mib'', RNum Infinite)] | _ \<Rightarrow> [])"

definition whole_mib :: "amount \<Rightarrow> source_error + raw_value" where
  "whole_mib a = (case a of Amount x \<Rightarrow> Inr (RNum (Fin (of_int (round_even (x * 1024))))) | _ \<Rightarrow> Inl BadDocument)"

definition workload_record :: "k8s_env \<Rightarrow> json \<Rightarrow> json \<Rightarrow> json \<Rightarrow> json \<Rightarrow> source_error + raw_record" where
  "workload_record env k v name namespace =
     bind_sum (containers_of k v) (\<lambda>cs.
     bind_sum (map_sum_list (\<lambda>c. resource_of c ''cpu'') cs) (\<lambda>cpus.
     bind_sum (map_sum_list (\<lambda>c. resource_of c ''memory'') cs) (\<lambda>mems.
     bind_sum (os_of env k v) (\<lambda>os.
     bind_sum (whole_cores (foldl amount_add (Amount 0) (map (cpu_to_cores env) cpus))) (\<lambda>cores.
     bind_sum (claim_gib env v) (\<lambda>disks.
     bind_sum (map_sum_list whole_mib disks) (\<lambda>mibs.
       Inr ([(''name'', RText (if truthy namespace then json_str env namespace @ ''/'' @ json_str env name else json_str env name)),
             (''os'', RText os), (''cluster'', raw_of_json env namespace)]
         @ cores @ memory_of (foldl amount_add (Amount 0) (map (mem_to_bytes env) mems))
         @ (if mibs = [] then [] else [(''disks_mib'', RItems mibs)])))))))))"

definition kubernetes_object :: "k8s_env \<Rightarrow> json \<Rightarrow> source_error + raw_record option" where
  "kubernetes_object env v =
     bind_sum (kind_of v) (\<lambda>k.
       if \<not> is_kind WORKLOAD_KINDS k then Inr None
       else bind_sum (jget v ''metadata'') (\<lambda>meta. bind_sum (jget (or_dict meta) ''name'') (\<lambda>name.
         if \<not> truthy name then Inr None
         else bind_sum (jget (or_dict meta) ''namespace'') (\<lambda>ns. map_sum id Some (workload_record env k v name ns)))))"

definition kubernetes_parse :: "k8s_env \<Rightarrow> source_file \<Rightarrow> source_error + raw_record list" where
  "kubernetes_parse env f =
     bind_sum (map_sum_list (kubernetes_object env) (iter_objects (loaded_json f))) (\<lambda>rs. Inr (List.map_filter id rs))"

subsection \<open>Dispatch\<close>

definition source_score :: "source_file \<Rightarrow> rat \<Rightarrow> string \<Rightarrow> rat" where
  "source_score f k8s n =
     (if n = ''vmware'' then vmware_detect f else if n = ''hyperv'' then hyperv_detect f else if n = ''kubernetes'' then k8s
      else if n = ''cloud'' then cloud_detect f else generic_detect f)"

definition source_for :: "source_file \<Rightarrow> string option \<Rightarrow> source_error + string" where
  "source_for f name =
     (if name \<in> {None, Some [], Some ''auto''}
      then bind_sum (kubernetes_detect f) (\<lambda>k. Inr (detect_source (source_score f k)))
      else case resolve_source (\<lambda>_. 0) name of Some n \<Rightarrow> Inr n | None \<Rightarrow> Inl UnknownSource)"

definition parse_with :: "py_env \<Rightarrow> k8s_env \<Rightarrow> nat \<Rightarrow> (string, string) dict option \<Rightarrow> source_file \<Rightarrow> string \<Rightarrow> source_error + raw_record list" where
  "parse_with env kenv max_vms cm f n =
     (if n = ''vmware'' then vmware_parse env max_vms f else if n = ''hyperv'' then hyperv_parse env max_vms f
      else if n = ''kubernetes'' then kubernetes_parse kenv f else if n = ''cloud'' then cloud_parse env max_vms f
      else generic_parse env max_vms cm f)"

definition parse_inventory ::
  "py_env \<Rightarrow> k8s_env \<Rightarrow> nat \<Rightarrow> source_file \<Rightarrow> string option \<Rightarrow> (string, string) dict option \<Rightarrow> source_error + raw_record list" where
  "parse_inventory env kenv max_vms f name cm = bind_sum (source_for f name) (parse_with env kenv max_vms cm f)"

subsection \<open>Rows and records\<close>

lemma field_name [simp]: "field ((''name'', v) # r) ''name'' = v"
  by (simp add: field_def)

lemma rows_with_names:
  assumes "\<And>row n. field (build row n) ''name'' = RText n"
  shows "map (\<lambda>r. field r ''name'') (rows_with env col build rows) = map RText (List.map_filter (\<lambda>row. row_name env row col) rows)"
proof (induction rows)
  case (Cons row rows)
  then show ?case by (cases "row_name env row col") (simp_all add: rows_with_def List.map_filter_def assms)
qed (simp add: rows_with_def List.map_filter_def)

lemma check_rows_D: "check_rows fr n = Inr fr' \<Longrightarrow> fr' = fr \<and> length (fr_rows fr) < n"
  by (auto simp: check_rows_def split: if_splits)

lemma nrows_all: "length (fr_rows (nrows n fr)) < n \<Longrightarrow> nrows n fr = fr"
  by (simp add: nrows_def)

lemma bounded_read: "check_rows (nrows n fr) n = Inr fr' \<Longrightarrow> fr' = fr \<and> length (fr_rows fr) < n"
  by (metis check_rows_D nrows_all)

text \<open>The frames of a file; what a reader takes is one of them, whole.\<close>

definition file_frames :: "source_file \<Rightarrow> frame set" where
  "file_frames f = (case sf_csv f of Some fr \<Rightarrow> {fr} | None \<Rightarrow> {}) \<union> (case sf_sheets f of Some sheets \<Rightarrow> snd ` set sheets | None \<Rightarrow> {})"

lemma read_csv_D: "read_csv_bounded m f = Inr fr \<Longrightarrow> fr \<in> file_frames f \<and> length (fr_rows fr) \<le> m"
  by (auto simp: read_csv_bounded_def file_frames_def VM_ROW_LIMIT_def split: option.splits dest!: bounded_read)

lemma read_excel_D: "read_excel_bounded m f = Inr fr \<Longrightarrow> fr \<in> file_frames f \<and> length (fr_rows fr) \<le> m"
  by (auto simp: read_excel_bounded_def read_sheet_bounded_def file_frames_def VM_ROW_LIMIT_def split: option.splits list.splits dest!: bounded_read)

lemma read_table_D: "read_table m f = Inr fr \<Longrightarrow> fr \<in> file_frames f \<and> length (fr_rows fr) \<le> m"
  by (auto simp: read_table_def split: if_splits dest: read_csv_D read_excel_D)

text \<open>Every row with a name is one record, in order, and nothing else is; the column of the name is the reader's.\<close>

definition name_column :: "(string, string) dict option \<Rightarrow> source_file \<Rightarrow> string \<Rightarrow> frame \<Rightarrow> string option" where
  "name_column cm f n fr =
     (if n = ''vmware'' then find_column fr (if is_xlsx f then [''VM'', ''VM Name'', ''Name''] else [''VM'', ''VM Name'', ''Name'', ''vm_name''])
      else if n = ''hyperv'' then find_column fr [''VMName'', ''Name'']
      else if n = ''cloud'' then find_column fr [''Name'', ''Instance Name'', ''InstanceId'', ''VM Name'', ''Hostname'']
      else generic_column cm fr ''name'')"

definition row_names :: "py_env \<Rightarrow> string option \<Rightarrow> frame \<Rightarrow> string list" where
  "row_names env col fr = List.map_filter (\<lambda>row. row_name env row col) (fr_rows fr)"

definition names_of :: "raw_record list \<Rightarrow> raw_value list" where
  "names_of recs = map (\<lambda>r. field r ''name'') recs"

lemma names_of_rows:
  assumes "\<And>row n. field (build row n) ''name'' = RText n"
  shows "names_of (rows_with env col build (fr_rows fr)) = map RText (row_names env col fr)"
  unfolding names_of_def row_names_def by (rule rows_with_names [where build = build, OF assms])

lemma no_columns: "fr_columns fr = [] \<Longrightarrow> name_column cm f n fr = None"
  by (auto simp: name_column_def generic_column_def find_column_def canon_map_def lower_to_real_def exact_column_def prefix_column_def
      List.map_filter_def concat_eq_Nil_conv split: option.split)

lemma row_names_empty:
  assumes "fr_empty fr"
  shows "row_names env (name_column cm f n fr) fr = []"
proof (cases "fr_rows fr = []")
  case True
  then show ?thesis by (simp add: row_names_def List.map_filter_def)
next
  case False
  then have "fr_columns fr = []" using assms by (simp add: fr_empty_def)
  then show ?thesis unfolding row_names_def no_columns [OF \<open>fr_columns fr = []\<close>]
    by (simp add: row_name_def row_cell_def List.map_filter_def)
qed

definition whole_table :: "py_env \<Rightarrow> (string, string) dict option \<Rightarrow> source_file \<Rightarrow> string \<Rightarrow> frame \<Rightarrow> raw_record list \<Rightarrow> bool" where
  "whole_table env cm f n fr recs \<longleftrightarrow> fr \<in> file_frames f \<and> names_of recs = map RText (row_names env (name_column cm f n fr) fr)"

lemma whole_tableI:
  assumes "fr \<in> file_frames f" and "recs = (if fr_empty fr then [] else rows_with env (name_column cm f n fr) build (fr_rows fr))"
    and "\<And>row n. field (build row n) ''name'' = RText n"
  shows "whole_table env cm f n fr recs"
  using assms(1,2) row_names_empty [of fr env cm f n] names_of_rows [where build = build, OF assms(3)]
  by (cases "fr_empty fr") (simp_all add: whole_table_def names_of_def)

lemma generic_records:
  assumes "generic_parse env m cm f = Inr recs"
  obtains fr where "length (fr_rows fr) \<le> m" and "whole_table env cm f ''generic'' fr recs"
proof -
  obtain fr where fr: "read_table m f = Inr fr" using assms by (auto simp: generic_parse_def split: sum.splits)
  from read_table_D [OF fr] have "whole_table env cm f ''generic'' fr recs"
    using assms by (intro whole_tableI [where build = "\<lambda>row. generic_record env (\<lambda>cn. row_cell row (generic_column cm fr cn))"])
      (auto simp: generic_parse_def fr name_column_def generic_record_def Let_def)
  then show thesis using that read_table_D [OF fr] by blast
qed

lemma hyperv_records:
  assumes "hyperv_parse env m f = Inr recs"
  obtains fr where "length (fr_rows fr) \<le> m" and "whole_table env cm f ''hyperv'' fr recs"
proof -
  obtain fr where fr: "read_csv_bounded m f = Inr fr" using assms by (auto simp: hyperv_parse_def split: sum.splits)
  have "whole_table env cm f ''hyperv'' fr recs"
    by (rule whole_tableI) (use assms read_csv_D [OF fr] in \<open>auto simp: hyperv_parse_def fr name_column_def Let_def\<close>)
  then show thesis using that read_csv_D [OF fr] by blast
qed

lemma cloud_records:
  assumes "cloud_parse env m f = Inr recs"
  obtains fr where "length (fr_rows fr) \<le> m" and "whole_table env cm f ''cloud'' fr recs"
proof -
  obtain fr where fr: "read_table m f = Inr fr" using assms by (auto simp: cloud_parse_def split: sum.splits)
  have "whole_table env cm f ''cloud'' fr recs"
    by (rule whole_tableI) (use assms read_table_D [OF fr] in \<open>auto simp: cloud_parse_def fr name_column_def Let_def\<close>)
  then show thesis using that read_table_D [OF fr] by blast
qed

lemma vmware_csv_records:
  assumes "vmware_csv_parse env f = Inr recs" and "\<not> is_xlsx f"
  obtains fr where "whole_table env cm f ''vmware'' fr recs"
proof -
  obtain fr where fr: "sf_csv f = Some fr" using assms(1) by (auto simp: vmware_csv_parse_def split: option.splits)
  have "whole_table env cm f ''vmware'' fr recs"
    by (rule whole_tableI) (use assms in \<open>auto simp: vmware_csv_parse_def fr name_column_def Let_def file_frames_def\<close>)
  then show thesis using that by blast
qed

text \<open>The sheet of the machines: bounded, and a sheet of the workbook.\<close>

lemma read_wanted_mem:
  "read_wanted m b ws = Inr sh \<Longrightarrow> (k, fr) \<in> set sh \<Longrightarrow>
     \<exists>n. (n, fr) \<in> set ws \<and> k = low_name n \<and> (\<not> (b \<and> k \<noteq> ''vinfo'') \<longrightarrow> length (fr_rows fr) \<le> m)"
proof (induction ws arbitrary: sh)
  case (Cons w ws)
  obtain n fr0 where w: "w = (n, fr0)" by (cases w)
  obtain fr' d where r: "read_sheet_bounded m (b \<and> low_name n \<noteq> ''vinfo'') fr0 = Inr fr'" "read_wanted m b ws = Inr d" "sh = (low_name n, fr') # d"
    using Cons.prems(1) by (auto simp: w split: sum.splits)
  have fr': "fr' = fr0 \<and> (\<not> (b \<and> low_name n \<noteq> ''vinfo'') \<longrightarrow> length (fr_rows fr0) \<le> m)"
    using r(1) by (auto simp: read_sheet_bounded_def Let_def VM_ROW_LIMIT_def split: if_splits dest!: bounded_read)
  consider "(k, fr) \<in> set d" | "k = low_name n" "fr = fr'" using Cons.prems(2) r(3) by auto
  then show ?case
  proof cases
    case 1
    then show ?thesis using Cons.IH [OF r(2) 1] by (auto simp: w)
  next
    case 2
    then show ?thesis using fr' by (intro exI [of _ n]) (simp add: w)
  qed
qed simp

lemma fold_sheets_mem:
  "map_of (foldl (\<lambda>d (n, fr). AList.update (low_name n) (n, fr) d) d all) k = Some e \<Longrightarrow> e \<in> set all \<and> low_name (fst e) = k \<or> map_of d k = Some e"
proof (induction all arbitrary: d)
  case (Cons x all)
  obtain n fr where x: "x = (n, fr)" by (cases x)
  show ?case using Cons.IH [of "AList.update (low_name n) (n, fr) d"] Cons.prems by (auto simp: x split: if_splits)
qed simp

lemma fold_sheets_dom:
  "map_of (foldl (\<lambda>d (n, fr). AList.update (low_name n) (n, fr) d) d all) k \<noteq> None \<longleftrightarrow> k \<in> low_name ` fst ` set all \<or> map_of d k \<noteq> None"
proof (induction all arbitrary: d)
  case (Cons x all)
  obtain n fr where x: "x = (n, fr)" by (cases x)
  show ?case using Cons.IH [of "AList.update (low_name n) (n, fr) d"] by (auto simp: x simp del: map_of_eq_None_iff)
qed simp

definition by_lower :: "(string \<times> frame) list \<Rightarrow> (string, string \<times> frame) dict" where
  "by_lower all = foldl (\<lambda>d (n, fr). AList.update (low_name n) (n, fr) d) [] all"

lemma by_lower_mem: "map_of (by_lower all) k = Some e \<Longrightarrow> e \<in> set all \<and> low_name (fst e) = k"
  unfolding by_lower_def using fold_sheets_mem [of "[]" all k e] by simp

lemma by_lower_dom: "map_of (by_lower all) k \<noteq> None \<longleftrightarrow> k \<in> low_name ` fst ` set all"
  unfolding by_lower_def using fold_sheets_dom [of "[]" all k] by simp

lemma wanted_sheets_by_lower:
  "wanted_sheets all = (if map_of (by_lower all) ''vinfo'' = None then take 1 all else List.map_filter (map_of (by_lower all)) SHEETS_WE_READ)"
  by (simp only: wanted_sheets_def by_lower_def Let_def)

lemma wanted_mem: "e \<in> set (wanted_sheets all) \<Longrightarrow> e \<in> set all"
proof (cases "map_of (by_lower all) ''vinfo''")
  case None
  assume "e \<in> set (wanted_sheets all)"
  then show ?thesis unfolding wanted_sheets_by_lower if_P [OF None] by (rule in_set_takeD)
next
  case (Some v)
  assume "e \<in> set (wanted_sheets all)"
  then have "e \<in> set (List.map_filter (map_of (by_lower all)) SHEETS_WE_READ)"
    unfolding wanted_sheets_by_lower Some by (simp only: option.distinct if_False)
  then obtain k where "map_of (by_lower all) k = Some e" unfolding map_filter_mem by blast
  then show ?thesis using by_lower_mem by blast
qed

lemma read_wanted_keys: "read_wanted m b ws = Inr sh \<Longrightarrow> map fst sh = map (low_name \<circ> fst) ws"
  by (induction ws arbitrary: sh) (auto split: sum.splits)

lemma vinfo_read:
  assumes "read_wanted m (''vinfo'' \<in> low_name ` fst ` set all) (wanted_sheets all) = Inr sh" and "''vinfo'' \<in> low_name ` fst ` set all"
  shows "''vinfo'' \<in> fst ` set sh"
proof -
  obtain e where e: "map_of (by_lower all) ''vinfo'' = Some e" using assms(2) unfolding by_lower_dom [symmetric] by blast
  have "''vinfo'' \<in> set SHEETS_WE_READ" by (simp add: SHEETS_WE_READ_def)
  then have "e \<in> set (List.map_filter (map_of (by_lower all)) SHEETS_WE_READ)" unfolding map_filter_mem using e by blast
  then have "e \<in> set (wanted_sheets all)" unfolding wanted_sheets_by_lower e by (simp only: option.distinct if_False)
  then have "''vinfo'' \<in> set (map (low_name \<circ> fst) (wanted_sheets all))" using by_lower_mem [OF e] by force
  then show ?thesis unfolding read_wanted_keys [OF assms(1), symmetric] by simp
qed

lemma rvtools_records:
  assumes "rvtools_parse env m f = Inr recs" and "is_xlsx f"
  shows "recs = [] \<and> sf_sheets f = Some [] \<or> (\<exists>fr. length (fr_rows fr) \<le> m \<and> whole_table env cm f ''vmware'' fr recs)"
proof -
  obtain sh where sh: "read_sheets m f = Inr sh" using assms(1) by (auto simp: rvtools_parse_def split: sum.splits)
  then obtain all where all: "sf_sheets f = Some all" by (auto simp: read_sheets_def split: option.splits)
  let ?b = "''vinfo'' \<in> low_name ` fst ` set all"
  have b: "(''vinfo'' \<in> set (map (\<lambda>(n, fr). low_name n) all)) = ?b" by (force simp: case_prod_beta)
  have rw: "read_wanted m ?b (wanted_sheets all) = Inr sh" using sh unfolding read_sheets_def all option.case b .
  show ?thesis
  proof (cases "sh = []")
    case True
    then have "wanted_sheets all = []" using read_wanted_keys [OF rw] by simp
    moreover have "''vinfo'' \<notin> low_name ` fst ` set all" using vinfo_read [OF rw] True by auto
    then have "map_of (by_lower all) ''vinfo'' = None" using by_lower_dom by blast
    ultimately have "all = []" by (auto simp: wanted_sheets_by_lower)
    then show ?thesis using assms(1) True by (auto simp: rvtools_parse_def sh all)
  next
    case False
    define pick where "pick = (case map_of sh ''vinfo'' of Some fr \<Rightarrow> Some fr | None \<Rightarrow> (case sh of [] \<Rightarrow> None | (n, fr) # rest \<Rightarrow> Some fr))"
    obtain k fr where k: "(k, fr) \<in> set sh" "\<not> (?b \<and> k \<noteq> ''vinfo'')" "pick = Some fr"
    proof (cases "map_of sh ''vinfo''")
      case None
      then have "\<not> ?b" using vinfo_read [OF rw] by (auto simp: map_of_eq_None_iff)
      then show thesis using that False None by (cases sh) (auto simp: pick_def)
    next
      case (Some fr)
      then show thesis using that [of "''vinfo''" fr] by (auto simp: pick_def dest: map_of_SomeD)
    qed
    obtain n where n: "(n, fr) \<in> set (wanted_sheets all)" "length (fr_rows fr) \<le> m" using read_wanted_mem [OF rw k(1)] k(2) by blast
    have ff: "fr \<in> file_frames f" using wanted_mem [OF n(1)] by (force simp: file_frames_def all)
    have recs: "recs = rows_with env (find_column fr [''VM'', ''VM Name'', ''Name'']) (rvtools_record env fr (disks_by_vm env sh) (network_by_vm env sh)) (fr_rows fr)"
      using assms(1) unfolding rvtools_parse_def sh sum.case pick_def [symmetric] k(3) option.case by simp
    have col: "name_column cm f ''vmware'' fr = find_column fr [''VM'', ''VM Name'', ''Name'']" by (simp add: name_column_def assms(2))
    have "names_of recs = map RText (row_names env (name_column cm f ''vmware'' fr) fr)"
      unfolding recs col by (rule names_of_rows) (simp add: rvtools_record_def Let_def)
    then show ?thesis using ff n(2) unfolding whole_table_def by blast
  qed
qed

text \<open>All readers of tables at once.\<close>

lemma parse_with_simps:
  "parse_with env kenv m cm f ''vmware'' = vmware_parse env m f"
  "parse_with env kenv m cm f ''hyperv'' = hyperv_parse env m f"
  "parse_with env kenv m cm f ''kubernetes'' = kubernetes_parse kenv f"
  "parse_with env kenv m cm f ''cloud'' = cloud_parse env m f"
  "parse_with env kenv m cm f ''generic'' = generic_parse env m cm f"
  by (simp_all add: parse_with_def)

definition table_read :: "py_env \<Rightarrow> nat \<Rightarrow> (string, string) dict option \<Rightarrow> source_file \<Rightarrow> string \<Rightarrow> raw_record list \<Rightarrow> bool" where
  "table_read env m cm f n recs \<longleftrightarrow> recs = [] \<and> sf_sheets f = Some []
     \<or> (\<exists>fr. whole_table env cm f n fr recs \<and> (n = ''vmware'' \<and> \<not> is_xlsx f \<or> length (fr_rows fr) \<le> m))"

lemma table_readI: "whole_table env cm f n fr recs \<Longrightarrow> length (fr_rows fr) \<le> m \<Longrightarrow> table_read env m cm f n recs"
  unfolding table_read_def by iprover

lemma vmware_table:
  assumes "vmware_parse env m f = Inr recs"
  shows "table_read env m cm f ''vmware'' recs"
proof (cases "is_xlsx f")
  case True
  have "rvtools_parse env m f = Inr recs" using assms unfolding vmware_parse_def if_P [OF True] .
  from rvtools_records [OF this True, of cm] show ?thesis unfolding table_read_def by (elim disjE exE conjE) iprover+
next
  case False
  have "vmware_csv_parse env f = Inr recs" using assms unfolding vmware_parse_def if_not_P [OF False] .
  then obtain fr where "whole_table env cm f ''vmware'' fr recs" by (rule vmware_csv_records [OF _ False])
  then show ?thesis unfolding table_read_def using False by (intro disjI2 exI [of _ fr]) simp
qed

lemma parsed_table:
  assumes "parse_with env kenv m cm f n = Inr recs" and "n \<in> set list_sources" and "n \<noteq> ''kubernetes''"
  shows "table_read env m cm f n recs"
proof -
  have "n = ''vmware'' \<or> n = ''hyperv'' \<or> n = ''cloud'' \<or> n = ''generic''"
    using assms(2,3) by (simp add: list_sources_def)
  then show ?thesis
  proof (elim disjE)
    assume n: "n = ''vmware''"
    show ?thesis using assms(1) unfolding n parse_with_simps by (rule vmware_table)
  next
    assume n: "n = ''hyperv''"
    have h: "hyperv_parse env m f = Inr recs" using assms(1) unfolding n parse_with_simps .
    show ?thesis unfolding n by (rule hyperv_records [OF h]) (rule table_readI)
  next
    assume n: "n = ''cloud''"
    have h: "cloud_parse env m f = Inr recs" using assms(1) unfolding n parse_with_simps .
    show ?thesis unfolding n by (rule cloud_records [OF h]) (rule table_readI)
  next
    assume n: "n = ''generic''"
    have h: "generic_parse env m cm f = Inr recs" using assms(1) unfolding n parse_with_simps .
    show ?thesis unfolding n by (rule generic_records [OF h]) (rule table_readI)
  qed
qed

subsection \<open>Disks by identifier\<close>

lemma keys_differ [simp]: "uuid_join u \<noteq> name_join n" "name_join n \<noteq> uuid_join u"
  by (simp_all add: uuid_join_def name_join_def)

lemma uuid_key_eq: "uuid_join u = uuid_join v \<longleftrightarrow> lower u = lower v"
  by (simp add: uuid_join_def)

lemma row_keys_uuid: "uuid_join u \<in> set (row_keys env row nc uc) \<longleftrightarrow> (\<exists>v. stripped_text env (row_cell row uc) = Some v \<and> lower v = lower u)"
  by (cases "stripped_text env (row_cell row uc)"; cases "stripped_text env (row_cell row nc)") (auto simp: row_keys_def uuid_key_eq)

lemma row_keys_distinct: "distinct (row_keys env row nc uc)"
  by (auto simp: row_keys_def split: option.splits)

lemma push_keys:
  "distinct ks \<Longrightarrow> map_of (foldl (push_capacity c) d ks) k
     = (if k \<in> set ks then Some ((case map_of d k of Some cs \<Rightarrow> cs | None \<Rightarrow> []) @ [c]) else map_of d k)"
  by (induction ks arbitrary: d) (auto simp: push_capacity_def)

text \<open>The capacities of the rows a key is for.\<close>

definition capacities :: "py_env \<Rightarrow> string option \<Rightarrow> string option \<Rightarrow> string option \<Rightarrow> string \<Rightarrow> raw_record list \<Rightarrow> pyfloat list" where
  "capacities env nc uc cc k rows =
     List.map_filter (\<lambda>row. if k \<in> set (row_keys env row nc uc) then float_of env (row_cell row cc) else None) rows"

lemma capacities_simps [simp]:
  "capacities env nc uc cc k [] = []"
  "capacities env nc uc cc k (row # rows) =
     (case float_of env (row_cell row cc) of Some c \<Rightarrow> if k \<in> set (row_keys env row nc uc) then [c] else [] | None \<Rightarrow> []) @ capacities env nc uc cc k rows"
  by (simp_all add: capacities_def List.map_filter_def split: option.split)

definition found_list :: "'v list option \<Rightarrow> 'v list" where
  "found_list r = (case r of Some vs \<Rightarrow> vs | None \<Rightarrow> [])"

lemma disk_row_list:
  "found_list (map_of (disk_row env nc uc cc d row) k)
    = found_list (map_of d k) @ (case float_of env (row_cell row cc) of Some c \<Rightarrow> if k \<in> set (row_keys env row nc uc) then [c] else [] | None \<Rightarrow> [])"
  by (auto simp: disk_row_def found_list_def push_keys [OF row_keys_distinct] split: option.split)

lemma disk_rows_list:
  "found_list (map_of (foldl (disk_row env nc uc cc) d rows) k) = found_list (map_of d k) @ capacities env nc uc cc k rows"
  by (induction rows arbitrary: d) (simp_all add: disk_row_list)

definition disk_caps :: "py_env \<Rightarrow> sheets \<Rightarrow> string \<Rightarrow> pyfloat list" where
  "disk_caps env sh k = found_list (map_of (disks_by_vm env sh) k)"

lemma disk_caps_rows:
  assumes "map_of sh ''vdisk'' = Some fr" and "find_column fr [''VM''] \<noteq> None"
    and "find_column fr [''Capacity MiB'', ''Capacity'', ''Capacity MB''] \<noteq> None"
  shows "disk_caps env sh k = capacities env (find_column fr [''VM'']) (find_column fr UUID_COLUMNS)
    (find_column fr [''Capacity MiB'', ''Capacity'', ''Capacity MB'']) k (fr_rows fr)"
proof (cases "fr_rows fr = []")
  case True
  then show ?thesis using assms by (simp add: disk_caps_def disks_by_vm_def fr_empty_def found_list_def)
next
  case False
  have "fr_columns fr \<noteq> []"
    using assms(2) by (auto simp: find_column_def canon_map_def exact_column_def prefix_column_def List.map_filter_def split: option.splits list.splits)
  then have "\<not> fr_empty fr" using False by (simp add: fr_empty_def)
  moreover obtain a b where "find_column fr [''VM''] = Some a" "find_column fr [''Capacity MiB'', ''Capacity'', ''Capacity MB''] = Some b"
    using assms(2,3) by blast
  ultimately show ?thesis using assms(1) disk_rows_list [of env _ _ _ "[]" "fr_rows fr" k]
    by (simp add: disk_caps_def disks_by_vm_def Let_def found_list_def)
qed

text \<open>The machine's own disks if its identifier has any, those of its name otherwise, the provisioned total at last.\<close>

lemma lookup_disks:
  "found_list (lookup_vm (\<lambda>cs. cs \<noteq> []) d name uuid)
    = (let own = (case uuid of Some u \<Rightarrow> if u = [] then [] else found_list (map_of d (uuid_join u)) | None \<Rightarrow> [])
       in if own \<noteq> [] then own else found_list (map_of d (name_join name)))"
  by (auto simp: lookup_vm_def found_list_def Let_def split: option.splits)

lemma rvtools_disks_eq:
  "rvtools_disks row pc d name uuid =
     (let cs = found_list (lookup_vm (\<lambda>cs. cs \<noteq> []) d name uuid)
      in if cs \<noteq> [] then [(''disks_mib'', RItems (map RNum cs))]
         else if row_cell row pc = RNone then [] else [(''disks_mib'', RItems [row_cell row pc])])"
  by (auto simp: rvtools_disks_def found_list_def Let_def split: option.splits list.splits)

lemma field_append: "field (xs @ ys) k = (if k \<in> fst ` set xs then field xs k else field ys k)"
  by (auto simp: field_def map_add_def map_of_eq_None_iff split: option.splits) (metis image_eqI fst_conv map_of_SomeD)+

lemma rvtools_record_disks:
  assumes "field (rvtools_record env fr (disks_by_vm env sh) nics row name) ''uuid'' = RText u" and "u \<noteq> []"
    and "disk_caps env sh (uuid_join u) \<noteq> []"
  shows "field (rvtools_record env fr (disks_by_vm env sh) nics row name) ''disks_mib'' = RItems (map RNum (disk_caps env sh (uuid_join u)))"
proof -
  let ?uuid = "stripped_text env (row_cell row (find_column fr UUID_COLUMNS))"
  have "?uuid = Some u" using assms(1) by (auto simp: rvtools_record_def Let_def field_def split: option.splits)
  then have "found_list (lookup_vm (\<lambda>cs. cs \<noteq> []) (disks_by_vm env sh) name ?uuid) = disk_caps env sh (uuid_join u)"
    using assms(2,3) by (simp add: lookup_disks disk_caps_def)
  then show ?thesis using assms(3)
    by (simp add: rvtools_record_def Let_def rvtools_disks_eq field_def)
qed

lemma rvtools_recs:
  assumes "rvtools_parse env m f = Inr recs" and "read_sheets m f = Inr sh" and "map_of sh ''vinfo'' = Some fr" and "rec \<in> set recs"
  shows "\<exists>row name. rec = rvtools_record env fr (disks_by_vm env sh) (network_by_vm env sh) row name"
  using assms by (auto simp: rvtools_parse_def rows_with_def map_filter_mem) blast

lemma rvtools_own_disks:
  assumes "rvtools_parse env m f = Inr recs" and "read_sheets m f = Inr sh" and "map_of sh ''vinfo'' = Some fr" and "map_of sh ''vdisk'' = Some dk"
    and "find_column dk [''VM''] \<noteq> None" and "find_column dk [''Capacity MiB'', ''Capacity'', ''Capacity MB''] = Some cc"
    and "rec \<in> set recs" and "field rec ''uuid'' = RText u"
    and "own = List.map_filter (\<lambda>row. case stripped_text env (row_cell row (find_column dk UUID_COLUMNS)) of
        Some v \<Rightarrow> if lower v = lower u then float_of env (row_cell row (Some cc)) else None | None \<Rightarrow> None) (fr_rows dk)"
    and "own \<noteq> []"
  shows "field rec ''disks_mib'' = RItems (map RNum own)"
proof -
  obtain row name where r: "rec = rvtools_record env fr (disks_by_vm env sh) (network_by_vm env sh) row name"
    using rvtools_recs [OF assms(1-3,7)] by blast
  have u: "stripped_text env (row_cell row (find_column fr UUID_COLUMNS)) = Some u"
    using assms(8) by (auto simp: r rvtools_record_def Let_def field_def split: option.splits)
  then have "u \<noteq> []" by (auto simp: stripped_text_def split: if_splits)
  have "(if uuid_join u \<in> set (row_keys env row (find_column dk [''VM'']) (find_column dk UUID_COLUMNS)) then float_of env (row_cell row (Some cc)) else None)
      = (case stripped_text env (row_cell row (find_column dk UUID_COLUMNS)) of
           Some v \<Rightarrow> if lower v = lower u then float_of env (row_cell row (Some cc)) else None | None \<Rightarrow> None)" for row
    unfolding row_keys_uuid by (cases "stripped_text env (row_cell row (find_column dk UUID_COLUMNS))") simp_all
  then have "capacities env (find_column dk [''VM'']) (find_column dk UUID_COLUMNS) (Some cc) (uuid_join u) (fr_rows dk) = own"
    unfolding capacities_def assms(9) by simp
  then have own: "disk_caps env sh (uuid_join u) = own"
    using disk_caps_rows [OF assms(4,5), of env "uuid_join u"] assms(6) by simp
  show ?thesis using rvtools_record_disks [of env fr sh "network_by_vm env sh" row name u] assms(8,10) \<open>u \<noteq> []\<close> unfolding r own by blast
qed

text \<open>A machine without disks of its own gets those of every machine of its name.\<close>

lemma disks_of_namesakes:
  assumes "disk_caps env sh (uuid_join u) = []"
  shows "found_list (lookup_vm (\<lambda>cs. cs \<noteq> []) (disks_by_vm env sh) name (Some u)) = disk_caps env sh (name_join name)"
  using assms by (simp add: lookup_disks disk_caps_def)

subsection \<open>Into the pipeline\<close>

lemma length_map_filter_le: "length (List.map_filter f xs) \<le> length xs"
  by (simp add: List.map_filter_def)

lemma normalize_length:
  assumes "normalize env recs = Inr vms"
  shows "length vms \<le> length recs"
proof -
  have d: "distinct (map identity vms)" "set (map identity vms) = identity ` set (named_rows env recs)" using normalize_facts [OF assms] by simp_all
  have "length vms = card (set (map identity vms))" using distinct_card [OF d(1)] by simp
  also have "\<dots> \<le> card (set (named_rows env recs))" unfolding d(2) by (rule card_image_le) simp
  also have "\<dots> \<le> length (named_rows env recs)" by (rule card_length)
  also have "\<dots> \<le> length recs" unfolding named_rows_def by (rule length_map_filter_le)
  finally show ?thesis .
qed

lemma row_names_length: "length (row_names env col fr) \<le> length (fr_rows fr)"
  unfolding row_names_def by (rule length_map_filter_le)

lemma table_read_length:
  assumes "table_read env m cm f n recs" and "n = ''vmware'' \<Longrightarrow> is_xlsx f"
  shows "length recs \<le> m"
proof -
  have "length recs = length (names_of recs)" by (simp add: names_of_def)
  then show ?thesis using assms row_names_length unfolding table_read_def whole_table_def
    by (metis length_map le_trans list.size(3) zero_le)
qed

lemma source_for_registered: "source_for f name = Inr n \<Longrightarrow> n \<in> set list_sources"
proof -
  have "detect_source d \<in> set list_sources" for d
    using max_by_mem [of d "hd list_sources" "tl list_sources"] by (auto simp: detect_source_def Let_def list_sources_def)
  then show "source_for f name = Inr n \<Longrightarrow> n \<in> set list_sources"
    by (auto simp: source_for_def bind_sum_def resolve_source_def split: sum.splits option.splits if_splits)
qed

text \<open>No file whose name the upload accepts is recognised as \<open>kubectl\<close> output.\<close>

lemma uploads_never_kubernetes:
  assumes "file_suffix (sf_path f) \<in> set ALLOWED_SUFFIXES"
  shows "kubernetes_detect f = Inr 0"
  using assms by (auto simp: kubernetes_detect_def Let_def is_json_def ALLOWED_SUFFIXES_def)

text \<open>The synonym \<open>os\<close> is found inside other words.\<close>

lemma cost_is_an_operating_system: "map_of (auto_map [''name'', ''cost center'']) ''os'' = Some ''cost center''"
  by code_simp

end
