(* ===== verification/Telemetry.thy ===== *)
theory Telemetry
  imports Jobs
begin

text \<open>
  \<open>api/metrics.py\<close>, the counters over the event bus and the text a scrape gets, and \<open>api/delivery.py\<close>, where a
  password-reset link goes. What a backend does with a link is an argument: it may fail.
\<close>

subsection \<open>Counters\<close>

definition COUNTERS :: "(event_type \<times> string \<times> string) list" where
  "COUNTERS =
     [(PROJECT_CREATED, ''iactranslate_projects_created_total'', ''Projects created.''),
      (PROJECT_UPLOADED, ''iactranslate_uploads_total'', ''Inventory files uploaded.''),
      (PROJECT_DELETED, ''iactranslate_projects_deleted_total'', ''Projects deleted.''),
      (JOB_QUEUED, ''iactranslate_jobs_queued_total'', ''Pipeline jobs enqueued.''),
      (JOB_STARTED, ''iactranslate_jobs_started_total'', ''Pipeline jobs started.''),
      (JOB_COMPLETED, ''iactranslate_jobs_completed_total'', ''Pipeline jobs completed.''),
      (JOB_FAILED, ''iactranslate_jobs_failed_total'', ''Pipeline jobs failed.'')]"

type_synonym metrics = "(string, nat) dict"

definition new_metrics :: metrics where
  "new_metrics = map (\<lambda>(t, n, h). (n, 0)) COUNTERS"

definition count_event :: "metrics \<Rightarrow> event \<Rightarrow> metrics" where
  "count_event m e =
     (case map_of COUNTERS (ev_type e) of
        None \<Rightarrow> m
      | Some (n, h) \<Rightarrow> AList.update n (case map_of m n of Some c \<Rightarrow> c + 1 | None \<Rightarrow> 1) m)"

definition count_of :: "metrics \<Rightarrow> string \<Rightarrow> nat" where
  "count_of m n = (case map_of m n of Some c \<Rightarrow> c | None \<Rightarrow> 0)"

definition metric_block :: "string \<Rightarrow> string \<Rightarrow> string \<Rightarrow> nat \<Rightarrow> string list" where
  "metric_block ty n h v = [''# HELP '' @ n @ '' '' @ h, ''# TYPE '' @ n @ '' '' @ ty, n @ '' '' @ str_of_nat v]"

definition render_metrics :: "metrics \<Rightarrow> nat \<Rightarrow> string list" where
  "render_metrics m in_flight =
     concat (map (\<lambda>(t, n, h). metric_block ''counter'' n h (count_of m n)) COUNTERS)
     @ metric_block ''gauge'' ''iactranslate_jobs_in_flight'' ''Jobs queued or running right now.'' in_flight"

lemma counters_distinct: "distinct (map fst COUNTERS)" "distinct (map (fst \<circ> snd) COUNTERS)"
  by (simp_all add: COUNTERS_def)

text \<open>A counter is the number of events of its kind since the start; kinds without one are not counted.\<close>

lemma count_event_step:
  assumes "(t, n, h) \<in> set COUNTERS"
  shows "count_of (count_event m e) n = count_of m n + (if ev_type e = t then 1 else 0)"
proof -
  have t: "map_of COUNTERS t = Some (n, h)" using assms counters_distinct(1) by simp
  show ?thesis
  proof (cases "map_of COUNTERS (ev_type e)")
    case None
    then show ?thesis using t by (auto simp: count_event_def)
  next
    case (Some nh)
    obtain n' h' where nh: "nh = (n', h')" by (cases nh)
    have "(ev_type e, n', h') \<in> set COUNTERS" using Some unfolding nh by (rule map_of_SomeD)
    moreover have "n' = n \<longleftrightarrow> ev_type e = t"
    proof
      assume "n' = n"
      then have "(fst \<circ> snd) (ev_type e, n', h') = (fst \<circ> snd) (t, n, h)" by simp
      then show "ev_type e = t"
        using counters_distinct(2) calculation assms by (metis distinct_map inj_onD fst_conv)
    qed (use Some t in \<open>simp add: nh\<close>)
    ultimately show ?thesis using Some by (auto simp: count_event_def nh count_of_def split: option.split)
  qed
qed

lemma counts_are_events:
  assumes "(t, n, h) \<in> set COUNTERS"
  shows "count_of (foldl count_event new_metrics es) n = length (filter (\<lambda>e. ev_type e = t) es)"
proof (induction es rule: rev_induct)
  case Nil
  have "map_of new_metrics n = Some c \<Longrightarrow> c = 0" for c by (auto simp: new_metrics_def dest!: map_of_SomeD)
  then show ?case by (auto simp: count_of_def split: option.split)
next
  case (snoc e es)
  then show ?case by (simp add: count_event_step [OF assms])
qed

subsection \<open>Reset links\<close>

datatype delivery_log = LinkLogged string string | NotDelivered string | DeliveryFailed string

definition link_to_log_allowed :: "string option \<Rightarrow> bool" where
  "link_to_log_allowed v \<longleftrightarrow> lower (strip (case v of Some s \<Rightarrow> s | None \<Rightarrow> [])) \<in> {''1'', ''true'', ''yes''}"

text \<open>A backend: what it writes to the log, \<open>None\<close> when it raises.\<close>

type_synonym link_delivery = "string \<Rightarrow> string \<Rightarrow> delivery_log list option"

definition log_delivery :: "string option \<Rightarrow> link_delivery" where
  "log_delivery setting email url = Some (if link_to_log_allowed setting then [LinkLogged email url] else [NotDelivered email])"

definition set_link_delivery :: "string option \<Rightarrow> link_delivery option \<Rightarrow> link_delivery" where
  "set_link_delivery setting fn = (case fn of Some d \<Rightarrow> d | None \<Rightarrow> log_delivery setting)"

definition rstrip_slashes :: "string \<Rightarrow> string" where
  "rstrip_slashes s = rev (dropWhile (\<lambda>c. c = CHR ''/'') (rev s))"

definition reset_url :: "string option \<Rightarrow> string \<Rightarrow> string" where
  "reset_url base token =
     rstrip_slashes (case base of Some b \<Rightarrow> b | None \<Rightarrow> ''http://localhost:3000'') @ ''/reset-password?token='' @ token"

text \<open>The request never sees a failure.\<close>

definition deliver_reset_link :: "link_delivery \<Rightarrow> string option \<Rightarrow> string \<Rightarrow> string \<Rightarrow> delivery_log list" where
  "deliver_reset_link d base email token =
     (case d email (reset_url base token) of Some l \<Rightarrow> l | None \<Rightarrow> [DeliveryFailed email])"

text \<open>Without the opt-in no log entry has a link.\<close>

lemma no_link_in_log:
  assumes "\<not> link_to_log_allowed setting"
  shows "deliver_reset_link (set_link_delivery setting None) base email token = [NotDelivered email]"
  using assms by (simp add: deliver_reset_link_def set_link_delivery_def log_delivery_def)

text \<open>The token can be read off the link, whatever the base.\<close>

lemma reset_url_token: "reset_url base t = reset_url base t' \<longleftrightarrow> t = t'"
  by (simp add: reset_url_def)

end
