(* ===== verification/Spec2Isabelle.thy ===== *)
theory Spec2Isabelle
  imports Guarantees RateLimit Idempotency JobBoard SignIn Dependencies Recommend Normalize Assessment Deidentify Oidc AuditTrail Hybrid Diff Estimates Bicep Crypto Endpoints CloudFormation SharedLimits StateFiles Inventory Telemetry
begin

text \<open>
  A model of \<open>iactranslate\<close> (\<open>src/src/iactranslate\<close>), which turns an inventory of virtual
  machines into a validated infrastructure plan for a target cloud, and serves that over an HTTP API.

  The pipeline. A machine (\<open>Models.vm\<close>, \<open>models.py\<close>) is classified (\<open>Heuristics\<close>,
  \<open>Providers\<close>: \<open>agents/heuristics.py\<close>, \<open>agents/providers\<close>), sized against the catalog of a
  target (\<open>TargetBase\<close>, \<open>Target_*\<close>, \<open>Targets\<close>: \<open>targets\<close>; \<open>Sizing\<close>: \<open>sizing.py\<close>;
  \<open>Rightsizing\<close>: \<open>agents/rightsizing.py\<close>), priced (\<open>Pricing\<close>: \<open>pricing.py\<close>) and put into a
  network carved from the customer's range (\<open>Ipv4\<close>, \<open>LandingZone\<close>, \<open>Network\<close>:
  \<open>landing_zone.py\<close>, \<open>agents/network.py\<close>). \<open>AgentPlan\<close> composes these into
  \<open>build_migration_plan\<close> (\<open>agents/__init__.py\<close>). The plan is checked (\<open>Validation\<close>), gated
  (\<open>Policy\<close>), billed (\<open>Costing\<close>), ordered into waves (\<open>Waves\<close>) and turned into a topology graph
  (\<open>Graph\<close>). \<open>Guarantees\<close> holds the facts about built plans that cross these parts.

  The API. \<open>Store\<close> (\<open>api/store.py\<close>) keeps projects and the claim of a run, \<open>Roles\<close>
  (\<open>api/roles.py\<close>) the grants; \<open>Access\<close> models the handlers of \<open>api/main.py\<close> that use both.
  \<open>RateLimit\<close>, \<open>ApiAuth\<close> and \<open>Idempotency\<close> model the request guards and the middleware.
  \<open>Jobs\<close> models both job queues (\<open>api/jobs.py\<close>, \<open>api/jobs_sqlite.py\<close>) and the events they publish;
  \<open>JobRuns\<close> is the step relation of the durable queue with any number of workers, and what its runs
  satisfy; \<open>JobBoard\<close> the job endpoints over either queue.

  \<open>Accounts\<close> models users, sessions and password resets (\<open>api/accounts.py\<close>), \<open>SignIn\<close> the endpoints over
  them; \<open>Dependencies\<close> the analysis of observed network flows (\<open>dependencies.py\<close>).
  \<open>Recommend\<close> models the ranking of the clouds (\<open>recommend.py\<close>) over the plans and bills of the pipeline.
  \<open>Normalize\<close> (with \<open>PyFloat\<close>) is the step from raw inventory rows to machines (\<open>normalize.py\<close>),
  \<open>Assessment\<close> the checks on an inventory and its readiness score (\<open>assessment/\<close>).
  \<open>Deidentify\<close> is the wrapper that replaces identifiers before an inventory goes to a remote provider
  (\<open>agents/deidentify.py\<close>).
  \<open>Oidc\<close> is single sign-on: \<open>api/oidc.py\<close> and its two endpoints of \<open>api/main.py\<close>; what the provider and PyJWT
  answer are the fields of a record.
  \<open>AuditTrail\<close> is the audit trail in memory and in the database (\<open>api/audit.py\<close>) and its endpoint; the locale
  \<open>audit_trail\<close> is what the endpoint relies on.
  \<open>Hybrid\<close> finds the networks that stay behind and collide with the planned range (\<open>hybrid.py\<close>).
  \<open>Diff\<close> compares two inventories (\<open>diff.py\<close>).
  \<open>Estimates\<close> holds the read-only analyses of a plan: \<open>confidence.py\<close>, \<open>transfer.py\<close>, \<open>replatform.py\<close> and
  \<open>maturity.py\<close>. \<open>Bicep\<close> is one renderer in full, \<open>renderers/bicep.py\<close>: its lines are lists of pieces, so that the
  identifiers they refer to are known. \<open>CloudFormation\<close> is another, \<open>renderers/cloudformation.py\<close>, as a JSON value whose
  references are followed; \<open>GraphFacts\<close> is what both rely on in the graph of a plan.
  \<open>Crypto\<close> is encryption at rest (\<open>crypto.py\<close>) with the decoder of base64; AES-GCM and HKDF are fields of a
  record and \<open>aead_laws\<close> is what the code relies on. \<open>Endpoints\<close> holds the remaining project endpoints of
  \<open>api/main.py\<close> (creation, paged listing, upload, download), the registries they ask and the middlewares on
  headers; the locale \<open>listing\<close> extends \<open>app\<close> with the one law the listing needs, and both stores interpret it.
  \<open>Sources\<close> and \<open>Inventory\<close> model the readers of inventories (\<open>sources/\<close>) from the frames pandas gives to the
  raw records \<open>Normalize\<close> takes, the reader of \<open>kubectl\<close> output and the choice of the reader; \<open>parse_inventory\<close> is
  the way in. \<open>SharedLimits\<close> is the limiter in Redis (\<open>api/ratelimit_redis.py\<close>) with any number of replicas.
  \<open>StateFiles\<close> holds \<open>state.py\<close> and \<open>identity.py\<close>, \<open>Telemetry\<close> the counters (\<open>api/metrics.py\<close>) and the delivery of reset
  links (\<open>api/delivery.py\<close>).
  How the model reads. A Python class with fields is a record, an enumeration a datatype, a dictionary an
  association list in insertion order (\<open>Prelude.dict\<close>), a raised exception an \<open>Inl\<close> of an error
  datatype, mutable state a record passed and returned. Python integers are \<open>int\<close>; floats are exact
  rationals, so rounding error of binary floats is not modelled, while \<open>round\<close> itself is
  (\<open>round_dp\<close>). Strings are Latin-1 character lists (\<open>PyStr\<close>). Clocks, the network, the model that
  answers classification requests and hash functions are arguments. Every loop is a total function: the
  recursions are structural or have a measure, and no fuel is used.

  The interfaces. \<open>TargetBase.cloud_target\<close> states what the rest relies on of a target, and every
  registered target is an interpretation of it. \<open>Roles.membership\<close> and \<open>Store.project_store\<close> are
  the contracts of the two membership objects and the two stores; \<open>Access.app\<close> extends both, so that
  the handlers are verified once and interpreted on the in-memory and on the SQL deployment.

  Not modelled: text and file output (renderers, reports, packaging, command line), reading spreadsheets,
  the sign-in protocol, cryptography, logging and metrics, and the prose of notes and reasons inside the
  modelled functions. Where a function builds prose next to its result, only the result is kept.
\<close>

section \<open>A small estate for the witnesses\<close>

definition sample_vm :: "string \<Rightarrow> int \<Rightarrow> rat \<Rightarrow> vm" where
  "sample_vm n cpu mem =
     \<lparr>vm_name = n, vm_cpu = cpu, vm_memory = mem, vm_disks = [40, 100.5], vm_cpu_util = Some 20,
      vm_mem_util = None, vm_network = None, vm_os = Some ''Windows Server 2019 (64-bit)'',
      vm_power = None, vm_ips = [], vm_hostname = None, vm_cluster = None, vm_datacenter = None,
      vm_external_id = None, vm_uuid = None, vm_tags = []\<rparr>"

definition sample_estate :: "vm list" where
  "sample_estate = [sample_vm ''web-01'' 4 8, sample_vm ''web.01'' 2 4, sample_vm ''db-01'' 8 32]"

text \<open>A provider that answers nonsense: no groups, and an instance type no cloud has.\<close>

definition nonsense_provider :: provider where
  "nonsense_provider =
     \<lparr>p_name = ''nonsense'', p_classify = (\<lambda>_. []),
      p_rightsize = (\<lambda>_ _ _. Some \<lparr>sug_instance = ''warp-drive.9000xl'', sug_image = []\<rparr>)\<rparr>"

definition offline_world :: world where
  "offline_world = \<lparr>w_azure = (\<lambda>_. None), w_aws = (\<lambda>_ _ _. None), w_gcp_key = None, w_gcp = (\<lambda>_. None)\<rparr>"

definition offline_env :: pricing_env where
  "offline_env = \<lparr>pe_time = (\<lambda>_. 0), pe_monotonic = (\<lambda>n. of_nat n), pe_readable = (\<lambda>_. True),
     pe_writable = (\<lambda>_. True), pe_world = (\<lambda>_. offline_world)\<rparr>"

definition sample_cfg :: rs_config where
  "sample_cfg = \<lparr>rs_util = 0.65, rs_env = offline_env\<rparr>"

definition fresh_pricing :: pricing_state where
  "fresh_pricing = \<lparr>ps_cache = [], ps_breakers = [], ps_tick = 0\<rparr>"
























































lemma get_target_aws: "get_target ''aws'' = Inr AWS"
  by (simp add: get_target_def REGISTRY_def AWS_def)

lemma sample_estate_ne: "sample_estate \<noteq> []"
  by (simp add: sample_estate_def)

lemma nonsense_total: "provider_total nonsense_provider"
  by (simp add: provider_total_def nonsense_provider_def)

lemma nonsense_builds:
  obtains plan st' where "build_migration_plan sample_cfg sample_estate ''acme'' AWS None nonsense_provider
      ''vmware'' False None fresh_pricing = Inr (plan, st')"
  using build_migration_plan_total [OF _ nonsense_total zone_fits_default [OF get_target_aws]]
    get_target_ok [OF get_target_aws] by blast

lemma rule_builds:
  obtains plan st' where "build_migration_plan sample_cfg sample_estate ''acme'' AWS None (rule_engine 0.65 AWS)
      ''vmware'' False None fresh_pricing = Inr (plan, st')"
proof -
  have aws: "cloud_target AWS" using get_target_ok [OF get_target_aws] by blast
  have "provider_total (rule_engine 0.65 AWS)"
    unfolding provider_total_def rule_engine_def provider.simps
    by (intro allI) (metis cloud_target.rule_rightsize_total [OF aws] option.distinct(1))
  then show thesis
    using build_migration_plan_total [OF aws _ zone_fits_default [OF get_target_aws]] that by blast
qed

text \<open>A deployment for the API's witnesses: one project of olga's, with ed as an editor.\<close>

definition sample_project :: project where
  "sample_project =
     (new_project ''p1'' ''/ws/p1'' \<lparr>pa_name = ''estate'', pa_target = ''aws'', pa_source = ''auto'', pa_column_map = None,
        pa_region = None, pa_policy = None, pa_provider = ''rule'', pa_owner_id = Some ''olga'', pa_renderer = ''terraform''\<rparr>)
     \<lparr>pj_status := ''uploaded'', pj_upload_path := Some ''/ws/p1/upload.csv''\<rparr>"

lemma sample_project_simps [simp]:
  "pj_id sample_project = ''p1''" "pj_owner_id sample_project = Some ''olga''" "pj_status sample_project = ''uploaded''"
  "pj_upload_path sample_project = Some ''/ws/p1/upload.csv''" "pj_run_started_at sample_project = None"
  "pj_renderer sample_project = ''terraform''"
  by (simp_all add: sample_project_def new_project_def)

lemma claimed_simps [simp]:
  "pj_id (claimed t p) = pj_id p" "pj_owner_id (claimed t p) = pj_owner_id p"
  "pj_upload_path (claimed t p) = pj_upload_path p"
  by (simp_all add: claimed_def)

definition sample_sql :: sql_store where
  "sample_sql = \<lparr>ss_max = 200,
     ss_rows = [(''p1'', \<lparr>pr_project = sample_project, pr_renderer = Some ''terraform'', pr_created_at = 0\<rparr>)]\<rparr>"

definition sample_members :: sql_membership where
  "sample_members = sql_grant 0 ''p1'' ''ed'' EDITOR (open_sql [])"

lemma sample_sql_ok: "rows_ok sample_sql"
  by (simp add: rows_ok_def sample_sql_def sample_project_def new_project_def)


lemma sample_get: "sql_get sample_sql ''p1'' = Some sample_project"
  by (simp add: sql_get_def sample_sql_def row_to_project_def sample_project_def new_project_def)

lemma sample_held: "held_role (sm_grants sample_members) p u = (if p = ''p1'' \<and> u = ''ed'' then Some EDITOR else None)"
  by (simp add: sample_members_def sql_grant_def held_mem_grant open_sql_def load_rows_def)
    (simp add: held_role_def grants_of_def)

section \<open>Properties\<close>

text \<open>
  C1. Whatever the provider answers, a plan that \<open>build_migration_plan\<close> returns for a registered
  target and a non-empty inventory passes every check of \<open>validate_plan\<close>.
\<close>

theorem built_plan_valid:
  assumes "get_target n = Inr t" and "vms \<noteq> []"
    and "build_migration_plan cfg vms project t region p source live zone st = Inr (plan, st')"
  shows "validate_plan plan t = []"
  using built_plan_ok [OF _ _ assms(2,3)] get_target_ok [OF assms(1)] validate_plan_Nil by blast

lemma built_plan_valid_witness:
  "\<exists>plan st'. build_migration_plan sample_cfg sample_estate ''acme'' AWS None nonsense_provider ''vmware''
        False None fresh_pricing = Inr (plan, st')
      \<and> validate_plan plan AWS = []"
proof -
  obtain plan st' where b: "build_migration_plan sample_cfg sample_estate ''acme'' AWS None nonsense_provider
      ''vmware'' False None fresh_pricing = Inr (plan, st')"
    by (rule nonsense_builds)
  then show ?thesis
    using built_plan_valid [OF get_target_aws sample_estate_ne b] by blast
qed

text \<open>
  C2. For a registered target and a provider that always answers, \<open>build_migration_plan\<close> returns a plan
  exactly when the address range in force parses and leaves room for the four \<open>/24\<close> subnets.
\<close>

theorem build_succeeds_iff:
  assumes "get_target n = Inr t" and "provider_total p"
  shows "(\<exists>plan st'. build_migration_plan cfg vms project t region p source live zone st = Inr (plan, st'))
    \<longleftrightarrow> (\<exists>net. ip_network True (vpc_of t zone) = Some net \<and> nw_plen net \<le> 22)"
proof
  assume "\<exists>plan st'. build_migration_plan cfg vms project t region p source live zone st = Inr (plan, st')"
  then obtain plan st' where "build_migration_plan cfg vms project t region p source live zone st = Inr (plan, st')" by blast
  then have "plan_network (plan_compute plan) t zone = Inr (plan_net plan)" by (rule build_migration_planD)
  then have "zone_fits t zone" by (rule plan_network_fits)
  then show "\<exists>net. ip_network True (vpc_of t zone) = Some net \<and> nw_plen net \<le> 22"
    by (auto elim!: zone_fitsE)
next
  assume "\<exists>net. ip_network True (vpc_of t zone) = Some net \<and> nw_plen net \<le> 22"
  then have "zone_fits t zone" by (auto simp: zone_fits_def)
  with get_target_ok [OF assms(1)] assms(2)
  show "\<exists>plan st'. build_migration_plan cfg vms project t region p source live zone st = Inr (plan, st')"
    by (meson build_migration_plan_total)
qed

lemma build_succeeds_iff_witness:
  "\<exists>plan st'. build_migration_plan sample_cfg sample_estate ''acme'' AWS None nonsense_provider ''vmware''
        False None fresh_pricing = Inr (plan, st')"
proof -
  have "zone_fits AWS None" by (rule zone_fits_default [OF get_target_aws])
  then have "\<exists>net. ip_network True (vpc_of AWS None) = Some net \<and> nw_plen net \<le> 22"
    by (auto elim!: zone_fitsE)
  then show ?thesis using build_succeeds_iff [OF get_target_aws nonsense_total] by blast
qed


text \<open>
  C4. A plan of the rule engine sizes every machine from the catalog, and an instance that covers the
  machine's demand with its headroom is chosen whenever the catalog has one.
\<close>

theorem rule_plan_covers_demand:
  assumes "get_target n = Inr t"
    and "build_migration_plan cfg vms project t region (rule_engine (rs_util cfg) t) source live zone st = Inr (plan, st')"
  shows "list_all2 (sized_for (rs_util cfg) t) vms (plan_compute plan)"
  using rule_plan_sized [OF _ assms(2)] get_target_ok [OF assms(1)] by blast

lemma rule_plan_covers_demand_witness:
  "\<exists>plan st'. build_migration_plan sample_cfg sample_estate ''acme'' AWS None (rule_engine 0.65 AWS) ''vmware''
        False None fresh_pricing = Inr (plan, st')
      \<and> list_all2 (sized_for 0.65 AWS) sample_estate (plan_compute plan)"
proof -
  obtain plan st' where b: "build_migration_plan sample_cfg sample_estate ''acme'' AWS None (rule_engine 0.65 AWS)
      ''vmware'' False None fresh_pricing = Inr (plan, st')"
    by (rule rule_builds)
  have u: "rs_util sample_cfg = 0.65" by (simp add: sample_cfg_def)
  show ?thesis using rule_plan_covers_demand [OF get_target_aws b [folded u]] b by (auto simp: u)
qed

text \<open>
  C5. In a built plan every firewall rule of the web group names the internet and every other rule only
  the network's own range, also when the customer's range replaces the target's.
\<close>

theorem internet_reaches_web_only:
  assumes "get_target n = Inr t"
    and "build_migration_plan cfg vms project t region p source live zone st = Inr (plan, st')"
    and "sg \<in> set (net_security_groups (plan_net plan))" and "r \<in> set (sg_ingress sg)"
  shows "in_cidrs r = (if sg_name sg = t_sg_for_tier t WEB then [''0.0.0.0/0''] else [net_vpc_cidr (plan_net plan)])"
  using built_ingress [OF _ _ assms(2-4)] get_target_ok [OF assms(1)] by (simp add: INTERNET_def)

lemma internet_reaches_web_only_witness:
  "\<exists>plan st'. build_migration_plan sample_cfg sample_estate ''acme'' AWS None nonsense_provider ''vmware''
        False None fresh_pricing = Inr (plan, st')
      \<and> list_all (\<lambda>sg. list_all (\<lambda>r. in_cidrs r = (if sg_name sg = t_sg_for_tier AWS WEB then [''0.0.0.0/0'']
            else [net_vpc_cidr (plan_net plan)])) (sg_ingress sg)) (net_security_groups (plan_net plan))"
proof -
  obtain plan st' where b: "build_migration_plan sample_cfg sample_estate ''acme'' AWS None nonsense_provider
      ''vmware'' False None fresh_pricing = Inr (plan, st')"
    by (rule nonsense_builds)
  have "in_cidrs r = (if sg_name sg = t_sg_for_tier AWS WEB then [''0.0.0.0/0''] else [net_vpc_cidr (plan_net plan)])"
    if "sg \<in> set (net_security_groups (plan_net plan))" "r \<in> set (sg_ingress sg)" for sg r
    using that by (rule internet_reaches_web_only [OF get_target_aws b])
  then show ?thesis using b by (auto simp: list_all_iff)
qed





text \<open>
  The lock is lost when a job is queued: after \<open>POST /projects/{pid}/jobs\<close> on a project whose run
  is in progress, the next \<open>try_begin_run\<close> succeeds although the lease of the first run has not expired.
\<close>

theorem create_job_gives_claim_away:
  assumes "rows_ok s" and "sql_begin_run t0 pid s = (True, s1)"
    and "create_job SQL_STORE mo submit pid user s1 m q = (Inr j, s2, q2)"
    and "RUN_LEASE_SECONDS < now" and "now < t0 + RUN_LEASE_SECONDS"
  shows "fst (sql_begin_run now pid s2)"
proof -
  have "rows_ok s1" using sql_store.ok_begin [OF assms(1), of t0 pid] assms(2) by simp
  then obtain p where p: "require_project SQL_STORE mo pid user EDITOR s1 m = Inr p"
      and s2: "s2 = sql_save (p\<lparr>pj_status := ''queued''\<rparr>) s1"
    using assms(3) by (auto simp: create_job_def api_defs split: sum.splits if_splits prod.splits)
  have g: "sql_get s1 pid = Some p"
    using p by (auto simp: require_project_def api_defs split: option.splits if_splits)
  show ?thesis using sql_claim_after_save [OF \<open>rows_ok s1\<close> g, of "p\<lparr>pj_status := ''queued''\<rparr>" now] s2 by simp
qed

lemma create_job_gives_claim_away_witness:
  "\<exists>s1 s2. sql_begin_run 1000 ''p1'' sample_sql = (True, s1)
    \<and> create_job SQL_STORE SQL_MEMBERS (\<lambda>i q. (i, i # q)) ''p1'' (Some ''ed'') s1 sample_members []
        = (Inr ''p1'', s2, [''p1''])
    \<and> fst (sql_begin_run 1001 ''p1'' s2)"
proof -
  obtain ok s1 where b': "sql_begin_run 1000 ''p1'' sample_sql = (ok, s1)" by (metis surj_pair)
  have "ok = fst (sql_begin_run 1000 ''p1'' sample_sql)" by (simp only: b' fst_conv)
  also have "\<dots> = True" by (simp add: sql_begin_run_def fst_update_row sample_sql_def)
  finally have b: "sql_begin_run 1000 ''p1'' sample_sql = (True, s1)" using b' by simp
  have g: "sql_get s1 ''p1'' = Some (claimed 1000 sample_project)"
    using sql_store.get_begin [OF sample_sql_ok, of 1000 "''p1''" "''p1''"] unfolding b by (simp add: sample_get)
  have r: "require_project SQL_STORE SQL_MEMBERS ''p1'' (Some ''ed'') EDITOR s1 sample_members = Inr (claimed 1000 sample_project)"
    by (simp add: require_project_cases api_defs g role_for_def sample_held)
  have "\<exists>s2. create_job SQL_STORE SQL_MEMBERS (\<lambda>i q. (i, i # q)) ''p1'' (Some ''ed'') s1 sample_members []
        = (Inr ''p1'', s2, [''p1''])"
    by (simp add: create_job_def r Let_def)
  then obtain s2 where j: "create_job SQL_STORE SQL_MEMBERS (\<lambda>i q. (i, i # q)) ''p1'' (Some ''ed'') s1 sample_members []
        = (Inr ''p1'', s2, [''p1''])" ..
  have "fst (sql_begin_run 1001 ''p1'' s2)"
    by (rule create_job_gives_claim_away [OF sample_sql_ok b j]) (simp_all add: RUN_LEASE_SECONDS_def)
  then show ?thesis using b j by blast
qed



text \<open>
  C9. Grants mean the same in memory and in the database: after any sequence of grants, revocations and
  project deletions both hold exactly the roles of the abstract map.
\<close>

theorem membership_refines_map:
  "held_role (mem_run [] ops) p u = foldl abs_step (\<lambda>_ _. None) ops p u
   \<and> held_role (sm_grants (sql_run (open_sql []) ops)) p u = foldl abs_step (\<lambda>_ _. None) ops p u"
proof -
  have e: "held_role [] = (\<lambda>_ _. None)" by (intro ext) (simp add: held_role_def grants_of_def)
  have "sql_ok (open_sql [])" by (rule sql_ok_open) simp
  from sql.run_abs [OF this, of ops] mem.run_abs [of "[]" ops]
  show ?thesis by (simp add: e open_sql_def load_rows_def)
qed

text \<open>
  C10. Grants survive a restart: reading the table back gives the roles the process held, after any
  sequence of operations.
\<close>

theorem grants_survive_restart:
  "held_role (sm_grants (open_sql (sm_rows (sql_run (open_sql []) ops)))) p u
     = held_role (sm_grants (sql_run (open_sql []) ops)) p u"
  by (intro reopen_held sql.run_ok sql_ok_open) simp

text \<open>
  C11. At most one execution per idempotency key: in any run of begin, complete and abandon steps within
  one time to live, a key that nobody abandons is claimed at most once, as long as the table has room.
\<close>

theorem key_claimed_at_most_once:
  assumes "records_ok s" and "length (is_records s) + length steps \<le> MAX_RECORDS"
    and "Abandon ck \<notin> set steps" and "list_all (op_within t0 (t0 + is_ttl s)) steps"
  shows "claims ck steps s \<le> 1"
  using assms by (rule claims_at_most_once)

definition sample_steps :: "idem_op list" where
  "sample_steps = [Begin 10 ''k'' ''f'', Begin 11 ''k'' ''f'', Complete ''k'' 201 ''{}'' ''application/json'', Begin 60 ''k'' ''f'']"

lemma key_claimed_at_most_once_witness:
  "claims ''k'' sample_steps (mk_store None None) = 1"
proof -
  have "claims ''k'' sample_steps (mk_store None None) \<le> 1"
    by (rule key_claimed_at_most_once [where ?t0.0 = 10])
      (simp_all add: mk_store_def records_ok_def sample_steps_def MAX_RECORDS_def ttl_from_env_def DEFAULT_TTL_SECONDS_def)
  moreover have "fst (idem_step (Begin 10 ''k'' ''f'') (mk_store None None)) = Some Claimed"
    by (simp add: mk_store_def begin_request_def evict_records_def MAX_RECORDS_def)
  then have "0 < claims ''k'' sample_steps (mk_store None None)"
    unfolding sample_steps_def claims.simps Let_def split_beta by simp
  ultimately show ?thesis by simp
qed


definition sample_request :: request where
  "sample_request = \<lparr>rq_method = ''POST'', rq_path = ''/projects'', rq_key = Some ''abc-1'', rq_cookie = None,
     rq_body = ''{}'', rq_authorization = ''bearer s3cret''\<rparr>"

definition created :: response where
  "created = \<lparr>rs_status = 201, rs_content = ''done'', rs_media = None, rs_headers = []\<rparr>"

definition count_app :: "nat \<Rightarrow> response option \<times> nat" where
  "count_app n = (Some created, Suc n)"

lemma strip_key: "strip ''abc-1'' = ''abc-1''"
  by (rule strip_by_id) (simp add: is_space_def)

lemma strip_secret: "strip ''s3cret'' = ''s3cret''"
  by (rule strip_by_id) (simp add: is_space_def)

lemma sample_keyed: "keyed sample_request ''abc-1''"
  by (simp add: keyed_def sample_request_def read_key_def strip_key MAX_KEY_LENGTH_def key_char_def
      is_alnum_def is_alpha_def char_class_defs)

lemma sample_executes: "executes hash now sample_request ''abc-1'' (mk_store None None)"
  by (simp add: executes_def begin_request_def mk_store_def evict_records_def MAX_RECORDS_def Let_def)

lemma sample_store_ok: "records_ok (mk_store None None)" "length (is_records (mk_store None None)) + 1 < MAX_RECORDS"
  by (simp_all add: records_ok_def mk_store_def MAX_RECORDS_def)

lemma sample_ttl: "is_ttl (mk_store None None) = 86400"
  by (simp add: mk_store_def ttl_from_env_def DEFAULT_TTL_SECONDS_def)

lemma middleware_runs:
  assumes "keyed q key" and "executes hash now q key s" and "h w = (Some r, w')"
  obtains s' where "idem_middleware hash now q h s w = (Some r, s', w')"
proof -
  let ?b = "begin_request now (request_key hash q key) (fingerprint hash (rq_body q)) s"
  obtain s1 where b: "?b = (Claimed, s1)" using assms(2) unfolding executes_def by (metis prod.collapse)
  have "idem_middleware hash now q h s w = (Some r, finish_request (request_key hash q key) (Some r) s1, w')"
    using assms(1) unfolding keyed_def by (simp add: idem_middleware_def Let_def b assms(3))
  then show thesis by (rule that)
qed


text \<open>
  A replay skips authentication: with an API key configured and a request answered 2xx, the same
  idempotency key, path and body without a valid bearer token get the stored content, although the
  guarded route itself refuses them.
\<close>

theorem replay_bypasses_api_key:
  assumes "keyed q key" and "executes hash now q key s" and "records_ok s" and "length (is_records s) + 1 < MAX_RECORDS"
    and "idem_middleware hash now q (guarded env q route) s w = (Some r, s', w')"
    and "200 \<le> rs_status r" and "rs_status r < 300" and "later \<le> now + is_ttl s"
    and "require_api_key env bad = Inl Unauthorized"
  shows "rs_status (the (fst (guarded env (q\<lparr>rq_authorization := bad\<rparr>) route w2))) = 401
    \<and> (\<exists>r2 s2. idem_middleware hash later (q\<lparr>rq_authorization := bad\<rparr>)
          (guarded env (q\<lparr>rq_authorization := bad\<rparr>) route) s' w2 = (Some r2, s2, w2)
        \<and> rs_status r2 = rs_status r \<and> rs_content r2 = rs_content r)"
proof -
  have "keyed (q\<lparr>rq_authorization := bad\<rparr>) key" using assms(1) by (simp add: keyed_def)
  moreover have "request_key hash (q\<lparr>rq_authorization := bad\<rparr>) key = request_key hash q key" by (simp add: request_key_def)
  ultimately show ?thesis
    using middleware_retry [OF assms(1-7), of "q\<lparr>rq_authorization := bad\<rparr>" later] assms(8,9)
    by (simp add: guarded_def error_response_def)
qed

lemma replay_bypasses_api_key_witness:
  "\<exists>s' r2 s2. idem_middleware (\<lambda>x. x) 0 sample_request (guarded ''s3cret'' sample_request count_app) (mk_store None None) 0
        = (Some created, s', 1)
    \<and> rs_status (the (fst (guarded ''s3cret'' (sample_request\<lparr>rq_authorization := []\<rparr>) count_app 1))) = 401
    \<and> idem_middleware (\<lambda>x. x) 30 (sample_request\<lparr>rq_authorization := []\<rparr>)
        (guarded ''s3cret'' (sample_request\<lparr>rq_authorization := []\<rparr>) count_app) s' 1 = (Some r2, s2, 1)
    \<and> rs_content r2 = ''done''"
proof -
  have good: "require_api_key ''s3cret'' ''bearer s3cret'' = Inr ()"
    by (simp add: require_api_key_def strip_secret partition_space_def compare_digest_def lower_char_def char_class_defs)
  have bad: "require_api_key ''s3cret'' [] = Inl Unauthorized"
    by (simp add: require_api_key_def strip_secret partition_space_def)
  obtain s' where m: "idem_middleware (\<lambda>x. x) 0 sample_request (guarded ''s3cret'' sample_request count_app) (mk_store None None) 0
      = (Some created, s', 1)"
    by (rule middleware_runs [OF sample_keyed sample_executes, of "guarded ''s3cret'' sample_request count_app" 0])
      (auto simp: guarded_def sample_request_def good count_app_def)
  have st: "200 \<le> rs_status created" "rs_status created < 300" by (simp_all add: created_def)
  have t: "(30::rat) \<le> 0 + is_ttl (mk_store None None)" by (simp add: sample_ttl)
  show ?thesis
    using replay_bypasses_api_key [OF sample_keyed sample_executes sample_store_ok m st t bad, of 1] m
    by (auto simp: created_def)
qed

text \<open>
  Scoping: two requests share a cache key only if caller, method, path and idempotency key agree,
  for keys that \<open>read_key\<close> accepts and a hash that does not collide on the two texts.
\<close>

theorem cache_key_scoped:
  assumes "cache_key hash u m p k = cache_key hash u' m' p' k'"
    and "inj_on hash {cache_raw u m p k, cache_raw u' m' p' k'}"
    and "caller_ok u" and "caller_ok u'" and "CHR ''|'' \<notin> set m" and "CHR ''|'' \<notin> set m'"
    and "read_key h = Inr (Some k)" and "read_key h' = Inr (Some k')"
  shows "u = u' \<and> m = m' \<and> p = p' \<and> k = k'"
proof (rule cache_raw_inject [OF _ assms(3-6)])
  show "cache_raw u m p k = cache_raw u' m' p' k'"
    using assms(1) inj_onD [OF assms(2), of "cache_raw u m p k" "cache_raw u' m' p' k'"] by (simp add: cache_key_def)
  show "CHR ''|'' \<notin> set k" "CHR ''|'' \<notin> set k'"
    by (rule key_no_bar [OF read_key_chars [OF assms(7)]], rule key_no_bar [OF read_key_chars [OF assms(8)]])
qed

lemma cache_key_scoped_witness:
  "cache_key (\<lambda>x. x) (Some ''ann'') ''POST'' ''/projects'' ''abc-1'' \<noteq> cache_key (\<lambda>x. x) None ''POST'' ''/projects'' ''abc-1''"
proof
  assume eq: "cache_key (\<lambda>x. x) (Some ''ann'') ''POST'' ''/projects'' ''abc-1'' = cache_key (\<lambda>x. x) None ''POST'' ''/projects'' ''abc-1''"
  have k: "read_key (Some ''abc-1'') = Inr (Some ''abc-1'')"
    using sample_keyed by (simp add: keyed_def sample_request_def)
  from cache_key_scoped [OF eq _ _ _ _ _ k k] show False by (simp add: caller_ok_def)
qed



text \<open>
  \<open>Retry-After\<close> is honest: a caller refused with a delay, who comes back that many seconds later, is
  allowed.
\<close>

theorem retry_after_suffices:
  assumes "take_token limit period now key bs = ((False, r), bs')" and "now + of_int r \<le> later"
    and "1 \<le> limit" and "0 < period"
  shows "fst (fst (take_token limit period later key bs'))"
  using assms by (rule retry_suffices)

lemma retry_after_suffices_witness:
  "take_token 1 60 5 ''ip'' [(''ip'', \<lparr>bk_tokens = 0, bk_last_seen = 5\<rparr>)]
      = ((False, 61), [(''ip'', \<lparr>bk_tokens = 0, bk_last_seen = 5\<rparr>)])
   \<and> fst (fst (take_token 1 60 66 ''ip'' [(''ip'', \<lparr>bk_tokens = 0, bk_last_seen = 5\<rparr>)]))"
proof -
  have "take_token 1 60 5 ''ip'' [(''ip'', \<lparr>bk_tokens = 0, bk_last_seen = 5\<rparr>)]
      = ((False, 61), [(''ip'', \<lparr>bk_tokens = 0, bk_last_seen = 5\<rparr>)])"
    by (simp add: take_token_def Let_def retry_after_def)
  from retry_after_suffices [OF this, of 66] this show ?thesis by simp
qed

text \<open>
  The bucket table is bounded: a check keeps it a dictionary of at most 20000 entries, however many
  keys the callers invent.
\<close>

theorem bucket_table_bounded:
  assumes "dict_ok bs" and "length bs \<le> 20000"
  shows "dict_ok (snd (take_token limit period now key bs)) \<and> length (snd (take_token limit period now key bs)) \<le> 20000"
  using take_token_table [of bs limit period now key] assms by (simp add: table_ok_def MAX_BUCKETS_def)

lemma bucket_table_bounded_witness:
  "length (snd (take_token 1 60 5 ''ip'' [(''other'', \<lparr>bk_tokens = 0, bk_last_seen = 5\<rparr>)])) \<le> 20000"
  using bucket_table_bounded [of "[(''other'', \<lparr>bk_tokens = 0, bk_last_seen = 5\<rparr>)]" 1 60 5 "''ip''"] by simp




text \<open>
  Right-sizing keeps its promise: in a plan of the rule engine a machine with utilization data uses
  at most the target share of the cpu and memory it gets, when the catalog has an instance that covers it.
\<close>

theorem right_sized_below_target:
  assumes "get_target n = Inr t" and "util_ok (rs_util cfg)"
    and "build_migration_plan cfg vms project t region (rule_engine (rs_util cfg) t) source live zone st = Inr (plan, st')"
    and "i < length vms" and "has_utilization (vms ! i)" and "j \<in> set (t_catalog t)" and "covers (rs_util cfg) (vms ! i) j"
  shows "of_int (vm_cpu (vms ! i)) * util_frac (vm_cpu_util (vms ! i)) \<le> rs_util cfg * of_int (c_vcpu (plan_compute plan ! i))
    \<and> vm_memory (vms ! i) * util_frac (vm_mem_util (vms ! i)) \<le> rs_util cfg * c_memory (plan_compute plan ! i)"
proof -
  have "list_all2 (sized_for (rs_util cfg) t) vms (plan_compute plan)"
    using rule_plan_sized [OF _ assms(3)] get_target_ok [OF assms(1)] by blast
  then have "sized_for (rs_util cfg) t (vms ! i) (plan_compute plan ! i)" using assms(4) by (rule list_all2_nthD)
  from sized_for_usage [OF this assms(5,2,6,7)] show ?thesis by (rule conjI)
qed

lemma aws_covers_first: "\<exists>j \<in> set (t_catalog AWS). covers 0.65 (sample_estate ! 0) j"
proof -
  have "spec ''m5.xlarge'' 4 16 ''m5'' 0.192 \<in> set (t_catalog AWS)" by (simp add: AWS_def aws_catalog_def)
  then show ?thesis
    by (intro bexI) (simp_all add: covers_def Let_def effective_demand_def has_utilization_def sample_estate_def sample_vm_def util_frac_def
        fits_def spec_def)
qed

lemma right_sized_below_target_witness:
  "\<exists>plan st'. build_migration_plan sample_cfg sample_estate ''acme'' AWS None (rule_engine 0.65 AWS) ''vmware''
        False None fresh_pricing = Inr (plan, st')
      \<and> 4 * 0.2 \<le> 0.65 * (of_int (c_vcpu (plan_compute plan ! 0)) :: rat)"
proof -
  obtain plan st' where b: "build_migration_plan sample_cfg sample_estate ''acme'' AWS None (rule_engine 0.65 AWS)
      ''vmware'' False None fresh_pricing = Inr (plan, st')"
    by (rule rule_builds)
  have u: "rs_util sample_cfg = 0.65" by (simp add: sample_cfg_def)
  obtain j where j: "j \<in> set (t_catalog AWS)" "covers 0.65 (sample_estate ! 0) j" using aws_covers_first by blast
  have h: "util_ok (rs_util sample_cfg)" "0 < length sample_estate" "has_utilization (sample_estate ! 0)"
    by (simp_all add: u util_ok_def sample_estate_def sample_vm_def has_utilization_def)
  have v: "vm_cpu (sample_estate ! 0) = 4" "util_frac (vm_cpu_util (sample_estate ! 0)) = 1/5"
    by (simp_all add: sample_estate_def sample_vm_def util_frac_def)
  show ?thesis
    using right_sized_below_target [OF get_target_aws h(1) b [folded u] h(2,3) j(1) j(2) [folded u]] b by (auto simp: u v)
qed

text \<open>
  Reconciliation: whatever the model answers (machines invented, repeated or left out, or no answer),
  the groups hold every machine of the inventory exactly once and nothing else.
\<close>

theorem classification_partitions:
  assumes "distinct (map vm_name vms)"
  shows "distinct (group_names (llm_classify answer vms))
    \<and> set (group_names (llm_classify answer vms)) = vm_name ` set vms"
  using llm_classify_partitions [OF assms, of answer] by (simp add: partitions_def)

lemma classification_partitions_witness:
  "set (group_names (llm_classify (\<lambda>_. Some [\<lparr>wg_name = ''x'', wg_environment = TEST,
      wg_members = [(''ghost'', WEB), (''db-01'', WEB), (''db-01'', APP)]\<rparr>]) sample_estate)) = {''web-01'', ''web.01'', ''db-01''}"
  using classification_partitions [of sample_estate] by (simp add: sample_estate_def sample_vm_def insert_commute)

text \<open>The waves hold every workload of the plan exactly as often as the plan does.\<close>

theorem waves_partition: "mset (concat (map wv_workloads (plan_waves p))) = mset (map c_vm_name (plan_compute p))"
  by (rule plan_waves_partition)

text \<open>
  The dependencies of a wave are exactly the waves of its environment rank at a lower tier depth,
  and every one of them comes earlier in the sequence.
\<close>

theorem wave_dependencies:
  assumes "i < length (plan_waves p)"
  shows "set (wv_depends_on (plan_waves p ! i)) =
      {wv_id (plan_waves p ! j) |j. j < i
         \<and> env_rank (wv_environment (plan_waves p ! j)) = env_rank (wv_environment (plan_waves p ! i))
         \<and> wv_tier_depth (plan_waves p ! j) < wv_tier_depth (plan_waves p ! i)}"
proof -
  have "j < i" if "j < length (plan_waves p)" "fst (wave_pos (plan_waves p ! j)) = fst (wave_pos (plan_waves p ! i))"
      "snd (wave_pos (plan_waves p ! j)) < snd (wave_pos (plan_waves p ! i))" for j
  proof (rule ccontr)
    assume "\<not> j < i"
    then have "wave_pos (plan_waves p ! i) < wave_pos (plan_waves p ! j) \<or> i = j"
      using plan_waves_order [of i j p] that(1) by linarith
    then show False using that(2,3) by (auto simp: less_prod_def)
  qed
  then show ?thesis
    unfolding plan_waves_depends [OF assms] using assms by (auto simp: wave_pos_def)
qed

lemma wave_dependencies_witness:
  "\<exists>plan st'. build_migration_plan sample_cfg sample_estate ''acme'' AWS None nonsense_provider ''vmware''
        False None fresh_pricing = Inr (plan, st')
      \<and> plan_waves plan \<noteq> [] \<and> set (wv_depends_on (plan_waves plan ! 0)) = {}"
proof -
  obtain plan st' where b: "build_migration_plan sample_cfg sample_estate ''acme'' AWS None nonsense_provider
      ''vmware'' False None fresh_pricing = Inr (plan, st')"
    by (rule nonsense_builds)
  have "plan_compute plan \<noteq> []"
    using built_plan_ok [OF _ _ sample_estate_ne b] get_target_ok [OF get_target_aws] by (simp add: plan_ok_def)
  then have "set (wave_keys (plan_compute plan)) \<noteq> {}" by (simp add: wave_keys(1))
  then have "wave_keys (plan_compute plan) \<noteq> []" by blast
  then have ne: "0 < length (plan_waves plan)" by (simp add: length_plan_waves)
  have "set (wv_depends_on (plan_waves plan ! 0)) = {}" unfolding wave_dependencies [OF ne] by blast
  then show ?thesis using b ne by blast
qed

text \<open>
  A wave is not always a single environment's: a development and a test machine of the same tier
  are always in the same wave.
\<close>

theorem wave_mixes_environments:
  assumes "c \<in> set (plan_compute p)" and "c' \<in> set (plan_compute p)"
    and "c_environment c = DEVELOPMENT" and "c_environment c' = TEST" and "c_tier c = c_tier c'"
  shows "\<exists>w \<in> set (plan_waves p). c_vm_name c \<in> set (wv_workloads w) \<and> c_vm_name c' \<in> set (wv_workloads w)"
proof -
  have k: "wave_key c' = wave_key c" using assms(3-5) by (simp add: wave_key_def)
  have "wave_key c \<in> set (wave_keys (plan_compute p))" using assms(1) by (simp add: wave_keys)
  then obtain i where i: "i < length (plan_waves p)" "wave_keys (plan_compute p) ! i = wave_key c"
    by (auto simp: in_set_conv_nth length_plan_waves)
  have "c_vm_name x \<in> set (wv_workloads (plan_waves p ! i))" if "x \<in> set (plan_compute p)" "wave_key x = wave_key c" for x
    using that by (simp add: plan_waves_fields(3) [OF i(1)] i(2) group_of_def)
  note w = this
  show ?thesis using w [OF assms(1) refl] w [OF assms(2) k] i(1) by (intro bexI [of _ "plan_waves p ! i"] conjI) simp_all
qed

definition sample_compute :: "string \<Rightarrow> environment \<Rightarrow> compute_plan" where
  "sample_compute n env = compute_plan_for AWS (sample_vm n 2 4) APP env ''m5.large'' ''ubuntu-22.04'' (70, ''static'')"

definition plan_with :: "compute_plan list \<Rightarrow> migration_plan" where
  "plan_with cs =
     \<lparr>plan_project = ''acme'', plan_source = ''vmware'', plan_target = ''aws'', plan_region = ''us-east-1'',
      plan_net = \<lparr>net_vpc_cidr = ''10.0.0.0/16'', net_subnets = [], net_security_groups = [], net_load_balancers = [],
         net_internet_gateway = True, net_nat_gateway = True\<rparr>,
      plan_compute = cs, plan_app_groups = [], plan_provider_used = ''rule'', plan_kms_key_id = None,
      plan_live_requested = False\<rparr>"

lemma wave_mixes_environments_witness:
  "\<exists>w \<in> set (plan_waves (plan_with [sample_compute ''dev-api'' DEVELOPMENT, sample_compute ''test-api'' TEST])).
     ''dev-api'' \<in> set (wv_workloads w) \<and> ''test-api'' \<in> set (wv_workloads w)"
  using wave_mixes_environments [of "sample_compute ''dev-api'' DEVELOPMENT"
      "plan_with [sample_compute ''dev-api'' DEVELOPMENT, sample_compute ''test-api'' TEST]" "sample_compute ''test-api'' TEST"]
  by (simp add: plan_with_def) (simp add: sample_compute_def compute_plan_for_def sample_vm_def Let_def)

text \<open>
  C15. The topology graph of a built plan is a graph: its node ids are distinct and every edge joins two
  of its nodes.
\<close>

theorem graph_of_built_plan:
  assumes "get_target n = Inr t" and "vms \<noteq> []"
    and "build_migration_plan cfg vms project t region p source live zone st = Inr (plan, st')"
  shows "distinct (map gn_id (g_nodes (build_graph plan)))
    \<and> list_all (\<lambda>e. ge_source e \<in> set (map gn_id (g_nodes (build_graph plan)))
        \<and> ge_target e \<in> set (map gn_id (g_nodes (build_graph plan)))) (g_edges (build_graph plan))"
proof
  show "distinct (map gn_id (g_nodes (build_graph plan)))"
    using built_graph_ids [OF _ _ assms(2,3)] get_target_ok [OF assms(1)] by blast
  show "list_all (\<lambda>e. ge_source e \<in> set (map gn_id (g_nodes (build_graph plan)))
        \<and> ge_target e \<in> set (map gn_id (g_nodes (build_graph plan)))) (g_edges (build_graph plan))"
    unfolding list_all_iff using graph_edges_closed [of _ plan] by (simp only: node_ids_def) blast
qed

lemma graph_of_built_plan_witness:
  "\<exists>plan st'. build_migration_plan sample_cfg sample_estate ''acme'' AWS None nonsense_provider ''vmware''
        False None fresh_pricing = Inr (plan, st')
      \<and> distinct (map gn_id (g_nodes (build_graph plan)))"
proof -
  obtain plan st' where b: "build_migration_plan sample_cfg sample_estate ''acme'' AWS None nonsense_provider
      ''vmware'' False None fresh_pricing = Inr (plan, st')"
    by (rule nonsense_builds)
  then show ?thesis using graph_of_built_plan [OF get_target_aws sample_estate_ne b] by blast
qed



text \<open>
  C17. Carving: the blocks that \<open>carve_subnets\<close> prints are as many as asked for, and read back they are
  /24 networks inside the range, no two of which share an address.
\<close>

theorem carved_subnets_read_back:
  assumes "carve_subnets cidr k = Inr (pub, priv)" and "ip_network True cidr = Some n" and "0 < k"
  shows "length pub = k \<and> length priv = k
    \<and> (\<exists>ns. map (ip_network True) (pub @ priv) = map Some ns
        \<and> list_all (\<lambda>m. nw_plen m = 24 \<and> net_range m \<subseteq> net_range n) ns
        \<and> (\<forall>i j. i < j \<and> j < length ns \<longrightarrow> net_range (ns ! i) \<inter> net_range (ns ! j) = {}))"
proof -
  obtain av where av: "subnets n 24 = Inr av" and len: "2 * k \<le> length av"
    using assms by (auto simp: carve_subnets_def SUBNET_PREFIX_def Let_def split: if_splits sum.splits)
  have le: "nw_plen n \<le> 24" and room: "2 * k \<le> 2 ^ (24 - nw_plen n)"
    using av len assms(3) by (auto simp: subnets_def split: if_splits)
  obtain ns where c: "carve_subnets cidr k = Inr (map str_of_net (take k ns), map str_of_net (drop k ns))"
    and l: "length ns = 2 * k" and ok: "\<forall>m \<in> set ns. net_ok m \<and> subnet_of m n \<and> nw_plen m = 24"
    and dis: "\<And>i j. i < j \<Longrightarrow> j < 2 * k \<Longrightarrow> \<not> overlaps (ns ! i) (ns ! j)"
    using carve_subnets_Inr [OF assms(2) le room] by metis
  have pp: "pub = map str_of_net (take k ns)" "priv = map str_of_net (drop k ns)" using c assms(1) by simp_all
  have "map (ip_network True) (map str_of_net ns) = map Some ns"
    using ok by (simp add: ip_network_str)
  then have rt: "map (ip_network True) (pub @ priv) = map Some ns"
    unfolding pp map_append [symmetric] append_take_drop_id .
  show ?thesis
    using l rt ok dis unfolding pp by (auto simp: list_all_iff subnet_of_iff overlaps_iff intro!: exI [of _ ns])
qed

lemma carved_subnets_read_back_witness:
  "\<exists>pub priv. carve_subnets ''10.0.0.0/16'' 2 = Inr (pub, priv) \<and> length pub = 2 \<and> length priv = 2"
proof -
  obtain ns where "carve_subnets ''10.0.0.0/16'' 2 = Inr (map str_of_net (take 2 ns), map str_of_net (drop 2 ns))"
    by (rule carve_subnets_Inr [OF default_range, of 2]) (simp_all add: mk_net_def)
  then obtain pub priv where c: "carve_subnets ''10.0.0.0/16'' 2 = Inr (pub, priv)" by blast
  from carved_subnets_read_back [OF c default_range zero_less_numeral] c show ?thesis by blast
qed

text \<open>
  A range that is accepted and cannot be used: a landing zone with a valid \<open>/23\<close> passes its
  validation when its other fields do, and planning a network in it always fails.
\<close>

theorem accepted_zone_cannot_be_planned:
  assumes "ip_network True (lz_cidr z) = Some n" and "nw_plen n = 23" and "lz_tags z = []"
    and "lz_kms_key_id z = None" and "lz_name_prefix z = None"
  shows "post_init z = None \<and> plan_network compute t (Some z) = Inl (TooFewSubnets 2 4)"
  using plan_network_23 [OF assms(1,2)] assms by (simp add: post_init_def SUBNET_PREFIX_def)

lemma accepted_zone_cannot_be_planned_witness:
  "post_init (default_zone\<lparr>lz_cidr := ''10.0.0.0/23''\<rparr>) = None
   \<and> plan_network [] AWS (Some (default_zone\<lparr>lz_cidr := ''10.0.0.0/23''\<rparr>)) = Inl (TooFewSubnets 2 4)"
proof (rule accepted_zone_cannot_be_planned [where n = "mk_net 167772160 23"])
  show "ip_network True (lz_cidr (default_zone\<lparr>lz_cidr := ''10.0.0.0/23''\<rparr>)) = Some (mk_net 167772160 23)"
    by (simp add: ip_eval)
qed (simp_all add: mk_net_def default_zone_def)

text \<open>
  A machine called pre-production or non-production is classified as production, and so migrates
  with the last rank, because the first row of the token table matches inside the word.
\<close>

theorem preprod_is_production:
  assumes "contains ''preprod'' (haystack vm) \<or> contains ''pre-prod'' (haystack vm) \<or> contains ''nonprod'' (haystack vm)"
  shows "detect_environment vm = PRODUCTION"
  using preprod_has_prod [OF assms] by (simp add: detect_environment_def ENV_TOKENS_def)

lemma preprod_is_production_witness: "detect_environment (sample_vm ''preprod-db-01'' 2 4) = PRODUCTION"
proof (rule preprod_is_production)
  have "contains ''preprod'' ''preprod-db-01''" by code_simp
  then show "contains ''preprod'' (haystack (sample_vm ''preprod-db-01'' 2 4))
      \<or> contains ''pre-prod'' (haystack (sample_vm ''preprod-db-01'' 2 4))
      \<or> contains ''nonprod'' (haystack (sample_vm ''preprod-db-01'' 2 4))"
    by (simp add: haystack_def sample_vm_def lower_char_def char_class_defs)
qed

text \<open>
  C18. One worker per job: from an empty queue, over any interleaving of submissions, claims, ends within
  the lease, crashes, reclaims and time, no two workers hold the same job with a running lease.
\<close>

theorem one_unexpired_holder:
  assumes "job_run (idle_world n) ls w" and "LLate \<notin> set ls"
  shows "distinct (map jr_id (filter (in_lease (jw_clock w)) (jw_held w)))"
  using leases_ok_run [OF assms(1) leases_ok_idle assms(2)] by (simp add: leases_ok_def)

definition sample_row :: job_row where
  "sample_row = \<lparr>jr_id = ''j1'', jr_project_id = ''p1'', jr_kind = ''run'', jr_status = ''queued'', jr_attempts = 0,
     jr_max_attempts = 3, jr_created_at = 0, jr_started_at = None, jr_finished_at = None, jr_visible_at = 0,
     jr_lease_until = None, jr_error = None\<rparr>"

lemma sample_submit: "jq_rows (snd (sql_submit 0 ''j1'' ''p1'' ''run'' (jw_queue (idle_world 3)))) = [(''j1'', sample_row)]"
  by (simp add: sql_submit_def idle_rows sample_row_def Let_def)

lemma sample_claim:
  assumes "jq_rows q = [(''j1'', sample_row)]"
  shows "claim_job 0 q = (Some (take_row 0 sample_row), q\<lparr>jq_rows := [(''j1'', take_row 0 sample_row)]\<rparr>)"
  using assms by (simp add: claim_job_def next_due_def due_def sample_row_def Let_def)

lemma sample_job_run:
  obtains w where "job_run (idle_world 3) [LSubmit, LClaim] w" and "jw_held w = [take_row 0 sample_row]" and "jw_clock w = 0"
    and "length (jq_rows (jw_queue w)) = 1"
proof -
  let ?w1 = "(idle_world 3)\<lparr>jw_queue := snd (sql_submit (jw_clock (idle_world 3)) ''j1'' ''p1'' ''run'' (jw_queue (idle_world 3)))\<rparr>"
  have z: "jw_clock (idle_world 3) = 0" "jw_held (idle_world 3) = []" by (simp_all add: idle_world_def)
  have r1: "job_run (idle_world 3) ([] @ [LSubmit]) ?w1" by (intro job_run.more [OF job_run.none] job_step.submit)
  have c: "claim_job (jw_clock ?w1) (jw_queue ?w1)
      = (Some (take_row 0 sample_row), (jw_queue ?w1)\<lparr>jq_rows := [(''j1'', take_row 0 sample_row)]\<rparr>)"
    using sample_claim [of "jw_queue ?w1"] sample_submit by (simp add: z)
  let ?w2 = "?w1\<lparr>jw_queue := (jw_queue ?w1)\<lparr>jq_rows := [(''j1'', take_row 0 sample_row)]\<rparr>, jw_held := take_row 0 sample_row # jw_held ?w1\<rparr>"
  have "job_run (idle_world 3) (([] @ [LSubmit]) @ [LClaim]) ?w2"
    by (rule job_run.more [OF r1 job_step.claim [OF c]])
  then have run: "job_run (idle_world 3) [LSubmit, LClaim] ?w2" by (simp only: append.simps)
  show thesis
  proof (rule that [OF run])
    show "jw_held ?w2 = [take_row 0 sample_row]" by (simp add: z)
    show "jw_clock ?w2 = 0" by (simp add: z)
    show "length (jq_rows (jw_queue ?w2)) = 1" by simp
  qed
qed

lemma one_unexpired_holder_witness:
  "\<exists>w. job_run (idle_world 3) [LSubmit, LClaim] w \<and> jw_held w \<noteq> []
    \<and> distinct (map jr_id (filter (in_lease (jw_clock w)) (jw_held w)))"
proof -
  obtain w where w: "job_run (idle_world 3) [LSubmit, LClaim] w" and h: "jw_held w = [take_row 0 sample_row]"
    by (rule sample_job_run)
  show ?thesis using one_unexpired_holder [OF w] w h by auto
qed

text \<open>
  C19. Work is bounded: over any run without a lease recovery, workers start jobs at most
  \<open>max_attempts\<close> times per submitted job.
\<close>

theorem job_starts_bounded:
  assumes "job_run (idle_world n) ls w" and "LReclaim \<notin> set ls" and "0 < n"
  shows "length (filter (\<lambda>l. l = LClaim) ls) \<le> n * length (jq_rows (jw_queue w))"
  using assms by (rule claims_bounded)

lemma job_starts_bounded_witness:
  "\<exists>w. job_run (idle_world 3) [LSubmit, LClaim] w \<and> 1 \<le> 3 * length (jq_rows (jw_queue w))"
proof -
  obtain w where w: "job_run (idle_world 3) [LSubmit, LClaim] w" by (rule sample_job_run)
  show ?thesis using job_starts_bounded [OF w] w by auto
qed

text \<open>
  C20. A poisonous job is given up: one whose handler fails every time, taken up again once each backoff
  of 5, 25, ... seconds has passed, is dead after exactly \<open>max_attempts\<close> runs and keeps its last error.
\<close>

theorem poison_job_dies:
  assumes "jq_rows q = [(jr_id r, r)]" and "jr_status r = ''queued''" and "fails_with hs r err"
    and "jr_attempts r = 0" and "0 < jr_max_attempts r" and "length ts = jr_max_attempts r" and "spaced (jr_visible_at r) 0 ts"
  shows "\<exists>r'. jq_rows (failing_turns hs ts q) = [(jr_id r, r')] \<and> jr_status r' = ''dead''
    \<and> jr_attempts r' = jr_max_attempts r \<and> jr_error r' = Some err"
  using failing_job_dies [OF assms(1-3), of ts] assms(4-7) by simp

lemma poison_job_dies_witness:
  "\<exists>r'. jq_rows (failing_turns [(''run'', \<lambda>p. Some ''boom'')] [0, 5, 30] \<lparr>jq_rows = [(''j1'', sample_row)], jq_max_attempts = 3, jq_events = []\<rparr>)
      = [(''j1'', r')] \<and> jr_status r' = ''dead'' \<and> jr_attempts r' = 3"
  using poison_job_dies [of "\<lparr>jq_rows = [(''j1'', sample_row)], jq_max_attempts = 3, jq_events = []\<rparr>" sample_row
      "[(''run'', \<lambda>p. Some ''boom'')]" "''boom''" "[0, 5, 30]"]
  by (auto simp: sample_row_def fails_with_def BACKOFF_BASE_SECONDS_def)

text \<open>
  A job that kills its worker is never given up: the recovery of expired leases ignores the attempts,
  so after any number of crashes the job is running again, with as many attempts.
\<close>

theorem worker_killer_never_dies:
  assumes "jq_rows q = [(jr_id r, r)]" and "held_at now r"
  shows "\<exists>r'. jq_rows (killer_rounds k now q) = [(jr_id r', r')] \<and> jr_status r' = ''running''
    \<and> jr_attempts r' = jr_attempts r + k \<and> jr_max_attempts r' = jr_max_attempts r"
  using killer_rounds_single [OF assms, of k] by blast

lemma worker_killer_never_dies_witness:
  "\<exists>r'. jq_rows (killer_rounds 10 0 \<lparr>jq_rows = [(''j1'', take_row 0 sample_row)], jq_max_attempts = 3, jq_events = []\<rparr>)
      = [(jr_id r', r')] \<and> jr_status r' = ''running'' \<and> jr_attempts r' = 11 \<and> jr_max_attempts r' = 3"
  using worker_killer_never_dies [of "\<lparr>jq_rows = [(''j1'', take_row 0 sample_row)], jq_max_attempts = 3, jq_events = []\<rparr>"
      "take_row 0 sample_row" 0 10]
  by (auto simp: sample_row_def take_row_def held_at_def)

text \<open>
  The handle works: when a job is accepted for a project, the caller who got its id can read it, and
  the project says queued, with the SQL store, membership and queue.
\<close>

theorem job_handle_polls:
  assumes "rows_ok s" and "statuses_ok q" and "sql_job q jid = None"
    and "create_job SQL_STORE SQL_MEMBERS (submit_run now jid) pid user s m q = (Inr r, s', q')"
  shows "\<exists>j p. r = Some j \<and> get_job SQL_STORE SQL_MEMBERS (sql_job q') jid user s' m = Inr (j, Some p)
    \<and> jb_status j = QUEUED \<and> statuses_ok q' \<and> pj_status p = ''queued''"
  using assms by (rule sql_job_api.handle_polls)

lemma job_handle_polls_witness:
  "\<exists>j s' q' p. create_job SQL_STORE SQL_MEMBERS (submit_run 7 ''j1'') ''p1'' (Some ''ed'') sample_sql sample_members
        \<lparr>jq_rows = [], jq_max_attempts = 3, jq_events = []\<rparr> = (Inr (Some j), s', q')
    \<and> get_job SQL_STORE SQL_MEMBERS (sql_job q') ''j1'' (Some ''ed'') s' sample_members = Inr (j, Some p)"
proof -
  let ?q = "\<lparr>jq_rows = [], jq_max_attempts = 3, jq_events = []\<rparr>"
  have req: "require_project SQL_STORE SQL_MEMBERS ''p1'' (Some ''ed'') EDITOR sample_sql sample_members = Inr sample_project"
    by (simp add: require_project_def api_defs sample_get role_for_def sample_held at_least_iff)
  have q: "statuses_ok ?q" "sql_job ?q ''j1'' = None" by (simp_all add: statuses_ok_def rows_keyed_def sql_job_def)
  obtain r s' q' where c: "create_job SQL_STORE SQL_MEMBERS (submit_run 7 ''j1'') ''p1'' (Some ''ed'') sample_sql sample_members ?q
      = (Inr r, s', q')"
    using req by (auto simp: create_job_def split_beta Let_def)
  from job_handle_polls [OF sample_sql_ok q c] c show ?thesis by blast
qed

text \<open>
  C25. A reset link works once: whatever happens to the accounts in between, a consumed token is refused,
  unless a new link with the same hash is issued.
\<close>

theorem reset_link_single_use:
  assumes "list_all (\<lambda>x. \<not> issues env token x) ops"
  shows "fst (consume_reset_token env later token (account_run env ops (snd (consume_reset_token env now token db)))) = None"
  by (rule reset_replay_refused [OF assms])

definition sample_auth :: auth_env where
  "sample_auth = \<lparr>ae_kdf = (\<lambda>pw salt n. map (\<lambda>c. if c = CHR ''$'' then CHR ''s'' else c) pw), ae_sha256 = (\<lambda>t. t)\<rparr>"

definition sample_accounts :: account_db where
  "sample_accounts = \<lparr>
     ad_users = [(''ada'', \<lparr>ur_email = ''ada@example.org'', ur_password_hash = [], ur_created_at = 0\<rparr>),
                 (''bob'', \<lparr>ur_email = ''bob@example.org'', ur_password_hash = [], ur_created_at = 0\<rparr>)],
     ad_sessions = [(''cookie-a'', \<lparr>tk_user_id = ''ada'', tk_created_at = 0, tk_expires_at = 100\<rparr>),
                    (''cookie-b'', \<lparr>tk_user_id = ''bob'', tk_created_at = 0, tk_expires_at = 100\<rparr>)],
     ad_resets = [(''link'', \<lparr>tk_user_id = ''ada'', tk_created_at = 0, tk_expires_at = 100\<rparr>)]\<rparr>"

lemma reset_link_single_use_witness:
  "fst (consume_reset_token sample_auth 5 ''link'' sample_accounts) = Some ''ada'' \<and>
   fst (consume_reset_token sample_auth 9 ''link'' (account_run sample_auth [SignOutUser ''ada'']
     (snd (consume_reset_token sample_auth 5 ''link'' sample_accounts)))) = None"
proof
  show "fst (consume_reset_token sample_auth 5 ''link'' sample_accounts) = Some ''ada''"
    by (simp add: consume_reset_token_def sample_auth_def sample_accounts_def)
  show "fst (consume_reset_token sample_auth 9 ''link'' (account_run sample_auth [SignOutUser ''ada'']
     (snd (consume_reset_token sample_auth 5 ''link'' sample_accounts)))) = None"
    by (rule reset_link_single_use) (simp add: issues_def)
qed

text \<open>
  C26. A reset ends every session: after a successful reset of a user's password no cookie, old or stolen,
  resolves to that user until the user signs in again.
\<close>

theorem stolen_session_dies:
  assumes "reset_password env now blocked salt token pw (Some db) = (Inr (), Some db')"
    and "fst (consume_reset_token env now token db) = Some uid"
    and "list_all (\<lambda>x. \<not> signs_in uid x) ops"
    and "fst (user_for_session env later cookie (account_run env ops db')) = Some u"
  shows "us_id u \<noteq> uid"
  by (rule reset_signs_out [OF assms])

lemma sample_reset:
  "\<exists>db'. reset_password sample_auth 5 False [1] ''link'' ''correct horse battery'' (Some sample_accounts) = (Inr (), Some db')
     \<and> fst (user_for_session sample_auth 9 ''cookie-b'' db') = Some \<lparr>us_id = ''bob'', us_email = ''bob@example.org'', us_created_at = 0\<rparr>"
  by (simp add: reset_password_def consume_reset_token_def set_password_def validate_password_def MIN_PASSWORD_LENGTH_def
      delete_sessions_for_user_def user_for_session_def get_user_def user_of_def sample_auth_def sample_accounts_def)

lemma stolen_session_dies_witness:
  "\<exists>db' u. reset_password sample_auth 5 False [1] ''link'' ''correct horse battery'' (Some sample_accounts) = (Inr (), Some db')
     \<and> fst (user_for_session sample_auth 9 ''cookie-b'' db') = Some u \<and> us_id u \<noteq> ''ada''"
proof -
  obtain db' u where r: "reset_password sample_auth 5 False [1] ''link'' ''correct horse battery'' (Some sample_accounts)
      = (Inr (), Some db')" and u: "fst (user_for_session sample_auth 9 ''cookie-b'' db') = Some u"
    using sample_reset by blast
  have "us_id u \<noteq> ''ada''"
    by (rule stolen_session_dies [OF r, of "''ada''" "[]" 9 "''cookie-b''"])
      (use u in \<open>simp_all add: account_run_def consume_reset_token_def sample_auth_def sample_accounts_def\<close>)
  then show ?thesis using r u by blast
qed

text \<open>
  C27. Registration and login fit: after an account is created, \<open>login\<close> with its address opens a
  session exactly when the password offered has the digest of the password registered.
\<close>

theorem login_accepts_registered_password:
  assumes "accounts_ok db" and "digest_ok env" and "list_all (\<lambda>b. b < 256) salt"
    and "create_user env now uid salt email pw db = (Inr u, db')"
    and "map_of (ad_sessions db') (ae_sha256 env token) = None"
  shows "(\<exists>a. login env later False token email pw' (Some db') = (Inr (u, token), a)) \<longleftrightarrow>
    ae_kdf env pw' salt PBKDF2_ITERATIONS = ae_kdf env pw salt PBKDF2_ITERATIONS"
proof -
  obtain e where e: "validate_email email = Inr e" and u: "u = user_of uid \<lparr>ur_email = e,
      ur_password_hash = hash_password env salt pw, ur_created_at = now\<rparr>"
    and mem: "(uid, \<lparr>ur_email = e, ur_password_hash = hash_password env salt pw, ur_created_at = now\<rparr>) \<in> set (ad_users db')"
    using assms(4) by (auto simp: create_user_def Let_def split: sum.splits if_splits)
  have ok: "accounts_ok db'" using accounts_ok_step [OF assms(1), of env "CreateUser now uid salt email pw"] assms(4) by simp
  show ?thesis using login_iff [OF ok mem, of email env token later pw'] e assms(5) u verify_hash [OF assms(2,3)] by simp
qed

lemma sample_email: "validate_email ''Cy@example.org'' = Inr ''cy@example.org''" by code_simp

lemma login_accepts_registered_password_witness:
  "\<exists>u db'. create_user sample_auth 1 ''cy'' [7] ''Cy@example.org'' ''correct horse battery'' sample_accounts = (Inr u, db')
    \<and> (\<exists>a. login sample_auth 2 False ''cookie-c'' ''Cy@example.org'' ''correct horse battery'' (Some db') = (Inr (u, ''cookie-c''), a))"
proof -
  obtain u db' where c: "create_user sample_auth 1 ''cy'' [7] ''Cy@example.org'' ''correct horse battery'' sample_accounts = (Inr u, db')"
      and s: "ad_sessions db' = ad_sessions sample_accounts"
    using sample_email
    by (simp add: create_user_def validate_password_def MIN_PASSWORD_LENGTH_def find_email_def sample_accounts_def Let_def)
  have "\<exists>a. login sample_auth 2 False ''cookie-c'' ''Cy@example.org'' ''correct horse battery'' (Some db') = (Inr (u, ''cookie-c''), a)"
  proof (subst login_accepts_registered_password [OF _ _ _ c])
    show "accounts_ok sample_accounts" by (simp add: accounts_ok_def sample_accounts_def)
    show "digest_ok sample_auth" by (auto simp: digest_ok_def sample_auth_def)
    show "map_of (ad_sessions db') (ae_sha256 sample_auth ''cookie-c'') = None"
      unfolding s by (simp add: sample_auth_def sample_accounts_def)
  qed simp_all
  then show ?thesis using c by blast
qed

text \<open>
  C28. From evidence to groups: two workloads are told to move together exactly when a chain of calls in
  both directions connects them, each call shown by an observed flow that counts as evidence.
\<close>

theorem together_iff_mutual_calls:
  assumes "x \<noteq> y"
  shows "grouped (dr_together (analyze_dependencies pr flows vms ws m ig)) x y \<longleftrightarrow>
    (x, y) \<in> {(a, b). calls flows vms m ig a b \<and> calls flows vms m ig b a}\<^sup>*"
proof -
  have "dr_together (analyze_dependencies pr flows vms ws m ig) =
      mutual_groups (dr_dependencies (analyze_dependencies pr flows vms ws m ig))"
    by (simp add: analyze_dependencies_def Let_def)
  then show ?thesis by (simp only: mutual_groups_iff [OF assms] depends_evidence)
qed

definition sample_ip_vm :: "string \<Rightarrow> string \<Rightarrow> vm" where
  "sample_ip_vm n ip = (sample_vm n 2 4)\<lparr>vm_ips := [ip]\<rparr>"

definition sample_flow :: "string \<Rightarrow> string \<Rightarrow> int \<Rightarrow> flow" where
  "sample_flow a b port = \<lparr>fl_src = a, fl_dst = b, fl_port = port, fl_connections = 9, fl_bytes = 0\<rparr>"

lemma together_iff_mutual_calls_witness:
  "\<not> grouped (dr_together (analyze_dependencies (\<lambda>a. True) [sample_flow ''10.0.0.1'' ''10.0.0.2'' 5432]
      [sample_ip_vm ''web'' ''10.0.0.1'', sample_ip_vm ''db'' ''10.0.0.2''] None MIN_CONNECTIONS None)) ''web'' ''db''"
proof -
  let ?vms = "[sample_ip_vm ''web'' ''10.0.0.1'', sample_ip_vm ''db'' ''10.0.0.2'']"
  have ix: "index_by_ip ?vms = [(''10.0.0.1'', ''web''), (''10.0.0.2'', ''db'')]" by code_simp
  have no: "\<not> calls [sample_flow ''10.0.0.1'' ''10.0.0.2'' 5432] ?vms MIN_CONNECTIONS None ''db'' b" for b
    by (simp add: calls_def ix evidence_def sample_flow_def)
  have "(''web'', ''db'') \<notin> {(a, b). calls [sample_flow ''10.0.0.1'' ''10.0.0.2'' 5432] ?vms MIN_CONNECTIONS None a b
      \<and> calls [sample_flow ''10.0.0.1'' ''10.0.0.2'' 5432] ?vms MIN_CONNECTIONS None b a}\<^sup>*"
    using no by (auto elim: rtranclE)
  then show ?thesis using together_iff_mutual_calls [of "''web''" "''db''"] by simp
qed

text \<open>
  Wave order against evidence: for a plan whose workloads have distinct names, an observed dependency
  is reported as a violation exactly when its source has the smaller wave key (environment rank, tier depth).
\<close>

theorem wave_violation_iff:
  assumes "distinct (map c_vm_name (plan_compute p))"
    and "c \<in> set (plan_compute p)" and "c' \<in> set (plan_compute p)"
  shows "violated deps (plan_waves p) (c_vm_name c) (c_vm_name c') \<longleftrightarrow>
    depends deps (c_vm_name c) (c_vm_name c') \<and> wave_key c < wave_key c'"
  by (rule violated_plan [OF assms])

definition sample_dep :: "string \<Rightarrow> string \<Rightarrow> dependency" where
  "sample_dep s t = \<lparr>dp_source = s, dp_target = t, dp_ports = [443], dp_connections = 9\<rparr>"

lemma wave_violation_iff_witness:
  "violated [sample_dep ''dev-db'' ''prod-db''] (plan_waves (plan_with [sample_compute ''dev-db'' DEVELOPMENT, sample_compute ''prod-db'' PRODUCTION]))
     (c_vm_name (sample_compute ''dev-db'' DEVELOPMENT)) (c_vm_name (sample_compute ''prod-db'' PRODUCTION))"
proof (subst wave_violation_iff)
  let ?p = "plan_with [sample_compute ''dev-db'' DEVELOPMENT, sample_compute ''prod-db'' PRODUCTION]"
  show "distinct (map c_vm_name (plan_compute ?p))" by (simp add: plan_with_def sample_compute_def compute_plan_for_def sample_vm_def Let_def)
  show "sample_compute ''dev-db'' DEVELOPMENT \<in> set (plan_compute ?p)"
    "sample_compute ''prod-db'' PRODUCTION \<in> set (plan_compute ?p)" by (simp_all add: plan_with_def)
  show "depends [sample_dep ''dev-db'' ''prod-db''] (c_vm_name (sample_compute ''dev-db'' DEVELOPMENT))
      (c_vm_name (sample_compute ''prod-db'' PRODUCTION))
    \<and> wave_key (sample_compute ''dev-db'' DEVELOPMENT) < wave_key (sample_compute ''prod-db'' PRODUCTION)"
    by (simp add: depends_def sample_dep_def sample_compute_def wave_key_def compute_plan_for_def sample_vm_def Let_def)
qed

text \<open>
  C24. The recommendation can be acted on: a ranked cloud counts as eligible exactly when the rule engine's
  plan for it boots no machine with another operating-system family; if any ranked cloud is eligible, the
  recommended one is, and no eligible cloud scores higher.
\<close>

theorem recommended_cloud_hosts_estate:
  assumes "recommend cfg mx prov vms ts ws st = Inr (r, st')" and "s \<in> set (rc_ranked r)"
    and "get_target (cs_cloud s) = Inr t"
    and "build_migration_plan cfg vms project t region (rule_engine tu t) source live zone st1 = Inr (plan, st2)"
  shows "(cs_eligible s \<longleftrightarrow> list_all (\<lambda>c. \<not> c_os_family_changed c) (plan_compute plan))
    \<and> rc_recommended r = cs_cloud (hd (rc_ranked r))
    \<and> (cs_eligible s \<longrightarrow> cs_eligible (hd (rc_ranked r)) \<and> cs_weighted s \<le> cs_weighted (hd (rc_ranked r)))"
proof -
  have "cs_eligible s = (unsupported_count t vms = 0)" using ranked_score [OF assms(1,2)] assms(3) by auto
  then show ?thesis using rule_plan_os [OF assms(4)] ranked_names(3) [OF assms(1)] ranked_names(4) [OF assms(1,2)] by simp
qed

text \<open>
  With the rule engine there is a recommendation exactly when the inventory is within the limit, every
  requested target is registered and one of them is not an on-premises hypervisor. (Asking only for those
  reaches \<open>min\<close> of an empty sequence.)
\<close>

theorem recommend_succeeds_iff:
  "(\<exists>r st'. recommend cfg mx (rule_engine tu) vms ts ws st = Inr (r, st')) \<longleftrightarrow>
     length vms \<le> mx \<and> list_all (\<lambda>n. \<exists>t. get_target n = Inr t) (requested ts)
     \<and> \<not> set (requested ts) \<subseteq> {''nutanix'', ''proxmox''}"
  unfolding list_all_iff by (rule recommend_Inr_iff)

lemma recommended_cloud_hosts_estate_witness:
  "\<exists>r st' plan st2. recommend sample_cfg 20000 (rule_engine 0.65) sample_estate (Some [''aws'']) None fresh_pricing = Inr (r, st')
    \<and> build_migration_plan sample_cfg sample_estate ''acme'' AWS None (rule_engine 0.65 AWS) ''vmware'' False None fresh_pricing
        = Inr (plan, st2)
    \<and> cs_eligible (hd (rc_ranked r)) = list_all (\<lambda>c. \<not> c_os_family_changed c) (plan_compute plan)"
proof -
  have "get_target ''aws'' = Inr AWS" by (rule get_target_aws)
  then have "\<exists>r st'. recommend sample_cfg 20000 (rule_engine 0.65) sample_estate (Some [''aws'']) None fresh_pricing = Inr (r, st')"
    unfolding recommend_Inr_iff by (simp add: requested_def sample_estate_def)
  then obtain r st' where r: "recommend sample_cfg 20000 (rule_engine 0.65) sample_estate (Some [''aws'']) None fresh_pricing = Inr (r, st')"
    by blast
  obtain plan st2 where b: "build_migration_plan sample_cfg sample_estate ''acme'' AWS None (rule_engine 0.65 AWS) ''vmware'' False None fresh_pricing
        = Inr (plan, st2)"
    by (rule build_migration_plan_total [OF get_target_cloud [OF get_target_aws] rule_engine_total [OF get_target_cloud [OF get_target_aws]]
        zone_fits_default [OF get_target_aws]])
  have h: "hd (rc_ranked r) \<in> set (rc_ranked r)" using ranked_names(2) [OF r] by simp
  have "cs_cloud (hd (rc_ranked r)) \<in> {''aws''}"
    using ranked_names(1) [OF r] h by (auto simp: requested_def)
  then have "get_target (cs_cloud (hd (rc_ranked r))) = Inr AWS" using get_target_aws by simp
  from recommended_cloud_hosts_estate [OF r h this b] r b show ?thesis by blast
qed

text \<open>
  C21. The one choke point against injection: whatever text an inventory holds, the sanitized identifier has no
  brace, quote, backslash or control character and no \<open>$(\<close>, is stripped and not empty, and sanitizing
  it again changes nothing.
\<close>

theorem sanitizer_safe_and_stable:
  "harmless (sanitize_identifier v) \<and> \<not> contains ''$('' (sanitize_identifier v)
     \<and> CHR ''{'' \<notin> set (sanitize_identifier v) \<and> CHR 0x22 \<notin> set (sanitize_identifier v)
     \<and> strip (sanitize_identifier v) = sanitize_identifier v \<and> sanitize_identifier v \<noteq> []
     \<and> sanitize_identifier (sanitize_identifier v) = sanitize_identifier v"
proof -
  have c: "clean_name (sanitize_identifier v)" by (rule sanitize_clean)
  then have "harmless (sanitize_identifier v)" "sanitize_identifier v \<noteq> []" by (simp_all add: clean_name_def)
  then show ?thesis
    using harmless_no_call harmless_no_brace clean_strip [OF c] sanitize_id [OF c] by blast
qed

text \<open>
  C22. The narrow waist: a normalised inventory satisfies the constraints of the data model, every text that
  reaches generated code is in the sanitizer's normal form, machine names are pairwise distinct, and there is
  one machine for each identity (UUID, or name without one) of a named row.
\<close>

theorem normalized_inventory:
  assumes "normalize env recs = Inr vms"
  shows "distinct (map vm_name vms) \<and> distinct (map identity vms)
    \<and> set (map identity vms) = identity ` set (named_rows env recs)
    \<and> list_all (\<lambda>v. vm_ok v \<and> list_all clean_name (texts v)) vms"
  using normalize_facts [OF assms] by (simp add: list_all_iff Normalize.row_ok_def)

definition sample_py :: py_env where
  "sample_py = \<lparr>py_float = (\<lambda>s. if all_digits s then Some (Fin (of_nat (nat_of_str s))) else None), py_str = (\<lambda>v. [])\<rparr>"

definition sample_raw :: "string \<Rightarrow> string \<Rightarrow> raw_record" where
  "sample_raw n u = [(''name'', RText n), (''cpus'', RText ''4''), (''memory_mib'', RText ''8192''), (''uuid'', RText u)]"

lemma sample_names: "safe_str sample_py (RText ''app01'') = Some ''app01''"
  "safe_str sample_py (RText ''42aa'') = Some ''42aa''" "safe_str sample_py (RText ''42bb'') = Some ''42bb''"
  by (rule safe_str_id, simp add: clean_name_def harmless_def unsafe_char_def no_call_def no_run_def dash_def dash_or_blank_def is_space_def)+

lemma sample_memory: "memory_gib sample_py (sample_raw n u) = 8"
proof -
  have "to_float sample_py (RText ''8192'') = Some 8192"
    by (simp add: to_float_def float_of_def sample_py_def all_digits_def is_digit_def nat_of_str_def digit_val_def)
  then show ?thesis by (simp add: memory_gib_def sample_raw_def field_def mib_to_gib_def MIB_PER_GIB_def round_dp_def round_even_def Let_def)
qed

lemma normalized_inventory_witness:
  "\<exists>vms. normalize sample_py [sample_raw ''app01'' ''42aa'', sample_raw ''app01'' ''42bb''] = Inr vms
    \<and> distinct (map vm_name vms) \<and> card (set (map identity vms)) = 2"
proof -
  let ?recs = "[sample_raw ''app01'' ''42aa'', sample_raw ''app01'' ''42bb'']"
  let ?A = "row_vm sample_py (sample_raw ''app01'' ''42aa'') ''app01''" and ?B = "row_vm sample_py (sample_raw ''app01'' ''42bb'') ''app01''"
  have n: "named_rows sample_py ?recs = [?A, ?B]"
    using sample_names by (simp add: named_rows_def List.map_filter_def sample_raw_def field_def)
  have "vm_memory ?A = 8" "vm_memory ?B = 8" by (simp_all add: row_vm_def sample_memory)
  then have "\<nexists>e. normalize sample_py ?recs = Inl e" unfolding normalize_error n by simp
  then obtain vms where v: "normalize sample_py ?recs = Inr vms" by (cases "normalize sample_py ?recs") auto
  have "identity ?A \<noteq> identity ?B"
    using sample_names by (simp add: identity_def row_vm_def sample_raw_def field_def lower_char_def char_class_defs)
  then have "card (identity ` set (named_rows sample_py ?recs)) = 2" unfolding n by simp
  then show ?thesis using normalized_inventory [OF v] v by auto
qed


text \<open>
  The readiness score of an assessment is between 25 and 100, and 100 exactly for an inventory without a
  finding; the operating-system and power counts add up to the inventory.
\<close>

theorem assessment_score_bounds:
  "25 \<le> rd_score (as_readiness (assess vms p s)) \<and> rd_score (as_readiness (assess vms p s)) \<le> 100
    \<and> (rd_score (as_readiness (assess vms p s)) = 100 \<longleftrightarrow> as_findings (assess vms p s) = [])
    \<and> int (as_windows (assess vms p s)) + as_linux (assess vms p s) + int (as_unknown_os (assess vms p s)) = int (length vms)
    \<and> 0 \<le> as_linux (assess vms p s) \<and> as_powered_on (assess vms p s) + as_powered_off (assess vms p s) = length vms"
  using assess_score assess_counts by blast




text \<open>
  The way back is exact: when the names sent are distinct, whatever the remote model answers, the groups the
  caller gets hold every machine of the inventory exactly once, under its real name, and nothing else.
\<close>

theorem deidentified_classification_partitions:
  assumes "distinct (sent_names vms)" and "distinct (map vm_name vms)"
  shows "distinct (group_names (p_classify (deidentifying_provider (anthropic ca ra tu t)) vms))
    \<and> set (group_names (p_classify (deidentifying_provider (anthropic ca ra tu t)) vms)) = vm_name ` set vms"
  using wrapped_partitions [OF assms, of ca ra tu t] by (simp add: partitions_def)

lemma deidentified_classification_partitions_witness:
  "sent_names [named ''acme-db01'', named ''acme-web'', named ''zeta''] = [''w1-db01'', ''w1-web'', ''w2'']
    \<and> set (group_names (p_classify (deidentifying_provider (anthropic
          (\<lambda>ms. Some [\<lparr>wg_name = ''w1'', wg_environment = TEST, wg_members = [(''w1-web'', WEB), (''w7'', APP), (''w1-db01'', DATABASE)]\<rparr>])
          (\<lambda>v tr env. None) 0.65 AWS)) [named ''acme-db01'', named ''acme-web'', named ''zeta'']))
        = {''acme-db01'', ''acme-web'', ''zeta''}"
proof -
  have s: "sent_names [named ''acme-db01'', named ''acme-web'', named ''zeta''] = [''w1-db01'', ''w1-web'', ''w2'']"
    by code_simp
  then have "distinct (sent_names [named ''acme-db01'', named ''acme-web'', named ''zeta''])" by simp
  from deidentified_classification_partitions [OF this]
  show ?thesis unfolding s by (simp add: named_def)
qed

text \<open>
  C30. Who gets a session by single sign-on: the state was issued at most ten minutes ago and is used up, PyJWT
  accepted the token for this client, issuer and an asymmetric algorithm, the token carries the nonce of that
  attempt and an address that the provider verified (unless waived), and the session is that of the account
  with this address.
\<close>

theorem sso_session_sound:
  assumes "sso_callback aenv env (Some cfg) now blocked uid salt pw token auth_code state err accts s = (Inr (u, cookie), accts', s')"
  shows "\<exists>p tok key claims raw. map_of (ss_logins s) state = Some p \<and> now - pl_created_at p \<le> 600
    \<and> state \<notin> set (keys (ss_logins s'))
    \<and> oe_decode env tok key ALLOWED_ALGORITHMS (oc_client_id cfg) (oc_issuer cfg) LEEWAY_SECONDS = Some claims
    \<and> py_text env (get claims ''nonce'') = pl_nonce p
    \<and> (oc_trust_unverified_email cfg \<or> get claims ''email_verified'' = JBool True)
    \<and> get claims ''email'' = JStr raw \<and> us_email u = lower (strip raw)"
proof -
  obtain subject email where i: "sso_identity env cfg now auth_code state s = (Inr (subject, email), s')"
    and e: "us_email u = lower (strip email)"
    using sso_callback_okD [OF assms] by blast
  obtain p tok key claims where p: "map_of (ss_logins s) state = Some p" "now - pl_created_at p \<le> STATE_TTL_SECONDS"
    "oe_decode env tok key ALLOWED_ALGORITHMS (oc_client_id cfg) (oc_issuer cfg) LEEWAY_SECONDS = Some claims"
    "py_text env (get claims ''nonce'') = pl_nonce p" "identity_from_claims env cfg claims = Inr (subject, email)"
    "ss_logins s' = snd (consume_login STATE_TTL_SECONDS now state (ss_logins s))"
    by (rule sso_identity_okD [OF i])
  from identity_okD [OF p(5)] obtain raw where raw: "get claims ''email'' = JStr raw" "email = lower (strip raw)"
    and v: "oc_trust_unverified_email cfg \<or> get claims ''email_verified'' = JBool True" by blast
  have "state \<notin> set (keys (ss_logins s'))" unfolding p(6) by (rule consumed_state)
  moreover have "us_email u = lower (strip raw)" using e raw(2) lower_strip_idem by simp
  ultimately show ?thesis using p(1-4) raw(1) v by (auto simp: STATE_TTL_SECONDS_def)
qed

definition sample_claims :: document where
  "sample_claims = [(''nonce'', JStr ''n1''), (''email'', JStr '' Ada@Example.org''), (''email_verified'', JBool True), (''sub'', JStr ''7'')]"

definition sample_provider :: "document \<Rightarrow> oidc_env" where
  "sample_provider doc =
     \<lparr>oe_insecure = False, oe_get = (\<lambda>url. Some doc), oe_post = (\<lambda>url body. Some [(''id_token'', JStr ''t'')]),
      oe_signing_key = (\<lambda>uri tok. Some ''k''), oe_decode = (\<lambda>tok key algs aud iss leeway. Some sample_claims),
      oe_sha256 = (\<lambda>s. [1, 2, 3]), oe_str = (\<lambda>v. ''?'')\<rparr>"

definition sample_endpoints :: document where
  "sample_endpoints = [(''issuer'', JStr ''https://id.example.org/''), (''token_endpoint'', JStr ''https://id.example.org/t''),
     (''jwks_uri'', JStr ''https://id.example.org/k''), (''authorization_endpoint'', JStr ''https://id.example.org/a'')]"

definition sample_oidc :: oidc_config where
  "sample_oidc = \<lparr>oc_issuer = ''https://id.example.org'', oc_client_id = ''c'', oc_client_secret = ''s'',
     oc_redirect_uri = ''https://app.example.org/cb'', oc_scopes = [''openid'', ''email''], oc_trust_unverified_email = False\<rparr>"

definition sample_sso :: sso where
  "sample_sso = \<lparr>ss_logins = [(''st'', \<lparr>pl_state = ''st'', pl_nonce = ''n1'', pl_verifier = ''v'', pl_created_at = 5, pl_redirect_to = None\<rparr>)],
     ss_metadata = sample_endpoints\<rparr>"

lemma sample_callback:
  "\<exists>a s'. sso_callback sample_auth (sample_provider sample_endpoints) (Some sample_oidc) 100 False ''new'' [1] ''unused-password''
      ''cookie'' ''code'' ''st'' [] (Some sample_accounts) sample_sso
     = (Inr (\<lparr>us_id = ''ada'', us_email = ''ada@example.org'', us_created_at = 0\<rparr>, ''cookie''), a, s')"
proof -
  have e: "lower (strip '' Ada@Example.org'') = ''ada@example.org''" by code_simp
  have v: "validate_email ''ada@example.org'' = Inr ''ada@example.org''" by code_simp
  have i: "\<exists>s'. sso_identity (sample_provider sample_endpoints) sample_oidc 100 ''code'' ''st'' sample_sso = (Inr (''7'', ''ada@example.org''), s')"
    using e by (simp add: sso_identity_def consume_login_def sample_sso_def STATE_TTL_SECONDS_def exchange_code_def metadata_def
      sample_endpoints_def get_def truthy_def sample_provider_def verify_id_token_def py_text_def identity_from_claims_def
      sample_claims_def sample_oidc_def Let_def)
  then show ?thesis using v
    by (auto simp: sso_callback_def get_user_by_email_def find_email_def sample_accounts_def user_of_def sign_in_def
      create_session_def sample_auth_def Let_def)
qed

lemma sso_session_sound_witness:
  "get sample_claims ''email_verified'' = JBool True
    \<and> (\<exists>s'. snd (snd (sso_callback sample_auth (sample_provider sample_endpoints) (Some sample_oidc) 100 False ''new'' [1]
      ''unused-password'' ''cookie'' ''code'' ''st'' [] (Some sample_accounts) sample_sso)) = s' \<and> ''st'' \<notin> set (keys (ss_logins s')))"
proof -
  obtain a s' where c: "sso_callback sample_auth (sample_provider sample_endpoints) (Some sample_oidc) 100 False ''new'' [1]
      ''unused-password'' ''cookie'' ''code'' ''st'' [] (Some sample_accounts) sample_sso
     = (Inr (\<lparr>us_id = ''ada'', us_email = ''ada@example.org'', us_created_at = 0\<rparr>, ''cookie''), a, s')"
    using sample_callback by blast
  obtain p tok key claims where k: "''st'' \<notin> set (keys (ss_logins s'))"
    "oe_decode (sample_provider sample_endpoints) tok key ALLOWED_ALGORITHMS (oc_client_id sample_oidc) (oc_issuer sample_oidc) LEEWAY_SECONDS = Some claims"
    "oc_trust_unverified_email sample_oidc \<or> get claims ''email_verified'' = JBool True"
    using sso_session_sound [OF c] by blast
  have "claims = sample_claims" using k(2) by (simp add: sample_provider_def)
  moreover have "\<not> oc_trust_unverified_email sample_oidc" by (simp add: sample_oidc_def)
  ultimately show ?thesis using k(1,3) unfolding c by simp
qed

text \<open>
  A callback cannot be replayed: once a state gave a session it gives none again, whatever attempts are
  begun and finished in between, unless the same state is drawn anew.
\<close>

theorem sso_state_single_use:
  assumes "fst (sso_callback aenv env (Some cfg) now blocked uid salt pw token auth_code state err accts s) = Inr (u, cookie)"
    and "list_all (\<lambda>x. \<not> draws state x) ops"
    and "ss_logins s2 = login_run env ops (ss_logins (snd (snd (sso_callback aenv env (Some cfg) now blocked uid salt pw token auth_code state err accts s))))"
  shows "\<nexists>r. fst (sso_callback aenv2 env2 cfg2 later blocked2 uid2 salt2 pw2 token2 auth_code2 state err2 accts2 s2) = Inr r"
proof -
  obtain a s' where c: "sso_callback aenv env (Some cfg) now blocked uid salt pw token auth_code state err accts s = (Inr (u, cookie), a, s')"
    using assms(1) by (metis prod.collapse)
  obtain subject email where i: "sso_identity env cfg now auth_code state s = (Inr (subject, email), s')"
    using sso_callback_okD [OF c] by blast
  have "ss_logins s' = snd (consume_login STATE_TTL_SECONDS now state (ss_logins s))"
    using sso_identity_logins [of env cfg now auth_code state s] i by simp
  then have "state \<notin> set (keys (ss_logins s'))" by (simp only: consumed_state not_False_eq_True)
  then have "state \<notin> set (keys (ss_logins s2))" using run_no_state [OF _ assms(2)] assms(3) c by simp
  from sso_callback_unknown_state [OF this] show ?thesis by (metis prod.collapse)
qed

lemma sso_state_single_use_witness:
  "\<nexists>r. fst (sso_callback sample_auth (sample_provider sample_endpoints) (Some sample_oidc) 101 False ''new'' [1] ''unused-password''
      ''cookie2'' ''code'' ''st'' [] (Some sample_accounts)
      (snd (snd (sso_callback sample_auth (sample_provider sample_endpoints) (Some sample_oidc) 100 False ''new'' [1]
        ''unused-password'' ''cookie'' ''code'' ''st'' [] (Some sample_accounts) sample_sso)))) = Inr r"
proof -
  obtain u where f: "fst (sso_callback sample_auth (sample_provider sample_endpoints) (Some sample_oidc) 100 False ''new'' [1]
      ''unused-password'' ''cookie'' ''code'' ''st'' [] (Some sample_accounts) sample_sso) = Inr (u, ''cookie'')"
    using sample_callback by (metis fst_conv)
  show ?thesis by (rule sso_state_single_use [OF f, of "[]"]) (simp_all add: login_run_def)
qed

text \<open>
  The issuer of the discovery document is compared once: after a document that declares another issuer has
  been refused, the next sign-in sends the browser to the endpoint that document names.
\<close>

theorem issuer_compared_once:
  assumes "oe_get env (rstrip_slash (oc_issuer cfg) @ ''/.well-known/openid-configuration'') = Some doc"
    and "starts_with ''https://'' (lower (rstrip_slash (oc_issuer cfg) @ ''/.well-known/openid-configuration''))"
    and "get doc ''issuer'' = JStr d" and "d \<noteq> []" and "rstrip_slash d \<noteq> rstrip_slash (oc_issuer cfg)"
    and "get doc ''authorization_endpoint'' = JStr e" and "e \<noteq> []" and "accts \<noteq> None"
  shows "\<exists>s1 url s2. sso_login env (Some cfg) now False st1 n1 b1 accts \<lparr>ss_logins = logins, ss_metadata = []\<rparr> = (Inl (Http 502), s1)
    \<and> sso_login env (Some cfg) later False st2 n2 b2 accts s1 = (Inr (e @ ''?'' @ url), s2)"
  by (rule sso_login_mismatch [OF assms])

lemma issuer_compared_once_witness:
  "\<exists>s1 url s2. sso_login (sample_provider [(''issuer'', JStr ''https://evil''), (''authorization_endpoint'', JStr ''https://evil/a'')])
        (Some sample_oidc) 0 False ''s1'' ''n1'' [] (Some sample_accounts) \<lparr>ss_logins = [], ss_metadata = []\<rparr> = (Inl (Http 502), s1)
    \<and> sso_login (sample_provider [(''issuer'', JStr ''https://evil''), (''authorization_endpoint'', JStr ''https://evil/a'')])
        (Some sample_oidc) 1 False ''s2'' ''n2'' [] (Some sample_accounts) s1 = (Inr (''https://evil/a'' @ ''?'' @ url), s2)"
proof (rule issuer_compared_once [where d = "''https://evil''"])
  show "starts_with ''https://'' (lower (rstrip_slash (oc_issuer sample_oidc) @ ''/.well-known/openid-configuration''))"
    "rstrip_slash ''https://evil'' \<noteq> rstrip_slash (oc_issuer sample_oidc)"
    by (simp_all add: sample_oidc_def rstrip_slash_def lower_char_def is_ascii_upper_def)
  show "get [(''issuer'', JStr ''https://evil''), (''authorization_endpoint'', JStr ''https://evil/a'')] ''issuer'' = JStr ''https://evil''"
    "get [(''issuer'', JStr ''https://evil''), (''authorization_endpoint'', JStr ''https://evil/a'')] ''authorization_endpoint''
       = JStr ''https://evil/a''"
    by code_simp+
qed (simp_all add: sample_provider_def)

text \<open>
  The audit trail, over every sequence of events: for a positive limit both stores answer the last events of
  the project within the capacity, newest first, so the table implements the ring.
\<close>

theorem audit_reads_last_events:
  assumes "0 < limit"
  shows "ring_recent pid limit (foldl (\<lambda>a e. ring_on_event e a) (new_ring n) es)
      = take (nat limit) (of_project pid (rev (last_n n (map audit_event_of es))))
    \<and> table_recent pid limit (foldl (\<lambda>a e. table_on_event e a) (new_table n) es)
      = take (nat limit) (of_project pid (rev (last_n n (map audit_event_of es))))"
  using ring.recent_of_run [of n "new_ring n" limit pid es] table.recent_of_run [of n "new_table n" limit pid es] assms by simp

lemma audit_reads_last_events_witness:
  "length (table_recent None 2 (foldl (\<lambda>a e. table_on_event e a) (new_table 3)
      (map (\<lambda>i. job_event JOB_QUEUED i ''p'' ''j'' []) [1, 2, 3, 4, 5]))) = 2"
  using audit_reads_last_events [of 2 None 3 "map (\<lambda>i. job_event JOB_QUEUED i ''p'' ''j'' []) [1, 2, 3, 4, 5]"]
  by (simp add: last_n_def of_project_def)

text \<open>
  C31. Tenants do not read each other's trail: whatever project and limit a user asks \<open>GET /audit\<close> for, every
  event in the answer is of a project the user may view or owns, in both stores and after any events.
\<close>

theorem audit_tenant_isolation:
  assumes "get_audit so mo recent pid limit (Some u) s m = Inr answer"
    and "recent = (\<lambda>p l. ring_recent p l (foldl (\<lambda>a e. ring_on_event e a) (new_ring n) es))
       \<or> recent = (\<lambda>p l. table_recent p l (foldl (\<lambda>a e. table_on_event e a) (new_table n) es))"
    and "e \<in> set answer"
  shows "\<exists>p. ae_project_id e = Some p
    \<and> ((\<exists>x. require_project so mo p (Some u) VIEWER s m = Inr x) \<or> p \<in> pj_id ` set (so_list_for_owner so (Some u) s))"
proof -
  have "ring_ok n (foldl (\<lambda>a e. ring_on_event e a) (new_ring n) es)" "audit_rows_ok n (foldl (\<lambda>a e. table_on_event e a) (new_table n) es)"
    using ring.run_trail [of n "new_ring n" es] table.run_trail [of n "new_table n" es] by simp_all
  note ok = this
  from assms(2) show ?thesis
  proof
    assume r: "recent = (\<lambda>p l. ring_recent p l (foldl (\<lambda>a e. ring_on_event e a) (new_ring n) es))"
    show ?thesis using ring.get_audit_scoped [OF ok(1) assms(1) [unfolded r] assms(3)] by blast
  next
    assume r: "recent = (\<lambda>p l. table_recent p l (foldl (\<lambda>a e. table_on_event e a) (new_table n) es))"
    show ?thesis using table.get_audit_scoped [OF ok(2) assms(1) [unfolded r] assms(3)] by blast
  qed
qed

definition sample_events :: "event list" where
  "sample_events = [job_event JOB_QUEUED 1 ''p1'' ''j1'' [], job_event JOB_QUEUED 2 ''p2'' ''j2'' []]"

lemma audit_tenant_isolation_witness:
  "\<exists>e. get_audit MEM_STORE MEM_MEMBERS (\<lambda>p l. ring_recent p l (foldl (\<lambda>a e. ring_on_event e a) (new_ring 9) sample_events))
      None 5 (Some ''olga'') \<lparr>ms_max = 200, ms_projects = [(''p1'', sample_project)]\<rparr> [] = Inr [e]
    \<and> ae_project_id e = Some ''p1''"
proof -
  let ?r = "\<lambda>p l. ring_recent p l (foldl (\<lambda>a e. ring_on_event e a) (new_ring 9) sample_events)"
  let ?s = "\<lparr>ms_max = 200, ms_projects = [(''p1'', sample_project)]\<rparr>"
  have g: "get_audit MEM_STORE MEM_MEMBERS ?r None 5 (Some ''olga'') ?s [] = Inr [audit_event_of (job_event JOB_QUEUED 1 ''p1'' ''j1'' [])]"
    by (simp add: get_audit_def MEM_STORE_def mem_list_for_owner_def ring_recent_def py_last_def of_project_def new_ring_def ring_on_event_def
      sample_events_def audit_event_of_def job_event_def)
  from audit_tenant_isolation [OF g, of 9 sample_events] have "\<exists>p. ae_project_id (audit_event_of (job_event JOB_QUEUED 1 ''p1'' ''j1'' [])) = Some p" by auto
  then show ?thesis using g by (simp add: audit_event_of_def job_event_def)
qed

text \<open>
  Hybrid connectivity: every private address a migrated workload was seen to call is in a network of the
  plan, with its ports and its caller; the network is reported as a conflict exactly when it shares an address
  with the planned range, so an address inside that range is always reported.
\<close>

theorem hybrid_covers_observed:
  assumes "ex \<in> set (dr_external report)" and "ex_private ex" and "parse_addr (ex_address ex) = Some x"
    and "ip_network True vpc = Some v"
  shows "\<exists>net n. net \<in> set (hy_networks (plan_hybrid report vpc declared)) \<and> on_cidr net = str_of_net n
    \<and> in_net x n \<and> nw_plen n = 24 \<and> ex_address ex \<in> set (on_addresses net) \<and> set (ex_ports ex) \<subseteq> set (on_ports net)
    \<and> ex_source ex \<in> set (on_workloads net)
    \<and> (net \<in> set (conflicts (plan_hybrid report vpc declared)) \<longleftrightarrow> net_range n \<inter> net_range v \<noteq> {})
    \<and> (in_net x v \<longrightarrow> net \<in> set (conflicts (plan_hybrid report vpc declared)))"
proof -
  obtain net n where net: "net \<in> set (hy_networks (plan_hybrid report vpc declared))" "on_cidr net = str_of_net n" "net_ok n"
    "in_net x n" "nw_plen n = 24" "ex_address ex \<in> set (on_addresses net)" "set (ex_ports ex) \<subseteq> set (on_ports net)"
    "ex_source ex \<in> set (on_workloads net)" "on_overlaps_vpc net = cidrs_overlap (str_of_net n) vpc"
    by (rule private_address_network [OF assms(1-3)])
  have c: "net \<in> set (conflicts (plan_hybrid report vpc declared)) \<longleftrightarrow> net_range n \<inter> net_range v \<noteq> {}"
    using net(1,9) cidrs_overlap_iff [OF net(3) assms(4)] by (simp add: conflicts_def)
  moreover have "in_net x v \<Longrightarrow> x \<in> net_range n \<inter> net_range v" using net(4) by (simp add: in_net_def net_range_def)
  ultimately show ?thesis using net by blast
qed

definition sample_report :: dependency_report where
  "sample_report = \<lparr>dr_dependencies = [], dr_external = [\<lparr>ex_source = ''web-01'', ex_address = ''10.0.5.11'', ex_ports = [1521],
      ex_connections = 40, ex_private = True\<rparr>], dr_violations = [], dr_together = [], dr_mapped = 1, dr_unmapped = 0, dr_filtered = 0\<rparr>"

lemma hybrid_covers_observed_witness:
  "conflicts (plan_hybrid sample_report ''10.0.0.0/16'' None) \<noteq> []"
proof -
  have v: "ip_network True ''10.0.0.0/16'' = Some (mk_net 167772160 16)" by (rule default_range)
  have a: "parse_addr ''10.0.5.11'' = Some 167773451"
    by (simp add: parse_addr_def parse_octet_def all_digits_def is_digit_def nat_of_str_def digit_val_def)
  have "in_net 167773451 (mk_net 167772160 16)" by (simp add: in_net_def mk_net_def broadcast_def block_def)
  then show ?thesis
    using hybrid_covers_observed [of "hd (dr_external sample_report)" sample_report 167773451 "''10.0.0.0/16''" "mk_net 167772160 16" None] v a
    by (auto simp: sample_report_def)
qed











text \<open>
  C36. Every plan has a CloudFormation template: each reference in it, to a resource, an attribute or a dependency, is to an
  entry of the template, and when no two machines share an identifier every machine is in it with its instance
  type. The renderer refuses every other cloud.
\<close>

theorem cloudformation_template_closed:
  assumes "get_target n = Inr t"
  shows "if n = ''aws''
    then \<exists>tpl. build_template (build_graph plan) plan = Some tpl \<and> template_closed tpl \<and> build_cloudformation plan t = Inr (template_json tpl)
      \<and> (distinct (map (\<lambda>c. instance_cid (c_vm_name c)) (plan_compute plan))
          \<longrightarrow> list_all (\<lambda>c. \<exists>v. map_of (ct_resources tpl) (instance_cid (c_vm_name c)) = Some v
                \<and> entry_of c (instance_cid (c_vm_name c), v)) (plan_compute plan))
    else build_cloudformation plan t = Inl CfnNotSupported"
proof (cases "n = ''aws''")
  case True
  then have a: "t_name t = ''aws''" using get_target_name [OF assms(1)] by simp
  obtain tpl where tpl: "build_template (build_graph plan) plan = Some tpl" "template_of_plan plan tpl" using template_rendered by blast
  have "build_cloudformation plan t = Inr (template_json tpl)" by (simp add: build_cloudformation_def a tpl(1))
  then show ?thesis using tpl unfolding if_P [OF True] template_of_plan_def list_all_iff by blast
next
  case False
  then show ?thesis using get_target_name [OF assms(1)] by (simp add: build_cloudformation_def)
qed

lemma cloudformation_template_closed_witness:
  "\<exists>plan st' tpl. build_migration_plan sample_cfg sample_estate ''acme'' AWS None nonsense_provider ''vmware'' False None fresh_pricing
        = Inr (plan, st')
      \<and> template_closed tpl \<and> build_cloudformation plan AWS = Inr (template_json tpl)"
proof -
  obtain plan st' where b: "build_migration_plan sample_cfg sample_estate ''acme'' AWS None nonsense_provider ''vmware'' False None
      fresh_pricing = Inr (plan, st')" by (rule nonsense_builds)
  then show ?thesis using cloudformation_template_closed [OF get_target_aws, of plan] by (simp only: if_P refl) blast
qed







text \<open>
  C40. In an RVTools workbook a machine whose identifier has disks in vDisk gets exactly those disks, in their order,
  whatever other machines share its name.
\<close>

theorem rvtools_disks_by_identifier:
  assumes "rvtools_parse env m f = Inr recs" and "read_sheets m f = Inr sh" and "map_of sh ''vinfo'' = Some fr" and "map_of sh ''vdisk'' = Some dk"
    and "find_column dk [''VM''] \<noteq> None" and "find_column dk [''Capacity MiB'', ''Capacity'', ''Capacity MB''] = Some cc"
    and "rec \<in> set recs" and "field rec ''uuid'' = RText u"
    and "own = List.map_filter (\<lambda>row. case stripped_text env (row_cell row (find_column dk UUID_COLUMNS)) of
        Some v \<Rightarrow> if lower v = lower u then float_of env (row_cell row (Some cc)) else None | None \<Rightarrow> None) (fr_rows dk)"
    and "own \<noteq> []"
  shows "field rec ''disks_mib'' = RItems (map RNum own)"
  using assms by (rule rvtools_own_disks)

definition sample_vinfo :: frame where
  "sample_vinfo = \<lparr>fr_columns = [''VM'', ''VM UUID''], fr_rows = [[(''VM'', RText ''web''), (''VM UUID'', RText ''42AA'')], [(''VM'', RText ''web''), (''VM UUID'', RText ''42BB'')]]\<rparr>"

definition sample_vdisk :: frame where
  "sample_vdisk = \<lparr>fr_columns = [''VM'', ''VM UUID'', ''Capacity MiB''],
     fr_rows = [[(''VM'', RText ''web''), (''VM UUID'', RText ''42bb''), (''Capacity MiB'', RNum (Fin 200))],
                [(''VM'', RText ''web''), (''VM UUID'', RText ''42aa''), (''Capacity MiB'', RNum (Fin 100))]]\<rparr>"

definition sample_workbook :: source_file where
  "sample_workbook = \<lparr>sf_path = ''rv.xlsx'', sf_csv = None, sf_sheets = Some [(''vInfo'', sample_vinfo), (''vDisk'', sample_vdisk)], sf_json = None\<rparr>"

lemma sample_sheets: "read_sheets 10 sample_workbook = Inr [(''vinfo'', sample_vinfo), (''vdisk'', sample_vdisk)]"
  by code_simp

lemma sample_rvtools: "map_sum id (map (\<lambda>r. field r ''uuid'')) (rvtools_parse sample_py 10 sample_workbook) = Inr [RText ''42AA'', RText ''42BB'']"
proof -
  have c: "find_column sample_vinfo [''VM'', ''VM Name'', ''Name''] = Some ''VM''" "find_column sample_vinfo UUID_COLUMNS = Some ''VM UUID''" by code_simp+
  have st: "strip ''web'' = ''web''" "strip ''42AA'' = ''42AA''" "strip ''42BB'' = ''42BB''" by code_simp+
  have f: "field (rvtools_record sample_py sample_vinfo d n row name) ''uuid''
      = (case stripped_text sample_py (row_cell row (Some ''VM UUID'')) of Some u \<Rightarrow> RText u | None \<Rightarrow> RNone)" for d n row name
    by (simp add: rvtools_record_def Let_def field_def c)
  define a b :: raw_record where "a = [(''VM'', RText ''web''), (''VM UUID'', RText ''42AA'')]" and "b = [(''VM'', RText ''web''), (''VM UUID'', RText ''42BB'')]"
  have rows: "fr_rows sample_vinfo = [a, b]" by (simp add: sample_vinfo_def a_def b_def)
  have n: "row_name sample_py a (Some ''VM'') = Some ''web''" "row_name sample_py b (Some ''VM'') = Some ''web''"
    by (simp_all add: a_def b_def row_name_def row_cell_def field_def Let_def st str_value_def)
  have u: "stripped_text sample_py (row_cell a (Some ''VM UUID'')) = Some ''42AA''" "stripped_text sample_py (row_cell b (Some ''VM UUID'')) = Some ''42BB''"
    by (simp_all add: a_def b_def stripped_text_def row_cell_def field_def Let_def st str_value_def)
  show ?thesis unfolding rvtools_parse_def sample_sheets by (simp add: c rows_with_def List.map_filter_def rows n f u)
qed

lemma sample_vdisk_columns: "find_column sample_vdisk [''VM''] \<noteq> None" "find_column sample_vdisk [''Capacity MiB'', ''Capacity'', ''Capacity MB''] = Some ''Capacity MiB''"
  by code_simp+

lemma sample_own: "List.map_filter (\<lambda>row. case stripped_text sample_py (row_cell row (find_column sample_vdisk UUID_COLUMNS)) of
        Some v \<Rightarrow> if lower v = lower ''42AA'' then float_of sample_py (row_cell row (Some ''Capacity MiB'')) else None | None \<Rightarrow> None) (fr_rows sample_vdisk) = [Fin 100]"
  by code_simp

lemma rvtools_disks_by_identifier_witness:
  "\<exists>recs rec. rvtools_parse sample_py 10 sample_workbook = Inr recs \<and> rec \<in> set recs \<and> field rec ''uuid'' = RText ''42AA''
    \<and> field rec ''disks_mib'' = RItems [RNum (Fin 100)]"
proof -
  obtain recs where r: "rvtools_parse sample_py 10 sample_workbook = Inr recs" "map (\<lambda>r. field r ''uuid'') recs = [RText ''42AA'', RText ''42BB'']"
    using sample_rvtools by (cases "rvtools_parse sample_py 10 sample_workbook") auto
  then obtain rec others where "recs = rec # others" "field rec ''uuid'' = RText ''42AA''" by (cases recs) auto
  then have rec: "rec \<in> set recs" "field rec ''uuid'' = RText ''42AA''" by simp_all
  have "field rec ''disks_mib'' = RItems (map RNum [Fin 100])"
    by (rule rvtools_disks_by_identifier [OF r(1) sample_sheets _ _ sample_vdisk_columns rec sample_own [symmetric]]) simp_all
  then show ?thesis using r(1) rec by auto
qed






end
